(* ===== verification/Prelude.thy ===== *)
theory Prelude
  imports Main "HOL-Library.Word" "HOL-Library.Char_ord" "HOL-Library.Multiset"
begin

text \<open>
  Shared vocabulary of the development: the machine-integer types of \<^verbatim>\<open>src/src/types.h\<close>
  (\<^verbatim>\<open>uint64\<close>, \<^verbatim>\<open>uint32\<close>, \<dots>) as words, the error values that stand for the exceptions and
  failed assertions of the C++ code, the fact collections the component theories extend, and
  generic lemmas on words, lists and association lists that several components use.
\<close>

unbundle bit_operations_syntax

type_synonym u8 = "8 word"
type_synonym u16 = "16 word"
type_synonym u32 = "32 word"
type_synonym u64 = "64 word"

text \<open>
  Exceptions and aborts of the code. \<^verbatim>\<open>std::invalid_argument\<close>, \<^verbatim>\<open>std::runtime_error\<close>,
  \<^verbatim>\<open>std::length_error\<close>, \<^verbatim>\<open>std::out_of_range\<close> and the bare \<^verbatim>\<open>std::exception\<close> keep their
  class; a failed \<^verbatim>\<open>assert\<close> and \<^verbatim>\<open>exit(EXIT_FAILURE)\<close> are values too. The message texts are
  diagnostics and are kept only where the code distinguishes errors by them.
\<close>

datatype cxx_error =
    Invalid_argument string
  | Runtime_error string
  | Length_error
  | Out_of_range
  | Std_exception
  | Assert_failed
  | Exit_failure

type_synonym 'a result = "cxx_error + 'a"

text \<open>Sequencing of fallible operations: an error ends the computation, as an exception does.\<close>

definition rbind :: "'a result \<Rightarrow> ('a \<Rightarrow> 'b result) \<Rightarrow> 'b result" where
  "rbind m f = (case m of Inl e \<Rightarrow> Inl e | Inr x \<Rightarrow> f x)"

fun rfold :: "('x \<Rightarrow> 'a \<Rightarrow> 'a result) \<Rightarrow> 'x list \<Rightarrow> 'a \<Rightarrow> 'a result" where
  "rfold f [] a = Inr a"
| "rfold f (x # xs) a = rbind (f x a) (rfold f xs)"

lemma rbind_simps [simp]: "rbind (Inl e) f = Inl e" "rbind (Inr x) f = f x"
  by (simp_all add: rbind_def)

lemma rbind_InrE [elim!]:
  assumes "rbind m f = Inr y" obtains x where "m = Inr x" "f x = Inr y"
  using assms by (cases m) simp_all

lemma rbind_assoc: "rbind (rbind m f) g = rbind m (\<lambda>x. rbind (f x) g)"
  by (cases m) simp_all

lemma rfold_append: "rfold f (xs @ ys) a = rbind (rfold f xs a) (rfold f ys)"
  by (induction xs arbitrary: a) (simp_all add: rbind_def split: sum.split)

text \<open>An invariant every step of a fallible loop keeps holds at its end.\<close>

lemma rfold_invariant:
  assumes "rfold f xs a = Inr b" and "I a" and "\<And>x a b. x \<in> set xs \<Longrightarrow> I a \<Longrightarrow> f x a = Inr b \<Longrightarrow> I b"
  shows "I b"
  using assms by (induction xs arbitrary: a) auto

named_theorems word_eval \<open>rewriting of word operations to arithmetic on nat\<close>
named_theorems bits_simps \<open>bit-level characterisations of the register helpers\<close>

subsection \<open>Words\<close>

lemma unat_exp [word_eval]: "k < LENGTH('a) \<Longrightarrow> unat ((2 :: 'a::len word) ^ k) = 2 ^ k"
  using unat_of_nat [of "2 ^ k", where ?'a = 'a] by (simp add: take_bit_eq_mod)

lemma unat_push_1 [word_eval]:
  "k < LENGTH('a) \<Longrightarrow> unat (push_bit k (1 :: 'a::len word)) = 2 ^ k"
  by (simp add: push_bit_eq_mult unat_exp)

lemma mask_word_eq: "push_bit k (1 :: 'a::len word) - 1 = mask k"
  by (simp add: mask_eq_exp_minus_1 push_bit_eq_mult)

lemma unat_less_2p64 [simp]: "unat (x :: u64) < 18446744073709551616"
  using unsigned_less [of x, where ?'a = nat] by simp

lemma unat_less_2p32 [simp]: "unat (x :: u32) < 4294967296"
  using unsigned_less [of x, where ?'a = nat] by simp

lemma unat_plus_no_overflow:
  "unat a + unat b < 2 ^ LENGTH('a) \<Longrightarrow> unat (a + b :: 'a::len word) = unat a + unat b"
  by (rule unat_add_lem [THEN iffD1])

lemma unat_minus_ge:
  "b \<le> a \<Longrightarrow> unat (a - b :: 'a::len word) = unat a - unat b"
  by (rule unat_sub)

subsection \<open>Lists\<close>

lemma takeWhile_append_stop:
  "(\<forall>x \<in> set xs. P x) \<Longrightarrow> \<not> P y \<Longrightarrow> takeWhile P (xs @ y # ys) = xs"
  by (simp add: takeWhile_append)

lemma dropWhile_append_stop:
  "(\<forall>x \<in> set xs. P x) \<Longrightarrow> \<not> P y \<Longrightarrow> dropWhile P (xs @ y # ys) = y # ys"
  by (simp add: dropWhile_append)

lemma length_dropWhile_less:
  "dropWhile P xs = y # ys \<Longrightarrow> length ys < length xs"
  using length_dropWhile_le [of P xs] by simp

lemma takeWhile_delim [simp]: "d \<notin> set t \<Longrightarrow> takeWhile (\<lambda>c. c \<noteq> d) (t @ d # r) = t"
  by (induction t) auto

lemma dropWhile_delim [simp]: "d \<notin> set t \<Longrightarrow> dropWhile (\<lambda>c. c \<noteq> d) (t @ d # r) = d # r"
  by (induction t) auto

lemma takeWhile_no_delim [simp]: "d \<notin> set t \<Longrightarrow> takeWhile (\<lambda>c. c \<noteq> d) t = t"
  by (induction t) auto

lemma dropWhile_no_delim [simp]: "d \<notin> set t \<Longrightarrow> dropWhile (\<lambda>c. c \<noteq> d) t = []"
  by (induction t) auto

lemma mset_concat_map_update:
  "i < length xs \<Longrightarrow>
     mset (concat (map f (xs[i := y]))) + mset (f (xs ! i)) = mset (concat (map f xs)) + mset (f y)"
  by (induction xs arbitrary: i) (auto split: nat.splits simp: ac_simps)

lemma set_list_updateD: "x \<in> set (xs[i := e]) \<Longrightarrow> x = e \<or> x \<in> set xs"
  using set_update_subset_insert [of xs i e] by blast

text \<open>Clearing the lowest bit of a number.\<close>

lemma clear_lowest_unat: "n \<noteq> 0 \<Longrightarrow> unat (n AND (n - 1)) = unat n AND (unat n - 1)" for n :: "'a::len word"
  by (simp add: unsigned_and_eq unat_minus_one)

lemma nat_and_le: "(a :: nat) AND b \<le> b"
  by (metis AND_upper2 and_nat_def linorder_not_less nat_eq_iff2 nat_le_iff of_nat_and_eq of_nat_0_le_iff of_nat_le_iff)

lemma clear_lowest_less: "n \<noteq> 0 \<Longrightarrow> unat (n AND (n - 1)) < unat n" for n :: "'a::len word"
  using nat_and_le [of "unat n" "unat n - 1"] by (simp add: clear_lowest_unat unat_gt_0 le_less_trans)

lemma bit_odd_nat: "bit (Suc (2 * k)) i \<longleftrightarrow> i = 0 \<or> (0 < i \<and> bit k (i - 1))"
  by (cases i) (simp_all add: bit_Suc bit_0)

lemma bits_even: "{i. bit (2 * k :: nat) i} = Suc ` {i. bit k i}"
  by (auto simp: bit_double_iff image_iff) (metis Suc_pred)

lemma bits_odd: "{i. bit (Suc (2 * k)) i} = insert 0 (Suc ` {i. bit k i})"
  by (auto simp: bit_odd_nat image_iff) (metis Suc_pred)

lemma clear_odd: "Suc (2 * k) AND (2 * k) = 2 * (k :: nat)"
  by (rule bit_eqI) (auto simp: bit_and_iff bit_odd_nat bit_double_iff)

lemma clear_even: "0 < k \<Longrightarrow> 2 * k AND (2 * k - 1) = 2 * (k AND (k - 1) :: nat)"
proof -
  assume "0 < k"
  then have "2 * k - 1 = Suc (2 * (k - 1))" by simp
  then show ?thesis by (intro bit_eqI) (auto simp: bit_and_iff bit_odd_nat bit_double_iff)
qed

lemma card_clear: "0 < (n :: nat) \<Longrightarrow> Suc (card {i. bit (n AND (n - 1)) i}) = card {i. bit n i} \<and> finite {i. bit n i}"
proof (induction n rule: less_induct)
  case (less n)
  show ?case
  proof (cases "even n")
    case True
    then obtain k where n: "n = 2 * k" by blast
    with less.prems less.IH [of k] show ?thesis by (simp add: clear_even [unfolded One_nat_def] bits_even card_image)
  next
    case False
    then obtain k where n: "n = Suc (2 * k)" by (auto elim: oddE)
    have "finite {i. bit k i}" using less.IH [of k] n by (cases "k = 0") auto
    then show ?thesis by (simp add: n clear_odd bits_odd bits_even card_image)
  qed
qed

end
