(* ===== verification/Bits.thy ===== *)
theory Bits
  imports Prelude
begin

text \<open>
  Bit-range and register helpers of \<^verbatim>\<open>src/src/types.h\<close> and \<^verbatim>\<open>src/src/utils.h\<close>:
  \<^verbatim>\<open>build_bit\<close>, \<^verbatim>\<open>extract_bits\<close> (32 and 64 bit), \<^verbatim>\<open>insertBits\<close>, the 4K rounding helpers, the
  \<^verbatim>\<open>checked_uint64\<close> difference arithmetic, the two-halves union \<^verbatim>\<open>cvt_ds\<close>, and the bit-field
  unions of the event-select registers. A bit-field struct is a list of (field, width) pairs in
  declaration order; the offset of a field is the sum of the widths before it, which is how the
  supported compilers lay the struct out on little-endian x86. Bit positions are the
  \<^verbatim>\<open>uint32\<close> values of the code; a shift by the word size or more, which C++ leaves undefined, is
  never reached under the stated bounds.
\<close>

section \<open>Bit ranges\<close>

definition build_bit_ui :: "u32 \<Rightarrow> u32 \<Rightarrow> u32" where
  "build_bit_ui beg end0 =
     (let end1 = (if end0 > 31 then 31 else end0) in
      if beg > 31 then 0
      else let myll = (if end1 = 31 then - 1 else push_bit (unat (end1 + 1)) 1 - 1)
           in drop_bit (unat beg) myll)"

definition extract_bits_32 :: "u32 \<Rightarrow> u32 \<Rightarrow> u32 \<Rightarrow> u32" where
  "extract_bits_32 myin beg end0 =
     (let (beg1, end1) = (if beg \<le> end0 then (beg, end0) else (end0, beg))
      in drop_bit (unat beg1) myin AND build_bit_ui beg1 end1)"

definition build_bit :: "u32 \<Rightarrow> u32 \<Rightarrow> u64" where
  "build_bit beg end0 =
     (let end1 = (if end0 > 63 then 63 else end0);
          myll = (if end1 = 63 then - 1 else push_bit (unat (end1 + 1)) 1 - 1)
      in drop_bit (unat beg) myll)"

definition extract_bits :: "u64 \<Rightarrow> u32 \<Rightarrow> u32 \<Rightarrow> u64" where
  "extract_bits myin beg end0 =
     (let (beg1, end1) = (if beg \<le> end0 then (beg, end0) else (end0, beg))
      in drop_bit (unat beg1) myin AND build_bit beg1 end1)"

definition extract_bits_64 :: "u64 \<Rightarrow> u32 \<Rightarrow> u32 \<Rightarrow> u64" where
  "extract_bits_64 myin beg end0 = extract_bits myin beg end0"

definition insertBits :: "u64 \<Rightarrow> u64 \<Rightarrow> nat \<Rightarrow> nat \<Rightarrow> u64" where
  "insertBits input value position width =
     (let msk = (if width = 64 then NOT 0 else push_bit width 1 - 1);
          input1 = input AND NOT (push_bit position msk)
      in input1 OR push_bit position (value AND msk))"

section \<open>Page rounding\<close>

definition roundDownTo4K :: "u64 \<Rightarrow> u64" where
  "roundDownTo4K number = number AND NOT 0xFFF"

definition roundUpTo4K :: "u64 \<Rightarrow> u64" where
  "roundUpTo4K number =
     (if number mod 4096 = 0 then number else (number div 4096 + 1) * 4096)"

section \<open>Counter differences that know about overflows\<close>

record checked_uint64 =
  cu_data :: u64
  cu_overflows :: u64

definition checked_default :: checked_uint64 where
  "checked_default = \<lparr>cu_data = 0, cu_overflows = 0\<rparr>"

definition checked_add :: "checked_uint64 \<Rightarrow> checked_uint64 \<Rightarrow> checked_uint64" where
  "checked_add a b = \<lparr>cu_data = cu_data a + cu_data b,
                      cu_overflows = cu_overflows a + cu_overflows b\<rparr>"

definition checked_minus :: "checked_uint64 \<Rightarrow> checked_uint64 \<Rightarrow> u64" where
  "checked_minus a b = cu_data a + cu_overflows a * push_bit 48 1 - cu_data b"

section \<open>The cvt_ds union\<close>

definition cvt_ds_low :: "u64 \<Rightarrow> u32" where
  "cvt_ds_low v = ucast v"

definition cvt_ds_high :: "u64 \<Rightarrow> u32" where
  "cvt_ds_high v = ucast (drop_bit 32 v)"

definition cvt_ds_join :: "u32 \<Rightarrow> u32 \<Rightarrow> u64" where
  "cvt_ds_join low high = ucast low OR push_bit 32 (ucast high)"

section \<open>Bit-field registers\<close>

type_synonym layout = "(string \<times> nat) list"

fun field_off :: "layout \<Rightarrow> string \<Rightarrow> nat" where
  "field_off [] f = 0"
| "field_off ((g, w) # l) f = (if g = f then 0 else w + field_off l f)"

fun field_width :: "layout \<Rightarrow> string \<Rightarrow> nat" where
  "field_width [] f = 0"
| "field_width ((g, w) # l) f = (if g = f then w else field_width l f)"

definition layout_size :: "layout \<Rightarrow> nat" where
  "layout_size l = sum_list (map snd l)"

definition get_field :: "layout \<Rightarrow> string \<Rightarrow> u64 \<Rightarrow> u64" where
  "get_field l f v = take_bit (field_width l f) (drop_bit (field_off l f) v)"

definition set_field :: "layout \<Rightarrow> string \<Rightarrow> u64 \<Rightarrow> u64 \<Rightarrow> u64" where
  "set_field l f x v = insertBits v x (field_off l f) (field_width l f)"

definition EventSelectRegister :: layout where
  "EventSelectRegister =
     [(''event_select'', 8), (''umask'', 8), (''usr'', 1), (''os'', 1), (''edge'', 1),
      (''pin_control'', 1), (''apic_int'', 1), (''any_thread'', 1), (''enable'', 1),
      (''invert'', 1), (''cmask'', 8), (''in_tx'', 1), (''in_txcp'', 1), (''reservedX'', 30)]"

definition FixedEventControlRegister :: layout where
  "FixedEventControlRegister =
     [(''os0'', 1), (''usr0'', 1), (''any_thread0'', 1), (''enable_pmi0'', 1),
      (''os1'', 1), (''usr1'', 1), (''any_thread1'', 1), (''enable_pmi1'', 1),
      (''os2'', 1), (''usr2'', 1), (''any_thread2'', 1), (''enable_pmi2'', 1),
      (''os3'', 1), (''usr3'', 1), (''any_thread3'', 1), (''enable_pmi3'', 1),
      (''reserved1'', 48)]"

definition UncoreEventSelectRegister :: layout where
  "UncoreEventSelectRegister =
     [(''event_select'', 8), (''umask'', 8), (''reserved1'', 1), (''occ_ctr_rst'', 1),
      (''edge'', 1), (''reserved2'', 1), (''enable_pmi'', 1), (''reserved3'', 1),
      (''enable'', 1), (''invert'', 1), (''cmask'', 8), (''reservedx'', 32)]"

definition BecktonUncorePMUZDPCTLFVCRegister :: layout where
  "BecktonUncorePMUZDPCTLFVCRegister =
     [(''fvid'', 5), (''bcmd'', 3), (''resp'', 3), (''evnt0'', 3), (''evnt1'', 3),
      (''evnt2'', 3), (''evnt3'', 3), (''pbox_init_err'', 1)]"

definition BecktonUncorePMUZDPCTLFVCRegister_wsm :: layout where
  "BecktonUncorePMUZDPCTLFVCRegister_wsm =
     [(''fvid'', 6), (''bcmd'', 3), (''resp'', 3), (''evnt0'', 3), (''evnt1'', 3),
      (''evnt2'', 3), (''evnt3'', 3), (''pbox_init_err'', 1)]"

definition BecktonUncorePMUCNTCTLRegister :: layout where
  "BecktonUncorePMUCNTCTLRegister =
     [(''en'', 1), (''pmi_en'', 1), (''count_mode'', 2), (''storage_mode'', 2),
      (''wrap_mode'', 1), (''flag_mode'', 1), (''rsv1'', 1), (''inc_sel'', 5),
      (''rsv2'', 5), (''set_flag_sel'', 3)]"

definition IIOPMUCNTCTLRegister :: layout where
  "IIOPMUCNTCTLRegister =
     [(''event_select'', 8), (''umask'', 8), (''reserved1'', 1), (''reset'', 1),
      (''edge_det'', 1), (''ignored'', 1), (''overflow_enable'', 1), (''reserved2'', 1),
      (''enable'', 1), (''invert'', 1), (''thresh'', 12), (''ch_mask'', 8), (''fc_mask'', 3),
      (''reservedX'', 17)]"

definition ICX_IIOPMUCNTCTLRegister :: layout where
  "ICX_IIOPMUCNTCTLRegister =
     [(''event_select'', 8), (''umask'', 8), (''reserved1'', 1), (''reset'', 1),
      (''edge_det'', 1), (''ignored'', 1), (''overflow_enable'', 1), (''reserved2'', 1),
      (''enable'', 1), (''invert'', 1), (''thresh'', 12), (''ch_mask'', 12), (''fc_mask'', 3),
      (''reservedX'', 13)]"

lemmas register_layout_defs =
  EventSelectRegister_def FixedEventControlRegister_def UncoreEventSelectRegister_def
  BecktonUncorePMUZDPCTLFVCRegister_def BecktonUncorePMUZDPCTLFVCRegister_wsm_def
  BecktonUncorePMUCNTCTLRegister_def IIOPMUCNTCTLRegister_def ICX_IIOPMUCNTCTLRegister_def

section \<open>Properties of the bit-range helpers\<close>

lemma mask_64: "mask 64 = (- 1 :: u64)"
  by (simp add: mask_eq_exp_minus_1)

lemma mask_32: "mask 32 = (- 1 :: u32)"
  by (simp add: mask_eq_exp_minus_1)

lemma build_bit_mask:
  assumes "unat hi \<le> 63"
  shows "build_bit lo hi = drop_bit (unat lo) (mask (Suc (unat hi)))"
proof -
  have le: "\<not> hi > 63" using assms by (simp add: word_less_nat_alt)
  show ?thesis
  proof (cases "hi = 63")
    case True
    then show ?thesis by (simp add: build_bit_def mask_64 del: drop_bit_minus_one)
  next
    case False
    have "unat (hi + 1) = Suc (unat hi)"
      using assms by (subst unat_plus_no_overflow) simp_all
    with False le show ?thesis by (simp add: build_bit_def mask_eq_exp_minus_1)
  qed
qed

lemma build_bit_ui_mask:
  assumes "unat hi \<le> 31" and "lo \<le> hi"
  shows "build_bit_ui lo hi = drop_bit (unat lo) (mask (Suc (unat hi)))"
proof -
  have le: "\<not> hi > 31" "\<not> lo > 31"
    using assms by (simp_all add: word_less_nat_alt word_le_nat_alt)
  show ?thesis
  proof (cases "hi = 31")
    case True
    with le show ?thesis by (simp add: build_bit_ui_def mask_32 del: drop_bit_minus_one)
  next
    case False
    have "unat (hi + 1) = Suc (unat hi)"
      using assms by (subst unat_plus_no_overflow) simp_all
    with False le show ?thesis by (simp add: build_bit_ui_def mask_eq_exp_minus_1)
  qed
qed

lemma drop_mask_and:
  "drop_bit n x AND drop_bit n (mask (Suc m)) = take_bit (Suc m - n) (drop_bit n (x :: 'a::len word))"
  by (rule bit_word_eqI) (auto simp: bit_simps dest: bit_imp_le_length)

lemma extract_bits_ordered [bits_simps]:
  assumes "lo \<le> hi" and "unat hi \<le> 63"
  shows "extract_bits x lo hi = take_bit (Suc (unat hi) - unat lo) (drop_bit (unat lo) x)"
  using assms by (simp add: extract_bits_def build_bit_mask drop_mask_and)

lemma extract_bits_32_ordered [bits_simps]:
  assumes "lo \<le> hi" and "unat hi \<le> 31"
  shows "extract_bits_32 x lo hi = take_bit (Suc (unat hi) - unat lo) (drop_bit (unat lo) x)"
  using assms by (simp add: extract_bits_32_def build_bit_ui_mask drop_mask_and)

lemma extract_bits_swap: "extract_bits x lo hi = extract_bits x hi lo"
  by (cases "lo = hi") (auto simp: extract_bits_def)

lemma extract_bits_32_swap: "extract_bits_32 x lo hi = extract_bits_32 x hi lo"
  by (cases "lo = hi") (auto simp: extract_bits_32_def)

lemma bit_insertBits [bits_simps]:
  assumes "p + w \<le> 64"
  shows "bit (insertBits x v p w) n \<longleftrightarrow>
     (if p \<le> n \<and> n < p + w then bit v (n - p) else bit x n)"
proof -
  have m: "(if w = 64 then NOT 0 else push_bit w 1 - 1) = (mask w :: u64)"
    by (simp add: mask_word_eq mask_eq_exp_minus_1)
  show ?thesis
    using assms unfolding insertBits_def Let_def m
    by (auto simp: bit_simps dest: bit_imp_le_length)
qed

lemma unat_take_drop:
  "unat (take_bit k (drop_bit n x)) = (unat x div 2 ^ n) mod 2 ^ k" for x :: "'a::len word"
  by (simp only: unsigned_take_bit_eq unat_drop_bit_eq) (simp add: take_bit_eq_mod drop_bit_eq_div)

section \<open>Register fields as an interface\<close>

text \<open>
  What the PMU programming code relies on when it assigns bit-fields: a field reads back what was
  written to it, truncated to its width, and no other field changes.
\<close>

locale register_fields =
  fixes get :: "'f \<Rightarrow> 'v \<Rightarrow> u64"
    and put :: "'f \<Rightarrow> u64 \<Rightarrow> 'v \<Rightarrow> 'v"
    and has :: "'f \<Rightarrow> bool"
    and wid :: "'f \<Rightarrow> nat"
  assumes get_put_same: "has f \<Longrightarrow> get f (put f x v) = take_bit (wid f) x"
    and get_put_other: "has f \<Longrightarrow> has g \<Longrightarrow> f \<noteq> g \<Longrightarrow> get g (put f x v) = get g v"
begin

definition program :: "('f \<times> u64) list \<Rightarrow> 'v \<Rightarrow> 'v" where
  "program ps v = fold (\<lambda>(f, x) r. put f x r) ps v"

lemma program_unassigned:
  "\<forall>p \<in> set ps. has (fst p) \<Longrightarrow> has f \<Longrightarrow> f \<notin> fst ` set ps \<Longrightarrow>
   get f (program ps v) = get f v"
  unfolding program_def
  by (induction ps arbitrary: v) (auto simp: get_put_other)

lemma program_last_wins:
  assumes "\<forall>p \<in> set (ps @ qs). has (fst p)" and "has f" and "f \<notin> fst ` set qs"
  shows "get f (program (ps @ (f, x) # qs) v) = take_bit (wid f) x"
proof -
  have "program (ps @ (f, x) # qs) v = program qs (put f x (program ps v))"
    by (simp add: program_def)
  with assms show ?thesis
    using program_unassigned [of qs f] by (simp add: get_put_same)
qed

lemma program_distinct:
  assumes "distinct (map fst ps)" and "\<forall>p \<in> set ps. has (fst p)" and "(f, x) \<in> set ps"
  shows "get f (program ps v) = take_bit (wid f) x"
proof -
  obtain qs rs where ps: "ps = qs @ (f, x) # rs" using assms(3) by (auto simp: in_set_conv_decomp)
  show ?thesis
    unfolding ps by (rule program_last_wins) (use assms(1,2) ps in auto)
qed

end

locale bitfield_layout =
  fixes L :: layout
  assumes fields_distinct: "distinct (map fst L)"
    and fits_word: "layout_size L \<le> 64"

lemma field_range_le_size:
  "f \<in> fst ` set l \<Longrightarrow> field_off l f + field_width l f \<le> layout_size l"
  by (induction l f rule: field_off.induct) (auto simp: layout_size_def)

lemma field_ranges_disjoint:
  assumes "f \<noteq> g" and "f \<in> fst ` set l" and "g \<in> fst ` set l"
  shows "field_off l f + field_width l f \<le> field_off l g \<or>
         field_off l g + field_width l g \<le> field_off l f"
proof -
  have "f \<in> set (map fst l)" "g \<in> set (map fst l)" using assms(2,3) by simp_all
  then show ?thesis using assms(1) by (induction l) (fastforce simp del: set_map)+
qed

lemma get_set_field_same:
  assumes "f \<in> fst ` set l" and "layout_size l \<le> 64"
  shows "get_field l f (set_field l f x v) = take_bit (field_width l f) x"
proof -
  have "field_off l f + field_width l f \<le> 64"
    using field_range_le_size [OF assms(1)] assms(2) by simp
  then show ?thesis
    by (intro bit_word_eqI) (auto simp: get_field_def set_field_def bit_simps bit_insertBits)
qed

lemma get_set_field_other:
  assumes "f \<in> fst ` set l" and "g \<in> fst ` set l" and "f \<noteq> g" and "layout_size l \<le> 64"
  shows "get_field l g (set_field l f x v) = get_field l g v"
proof -
  have "field_off l f + field_width l f \<le> 64"
    using field_range_le_size [OF assms(1)] assms(4) by simp
  with field_ranges_disjoint [OF assms(3,1,2)] show ?thesis
    by (intro bit_word_eqI) (auto simp: get_field_def set_field_def bit_simps bit_insertBits)
qed

sublocale bitfield_layout \<subseteq>
  register_fields "get_field L" "set_field L" "\<lambda>f. f \<in> fst ` set L" "field_width L"
  using fits_word by unfold_locales (auto intro: get_set_field_same get_set_field_other)

interpretation esr: bitfield_layout EventSelectRegister
  by unfold_locales (simp_all add: EventSelectRegister_def layout_size_def)

interpretation fecr: bitfield_layout FixedEventControlRegister
  by unfold_locales (simp_all add: FixedEventControlRegister_def layout_size_def)

interpretation uesr: bitfield_layout UncoreEventSelectRegister
  by unfold_locales (simp_all add: UncoreEventSelectRegister_def layout_size_def)

interpretation zdp: bitfield_layout BecktonUncorePMUZDPCTLFVCRegister
  by unfold_locales (simp_all add: BecktonUncorePMUZDPCTLFVCRegister_def layout_size_def)

interpretation zdpw: bitfield_layout BecktonUncorePMUZDPCTLFVCRegister_wsm
  by unfold_locales (simp_all add: BecktonUncorePMUZDPCTLFVCRegister_wsm_def layout_size_def)

interpretation cntctl: bitfield_layout BecktonUncorePMUCNTCTLRegister
  by unfold_locales (simp_all add: BecktonUncorePMUCNTCTLRegister_def layout_size_def)

interpretation iio: bitfield_layout IIOPMUCNTCTLRegister
  by unfold_locales (simp_all add: IIOPMUCNTCTLRegister_def layout_size_def)

interpretation icxiio: bitfield_layout ICX_IIOPMUCNTCTLRegister
  by unfold_locales (simp_all add: ICX_IIOPMUCNTCTLRegister_def layout_size_def)

section \<open>What the helpers compute\<close>

lemma extract_bits_value_aux:
  assumes "lo \<le> hi" and "unat hi \<le> 63"
  shows "unat (extract_bits x lo hi) = (unat x div 2 ^ unat lo) mod 2 ^ (Suc (unat hi) - unat lo)"
  using assms by (simp only: extract_bits_ordered unat_take_drop)

text \<open>\<^verbatim>\<open>extract_bits\<close> returns exactly the bits between its two positions, whichever order the
  caller passes them in: the value shifted right by the lower one, modulo two to the number of
  bits of the range.\<close>

lemma extract_bits_value:
  assumes "unat beg \<le> 63" and "unat end0 \<le> 63"
  shows "unat (extract_bits x beg end0) =
     (unat x div 2 ^ min (unat beg) (unat end0))
       mod 2 ^ (Suc (max (unat beg) (unat end0)) - min (unat beg) (unat end0))"
proof (cases "beg \<le> end0")
  case True
  then show ?thesis
    using extract_bits_value_aux [OF True assms(2), of x] by (simp add: word_le_nat_alt)
next
  case False
  then have "end0 \<le> beg" by simp
  then show ?thesis
    using extract_bits_value_aux [OF _ assms(1), of end0 x] extract_bits_swap [of x beg end0]
    by (simp add: word_le_nat_alt)
qed

text \<open>Writing a bit range with \<^verbatim>\<open>insertBits\<close> and reading it back with \<^verbatim>\<open>extract_bits\<close>
  returns the value truncated to the range, and no bit outside the range changes.\<close>

lemma insertBits_extract_bits:
  assumes "0 < w" and "p + w \<le> 64"
  shows "extract_bits (insertBits x v p w) (of_nat p) (of_nat (p + w - 1)) = take_bit w v \<and>
         (\<forall>n. n < p \<or> p + w \<le> n \<longrightarrow> bit (insertBits x v p w) n = bit x n)"
proof
  have p: "unat (of_nat p :: u32) = p" and q: "unat (of_nat (p + w - 1) :: u32) = p + w - 1"
    using assms by (simp_all only: unat_of_nat) (simp_all add: take_bit_eq_mod)
  have "extract_bits (insertBits x v p w) (of_nat p) (of_nat (p + w - 1)) =
        take_bit w (drop_bit p (insertBits x v p w))"
    using assms p q by (subst extract_bits_ordered) (simp_all add: word_le_nat_alt)
  also have "\<dots> = take_bit w v"
    using assms by (intro bit_word_eqI) (auto simp: bit_simps bit_insertBits)
  finally show "extract_bits (insertBits x v p w) (of_nat p) (of_nat (p + w - 1)) = take_bit w v" .
  show "\<forall>n. n < p \<or> p + w \<le> n \<longrightarrow> bit (insertBits x v p w) n = bit x n"
    using assms by (auto simp: bit_insertBits)
qed

lemma page_aligned_unat: "a mod 4096 = 0 \<longleftrightarrow> unat a mod 4096 = 0" for a :: u64
proof -
  have "a mod 4096 = 0 \<longleftrightarrow> unat (a mod 4096) = 0" by (rule unat_eq_zero [symmetric])
  also have "unat (a mod 4096) = unat a mod 4096" by (simp add: unat_mod_distrib)
  finally show ?thesis .
qed

lemma ceil_page:
  "(n + 4095) div 4096 = (if n mod 4096 = 0 then n div 4096 else n div 4096 + 1)" for n :: nat
proof -
  have "(n + 4095) div 4096 = (n mod 4096 + 4095 + n div 4096 * 4096) div 4096"
    using div_mult_mod_eq [of n 4096] by (simp add: algebra_simps)
  also have "\<dots> = n div 4096 + (n mod 4096 + 4095) div 4096"
    by (subst div_mult_self1) simp_all
  also have "(n mod 4096 + 4095) div 4096 = (if n mod 4096 = 0 then 0 else 1)"
    using mod_less_divisor [of 4096 n] by (auto intro: div_nat_eqI)
  finally show ?thesis by simp
qed

text \<open>The 4K helpers round to page boundaries: down to the greatest multiple of 4096 not
  above the address, up to the least multiple not below it; rounding up wraps to 0 exactly when
  that multiple does not fit 64 bits.\<close>

lemma round_4K:
  "unat (roundDownTo4K a) = unat a div 4096 * 4096 \<and>
   unat (roundUpTo4K a) = ((unat a + 4095) div 4096 * 4096) mod 2 ^ 64"
proof
  have "roundDownTo4K a = a AND NOT (mask 12)"
    by (simp add: roundDownTo4K_def mask_eq_exp_minus_1)
  also have "\<dots> = push_bit 12 (drop_bit 12 a)"
    by (rule bit_word_eqI) (auto simp: bit_simps simp del: mask_numeral)
  finally have "roundDownTo4K a = push_bit 12 (drop_bit 12 a)" .
  then have "roundDownTo4K a = (a div 4096) * 4096"
    by (simp add: push_bit_eq_mult drop_bit_eq_div)
  moreover have "unat a div 4096 * 4096 < 2 ^ 64"
    by (rule le_less_trans [OF div_times_less_eq_dividend]) simp
  ultimately show "unat (roundDownTo4K a) = unat a div 4096 * 4096"
    by (simp add: unat_word_ariths unat_div_distrib mod_mult_left_eq)
  show "unat (roundUpTo4K a) = ((unat a + 4095) div 4096 * 4096) mod 2 ^ 64"
  proof (cases "a mod 4096 = 0")
    case True
    then have "unat a mod 4096 = 0" by (simp add: page_aligned_unat)
    then have "(unat a + 4095) div 4096 * 4096 = unat a"
      by (simp add: ceil_page) (metis mod_0_imp_dvd dvd_div_mult_self)
    with True show ?thesis by (simp add: roundUpTo4K_def)
  next
    case False
    then have nz: "unat a mod 4096 \<noteq> 0" by (simp add: page_aligned_unat)
    have "unat ((a div 4096 + 1) * 4096) = ((unat a div 4096 + 1) * 4096) mod 2 ^ 64"
    proof -
      have "(a div 4096 + 1) * 4096 = of_nat ((unat a div 4096 + 1) * 4096)"
        by (simp add: word_arith_nat_defs(6))
      then show ?thesis by (simp only: unat_of_nat take_bit_eq_mod) simp
    qed
    moreover have "(unat a + 4095) div 4096 = unat a div 4096 + 1"
      using nz by (simp add: ceil_page)
    ultimately show ?thesis using False by (simp add: roundUpTo4K_def)
  qed
qed

text \<open>Differences of overflow-counting counters are exact. If a 48-bit hardware counter held
  \<open>t0 mod 2^48\<close> at the first snapshot and \<open>t1 mod 2^48\<close> at the second, and the second snapshot
  carries the number of wrap-arounds in between, \<^verbatim>\<open>operator-\<close> returns \<open>t1 - t0\<close> (modulo the 64 bits
  of its result), however often the counter wrapped.\<close>

lemma checked_minus_exact:
  assumes "t0 \<le> t1"
  shows "checked_minus \<lparr>cu_data = of_nat (t1 mod 2 ^ 48),
                       cu_overflows = of_nat (t1 div 2 ^ 48 - t0 div 2 ^ 48)\<rparr>
                      \<lparr>cu_data = of_nat (t0 mod 2 ^ 48), cu_overflows = o0\<rparr> = of_nat (t1 - t0)"
proof -
  define q where "q = t1 div 2 ^ 48 - t0 div 2 ^ 48"
  have "t0 div 2 ^ 48 \<le> t1 div 2 ^ 48" using assms by (rule div_le_mono)
  then have "t1 div 2 ^ 48 = t0 div 2 ^ 48 + q" by (simp add: q_def)
  then have "t1 = (t0 div 2 ^ 48 + q) * 2 ^ 48 + t1 mod 2 ^ 48"
    by (metis div_mult_mod_eq)
  then have "t1 mod 2 ^ 48 + q * 2 ^ 48 = (t1 - t0) + t0 mod 2 ^ 48"
    using assms div_mult_mod_eq [of t0 "2 ^ 48"] unfolding distrib_right by linarith
  then have "(of_nat (t1 mod 2 ^ 48 + q * 2 ^ 48) :: u64) = of_nat ((t1 - t0) + t0 mod 2 ^ 48)"
    by (rule arg_cong)
  then have "(of_nat (t1 mod 2 ^ 48) + of_nat q * 2 ^ 48 :: u64)
             = of_nat (t1 - t0) + of_nat (t0 mod 2 ^ 48)"
    by (simp only: of_nat_add of_nat_mult of_nat_power of_nat_numeral)
  then show ?thesis
    unfolding checked_minus_def q_def push_bit_eq_mult
    by (simp only: checked_uint64.simps mult_1_left diff_eq_eq)
qed

lemma checked_minus_add:
  "checked_minus (checked_add a c) (checked_add b d) = checked_minus a b + checked_minus c d"
  by (simp add: checked_minus_def checked_add_def algebra_simps)

lemma cvt_ds_roundtrip: "cvt_ds_join (cvt_ds_low v) (cvt_ds_high v) = v"
  by (rule bit_word_eqI)
    (auto simp: cvt_ds_join_def cvt_ds_low_def cvt_ds_high_def bit_simps)

lemma cvt_ds_low_join [simp]: "cvt_ds_low (cvt_ds_join l h) = l"
  by (rule bit_word_eqI) (auto simp: cvt_ds_join_def cvt_ds_low_def bit_simps)

lemma cvt_ds_high_join [simp]: "cvt_ds_high (cvt_ds_join l h) = h"
  by (rule bit_word_eqI)
    (auto simp: cvt_ds_join_def cvt_ds_high_def bit_simps dest: bit_imp_le_length)

end
