(* ===== verification/Istream.thy ===== *)
theory Istream
  imports Bits
begin

text \<open>
  The part of \<^verbatim>\<open>std::istringstream\<close> the parsers of PCM use, as a state-passing model: the unread
  characters, the \<^verbatim>\<open>failbit\<close> and \<^verbatim>\<open>eofbit\<close>, the \<^verbatim>\<open>skipws\<close> flag and the number base. Unsigned
  extraction follows the integer scanner of the C++ library: an optional sign, a \<^verbatim>\<open>0x\<close> prefix
  when the base is 16 or is detected, digits of the base, 0 and \<^verbatim>\<open>failbit\<close> when there is no digit,
  the maximum and \<^verbatim>\<open>failbit\<close> on overflow, modular negation after a minus sign.
  \<^verbatim>\<open>s_expect\<close>, \<^verbatim>\<open>match\<close>, \<^verbatim>\<open>read_number\<close>, \<^verbatim>\<open>split\<close>, \<^verbatim>\<open>parseBitsParameter\<close> of
  \<^verbatim>\<open>src/src/utils.h\<close> and \<^verbatim>\<open>src/src/utils.cpp\<close> are defined on top of it.
\<close>

section \<open>Characters and digits\<close>

definition is_space :: "char \<Rightarrow> bool" where
  "is_space c \<longleftrightarrow> of_char c \<in> {9 :: nat, 10, 11, 12, 13, 32}"

definition digit_val :: "char \<Rightarrow> nat option" where
  "digit_val c =
     (let n = of_char c :: nat in
      if 48 \<le> n \<and> n \<le> 57 then Some (n - 48)
      else if 97 \<le> n \<and> n \<le> 102 then Some (n - 87)
      else if 65 \<le> n \<and> n \<le> 70 then Some (n - 55)
      else None)"

definition is_digit_of :: "nat \<Rightarrow> char \<Rightarrow> bool" where
  "is_digit_of b c = (case digit_val c of None \<Rightarrow> False | Some d \<Rightarrow> d < b)"

definition digits_value :: "nat \<Rightarrow> string \<Rightarrow> nat" where
  "digits_value b ds = foldl (\<lambda>acc c. b * acc + the (digit_val c)) 0 ds"

section \<open>The stream\<close>

datatype numbase = Dec | Hex | Detect

record istream =
  is_buf :: string
  is_fail :: bool
  is_eof :: bool
  is_skipws :: bool
  is_base :: numbase

definition istringstream :: "string \<Rightarrow> istream" where
  "istringstream s = \<lparr>is_buf = s, is_fail = False, is_eof = False, is_skipws = True, is_base = Dec\<rparr>"

definition is_sentry :: "istream \<Rightarrow> bool \<times> istream" where
  "is_sentry st =
     (if is_fail st \<or> is_eof st then (False, st\<lparr>is_fail := True\<rparr>)
      else if is_skipws st then
        (let b = dropWhile is_space (is_buf st) in
         if b = [] then (False, st\<lparr>is_buf := [], is_fail := True, is_eof := True\<rparr>)
         else (True, st\<lparr>is_buf := b\<rparr>))
      else (True, st))"

definition num_sign :: "string \<Rightarrow> bool \<times> string" where
  "num_sign s =
     (case s of [] \<Rightarrow> (False, s)
      | c # r \<Rightarrow> if c = CHR ''-'' then (True, r) else if c = CHR ''+'' then (False, r) else (False, s))"

definition num_prefix :: "numbase \<Rightarrow> string \<Rightarrow> nat \<times> bool \<times> string" where
  "num_prefix nb s =
     (if s \<noteq> [] \<and> hd s = CHR ''0'' then
        (if nb = Dec then (10, True, tl s)
         else if tl s \<noteq> [] \<and> (hd (tl s) = CHR ''x'' \<or> hd (tl s) = CHR ''X'') then (16, False, tl (tl s))
         else (if nb = Hex then 16 else 8, True, tl s))
      else (if nb = Hex then 16 else 10, False, s))"

definition num_get :: "nat \<Rightarrow> numbase \<Rightarrow> string \<Rightarrow> nat \<times> bool \<times> string" where
  "num_get w nb s =
     (let (neg, s1) = num_sign s;
          (b, zero, s2) = num_prefix nb s1;
          ds = takeWhile (is_digit_of b) s2;
          rest = dropWhile (is_digit_of b) s2;
          v = digits_value b ds
      in if ds = [] \<and> \<not> zero then (0, True, rest)
         else if v \<ge> 2 ^ w then (2 ^ w - 1, True, rest)
         else (if neg then (2 ^ w - v) mod 2 ^ w else v, False, rest))"

definition is_read_unsigned :: "nat \<Rightarrow> istream \<Rightarrow> nat \<Rightarrow> nat \<times> istream" where
  "is_read_unsigned w st old =
     (case is_sentry st of
        (False, st') \<Rightarrow> (old, st')
      | (True, st') \<Rightarrow>
          (let (v, bad, rest) = num_get w (is_base st') (is_buf st')
           in (v, st'\<lparr>is_buf := rest, is_fail := bad, is_eof := (rest = [])\<rparr>)))"

definition is_get :: "nat \<Rightarrow> istream \<Rightarrow> string \<times> istream" where
  "is_get n st =
     (if is_fail st \<or> is_eof st then ([], st\<lparr>is_fail := True\<rparr>)
      else let got = takeWhile (\<lambda>c. c \<noteq> CHR 0x0A) (take n (is_buf st));
               rest = drop (length got) (is_buf st)
           in (got, st\<lparr>is_buf := rest, is_fail := (got = []), is_eof := (rest = [])\<rparr>))"

definition is_getline :: "char \<Rightarrow> istream \<Rightarrow> (string \<times> istream) option" where
  "is_getline d st =
     (if is_fail st \<or> is_eof st \<or> is_buf st = [] then None
      else let tok = takeWhile (\<lambda>c. c \<noteq> d) (is_buf st)
           in case dropWhile (\<lambda>c. c \<noteq> d) (is_buf st) of
                [] \<Rightarrow> Some (tok, st\<lparr>is_buf := [], is_eof := True\<rparr>)
              | _ # r \<Rightarrow> Some (tok, st\<lparr>is_buf := r\<rparr>))"

section \<open>s_expect and match\<close>

definition s_expect_match :: "string \<Rightarrow> istream \<Rightarrow> istream" where
  "s_expect_match self st =
     (let (buffer, st1) = is_get (length self) (st\<lparr>is_skipws := False\<rparr>)
      in if self \<noteq> buffer then st1\<lparr>is_fail := True\<rparr> else st1)"

definition match :: "string \<Rightarrow> string \<Rightarrow> u64 \<Rightarrow> bool \<times> u64" where
  "match subtoken sname result =
     (let s1 = s_expect_match (sname @ ''0x'') (istringstream subtoken);
          (v1, t1) = is_read_unsigned 64 (s1\<lparr>is_base := Hex\<rparr>) (unat result)
      in if \<not> is_fail t1 then (True, of_nat v1)
         else let s2 = s_expect_match sname (istringstream subtoken);
                  (v2, t2) = is_read_unsigned 64 (s2\<lparr>is_base := Dec\<rparr>) v1
              in (\<not> is_fail t2, of_nat v2))"

section \<open>split and read_number\<close>

function split_stream :: "char \<Rightarrow> istream \<Rightarrow> string list" where
  "split_stream d st =
     (case is_getline d st of None \<Rightarrow> [] | Some (tok, st') \<Rightarrow> tok # split_stream d st')"
  by pat_completeness auto
termination
proof (relation "measure (\<lambda>(d, st). length (is_buf st))", goal_cases)
  case 1
  show ?case by simp
next
  case (2 d st p tok st')
  then show ?case
    by (auto simp: is_getline_def Let_def length_dropWhile_less split: if_splits list.splits)
qed

declare split_stream.simps [simp del]

definition split :: "string \<Rightarrow> char \<Rightarrow> string list" where
  "split str delim = split_stream delim (istringstream str)"

definition trim_chars :: "char set" where
  "trim_chars = {CHR '' '', CHR 0x09, CHR 0x0A, CHR 0x0D}"

definition trim :: "string \<Rightarrow> string" where
  "trim s = rev (dropWhile (\<lambda>c. c \<in> trim_chars) (rev (dropWhile (\<lambda>c. c \<in> trim_chars) s)))"

definition has_hex_prefix :: "string \<Rightarrow> bool" where
  "has_hex_prefix s \<longleftrightarrow> length s \<ge> 2 \<and> s ! 0 = CHR ''0'' \<and> (s ! 1 = CHR ''x'' \<or> s ! 1 = CHR ''X'')"

definition read_number_stream :: "istream \<Rightarrow> u64 result" where
  "read_number_stream st =
     (let (v, st1) = is_read_unsigned 64 st 0 in
      if is_fail st1 then Inl (Invalid_argument ''Failed to parse number from input string'')
      else if dropWhile is_space (is_buf st1) \<noteq> []
        then Inl (Invalid_argument ''Input string contains extra characters after the number'')
      else Inr (of_nat v))"

definition read_number :: "string \<Rightarrow> u64 result" where
  "read_number str =
     (if str = [] then Inl (Invalid_argument ''Input string is null or empty'')
      else let input = trim str in
        if input = [] then Inl (Invalid_argument ''Input string contains only whitespace'')
        else if has_hex_prefix input then
          (if length input = 2
             then Inl (Invalid_argument ''Invalid hexadecimal number: no digits after 0x'')
           else if \<not> list_all (is_digit_of 16) (drop 2 input)
             then Inl (Invalid_argument ''Invalid hexadecimal number: contains non-hex characters'')
           else read_number_stream ((istringstream input)\<lparr>is_base := Hex\<rparr>))
        else if \<not> list_all (is_digit_of 10) input
          then Inl (Invalid_argument ''Invalid decimal number: contains non-digit characters'')
        else read_number_stream (istringstream input))"

section \<open>Printing of numbers\<close>

text \<open>The digits \<^verbatim>\<open>operator<<\<close> prints for an unsigned value in base 10 or 16.\<close>

definition digit_char :: "nat \<Rightarrow> char" where
  "digit_char d = (char_of (if d < 10 then 48 + d else 87 + d) :: char)"

fun digits_of :: "nat \<Rightarrow> nat \<Rightarrow> string" where
  "digits_of b n =
     (if b < 2 \<or> n < b then [digit_char n] else digits_of b (n div b) @ [digit_char (n mod b)])"

declare digits_of.simps [simp del]

definition dec_string :: "nat \<Rightarrow> string" where
  "dec_string n = digits_of 10 n"

definition hex_string :: "nat \<Rightarrow> string" where
  "hex_string n = digits_of 16 n"

section \<open>Lemmas on digits\<close>

lemma digit_val_digit_char [simp]: "d < 16 \<Longrightarrow> digit_val (digit_char d) = Some d"
  by (simp add: digit_val_def digit_char_def Let_def)

lemma is_digit_of_digit_char [simp]: "d < b \<Longrightarrow> b \<le> 16 \<Longrightarrow> is_digit_of b (digit_char d)"
  by (simp add: is_digit_of_def)

lemma digits_value_Nil [simp]: "digits_value b [] = 0"
  by (simp add: digits_value_def)

lemma digits_value_snoc [simp]:
  "digits_value b (ds @ [c]) = b * digits_value b ds + the (digit_val c)"
  by (simp add: digits_value_def)

lemma digits_value_zero_Cons [simp]: "digits_value b (CHR ''0'' # ds) = digits_value b ds"
  by (simp add: digits_value_def digit_val_def)

lemma digits_value_digits_of:
  "2 \<le> b \<Longrightarrow> b \<le> 16 \<Longrightarrow> digits_value b (digits_of b n) = n"
proof (induction b n rule: digits_of.induct)
  case (1 b n)
  show ?case
  proof (cases "n < b")
    case True
    with "1.prems" show ?thesis
      by (simp add: digits_of.simps [of b n] digits_value_def)
  next
    case False
    with 1 have "digits_value b (digits_of b (n div b)) = n div b" by simp
    moreover have "n mod b < 16"
      using "1.prems" mod_less_divisor [of b n] by linarith
    ultimately show ?thesis
      using "1.prems" False by (simp add: digits_of.simps [of b n])
  qed
qed

lemma digits_of_digits:
  "2 \<le> b \<Longrightarrow> b \<le> 16 \<Longrightarrow> list_all (is_digit_of b) (digits_of b n)"
proof (induction b n rule: digits_of.induct)
  case (1 b n)
  have "n mod b < b" using "1.prems" by simp
  with 1 show ?case
    by (cases "n < b") (simp_all add: digits_of.simps [of b n])
qed

lemma digits_of_nonempty [simp]: "digits_of b n \<noteq> []"
  by (subst digits_of.simps) simp

lemma takeWhile_list_all [simp]: "list_all P xs \<Longrightarrow> takeWhile P xs = xs"
  by (simp add: list_all_iff)

lemma dropWhile_list_all [simp]: "list_all P xs \<Longrightarrow> dropWhile P xs = []"
  by (simp add: list_all_iff)

lemma digit_not_space: "is_digit_of b c \<Longrightarrow> \<not> is_space c"
  by (auto simp: is_digit_of_def is_space_def digit_val_def Let_def split: if_splits)

lemma digit_not_trim: "is_digit_of b c \<Longrightarrow> c \<notin> trim_chars"
  by (auto simp: is_digit_of_def trim_chars_def digit_val_def Let_def)

lemma num_sign_digit: "is_digit_of b c \<Longrightarrow> num_sign (c # s) = (False, c # s)"
  by (auto simp: num_sign_def is_digit_of_def digit_val_def Let_def)

section \<open>What read_number accepts and returns\<close>

lemma num_get_dec_digits:
  assumes "ds \<noteq> []" and "list_all (is_digit_of 10) ds"
  shows "num_get w Dec ds =
     (if digits_value 10 ds \<ge> 2 ^ w then (2 ^ w - 1, True, []) else (digits_value 10 ds, False, []))"
proof -
  obtain c r where ds: "ds = c # r" using assms(1) by (cases ds) auto
  with assms(2) have c: "is_digit_of 10 c" and r: "list_all (is_digit_of 10) r" by auto
  show ?thesis
  proof (cases "c = CHR ''0''")
    case True
    with ds r show ?thesis
      by (simp add: num_get_def num_sign_def num_prefix_def Let_def)
  next
    case False
    then have "num_prefix Dec ds = (10, False, ds)"
      using ds by (simp add: num_prefix_def)
    with ds c r assms(2) show ?thesis
      by (simp add: num_get_def num_sign_digit Let_def)
  qed
qed

lemma num_get_hex_digits:
  assumes "ds \<noteq> []" and "list_all (is_digit_of 16) ds" and "x = CHR ''x'' \<or> x = CHR ''X''"
  shows "num_get w Hex (CHR ''0'' # x # ds) =
     (if digits_value 16 ds \<ge> 2 ^ w then (2 ^ w - 1, True, []) else (digits_value 16 ds, False, []))"
  using assms by (auto simp: num_get_def num_sign_def num_prefix_def Let_def)

lemma is_read_unsigned_fresh:
  assumes "c # s = is_buf st" and "\<not> is_space c" and "\<not> is_fail st" and "\<not> is_eof st"
  shows "is_read_unsigned w st old =
     (let (v, bad, rest) = num_get w (is_base st) (c # s)
      in (v, st\<lparr>is_buf := rest, is_fail := bad, is_eof := (rest = [])\<rparr>))"
proof -
  have "dropWhile is_space (is_buf st) = is_buf st"
    using assms(1,2) by (cases "is_buf st") auto
  then have "is_sentry st = (True, st)"
    using assms(1,3,4) by (auto simp: is_sentry_def Let_def)
  then show ?thesis using assms(1) by (simp add: is_read_unsigned_def)
qed

lemma read_number_stream_digits:
  assumes "c # s = is_buf st" and "\<not> is_space c" and "\<not> is_fail st" and "\<not> is_eof st"
    and "num_get 64 (is_base st) (c # s) =
      (if v \<ge> 2 ^ 64 then (2 ^ 64 - 1, True, []) else (v, False, []))"
  shows "read_number_stream st =
     (if v < 2 ^ 64 then Inr (of_nat v)
      else Inl (Invalid_argument ''Failed to parse number from input string''))"
  using is_read_unsigned_fresh [OF assms(1-4), of 64 0] assms(5)
  by (simp add: read_number_stream_def)

lemma has_hex_prefix_cases:
  "has_hex_prefix s \<longleftrightarrow> (\<exists>x ds. s = CHR ''0'' # x # ds \<and> (x = CHR ''x'' \<or> x = CHR ''X''))"
  by (cases s; cases "tl s") (auto simp: has_hex_prefix_def)

lemma dec_digits_no_hex_prefix:
  "list_all (is_digit_of 10) s \<Longrightarrow> \<not> has_hex_prefix s"
  by (auto simp: has_hex_prefix_cases is_digit_of_def digit_val_def)

text \<open>The accepted syntax and the value it denotes.\<close>

definition number_value :: "string \<Rightarrow> nat option" where
  "number_value s =
     (if has_hex_prefix s then
        (if drop 2 s \<noteq> [] \<and> list_all (is_digit_of 16) (drop 2 s)
         then Some (digits_value 16 (drop 2 s)) else None)
      else if s \<noteq> [] \<and> list_all (is_digit_of 10) s then Some (digits_value 10 s)
      else None)"

lemma read_number_hex:
  assumes "has_hex_prefix s" and "drop 2 s \<noteq> []" and "list_all (is_digit_of 16) (drop 2 s)"
  shows "read_number_stream ((istringstream s)\<lparr>is_base := Hex\<rparr>) =
     (if digits_value 16 (drop 2 s) < 2 ^ 64 then Inr (of_nat (digits_value 16 (drop 2 s)))
      else Inl (Invalid_argument ''Failed to parse number from input string''))"
proof -
  obtain x ds where s: "s = CHR ''0'' # x # ds" "x = CHR ''x'' \<or> x = CHR ''X''"
    using assms(1) by (auto simp: has_hex_prefix_cases)
  then show ?thesis
    using assms num_get_hex_digits [of ds x 64]
    by (intro read_number_stream_digits [of "CHR ''0''" "x # ds"])
      (auto simp: istringstream_def is_space_def)
qed

lemma read_number_dec:
  assumes "s \<noteq> []" and "list_all (is_digit_of 10) s"
  shows "read_number_stream (istringstream s) =
     (if digits_value 10 s < 2 ^ 64 then Inr (of_nat (digits_value 10 s))
      else Inl (Invalid_argument ''Failed to parse number from input string''))"
proof -
  obtain c r where s: "s = c # r" using assms(1) by (cases s) auto
  with assms have "\<not> is_space c" by (auto dest: digit_not_space)
  with s show ?thesis
    using assms num_get_dec_digits [of s 64]
    by (intro read_number_stream_digits [of c r]) (auto simp: istringstream_def)
qed

lemma trim_Nil [simp]: "trim [] = []"
  by (simp add: trim_def)

lemma length_2_drop: "has_hex_prefix s \<Longrightarrow> length s = 2 \<longleftrightarrow> drop 2 s = []"
  by (auto simp: has_hex_prefix_cases)

lemma read_number_cases:
  assumes "number_value (trim s) = Some n" and "n < 2 ^ 64"
  shows "read_number s = Inr (of_nat n)"
proof -
  have "trim s \<noteq> []" using assms by (auto simp: number_value_def has_hex_prefix_def split: if_splits)
  then have "s \<noteq> []" by auto
  with \<open>trim s \<noteq> []\<close> assms show ?thesis
    by (auto simp: read_number_def number_value_def Let_def read_number_hex read_number_dec
        length_2_drop split: if_splits)
qed

lemmas read_number_eval =
  number_value_def trim_def trim_chars_def is_digit_of_def digit_val_def digits_value_def has_hex_prefix_def

text \<open>C29: \<^verbatim>\<open>read_number\<close> accepts exactly the specified number syntax. It succeeds iff the trimmed
  input is \<^verbatim>\<open>0x\<close> or \<^verbatim>\<open>0X\<close> followed by at least one hex digit, or a non-empty run of decimal
  digits, and the value fits 64 bits, and then returns that value; on every other input it throws
  \<^verbatim>\<open>std::invalid_argument\<close>, never another exception.\<close>

theorem read_number_spec:
  "case read_number str of
     Inr v \<Rightarrow> number_value (trim str) = Some (unat v)
   | Inl e \<Rightarrow> (\<exists>msg. e = Invalid_argument msg) \<and>
       (case number_value (trim str) of None \<Rightarrow> True | Some n \<Rightarrow> 2 ^ 64 \<le> n)"
proof -
  have un: "n < 2 ^ 64 \<Longrightarrow> unat (of_nat n :: u64) = n" for n
    by (simp add: unat_of_nat)
  show ?thesis
    by (auto simp: read_number_def number_value_def Let_def read_number_hex read_number_dec
        length_2_drop un)
qed

lemma trim_digits: "list_all (\<lambda>c. c \<notin> trim_chars) s \<Longrightarrow> trim s = s"
proof -
  assume "list_all (\<lambda>c. c \<notin> trim_chars) s"
  then have "dropWhile (\<lambda>c. c \<in> trim_chars) s = s"
    and "dropWhile (\<lambda>c. c \<in> trim_chars) (rev s) = rev s"
    by (auto simp: dropWhile_eq_self_iff list_all_iff hd_rev)
  then show ?thesis by (simp add: trim_def)
qed

text \<open>Printing and parsing numbers round-trips: a 64-bit value printed in decimal, or in hex
  behind \<^verbatim>\<open>0x\<close>, is read back unchanged by \<^verbatim>\<open>read_number\<close>.\<close>

lemma read_number_roundtrip:
  "read_number (dec_string (unat v)) = Inr v \<and> read_number (''0x'' @ hex_string (unat v)) = Inr v"
proof -
  have d: "list_all (is_digit_of 10) (dec_string (unat v))"
    and dv: "digits_value 10 (dec_string (unat v)) = unat v"
    by (simp_all add: dec_string_def digits_of_digits digits_value_digits_of)
  have h: "list_all (is_digit_of 16) (hex_string (unat v))"
    and hv: "digits_value 16 (hex_string (unat v)) = unat v"
    by (simp_all add: hex_string_def digits_of_digits digits_value_digits_of)
  have td: "trim (dec_string (unat v)) = dec_string (unat v)"
    using d digit_not_trim by (intro trim_digits) (auto simp: list_all_iff)
  have th: "trim (''0x'' @ hex_string (unat v)) = ''0x'' @ hex_string (unat v)"
    using h digit_not_trim [of 16] by (intro trim_digits) (auto simp: list_all_iff trim_chars_def)
  have n: "dec_string (unat v) \<noteq> []" "hex_string (unat v) \<noteq> []"
    by (simp_all add: dec_string_def hex_string_def)
  have "number_value (dec_string (unat v)) = Some (unat v)"
    using d dv n dec_digits_no_hex_prefix [OF d] by (simp add: number_value_def)
  moreover have "number_value (''0x'' @ hex_string (unat v)) = Some (unat v)"
    using h hv n by (simp add: number_value_def has_hex_prefix_cases)
  ultimately show ?thesis
    using read_number_cases [of "dec_string (unat v)" "unat v"]
      read_number_cases [of "''0x'' @ hex_string (unat v)" "unat v"]
    by (simp only: td th) simp
qed

end
