(* ===== verification/Text_Utils.thy ===== *)
theory Text_Utils
  imports Istream
begin

text \<open>
  Command-line, list and table helpers of \<^verbatim>\<open>src/src/utils.h\<close> and \<^verbatim>\<open>src/src/utils.cpp\<close>: bit-range
  parameters, core lists (\<^verbatim>\<open>1,4-7\<close>), \<^verbatim>\<open>name=value\<close> arguments, option scanning, the monitoring main
  loop, value formatting and the aligned text tables of the PCIe and IIO tools. A C string is a
  \<open>string\<close> without NUL; \<^verbatim>\<open>init[0]\<close> of an empty \<^verbatim>\<open>std::string\<close> is the NUL character.
  Values that \<^verbatim>\<open>atoi\<close> cannot represent (undefined in C) are kept as unbounded integers.
\<close>

section \<open>Bit-range parameters\<close>

text \<open>\<open>dbg\<close> is whether assertions are compiled in (they are not in the default Release build).\<close>

definition assert_that :: "bool \<Rightarrow> bool \<Rightarrow> 'a result \<Rightarrow> 'a result" where
  "assert_that dbg p k = (if dbg \<and> \<not> p then Inl Assert_failed else k)"

definition parse_bits_pair :: "string list \<Rightarrow> (u64 \<times> u64) result" where
  "parse_bits_pair bitsArray =
     (case bitsArray of
        [a] \<Rightarrow> (case read_number a of Inl e \<Rightarrow> Inl e | Inr v \<Rightarrow> Inr (v, v))
      | [a, b] \<Rightarrow> (case read_number a of Inl e \<Rightarrow> Inl e
                 | Inr v \<Rightarrow> (case read_number b of Inl e \<Rightarrow> Inl e | Inr w \<Rightarrow> Inr (v, w)))
      | _ \<Rightarrow> Inr (- 1, - 1))"

definition parseBitsParameter :: "bool \<Rightarrow> string \<Rightarrow> (int \<times> int) result" where
  "parseBitsParameter dbg param =
     (let bitsArray = split param CHR '':'' in
      case parse_bits_pair bitsArray of
        Inl e \<Rightarrow> Inl e
      | Inr (v, w) \<Rightarrow>
          (let first = sint v; second = sint w in
           assert_that dbg (length bitsArray = 1 \<or> length bitsArray = 2)
            (assert_that dbg (first \<ge> 0 \<and> second \<ge> 0 \<and> first < 64 \<and> second < 64)
              (if first > second then Inr (second, first) else Inr (first, second)))))"

definition readOldValueHelper ::
  "int \<times> int \<Rightarrow> u64 \<Rightarrow> bool \<Rightarrow> u64 option \<Rightarrow> u64 option" where
  "readOldValueHelper bits value write readValue =
     (if fst bits \<ge> 0 \<and> write then
        (case readValue of None \<Rightarrow> None
         | Some old_value \<Rightarrow>
             Some (insertBits old_value value (nat (fst bits)) (nat (snd bits - fst bits + 1))))
      else Some value)"

section \<open>Integer lists\<close>

definition atoi :: "string \<Rightarrow> int" where
  "atoi s =
     (let (neg, r) = num_sign (dropWhile is_space s);
          v = int (digits_value 10 (takeWhile (is_digit_of 10) r))
      in if neg then - v else v)"

record intlist_state =
  snum1 :: string
  snum2 :: string
  pnow2 :: bool
  corelist :: "int list"

definition intlist_init :: intlist_state where
  "intlist_init = \<lparr>snum1 = [], snum2 = [], pnow2 = False, corelist = []\<rparr>"

definition intlist_flush :: "intlist_state \<Rightarrow> intlist_state" where
  "intlist_flush st =
     (let out =
        (if snum1 st \<noteq> [] \<and> snum2 st \<noteq> [] then
           (let num1 = atoi (snum1 st); num2 = atoi (snum2 st);
                (num1, num2) = (if num2 < num1 then (num2, num1) else (num1, num2));
                num1 = (if num1 < 0 then 0 else num1)
            in corelist st @ [num1..num2])
         else if snum1 st \<noteq> [] then corelist st @ [atoi (snum1 st)]
         else corelist st)
      in \<lparr>snum1 = [], snum2 = [], pnow2 = False, corelist = out\<rparr>)"

definition intlist_char :: "char \<Rightarrow> intlist_state \<Rightarrow> intlist_state" where
  "intlist_char nchar st =
     (if nchar = CHR ''-'' \<and> \<not> pnow2 st \<and> snum1 st \<noteq> [] then st\<lparr>pnow2 := True\<rparr>
      else if nchar = CHR '','' then intlist_flush st
      else if nchar \<noteq> CHR '' '' then
        (if pnow2 st then st\<lparr>snum2 := snum2 st @ [nchar]\<rparr>
         else st\<lparr>snum1 := snum1 st @ [nchar]\<rparr>)
      else st)"

definition extract_integer_list :: "string \<Rightarrow> int list" where
  "extract_integer_list optarg =
     (let st = fold intlist_char optarg intlist_init
      in corelist (if optarg \<noteq> [] \<and> last optarg \<noteq> CHR '','' then intlist_char CHR '','' st else st))"

section \<open>Command-line arguments\<close>

definition dequote :: "string \<Rightarrow> string" where
  "dequote value =
     (let q = (\<lambda>c. c = CHR 0x22);
          v1 = (if list_all q value then value else rev (dropWhile q (rev value)))
      in if list_all q v1 then v1 else dropWhile q v1)"

fun extract_argument_value :: "string \<Rightarrow> string list \<Rightarrow> string option" where
  "extract_argument_value arg [] = None"
| "extract_argument_value arg (arg_name # names) =
     (if length arg > length arg_name \<and> take (length arg_name) arg = arg_name
         \<and> arg ! length arg_name = CHR ''=''
      then Some (dequote (drop (length arg_name + 1) arg))
      else extract_argument_value arg names)"

definition check_argument_equals :: "string \<Rightarrow> string list \<Rightarrow> bool" where
  "check_argument_equals arg arg_names =
     list_ex (\<lambda>n. length arg = length n \<and> take (length arg) n = arg) arg_names"

fun check_and_set_silent :: "string list \<Rightarrow> bool" where
  "check_and_set_silent [] = False"
| "check_and_set_silent (a # argv) =
     (check_argument_equals a [''--help'', ''-h'', ''/h'']
      \<or> check_argument_equals a [''-silent'', ''/silent''] \<or> check_and_set_silent argv)"

fun print_version :: "string list \<Rightarrow> bool" where
  "print_version [] = False"
| "print_version (a # argv) = (check_argument_equals a [''--version''] \<or> print_version argv)"

text \<open>\<open>parseParam\<close> calls its functor on the argument after each occurrence of the option; the
  model returns those arguments in order, or the exit when the option is last.\<close>

fun parseParam :: "string \<Rightarrow> string list \<Rightarrow> string list result" where
  "parseParam param [] = Inr []"
| "parseParam param [a] =
     (if a = ''-'' @ param \<or> a = ''/'' @ param then Inl Exit_failure else Inr [])"
| "parseParam param (a # b # argv) =
     (if a = ''-'' @ param \<or> a = ''/'' @ param
      then (case parseParam param argv of Inl e \<Rightarrow> Inl e | Inr vs \<Rightarrow> Inr (b # vs))
      else parseParam param (b # argv))"

definition isPIDOption :: "string \<Rightarrow> bool" where
  "isPIDOption a = check_argument_equals a [''-pid'', ''/pid'']"

definition parsePID :: "string list \<Rightarrow> int \<Rightarrow> int result" where
  "parsePID argv pid =
     (case parseParam ''pid'' argv of Inl e \<Rightarrow> Inl e
      | Inr vs \<Rightarrow> Inr (if vs = [] then pid else atoi (last vs)))"

definition check_for_injections :: "string \<Rightarrow> bool" where
  "check_for_injections str =
     (case str of [] \<Rightarrow> False | c # _ \<Rightarrow> c \<in> {CHR ''='', CHR ''+'', CHR ''-'', CHR ''@''})"

definition dos2unix :: "string \<Rightarrow> string" where
  "dos2unix s = (if s \<noteq> [] \<and> last s = CHR 0x0D then butlast s else s)"

definition isRegisterEvent :: "string \<Rightarrow> bool" where
  "isRegisterEvent pmu =
     (pmu = ''mmio'' \<or> pmu = ''pcicfg'' \<or> pmu = ''pmt'' \<or> pmu = ''tpmi''
      \<or> pmu = ''package_msr'' \<or> pmu = ''thread_msr'')"

section \<open>The main loop\<close>

definition main_loop_parse_arg :: "string \<Rightarrow> u32 \<Rightarrow> bool \<times> u32" where
  "main_loop_parse_arg arg n =
     (case extract_argument_value arg [''-i'', ''/i''] of
        Some v \<Rightarrow> (True, of_int (atoi v))
      | None \<Rightarrow> (False, n))"

partial_function (option) main_loop :: "('s \<Rightarrow> bool \<times> 's) \<Rightarrow> u32 \<Rightarrow> u32 \<Rightarrow> 's \<Rightarrow> 's option" where
  "main_loop body numberOfIterations i s =
     (if i \<le> numberOfIterations \<or> numberOfIterations = 0 then
        (if \<not> fst (body s) then Some (snd (body s))
         else main_loop body numberOfIterations (i + 1) (snd (body s)))
      else Some s)"

definition MainLoop_run :: "u32 \<Rightarrow> ('s \<Rightarrow> bool \<times> 's) \<Rightarrow> 's \<Rightarrow> 's option" where
  "MainLoop_run numberOfIterations body s = main_loop body numberOfIterations 1 s"

section \<open>Formatting and tables\<close>

definition pad4 :: "nat \<Rightarrow> string" where
  "pad4 n = (let d = dec_string n in replicate (4 - length d) CHR '' '' @ d)"

definition unit_format :: "u64 \<Rightarrow> string" where
  "unit_format n =
     (if n \<le> 9999 then pad4 (unat n) @ ''  ''
      else if n \<le> 9999999 then pad4 (unat (n div 1000)) @ '' K''
      else if n \<le> 9999999999 then pad4 (unat (n div 1000000)) @ '' M''
      else if n \<le> 9999999999999 then pad4 (unat (n div 1000000000)) @ '' G''
      else pad4 (unat (n div (1000000000 * 1000))) @ '' T'')"

definition first_char :: "string \<Rightarrow> char" where
  "first_char s = (case s of [] \<Rightarrow> CHR 0x00 | c # _ \<Rightarrow> c)"

record column_data =
  cd_width :: u32
  cd_value :: u64

definition a_title :: "string \<Rightarrow> string \<Rightarrow> string" where
  "a_title init name = init @ name @ [first_char init]"

definition a_data :: "string \<Rightarrow> column_data \<Rightarrow> string result" where
  "a_data init d =
     (let str_d = unit_format (cd_value d) in
      if length str_d > unat (cd_width d) then Inl Length_error
      else Inr (init @ str_d @ replicate (unat (cd_width d) - length str_d) CHR '' '' @ [first_char init]))"

definition build_line :: "string \<Rightarrow> string \<Rightarrow> bool \<Rightarrow> char \<Rightarrow> string" where
  "build_line init name last_char this_char =
     init @ replicate (length name) this_char @ (if last_char then [first_char init] else [])"

definition a_header_footer :: "string \<Rightarrow> string \<Rightarrow> string" where
  "a_header_footer init name = build_line init name True CHR ''_''"

definition build_csv_row :: "string list \<Rightarrow> string \<Rightarrow> string" where
  "build_csv_row chunks delimiter =
     foldl (\<lambda>left right. if left = [] then right else left @ delimiter @ right) [] chunks"

fun prepare_columns :: "u64 list \<Rightarrow> string list \<Rightarrow> column_data list" where
  "prepare_columns (v # vs) (h # hs) =
     \<lparr>cd_width = of_nat (length h), cd_value = v\<rparr> # prepare_columns vs hs"
| "prepare_columns _ _ = []"

definition prepare_data :: "u64 list \<Rightarrow> string list \<Rightarrow> column_data list" where
  "prepare_data values headers = prepare_columns values (tl headers)"

definition display :: "string list \<Rightarrow> string" where
  "display buff = concat (map (\<lambda>l. l @ [CHR 0x0A]) buff)"

section \<open>Files of sysfs\<close>

text \<open>The content of a sysfs file is the argument (reading it is the only I/O of these functions).
  \<^verbatim>\<open>operator>>\<close> into an \<^verbatim>\<open>int\<close> leaves the target unchanged when the stream already failed.\<close>

definition is_read_int :: "istream \<Rightarrow> int \<Rightarrow> int \<times> istream" where
  "is_read_int st old =
     (case is_sentry st of
        (False, st') \<Rightarrow> (old, st')
      | (True, st') \<Rightarrow>
          (let (neg, s1) = num_sign (is_buf st');
               ds = takeWhile (is_digit_of 10) s1;
               rest = dropWhile (is_digit_of 10) s1;
               v = int (digits_value 10 ds);
               st'' = st'\<lparr>is_buf := rest, is_eof := (rest = [])\<rparr>
           in if ds = [] then (0, st''\<lparr>is_fail := True\<rparr>)
              else if neg \<and> v > 2 ^ 31 then (- (2 ^ 31), st''\<lparr>is_fail := True\<rparr>)
              else if \<not> neg \<and> v \<ge> 2 ^ 31 then (2 ^ 31 - 1, st''\<lparr>is_fail := True\<rparr>)
              else (if neg then - v else v, st'')))"

definition readMaxFromSysFS :: "string \<Rightarrow> int" where
  "readMaxFromSysFS content =
     (let result = fst (is_read_int (s_expect_match ''0-'' (istringstream content)) (- 1))
      in if result = - 1 then fst (is_read_int (istringstream content) result) else result)"

definition split_at_char :: "char \<Rightarrow> string \<Rightarrow> string \<times> string" where
  "split_at_char d item =
     (case dropWhile (\<lambda>c. c \<noteq> d) item of
        [] \<Rightarrow> (item, item)
      | _ # r \<Rightarrow> (takeWhile (\<lambda>c. c \<noteq> d) item, r))"

fun readMapFromSysFS :: "string list \<Rightarrow> (string \<times> u32) list \<Rightarrow> (string \<times> u32) list" where
  "readMapFromSysFS [] result = result"
| "readMapFromSysFS (item # ls) result =
     (let (key, value) = split_at_char CHR '' '' item in
      if key = [] \<or> value = [] then readMapFromSysFS ls result
      else let numValue = of_nat (fst (is_read_unsigned 32 ((istringstream value)\<lparr>is_base := Detect\<rparr>) 0))
           in readMapFromSysFS ls
                (if map_of result key = None then result @ [(key, numValue)] else result))"

section \<open>Splitting is lossless\<close>

fun join :: "char \<Rightarrow> string list \<Rightarrow> string" where
  "join d [] = []"
| "join d [t] = t"
| "join d (t # ts) = t @ d # join d ts"

lemma join_Cons: "ts \<noteq> [] \<Longrightarrow> join d (t # ts) = t @ d # join d ts"
  by (cases ts) auto

lemma split_Nil [simp]: "split [] d = []"
  by (simp add: split_def split_stream.simps is_getline_def istringstream_def)

lemma split_stream_eof: "is_eof st \<Longrightarrow> split_stream d st = []"
  by (subst split_stream.simps) (simp add: is_getline_def)

lemma split_unfold:
  "s \<noteq> [] \<Longrightarrow> split s d = takeWhile (\<lambda>c. c \<noteq> d) s #
     (case dropWhile (\<lambda>c. c \<noteq> d) s of [] \<Rightarrow> [] | _ # r \<Rightarrow> split r d)"
  unfolding split_def
  by (subst split_stream.simps)
    (auto simp: is_getline_def istringstream_def split_stream_eof Let_def split: list.splits)

lemma split_nonempty: "s \<noteq> [] \<Longrightarrow> split s d \<noteq> []"
  by (simp add: split_unfold)

lemma split_token: "d \<notin> set t \<Longrightarrow> t \<noteq> [] \<Longrightarrow> split t d = [t]"
  by (simp add: split_unfold)

lemma split_token_delim: "d \<notin> set t \<Longrightarrow> split (t @ d # r) d = t # split r d"
  by (subst split_unfold) auto

text \<open>\<^verbatim>\<open>split\<close> loses nothing: no token contains the delimiter, and joining the tokens with it
  gives back the input, up to one trailing delimiter.\<close>

lemma split_lossless:
  "list_all (\<lambda>t. d \<notin> set t) (split s d) \<and>
   (s = join d (split s d) \<or> s = join d (split s d) @ [d])"
proof (induction "length s" arbitrary: s rule: less_induct)
  case less
  show ?case
  proof (cases "d \<in> set s")
    case False
    then show ?thesis by (cases "s = []") (auto simp: split_token)
  next
    case True
    then obtain t r where s: "s = t @ d # r" and t: "d \<notin> set t"
      by (meson split_list_first)
    have IH: "list_all (\<lambda>t. d \<notin> set t) (split r d) \<and> (r = join d (split r d) \<or> r = join d (split r d) @ [d])"
      using less [of r] s by simp
    have "split s d = t # split r d" using s t by (simp add: split_token_delim)
    with IH s t show ?thesis
      by (cases "r = []") (auto simp: join_Cons split_nonempty)
  qed
qed

lemma split_join:
  "ts \<noteq> [] \<Longrightarrow> last ts \<noteq> [] \<Longrightarrow> list_all (\<lambda>t. d \<notin> set t) ts \<Longrightarrow> split (join d ts) d = ts"
  by (induction d ts rule: join.induct) (auto simp: split_token split_token_delim)

section \<open>Bit-range parameters are validated\<close>

text \<open>A bit range accepted with assertions enabled lies inside a 64-bit register with its ends
  in order, so writing it with \<^verbatim>\<open>insertBits\<close> (via \<^verbatim>\<open>readOldValueHelper\<close>) replaces exactly those bits
  of the old register value.\<close>

lemma parseBits_write:
  assumes "parseBitsParameter True param = Inr (lo, hi)"
  shows "0 \<le> lo \<and> lo \<le> hi \<and> hi < 64 \<and>
    (\<exists>new. readOldValueHelper (lo, hi) value True (Some old) = Some new \<and>
      (\<forall>n. bit new n = (if lo \<le> int n \<and> int n \<le> hi then bit value (n - nat lo) else bit old n)))"
proof -
  from assms have r: "0 \<le> lo \<and> lo \<le> hi \<and> hi < 64"
    by (auto simp: parseBitsParameter_def Let_def assert_that_def split: sum.splits prod.splits if_splits)
  then have "nat lo + nat (hi - lo + 1) \<le> 64" by linarith
  then have "bit (insertBits old value (nat lo) (nat (hi - lo + 1))) n =
      (if nat lo \<le> n \<and> n < nat lo + nat (hi - lo + 1) then bit value (n - nat lo) else bit old n)" for n
    by (rule bit_insertBits)
  moreover have "(nat lo \<le> n \<and> n < nat lo + nat (hi - lo + 1)) = (lo \<le> int n \<and> int n \<le> hi)" for n
    using r by auto
  ultimately show ?thesis
    using r by (auto simp: readOldValueHelper_def)
qed

section \<open>Integer lists\<close>

datatype core_item = One nat | Span nat nat

fun render_item :: "core_item \<Rightarrow> string" where
  "render_item (One n) = dec_string n"
| "render_item (Span a b) = dec_string a @ CHR ''-'' # dec_string b"

fun expand_item :: "core_item \<Rightarrow> int list" where
  "expand_item (One n) = [int n]"
| "expand_item (Span a b) = [int (min a b)..int (max a b)]"

lemma dec_string_digits: "list_all (is_digit_of 10) (dec_string n)"
  by (simp add: dec_string_def digits_of_digits)

lemma dec_string_nonempty [simp]: "dec_string n \<noteq> []"
  by (simp add: dec_string_def)

lemma digits_value_dec_string [simp]: "digits_value 10 (dec_string n) = n"
  by (simp add: dec_string_def digits_value_digits_of)

lemma num_sign_digits: "list_all (is_digit_of 10) s \<Longrightarrow> num_sign s = (False, s)"
  by (cases s) (auto simp: num_sign_digit num_sign_def [of "[]"])

lemma dropWhile_space_digits: "list_all (is_digit_of 10) s \<Longrightarrow> dropWhile is_space s = s"
  by (cases s) (auto dest: digit_not_space)

lemma atoi_dec_string [simp]: "atoi (dec_string n) = int n"
  using dec_string_digits [of n]
  by (simp add: atoi_def dropWhile_space_digits num_sign_digits)

lemma digit_plain: "is_digit_of 10 c \<Longrightarrow> c \<noteq> CHR ''-'' \<and> c \<noteq> CHR '','' \<and> c \<noteq> CHR '' ''"
  by (auto simp: is_digit_of_def digit_val_def)

lemma intlist_digits1:
  "list_all (is_digit_of 10) ds \<Longrightarrow> \<not> pnow2 st \<Longrightarrow>
   fold intlist_char ds st = st\<lparr>snum1 := snum1 st @ ds\<rparr>"
  by (induction ds arbitrary: st) (auto simp: intlist_char_def dest: digit_plain)

lemma intlist_digits2:
  "list_all (is_digit_of 10) ds \<Longrightarrow> pnow2 st \<Longrightarrow>
   fold intlist_char ds st = st\<lparr>snum2 := snum2 st @ ds\<rparr>"
  by (induction ds arbitrary: st) (auto simp: intlist_char_def dest: digit_plain)

lemma intlist_item:
  "intlist_char CHR '','' (fold intlist_char (render_item it) (intlist_init\<lparr>corelist := out\<rparr>)) =
   intlist_init\<lparr>corelist := out @ expand_item it\<rparr>"
proof (cases it)
  case (One n)
  then show ?thesis
    by (simp add: intlist_digits1 dec_string_digits intlist_char_def intlist_flush_def intlist_init_def)
next
  case (Span a b)
  have "fold intlist_char (render_item it) (intlist_init\<lparr>corelist := out\<rparr>) =
    \<lparr>snum1 = dec_string a, snum2 = dec_string b, pnow2 = True, corelist = out\<rparr>"
    unfolding Span render_item.simps fold_append fold_simps comp_def
    by (simp add: intlist_digits1 dec_string_digits intlist_init_def)
      (simp add: intlist_char_def intlist_digits2 dec_string_digits)
  then show ?thesis using Span
    by (auto simp: intlist_char_def intlist_flush_def intlist_init_def min_def max_def)
qed

lemma intlist_items:
  "items \<noteq> [] \<Longrightarrow>
   intlist_char CHR '','' (fold intlist_char (join CHR '','' (map render_item items)) (intlist_init\<lparr>corelist := out\<rparr>)) =
   intlist_init\<lparr>corelist := out @ concat (map expand_item items)\<rparr>"
proof (induction items arbitrary: out)
  case Nil
  then show ?case by simp
next
  case (Cons it items)
  show ?case
  proof (cases "items = []")
    case True
    then show ?thesis by (simp add: intlist_item)
  next
    case False
    then show ?thesis
      using Cons.IH [of "out @ expand_item it"] by (simp add: join_Cons intlist_item)
  qed
qed

lemma render_item_ends: "render_item it \<noteq> []" "last (render_item it) \<noteq> CHR '',''"
proof -
  have "last (dec_string n) \<noteq> CHR '',''" for n
    using dec_string_digits [of n] digit_plain by (simp add: list_all_iff)
  then show "last (render_item it) \<noteq> CHR '',''" "render_item it \<noteq> []" by (cases it; simp)+
qed

lemma join_ends:
  "items \<noteq> [] \<Longrightarrow> join d (map render_item items) \<noteq> [] \<and>
     last (join d (map render_item items)) \<noteq> CHR '',''"
proof (induction items)
  case (Cons it items)
  then show ?case by (cases "items = []") (auto simp: join_Cons render_item_ends)
qed simp

text \<open>Core lists mean what they say. A comma-separated list of numbers and \<^verbatim>\<open>a-b\<close> ranges is read
  by \<^verbatim>\<open>extract_integer_list\<close> as the concatenation of those numbers and (inclusive, direction
  independent) ranges, in order.\<close>

lemma extract_integer_list_items:
  assumes "items \<noteq> []"
  shows "extract_integer_list (join CHR '','' (map render_item items)) = concat (map expand_item items)"
  using intlist_items [OF assms, of "[]"] join_ends [OF assms, of "CHR '',''"]
  by (simp add: extract_integer_list_def intlist_init_def)

section \<open>The main loop ends\<close>

fun iterate_body :: "nat \<Rightarrow> ('s \<Rightarrow> bool \<times> 's) \<Rightarrow> 's \<Rightarrow> 's" where
  "iterate_body 0 body s = s"
| "iterate_body (Suc k) body s =
     (if fst (body s) then iterate_body k body (snd (body s)) else snd (body s))"

lemma main_loop_iterates:
  assumes "i \<le> n + 1" and "n \<noteq> 0" and "n + 1 \<noteq> 0"
  shows "main_loop body n i s = Some (iterate_body (Suc (unat n) - unat i) body s)"
  using assms
proof (induction "Suc (unat n) - unat i" arbitrary: i s)
  case 0
  have un: "unat (n + 1) = Suc (unat n)"
    using assms(3) by (metis Suc_eq_plus1 unatSuc add.commute)
  with "0" have "\<not> i \<le> n" by (simp add: word_le_nat_alt)
  with "0" assms(2) show ?case by (subst main_loop.simps) simp
next
  case (Suc k)
  have un: "unat (n + 1) = Suc (unat n)"
    using assms(3) by (metis Suc_eq_plus1 unatSuc add.commute)
  from Suc.hyps(2) have le: "i \<le> n" by (simp add: word_le_nat_alt)
  then have "unat i \<le> unat n" by (simp add: word_le_nat_alt)
  then have ui: "unat (i + 1) = Suc (unat i)"
    using unat_less_2p32 [of "n + 1"] un by (subst unat_plus_no_overflow) simp_all
  then have "k = Suc (unat n) - unat (i + 1)" and "i + 1 \<le> n + 1"
    using Suc.hyps(2) \<open>unat i \<le> unat n\<close> un by (simp_all add: word_le_nat_alt)
  from Suc.hyps(1) [OF this assms(2,3)] have IH: "main_loop body n (i + 1) s' =
    Some (iterate_body k body s')" for s' using \<open>k = _\<close> by simp
  show ?case
    unfolding Suc.hyps(2) [symmetric]
    using le IH by (subst main_loop.simps) simp
qed



section \<open>Tables are aligned\<close>

lemma length_digits_of_le: "n < 10 ^ Suc k \<Longrightarrow> length (digits_of 10 n) \<le> Suc k"
proof (induction k arbitrary: n)
  case 0
  then show ?case by (simp add: digits_of.simps [of 10 n])
next
  case (Suc k)
  then have "length (digits_of 10 (n div 10)) \<le> Suc k" by simp
  then show ?case by (simp add: digits_of.simps [of 10 n])
qed

lemma length_pad4: "n < 10000 \<Longrightarrow> length (pad4 n) = 4"
  using length_digits_of_le [of n 3] by (simp add: pad4_def dec_string_def Let_def)

lemma length_unit_format:
  assumes "unat n < 10 ^ 16"
  shows "length (unit_format n) = 6"
proof -
  consider "unat n \<le> 9999" | "unat n > 9999" "unat n \<le> 9999999"
    | "unat n > 9999999" "unat n \<le> 9999999999"
    | "unat n > 9999999999" "unat n \<le> 9999999999999"
    | "unat n > 9999999999999"
    by linarith
  then show ?thesis
    using assms
    by cases (simp_all add: unit_format_def word_le_nat_alt unat_div_distrib length_pad4 less_mult_imp_div_less)
qed

text \<open>The text tables line up. For a column whose header is at least six characters wide,
  printing any counter value below \<open>10^16\<close> never throws, and the data cell, the title cell and the
  rule above it have the same length.\<close>

lemma table_cells_aligned:
  assumes "6 \<le> length name" and "length name < 2 ^ 32" and "unat v < 10 ^ 16"
  shows "\<exists>cell. a_data init \<lparr>cd_width = of_nat (length name), cd_value = v\<rparr> = Inr cell \<and>
     length cell = length (a_title init name) \<and> length cell = length (a_header_footer init name)"
  using assms length_unit_format [OF assms(3)]
  by (simp add: a_data_def a_title_def a_header_footer_def build_line_def unat_of_nat)

lemma prepare_data_widths:
  "map (unat \<circ> cd_width) (prepare_data vs hs) =
     map (\<lambda>h. length h mod 2 ^ 32) (take (length vs) (tl hs))"
proof -
  have "map (unat \<circ> cd_width) (prepare_columns vs hs) =
     map (\<lambda>h. length h mod 2 ^ 32) (take (length vs) hs)" for vs hs
    by (induction vs hs rule: prepare_columns.induct) (auto simp: unat_of_nat)
  then show ?thesis by (simp add: prepare_data_def)
qed

fun intercalate :: "string \<Rightarrow> string list \<Rightarrow> string" where
  "intercalate d [] = []"
| "intercalate d (t # ts) = t @ concat (map (\<lambda>u. d @ u) ts)"

lemma csv_fold:
  "left \<noteq> [] \<Longrightarrow>
   foldl (\<lambda>left right. if left = [] then right else left @ d @ right) left ts = left @ concat (map (\<lambda>u. d @ u) ts)"
  by (induction ts arbitrary: left) auto

lemma build_csv_row_intercalate:
  "build_csv_row chunks d = intercalate d (dropWhile (\<lambda>c. c = []) chunks)"
  unfolding build_csv_row_def by (induction chunks) (auto simp: csv_fold)

end
