(* ===== verification/Event_Config.thy ===== *)
theory Event_Config
  imports Text_Utils "HOL-Library.AList"
begin

text \<open>
  The event configuration path of the IIO tool: the counter control register accessors
  (\<^verbatim>\<open>ccr\<close> of \<^verbatim>\<open>src/src/lspci.h\<close>), the line parser \<^verbatim>\<open>load_events\<close> of \<^verbatim>\<open>src/src/utils.cpp\<close> with its
  per-field callback, and the callback \<^verbatim>\<open>iio_evt_parse_handler\<close> and header helper
  \<^verbatim>\<open>combine_stack_name_and_counter_names\<close> of \<^verbatim>\<open>src/src/pcm-iio-pmu.cpp\<close>. The file is the list of
  its lines. The name maps are association lists; their order is irrelevant, as it is in
  \<^verbatim>\<open>std::unordered_map\<close>. \<^verbatim>\<open>operator[]\<close> on a map inserts the default value, which is modelled.
\<close>

section \<open>Counter control registers\<close>

datatype ccr_field =
    Event_select | Umask | Reset | Edge | Ov_en | Enable | Invert | Thresh | Ch_mask | Fc_mask

record ccr_config =
  FC_MASK_SHIFT :: nat
  FC_MASK :: u64
  CH_MASK :: u64

definition mk_ccr_config :: "nat \<Rightarrow> u64 \<Rightarrow> ccr_config" where
  "mk_ccr_config fc_mask_shift ch_mask =
     \<lparr>FC_MASK_SHIFT = fc_mask_shift, FC_MASK = push_bit fc_mask_shift 0x07,
      CH_MASK = push_bit 36 ch_mask\<rparr>"

definition skx_ccrs :: ccr_config where
  "skx_ccrs = mk_ccr_config 44 0xFF"

definition icx_ccrs :: ccr_config where
  "icx_ccrs = mk_ccr_config 48 0xFFF"

fun ccr_shift :: "ccr_config \<Rightarrow> ccr_field \<Rightarrow> nat" where
  "ccr_shift cfg Event_select = 0"
| "ccr_shift cfg Umask = 8"
| "ccr_shift cfg Reset = 17"
| "ccr_shift cfg Edge = 18"
| "ccr_shift cfg Ov_en = 20"
| "ccr_shift cfg Enable = 22"
| "ccr_shift cfg Invert = 23"
| "ccr_shift cfg Thresh = 24"
| "ccr_shift cfg Ch_mask = 36"
| "ccr_shift cfg Fc_mask = FC_MASK_SHIFT cfg"

fun ccr_mask :: "ccr_config \<Rightarrow> ccr_field \<Rightarrow> u64" where
  "ccr_mask cfg Event_select = 0xFF"
| "ccr_mask cfg Umask = push_bit 8 0xFF"
| "ccr_mask cfg Reset = push_bit 17 0x01"
| "ccr_mask cfg Edge = push_bit 18 0x01"
| "ccr_mask cfg Ov_en = push_bit 20 0x01"
| "ccr_mask cfg Enable = push_bit 22 0x01"
| "ccr_mask cfg Invert = push_bit 23 0x01"
| "ccr_mask cfg Thresh = push_bit 24 0xFFF"
| "ccr_mask cfg Ch_mask = CH_MASK cfg"
| "ccr_mask cfg Fc_mask = FC_MASK cfg"

definition ccr_get :: "ccr_config \<Rightarrow> ccr_field \<Rightarrow> u64 \<Rightarrow> u64" where
  "ccr_get cfg f ccr_value = drop_bit (ccr_shift cfg f) (ccr_value AND ccr_mask cfg f)"

definition ccr_set :: "ccr_config \<Rightarrow> ccr_field \<Rightarrow> u64 \<Rightarrow> u64 \<Rightarrow> u64" where
  "ccr_set cfg f value ccr_value =
     (ccr_value AND NOT (ccr_mask cfg f)) OR (push_bit (ccr_shift cfg f) value AND ccr_mask cfg f)"

section \<open>Parsing event lines\<close>

datatype counter_type = COUNTER_TYPE_INVALID | CT_iio

record counter =
  h_event_name :: string
  v_event_name :: string
  ctr_ccr :: u64
  ctr_idx :: int
  multiplier :: int
  divider :: int
  ctr_h_id :: u32
  ctr_v_id :: u32
  ctr_type :: counter_type

definition counter_default :: counter where
  "counter_default = \<lparr>h_event_name = [], v_event_name = [], ctr_ccr = 0, ctr_idx = 0, multiplier = 0,
     divider = 0, ctr_h_id = 0, ctr_v_id = 0, ctr_type = COUNTER_TYPE_INVALID\<rparr>"

datatype evt_cb_type = EVT_LINE_START | EVT_LINE_FIELD | EVT_LINE_COMPLETE

text \<open>\<^verbatim>\<open>PCM::PerfmonField\<close>: the enumerators in declaration order.\<close>

definition INVALID :: u32 where "INVALID = 0"
definition OPCODE :: u32 where "OPCODE = 1"
definition EVENT_SELECT :: u32 where "EVENT_SELECT = 2"
definition UMASK :: u32 where "UMASK = 3"
definition RESET :: u32 where "RESET = 4"
definition EDGE_DET :: u32 where "EDGE_DET = 5"
definition IGNORED :: u32 where "IGNORED = 6"
definition OVERFLOW_ENABLE :: u32 where "OVERFLOW_ENABLE = 7"
definition ENABLE :: u32 where "ENABLE = 8"
definition INVERT :: u32 where "INVERT = 9"
definition THRESH :: u32 where "THRESH = 10"
definition CH_MASK_F :: u32 where "CH_MASK_F = 11"
definition FC_MASK_F :: u32 where "FC_MASK_F = 12"
definition UNIT_TYPE :: u32 where "UNIT_TYPE = 13"
definition H_EVENT_NAME :: u32 where "H_EVENT_NAME = 14"
definition V_EVENT_NAME :: u32 where "V_EVENT_NAME = 15"
definition MULTIPLIER :: u32 where "MULTIPLIER = 16"
definition DIVIDER :: u32 where "DIVIDER = 17"
definition COUNTER_INDEX :: u32 where "COUNTER_INDEX = 18"

lemmas perfmon_field_defs =
  INVALID_def OPCODE_def EVENT_SELECT_def UMASK_def RESET_def EDGE_DET_def IGNORED_def
  OVERFLOW_ENABLE_def ENABLE_def INVERT_def THRESH_def CH_MASK_F_def FC_MASK_F_def UNIT_TYPE_def
  H_EVENT_NAME_def V_EVENT_NAME_def MULTIPLIER_def DIVIDER_def COUNTER_INDEX_def

type_synonym ofm = "(string \<times> u32) list"
type_synonym name_map = "(string \<times> (u32 \<times> (string \<times> u32) list)) list"

definition ofm_index :: "ofm \<Rightarrow> string \<Rightarrow> u32 \<times> ofm" where
  "ofm_index m key =
     (case map_of m key of Some v \<Rightarrow> (v, m) | None \<Rightarrow> (0, AList.update key 0 m))"

type_synonym 'c evt_cb =
  "evt_cb_type \<Rightarrow> 'c \<Rightarrow> counter \<Rightarrow> ofm \<Rightarrow> string \<Rightarrow> u64 \<Rightarrow> (bool \<times> 'c \<times> counter \<times> ofm) result"

record 'c load_state =
  ls_ctx :: 'c
  ls_ctr :: counter
  ls_ofm :: ofm
  ls_names :: name_map

definition call_evtcb ::
  "'c evt_cb \<Rightarrow> evt_cb_type \<Rightarrow> string \<Rightarrow> u64 \<Rightarrow> 'c load_state \<Rightarrow> 'c load_state result" where
  "call_evtcb cb ty key v st =
     (case cb ty (ls_ctx st) (ls_ctr st) (ls_ofm st) key v of
        Inl e \<Rightarrow> Inl e
      | Inr (fail, ctx, ctr, m) \<Rightarrow>
          if fail then Inl (Invalid_argument ''event line processing fault.'')
          else Inr (st\<lparr>ls_ctx := ctx, ls_ctr := ctr, ls_ofm := m\<rparr>))"

definition load_h_name :: "string \<Rightarrow> 'c load_state \<Rightarrow> 'c load_state" where
  "load_h_name h_name st =
     (let names = (if map_of (ls_names st) h_name = None
                   then AList.update h_name (of_nat (length (ls_names st)), []) (ls_names st)
                   else ls_names st)
      in st\<lparr>ls_names := names,
            ls_ctr := (ls_ctr st)\<lparr>h_event_name := h_name, ctr_h_id := of_nat (length names) - 1\<rparr>\<rparr>)"

definition load_v_name :: "string \<Rightarrow> string \<Rightarrow> 'c load_state \<Rightarrow> 'c load_state result" where
  "load_v_name h_name v_name st =
     (let (hid, vmap) = (case map_of (ls_names st) h_name of Some p \<Rightarrow> p | None \<Rightarrow> (0, [])) in
      if map_of vmap v_name \<noteq> None then Inl (Invalid_argument ''Detect duplicated v_name'')
      else let vmap' = AList.update v_name (of_nat (length vmap) - 1) vmap
           in Inr (st\<lparr>ls_names := AList.update h_name (hid, vmap') (ls_names st),
                      ls_ctr := (ls_ctr st)\<lparr>v_event_name := v_name, ctr_v_id := of_nat (length vmap') - 1\<rparr>\<rparr>))"

definition to_int32 :: "u64 \<Rightarrow> int" where
  "to_int32 v = sint (ucast v :: u32)"

text \<open>One \<^verbatim>\<open>key=value\<close> item. \<open>junk\<close> is the indeterminate initial value of \<^verbatim>\<open>numValue\<close>, which
  survives only when the value is all white space.\<close>

definition load_item ::
  "'c evt_cb \<Rightarrow> u64 \<Rightarrow> string \<Rightarrow> 'c load_state \<times> string \<Rightarrow> ('c load_state \<times> string) result" where
  "load_item cb junk item acc =
     (let (st, h_name) = acc; (key, value) = split_at_char CHR ''='' item in
      if key = [] \<or> value = [] then Inr (st, h_name)
      else let numValue = of_nat (fst (is_read_unsigned 64 ((istringstream value)\<lparr>is_base := Detect\<rparr>) (unat junk)));
               (field, m) = ofm_index (ls_ofm st) key;
               st = st\<lparr>ls_ofm := m\<rparr>;
               ctr = ls_ctr st
           in if field = H_EVENT_NAME then Inr (load_h_name (dos2unix value) st, dos2unix value)
              else if field = V_EVENT_NAME then
                (case load_v_name h_name (dos2unix value) st of Inl e \<Rightarrow> Inl e | Inr st' \<Rightarrow> Inr (st', h_name))
              else if field = MULTIPLIER then Inr (st\<lparr>ls_ctr := ctr\<lparr>multiplier := to_int32 numValue\<rparr>\<rparr>, h_name)
              else if field = DIVIDER then Inr (st\<lparr>ls_ctr := ctr\<lparr>divider := to_int32 numValue\<rparr>\<rparr>, h_name)
              else if field = COUNTER_INDEX then Inr (st\<lparr>ls_ctr := ctr\<lparr>ctr_idx := to_int32 numValue\<rparr>\<rparr>, h_name)
              else if field = UNIT_TYPE then
                (if dos2unix value = ''iio'' then Inr (st\<lparr>ls_ctr := ctr\<lparr>ctr_type := CT_iio\<rparr>\<rparr>, h_name)
                 else Inl (Invalid_argument ''event line processing(end) fault.''))
              else (case call_evtcb cb EVT_LINE_FIELD key numValue st of
                      Inl e \<Rightarrow> Inl e | Inr st' \<Rightarrow> Inr (st', h_name)))"

fun load_items ::
  "'c evt_cb \<Rightarrow> u64 \<Rightarrow> string list \<Rightarrow> 'c load_state \<times> string \<Rightarrow> ('c load_state \<times> string) result" where
  "load_items cb junk [] acc = Inr acc"
| "load_items cb junk (i # is) acc =
     (case load_item cb junk i acc of Inl e \<Rightarrow> Inl e | Inr acc' \<Rightarrow> load_items cb junk is acc')"

definition load_line :: "'c evt_cb \<Rightarrow> u64 \<Rightarrow> string \<Rightarrow> 'c load_state \<Rightarrow> 'c load_state result" where
  "load_line cb junk line st =
     (let st = st\<lparr>ls_ctr := (ls_ctr st)\<lparr>h_event_name := ''INVALID'', v_event_name := ''INVALID'',
           ctr_ccr := 0, ctr_idx := 0, multiplier := 1, divider := 1, ctr_h_id := 0, ctr_v_id := 0\<rparr>\<rparr> in
      case call_evtcb cb EVT_LINE_START [] 0 st of
        Inl e \<Rightarrow> Inl e
      | Inr st \<Rightarrow>
          if CHR ''#'' \<in> set line \<or> CHR ''='' \<notin> set line then Inr st
          else (case load_items cb junk (split line CHR '','') (st, []) of
                  Inl e \<Rightarrow> Inl e
                | Inr (st', _) \<Rightarrow> call_evtcb cb EVT_LINE_COMPLETE [] 0 st'))"

fun load_lines :: "'c evt_cb \<Rightarrow> u64 \<Rightarrow> string list \<Rightarrow> 'c load_state \<Rightarrow> 'c load_state result" where
  "load_lines cb junk [] st = Inr st"
| "load_lines cb junk (l # ls) st =
     (case load_line cb junk l st of Inl e \<Rightarrow> Inl e | Inr st' \<Rightarrow> load_lines cb junk ls st')"

text \<open>\<open>fs\<close> is the file system (the lines of a readable file), \<open>prefix\<close> the compiled-in install
  prefix of \<^verbatim>\<open>getInstallPathPrefix\<close>.\<close>

definition getInstallPathPrefix :: "string \<Rightarrow> string" where
  "getInstallPathPrefix prefix = prefix @ ''/share/pcm/''"

definition load_events ::
  "(string \<Rightarrow> string list option) \<Rightarrow> string \<Rightarrow> 'c evt_cb \<Rightarrow> u64 \<Rightarrow> string \<Rightarrow> ofm \<Rightarrow> 'c \<Rightarrow> name_map
     \<Rightarrow> 'c load_state result" where
  "load_events fs prefix cb junk fn m ctx names =
     (let init = \<lparr>ls_ctx = ctx, ls_ctr = counter_default, ls_ofm = m, ls_names = names\<rparr> in
      case fs fn of
        Some lines \<Rightarrow> load_lines cb junk lines init
      | None \<Rightarrow>
          (case fs (getInstallPathPrefix prefix @ fn) of
             Some lines \<Rightarrow> load_lines cb junk lines init
           | None \<Rightarrow> Inl (Invalid_argument ''event config file is not available'')))"

section \<open>The IIO callback\<close>

record iio_evt_parse_context =
  cpu_family_model :: "ccr_config option"
  ctx_ctr :: counter
  ctx_ctrs :: "counter list"

fun perfmon_ccr_field :: "u32 \<Rightarrow> ccr_field option" where
  "perfmon_ccr_field f =
     (if f = EVENT_SELECT then Some Event_select else if f = UMASK then Some Umask
      else if f = RESET then Some Reset else if f = EDGE_DET then Some Edge
      else if f = OVERFLOW_ENABLE then Some Ov_en else if f = ENABLE then Some Enable
      else if f = INVERT then Some Invert else if f = THRESH then Some Thresh
      else if f = CH_MASK_F then Some Ch_mask else if f = FC_MASK_F then Some Fc_mask else None)"

fun iio_evt_parse_handler :: "iio_evt_parse_context evt_cb" where
  "iio_evt_parse_handler EVT_LINE_START context base_ctr m key numValue =
     Inr (False, context\<lparr>ctx_ctr := (ctx_ctr context)\<lparr>ctr_ccr := 0\<rparr>\<rparr>, base_ctr, m)"
| "iio_evt_parse_handler EVT_LINE_FIELD context base_ctr m key numValue =
     (case cpu_family_model context of
        None \<Rightarrow> Inl Exit_failure
      | Some cfg \<Rightarrow>
          (let (field, m') = ofm_index m key; c = ctx_ctr context in
           if field = OPCODE \<or> field = IGNORED then Inr (False, context, base_ctr, m')
           else case perfmon_ccr_field field of
                  Some f \<Rightarrow> Inr (False, context\<lparr>ctx_ctr := c\<lparr>ctr_ccr := ccr_set cfg f numValue (ctr_ccr c)\<rparr>\<rparr>,
                                base_ctr, m')
                | None \<Rightarrow> Inr (True, context, base_ctr, m')))"
| "iio_evt_parse_handler EVT_LINE_COMPLETE context base_ctr m key numValue =
     (let c = (ctx_ctr context)\<lparr>h_event_name := h_event_name base_ctr, v_event_name := v_event_name base_ctr,
                ctr_idx := ctr_idx base_ctr, multiplier := multiplier base_ctr,
                ctr_h_id := ctr_h_id base_ctr, ctr_v_id := ctr_v_id base_ctr, ctr_type := ctr_type base_ctr\<rparr>
      in Inr (False, context\<lparr>ctx_ctr := c, ctx_ctrs := ctx_ctrs context @ [c]\<rparr>, base_ctr, m))"

definition fillOpcodeFieldMapForPCIeEvents :: ofm where
  "fillOpcodeFieldMapForPCIeEvents =
     [(''opcode'', OPCODE), (''ev_sel'', EVENT_SELECT), (''umask'', UMASK), (''reset'', RESET),
      (''edge_det'', EDGE_DET), (''ignored'', IGNORED), (''overflow_enable'', OVERFLOW_ENABLE),
      (''en'', ENABLE), (''invert'', INVERT), (''thresh'', THRESH), (''ch_mask'', CH_MASK_F),
      (''fc_mask'', FC_MASK_F), (''hname'', H_EVENT_NAME), (''vname'', V_EVENT_NAME),
      (''multiplier'', MULTIPLIER), (''ctr'', COUNTER_INDEX), (''unit'', UNIT_TYPE)]"

definition setupPCIeEventContextAndNameMap ::
  "(string \<Rightarrow> string list option) \<Rightarrow> string \<Rightarrow> u64 \<Rightarrow> nat \<Rightarrow> nat \<Rightarrow> ccr_config option
     \<Rightarrow> counter \<Rightarrow> name_map \<Rightarrow> (iio_evt_parse_context \<times> name_map) option result" where
  "setupPCIeEventContextAndNameMap fs prefix junk cpu_family cpu_model cfg ctr0 nameMap =
     (let ev_file_name = ''opCode-'' @ dec_string cpu_family @ ''-'' @ dec_string cpu_model @ ''.txt'';
          ctx = \<lparr>cpu_family_model = cfg, ctx_ctr = ctr0, ctx_ctrs = []\<rparr>
      in case load_events fs prefix iio_evt_parse_handler junk ev_file_name
              fillOpcodeFieldMapForPCIeEvents ctx nameMap of
           Inl Exit_failure \<Rightarrow> Inl Exit_failure
         | Inl _ \<Rightarrow> Inr None
         | Inr st \<Rightarrow> Inr (Some (ls_ctx st, ls_names st)))"

text \<open>The table header: slot \<open>h_id\<close> gets the name; the \<^verbatim>\<open>vector\<close> write \<^verbatim>\<open>tmp[h_id]\<close> out of range is
  undefined, here \<open>None\<close>.\<close>

fun place_names :: "name_map \<Rightarrow> string list \<Rightarrow> string list option" where
  "place_names [] tmp = Some tmp"
| "place_names ((h_name, (h_id, _)) # ns) tmp =
     (if unat h_id < length tmp then place_names ns (tmp[unat h_id := h_name]) else None)"

definition combine_stack_name_and_counter_names :: "string \<Rightarrow> name_map \<Rightarrow> string list option" where
  "combine_stack_name_and_counter_names stack_name nameMap =
     (case place_names nameMap (replicate (length nameMap) []) of
        None \<Rightarrow> None | Some tmp \<Rightarrow> Some (stack_name # tmp))"

section \<open>The accessors agree with the bit-field unions\<close>

fun ccr_name :: "ccr_field \<Rightarrow> string" where
  "ccr_name Event_select = ''event_select''"
| "ccr_name Umask = ''umask''"
| "ccr_name Reset = ''reset''"
| "ccr_name Edge = ''edge_det''"
| "ccr_name Ov_en = ''overflow_enable''"
| "ccr_name Enable = ''enable''"
| "ccr_name Invert = ''invert''"
| "ccr_name Thresh = ''thresh''"
| "ccr_name Ch_mask = ''ch_mask''"
| "ccr_name Fc_mask = ''fc_mask''"

lemma ccr_set_insertBits:
  assumes "ccr_mask cfg f = push_bit (ccr_shift cfg f) (mask w)" and "w < 64"
  shows "ccr_set cfg f x v = insertBits v x (ccr_shift cfg f) w"
  using assms by (simp add: ccr_set_def insertBits_def Let_def mask_eq_exp_minus_1 push_bit_and)

lemma ccr_get_take_bit:
  assumes "ccr_mask cfg f = push_bit (ccr_shift cfg f) (mask w)" and "ccr_shift cfg f + w \<le> 64"
  shows "ccr_get cfg f v = take_bit w (drop_bit (ccr_shift cfg f) v)"
  using assms by (intro bit_word_eqI) (auto simp: ccr_get_def bit_simps)

lemma small_masks:
  "(0xFF :: u64) = mask 8" "(0xFFF :: u64) = mask 12" "(0x07 :: u64) = mask 3" "(0x01 :: u64) = mask 1"
  by (simp_all add: mask_eq_exp_minus_1)

lemma skx_layout:
  "ccr_shift skx_ccrs f = field_off IIOPMUCNTCTLRegister (ccr_name f) \<and>
   ccr_mask skx_ccrs f = push_bit (ccr_shift skx_ccrs f) (mask (field_width IIOPMUCNTCTLRegister (ccr_name f))) \<and>
   field_width IIOPMUCNTCTLRegister (ccr_name f) \<le> 12 \<and>
   ccr_shift skx_ccrs f + field_width IIOPMUCNTCTLRegister (ccr_name f) \<le> 64"
  by (cases f) (simp_all add: skx_ccrs_def mk_ccr_config_def IIOPMUCNTCTLRegister_def mask_eq_exp_minus_1)

lemma icx_layout:
  "ccr_shift icx_ccrs f = field_off ICX_IIOPMUCNTCTLRegister (ccr_name f) \<and>
   ccr_mask icx_ccrs f = push_bit (ccr_shift icx_ccrs f) (mask (field_width ICX_IIOPMUCNTCTLRegister (ccr_name f))) \<and>
   field_width ICX_IIOPMUCNTCTLRegister (ccr_name f) \<le> 12 \<and>
   ccr_shift icx_ccrs f + field_width ICX_IIOPMUCNTCTLRegister (ccr_name f) \<le> 64"
  by (cases f) (simp_all add: icx_ccrs_def mk_ccr_config_def ICX_IIOPMUCNTCTLRegister_def mask_eq_exp_minus_1)

lemma ccr_skx_eq:
  "ccr_set skx_ccrs f x v = set_field IIOPMUCNTCTLRegister (ccr_name f) x v"
  "ccr_get skx_ccrs f v = get_field IIOPMUCNTCTLRegister (ccr_name f) v"
  using skx_layout [of f]
  by (simp_all add: set_field_def get_field_def ccr_get_take_bit
      ccr_set_insertBits [where w = "field_width IIOPMUCNTCTLRegister (ccr_name f)"])

lemma ccr_icx_eq:
  "ccr_set icx_ccrs f x v = set_field ICX_IIOPMUCNTCTLRegister (ccr_name f) x v"
  "ccr_get icx_ccrs f v = get_field ICX_IIOPMUCNTCTLRegister (ccr_name f) v"
  using icx_layout [of f]
  by (simp_all add: set_field_def get_field_def ccr_get_take_bit
      ccr_set_insertBits [where w = "field_width ICX_IIOPMUCNTCTLRegister (ccr_name f)"])

lemma ccr_name_fields:
  "ccr_name f \<in> fst ` set IIOPMUCNTCTLRegister" "ccr_name f \<in> fst ` set ICX_IIOPMUCNTCTLRegister"
  by (cases f; simp add: IIOPMUCNTCTLRegister_def ICX_IIOPMUCNTCTLRegister_def)+

lemma ccr_name_inj: "ccr_name f = ccr_name g \<longleftrightarrow> f = g"
  by (cases f; cases g) simp_all

interpretation skx_ccr: register_fields "ccr_get skx_ccrs" "ccr_set skx_ccrs" "\<lambda>_. True"
    "\<lambda>f. field_width IIOPMUCNTCTLRegister (ccr_name f)"
  by unfold_locales
    (simp_all add: ccr_skx_eq ccr_name_fields iio.get_put_same iio.get_put_other ccr_name_inj)

interpretation icx_ccr: register_fields "ccr_get icx_ccrs" "ccr_set icx_ccrs" "\<lambda>_. True"
    "\<lambda>f. field_width ICX_IIOPMUCNTCTLRegister (ccr_name f)"
  by unfold_locales
    (simp_all add: ccr_icx_eq ccr_name_fields icxiio.get_put_same icxiio.get_put_other ccr_name_inj)

text \<open>C32: the mask-and-shift accessors of the class \<^verbatim>\<open>ccr\<close> are the bit-field unions of
  \<^verbatim>\<open>types.h\<close>: on Skylake servers every getter and setter agrees with the field of
  \<^verbatim>\<open>IIOPMUCNTCTLRegister\<close>, on Ice Lake and later with \<^verbatim>\<open>ICX_IIOPMUCNTCTLRegister\<close>; so each setter
  changes its own field only.\<close>

theorem ccr_agrees_with_bitfields:
  "ccr_get skx_ccrs f v = get_field IIOPMUCNTCTLRegister (ccr_name f) v \<and>
   ccr_set skx_ccrs f x v = set_field IIOPMUCNTCTLRegister (ccr_name f) x v \<and>
   ccr_get icx_ccrs f v = get_field ICX_IIOPMUCNTCTLRegister (ccr_name f) v \<and>
   ccr_set icx_ccrs f x v = set_field ICX_IIOPMUCNTCTLRegister (ccr_name f) x v \<and>
   (f = g \<or> ccr_get skx_ccrs g (ccr_set skx_ccrs f x v) = ccr_get skx_ccrs g v
          \<and> ccr_get icx_ccrs g (ccr_set icx_ccrs f x v) = ccr_get icx_ccrs g v)"
  by (auto simp: skx_ccr.get_put_other icx_ccr.get_put_other) (simp_all add: ccr_skx_eq ccr_icx_eq)

section \<open>Name identifiers stay in range\<close>

definition names_ok :: "name_map \<Rightarrow> bool" where
  "names_ok nm = list_all (\<lambda>(h, (i, vs)). unat i < length nm) nm"

lemma length_update:
  "length (AList.update k v m) = (if map_of m k = None then Suc (length m) else length m)"
  by (induction m) auto

lemma update_set_subset: "x \<in> set (AList.update k v m) \<Longrightarrow> x = (k, v) \<or> x \<in> set m"
  by (induction m) (auto split: if_splits)

lemma map_of_in: "map_of m k = Some v \<Longrightarrow> (k, v) \<in> set m"
  by (rule map_of_SomeD)

lemma names_ok_update:
  assumes "names_ok nm" and "unat i < length (AList.update h (i, vs) nm)"
  shows "names_ok (AList.update h (i, vs) nm)"
proof -
  have "length nm \<le> length (AList.update h (i, vs) nm)" by (simp add: length_update)
  with assms show ?thesis
    unfolding names_ok_def list_all_iff by (fastforce dest: update_set_subset)
qed

lemma load_h_name_ok:
  assumes "names_ok (ls_names st)" and "length (ls_names (load_h_name h st)) < 2 ^ 32"
  shows "names_ok (ls_names (load_h_name h st))"
proof (cases "map_of (ls_names st) h")
  case None
  with assms(2) have "Suc (length (ls_names st)) < 2 ^ 32"
    by (simp add: load_h_name_def Let_def length_update)
  with None assms(1) show ?thesis
    by (simp add: load_h_name_def Let_def names_ok_update length_update unat_of_nat)
next
  case (Some p)
  with assms(1) show ?thesis by (simp add: load_h_name_def Let_def)
qed

lemma load_v_name_ok:
  assumes "load_v_name h v st = Inr st'" and "names_ok (ls_names st)"
  shows "names_ok (ls_names st') \<and> length (ls_names st) \<le> length (ls_names st')"
proof (cases "map_of (ls_names st) h")
  case None
  with assms show ?thesis
    by (auto simp: load_v_name_def Let_def length_update intro!: names_ok_update split: if_splits)
next
  case (Some p)
  obtain i vs where p: "p = (i, vs)" by (cases p)
  with Some have "(h, (i, vs)) \<in> set (ls_names st)" by (simp add: map_of_in)
  with assms(2) have "unat i < length (ls_names st)" by (auto simp: names_ok_def list_all_iff)
  with Some p assms show ?thesis
    by (auto simp: load_v_name_def Let_def length_update intro!: names_ok_update split: if_splits)
qed

lemma call_evtcb_names: "call_evtcb cb ty key v st = Inr st' \<Longrightarrow> ls_names st' = ls_names st"
  by (auto simp: call_evtcb_def split: sum.splits if_splits)

lemma load_h_name_length: "length (ls_names st) \<le> length (ls_names (load_h_name h st))"
  by (simp add: load_h_name_def Let_def length_update)

text \<open>One step of the parser keeps the identifiers in range and never forgets a name.\<close>

definition names_step :: "'c load_state \<Rightarrow> 'c load_state \<Rightarrow> bool" where
  "names_step st st' \<longleftrightarrow> length (ls_names st) \<le> length (ls_names st') \<and>
     (names_ok (ls_names st) \<longrightarrow> length (ls_names st') < 2 ^ 32 \<longrightarrow> names_ok (ls_names st'))"

lemma names_step_refl: "ls_names st' = ls_names st \<Longrightarrow> names_step st st'"
  by (simp add: names_step_def)

lemma names_step_trans: "names_step a b \<Longrightarrow> names_step b c \<Longrightarrow> names_step a c"
  by (auto simp: names_step_def)

lemma load_item_names:
  assumes "load_item cb junk item (st, h) = Inr (st', h')"
  shows "names_step st st'"
proof -
  have hn: "names_step st (load_h_name g (st\<lparr>ls_ofm := m\<rparr>))" for g m
    using load_h_name_ok [of "st\<lparr>ls_ofm := m\<rparr>" g] load_h_name_length [of "st\<lparr>ls_ofm := m\<rparr>" g]
    by (simp add: names_step_def)
  have vn: "load_v_name g v (st\<lparr>ls_ofm := m\<rparr>) = Inr st'' \<Longrightarrow> names_step st st''" for g v m st''
    using load_v_name_ok [of g v "st\<lparr>ls_ofm := m\<rparr>" st'']
    by (auto simp: names_step_def load_v_name_def Let_def length_update split: if_splits prod.splits)
  have cn: "call_evtcb cb ty key v (st\<lparr>ls_ofm := m\<rparr>) = Inr st'' \<Longrightarrow> names_step st st''"
    for ty key v m st'' by (auto dest!: call_evtcb_names intro: names_step_refl)
  from assms show ?thesis
    by (auto simp: load_item_def Let_def hn split: prod.splits if_splits sum.splits
        intro: vn cn names_step_refl)
qed

lemma load_items_names:
  "load_items cb junk is (st, h) = Inr (st', h') \<Longrightarrow> names_step st st'"
proof (induction "is" arbitrary: st h)
  case Nil
  then show ?case by (simp add: names_step_refl)
next
  case (Cons i "is")
  then show ?case
    by (auto split: sum.splits intro: names_step_trans load_item_names)
qed

lemma load_line_names: "load_line cb junk l st = Inr st' \<Longrightarrow> names_step st st'"
proof -
  assume a: "load_line cb junk l st = Inr st'"
  show ?thesis
  proof (rule names_step_trans)
    show "names_step st (st\<lparr>ls_ctr := c\<rparr>)" for c by (simp add: names_step_refl)
    from a show "names_step (st\<lparr>ls_ctr := undefined\<rparr>) st'"
      by (auto simp: load_line_def Let_def names_step_def split: sum.splits if_splits prod.splits
          dest!: call_evtcb_names load_items_names)
  qed
qed

lemma load_lines_names: "load_lines cb junk ls st = Inr st' \<Longrightarrow> names_step st st'"
proof (induction ls arbitrary: st)
  case Nil
  then show ?case by (simp add: names_step_refl)
next
  case (Cons l ls)
  then show ?case
    by (auto split: sum.splits intro: names_step_trans load_line_names)
qed

lemma load_events_names_ok:
  assumes "load_events fs prefix cb junk fn m ctx [] = Inr st" and "length (ls_names st) < 2 ^ 32"
  shows "names_ok (ls_names st)"
proof -
  have "names_step \<lparr>ls_ctx = ctx, ls_ctr = counter_default, ls_ofm = m, ls_names = []\<rparr> st"
    using assms(1) by (auto simp: load_events_def Let_def split: option.splits dest: load_lines_names)
  with assms(2) show ?thesis by (simp add: names_step_def names_ok_def)
qed

lemma place_names_length: "place_names nm tmp = Some tmp' \<Longrightarrow> length tmp' = length tmp"
  by (induction nm tmp rule: place_names.induct) (auto split: if_splits)

lemma place_names_Some:
  "list_all (\<lambda>(h, (i, vs)). unat i < length tmp) nm \<Longrightarrow> \<exists>tmp'. place_names nm tmp = Some tmp'"
  by (induction nm tmp rule: place_names.induct) auto

text \<open>Whatever event file was loaded and whatever callback processed it, every horizontal
  name identifier is below the number of names, so building the table header from the name map
  never writes outside its vector and has one column per name plus the stack name.\<close>

lemma load_events_header_safe:
  assumes "load_events fs prefix cb junk fn m ctx [] = Inr st" and "length (ls_names st) < 2 ^ 32"
  shows "\<exists>hdr. combine_stack_name_and_counter_names stack (ls_names st) = Some hdr \<and>
     length hdr = length (ls_names st) + 1 \<and> hd hdr = stack"
proof -
  have "list_all (\<lambda>(h, (i, vs)). unat i < length (replicate (length (ls_names st)) [])) (ls_names st)"
    using load_events_names_ok [OF assms] by (simp add: names_ok_def)
  then obtain tmp where "place_names (ls_names st) (replicate (length (ls_names st)) []) = Some tmp"
    using place_names_Some by blast
  with place_names_length [OF this] show ?thesis
    by (simp add: combine_stack_name_and_counter_names_def)
qed

lemma load_example:
  "\<exists>st. load_events (\<lambda>fn. Some [''hname=A,vname=B'']) ''/usr'' iio_evt_parse_handler 0 ''f''
     fillOpcodeFieldMapForPCIeEvents
     \<lparr>cpu_family_model = Some skx_ccrs, ctx_ctr = counter_default, ctx_ctrs = []\<rparr> [] = Inr st \<and>
     ls_names st = [(''A'', (0, [(''B'', - 1)]))]"
  by (simp add: load_events_def load_line_def Let_def call_evtcb_def split_unfold load_item_def
      split_at_char_def ofm_index_def fillOpcodeFieldMapForPCIeEvents_def perfmon_field_defs
      load_h_name_def load_v_name_def dos2unix_def)

text \<open>A name seen before keeps its identifier in the map, but the counter of the line gets the
  identifier of the most recently added name instead.\<close>

lemma h_id_of_known_name:
  "map_of (ls_names st) h = Some (i, vs) \<Longrightarrow>
   ctr_h_id (ls_ctr (load_h_name h st)) = of_nat (length (ls_names st)) - 1 \<and>
   ls_names (load_h_name h st) = ls_names st"
  by (simp add: load_h_name_def)

section \<open>A rendered event line parses back\<close>

fun ccr_key :: "ccr_field \<Rightarrow> string" where
  "ccr_key Event_select = ''ev_sel''"
| "ccr_key Umask = ''umask''"
| "ccr_key Reset = ''reset''"
| "ccr_key Edge = ''edge_det''"
| "ccr_key Ov_en = ''overflow_enable''"
| "ccr_key Enable = ''en''"
| "ccr_key Invert = ''invert''"
| "ccr_key Thresh = ''thresh''"
| "ccr_key Ch_mask = ''ch_mask''"
| "ccr_key Fc_mask = ''fc_mask''"

definition render_field :: "ccr_field \<times> u64 \<Rightarrow> string" where
  "render_field p = ccr_key (fst p) @ ''=0x'' @ hex_string (unat (snd p))"

definition render_line :: "(ccr_field \<times> u64) list \<Rightarrow> string \<Rightarrow> string \<Rightarrow> string" where
  "render_line ps h v = join CHR '','' (map render_field ps @ [''hname='' @ h, ''vname='' @ v])"

lemma split_at_char_eq: "d \<notin> set k \<Longrightarrow> split_at_char d (k @ d # r) = (k, r)"
  by (simp add: split_at_char_def)

lemma hex_string_digits: "list_all (is_digit_of 16) (hex_string n)"
  by (simp add: hex_string_def digits_of_digits)

lemma hex_string_nonempty [simp]: "hex_string n \<noteq> []"
  by (simp add: hex_string_def)

lemma digits_value_hex_string [simp]: "digits_value 16 (hex_string n) = n"
  by (simp add: hex_string_def digits_value_digits_of)

lemma num_get_detect_hex:
  "n < 2 ^ 64 \<Longrightarrow> num_get 64 Detect (CHR ''0'' # CHR ''x'' # hex_string n) = (n, False, [])"
  using hex_string_digits [of n] by (simp add: num_get_def num_sign_def num_prefix_def Let_def)

lemma read_detect_hex:
  "fst (is_read_unsigned 64 ((istringstream (''0x'' @ hex_string (unat x)))\<lparr>is_base := Detect\<rparr>) junk) = unat x"
  for x :: u64
  by (subst is_read_unsigned_fresh [where c = "CHR ''0''" and s = "CHR ''x'' # hex_string (unat x)"])
    (simp_all add: istringstream_def is_space_def num_get_detect_hex)

lemma ccr_key_known:
  "ccr_key f \<noteq> []" "CHR ''='' \<notin> set (ccr_key f)" "CHR '','' \<notin> set (ccr_key f)" "CHR ''#'' \<notin> set (ccr_key f)"
  "\<exists>w. map_of fillOpcodeFieldMapForPCIeEvents (ccr_key f) = Some w \<and> perfmon_ccr_field w = Some f \<and>
     w \<notin> {H_EVENT_NAME, V_EVENT_NAME, MULTIPLIER, DIVIDER, COUNTER_INDEX, UNIT_TYPE, OPCODE, IGNORED}"
  by (cases f; simp add: fillOpcodeFieldMapForPCIeEvents_def perfmon_field_defs)+

lemma hex_digit_plain: "is_digit_of 16 c \<Longrightarrow> c \<noteq> CHR '','' \<and> c \<noteq> CHR ''#''"
  by (auto simp: is_digit_of_def digit_val_def)

lemma render_field_plain: "CHR '','' \<notin> set (render_field p)" "CHR ''#'' \<notin> set (render_field p)"
  using hex_string_digits [of "unat (snd p)"] ccr_key_known(3,4) [of "fst p"] hex_digit_plain
  by (auto simp: render_field_def list_all_iff)

definition set_ccr_fields :: "ccr_config \<Rightarrow> (ccr_field \<times> u64) list \<Rightarrow> u64 \<Rightarrow> u64" where
  "set_ccr_fields cfg ps v = fold (\<lambda>(f, x) r. ccr_set cfg f x r) ps v"

lemma load_item_field:
  assumes "ls_ofm st = fillOpcodeFieldMapForPCIeEvents" and "cpu_family_model (ls_ctx st) = Some cfg"
  shows "load_item iio_evt_parse_handler junk (render_field (f, x)) (st, h) =
    Inr (st\<lparr>ls_ctx := (ls_ctx st)\<lparr>ctx_ctr := (ctx_ctr (ls_ctx st))
       \<lparr>ctr_ccr := ccr_set cfg f x (ctr_ccr (ctx_ctr (ls_ctx st)))\<rparr>\<rparr>\<rparr>, h)"
proof -
  obtain w where w: "map_of fillOpcodeFieldMapForPCIeEvents (ccr_key f) = Some w"
    "perfmon_ccr_field w = Some f"
    "w \<notin> {H_EVENT_NAME, V_EVENT_NAME, MULTIPLIER, DIVIDER, COUNTER_INDEX, UNIT_TYPE, OPCODE, IGNORED}"
    using ccr_key_known(5) by blast
  have "split_at_char CHR ''='' (render_field (f, x)) = (ccr_key f, ''0x'' @ hex_string (unat x))"
    using split_at_char_eq [OF ccr_key_known(2)] by (simp add: render_field_def)
  then show ?thesis
    using w assms ccr_key_known(1) [of f] read_detect_hex [of x]
    by (cases st) (simp add: load_item_def ofm_index_def call_evtcb_def Let_def del: perfmon_ccr_field.simps)
qed

lemma load_items_fields:
  assumes "ls_ofm st = fillOpcodeFieldMapForPCIeEvents" and "cpu_family_model (ls_ctx st) = Some cfg"
  shows "load_items iio_evt_parse_handler junk (map render_field ps @ is) (st, h) =
    load_items iio_evt_parse_handler junk is
      (st\<lparr>ls_ctx := (ls_ctx st)\<lparr>ctx_ctr := (ctx_ctr (ls_ctx st))
         \<lparr>ctr_ccr := set_ccr_fields cfg ps (ctr_ccr (ctx_ctr (ls_ctx st)))\<rparr>\<rparr>\<rparr>, h)"
  using assms
proof (induction ps arbitrary: st)
  case Nil
  then show ?case by (simp add: set_ccr_fields_def)
next
  case (Cons p ps)
  then show ?case by (cases p) (simp add: load_item_field set_ccr_fields_def)
qed

lemma load_item_hname:
  assumes "ls_ofm st = fillOpcodeFieldMapForPCIeEvents" and "h \<noteq> []" and "last h \<noteq> CHR 0x0D"
  shows "load_item cb junk (''hname='' @ h) (st, g) = Inr (load_h_name h st, h)"
  using assms split_at_char_eq [of "CHR ''=''" "''hname''" h]
  by (cases st)
    (simp add: load_item_def ofm_index_def fillOpcodeFieldMapForPCIeEvents_def dos2unix_def perfmon_field_defs)

lemma load_item_vname:
  assumes "ls_ofm st = fillOpcodeFieldMapForPCIeEvents" and "v \<noteq> []" and "last v \<noteq> CHR 0x0D"
  shows "load_item cb junk (''vname='' @ v) (st, h) =
    (case load_v_name h v st of Inl e \<Rightarrow> Inl e | Inr st' \<Rightarrow> Inr (st', h))"
  using assms split_at_char_eq [of "CHR ''=''" "''vname''" v]
  by (cases st)
    (simp add: load_item_def ofm_index_def fillOpcodeFieldMapForPCIeEvents_def dos2unix_def perfmon_field_defs)

lemma split_render_line:
  assumes "CHR '','' \<notin> set h" and "CHR '','' \<notin> set v"
  shows "split (render_line ps h v) CHR '','' = map render_field ps @ [''hname='' @ h, ''vname='' @ v]"
  unfolding render_line_def
  using assms by (intro split_join) (auto simp: list_all_iff render_field_plain)

lemma set_join_subset: "set (join d ts) \<subseteq> insert d (\<Union> (set ` set ts))"
  by (induction d ts rule: join.induct) auto

lemma set_join_mem: "t \<in> set ts \<Longrightarrow> set t \<subseteq> set (join d ts)"
  by (induction d ts rule: join.induct) auto

lemma render_line_chars:
  assumes "CHR ''#'' \<notin> set h" and "CHR ''#'' \<notin> set v"
  shows "CHR ''#'' \<notin> set (render_line ps h v)" and "CHR ''='' \<in> set (render_line ps h v)"
proof -
  show "CHR ''#'' \<notin> set (render_line ps h v)"
    using assms set_join_subset [of "CHR '',''" "map render_field ps @ [''hname='' @ h, ''vname='' @ v]"]
    by (auto simp: render_line_def render_field_plain)
  have "set (''hname='' @ h) \<subseteq> set (render_line ps h v)"
    unfolding render_line_def by (rule set_join_mem) simp
  then show "CHR ''='' \<in> set (render_line ps h v)" by auto
qed

definition plain_name :: "string \<Rightarrow> bool" where
  "plain_name n \<longleftrightarrow> n \<noteq> [] \<and> last n \<noteq> CHR 0x0D \<and> CHR '','' \<notin> set n \<and> CHR ''#'' \<notin> set n"

lemma load_v_after_h:
  assumes "case map_of (ls_names st) h of None \<Rightarrow> True | Some (i, vs) \<Rightarrow> map_of vs v = None"
  shows "\<exists>st'. load_v_name h v (load_h_name h st) = Inr st' \<and> ls_ctx st' = ls_ctx st \<and>
     ls_ofm st' = ls_ofm st \<and> h_event_name (ls_ctr st') = h \<and> v_event_name (ls_ctr st') = v"
  using assms
  by (auto simp: load_v_name_def load_h_name_def Let_def update_conv' split: option.splits prod.splits)

text \<open>C21: event lines mean what they say. For any list of register fields with 64-bit values
  (printed in hex), a horizontal and a vertical name, the parser accepts the rendered line, appends
  exactly one counter with those names, and its control register is the result of assigning the
  fields in order; so every field reads back the last value assigned to it, cut to its width.\<close>

theorem load_line_rendered:
  assumes "plain_name h" and "plain_name v"
    and "ls_ofm st = fillOpcodeFieldMapForPCIeEvents" and "cpu_family_model (ls_ctx st) = Some skx_ccrs"
    and "case map_of (ls_names st) h of None \<Rightarrow> True | Some (i, vs) \<Rightarrow> map_of vs v = None"
  shows "\<exists>st' c. load_line iio_evt_parse_handler junk (render_line (ps @ (f, x) # qs) h v) st = Inr st' \<and>
     ctx_ctrs (ls_ctx st') = ctx_ctrs (ls_ctx st) @ [c] \<and>
     h_event_name c = h \<and> v_event_name c = v \<and>
     ctr_ccr c = set_ccr_fields skx_ccrs (ps @ (f, x) # qs) 0 \<and>
     (f \<in> fst ` set qs \<or>
      ccr_get skx_ccrs f (ctr_ccr c) = take_bit (field_width IIOPMUCNTCTLRegister (ccr_name f)) x)"
proof -
  define fs where "fs = ps @ (f, x) # qs"
  define st1 where "st1 = st\<lparr>ls_ctr := (ls_ctr st)\<lparr>h_event_name := ''INVALID'', v_event_name := ''INVALID'',
           ctr_ccr := 0, ctr_idx := 0, multiplier := 1, divider := 1, ctr_h_id := 0, ctr_v_id := 0\<rparr>,
           ls_ctx := (ls_ctx st)\<lparr>ctx_ctr := (ctx_ctr (ls_ctx st))\<lparr>ctr_ccr := 0\<rparr>\<rparr>\<rparr>"
  define st2 where "st2 = st1\<lparr>ls_ctx := (ls_ctx st1)\<lparr>ctx_ctr := (ctx_ctr (ls_ctx st1))
         \<lparr>ctr_ccr := set_ccr_fields skx_ccrs fs 0\<rparr>\<rparr>\<rparr>"
  have s1: "ls_ofm st1 = fillOpcodeFieldMapForPCIeEvents" "cpu_family_model (ls_ctx st1) = Some skx_ccrs"
    "ls_names st1 = ls_names st" "ctx_ctrs (ls_ctx st1) = ctx_ctrs (ls_ctx st)"
    "ctr_ccr (ctx_ctr (ls_ctx st1)) = 0"
    using assms(3,4) by (simp_all add: st1_def)
  have s2: "ls_ofm st2 = fillOpcodeFieldMapForPCIeEvents" "ls_names st2 = ls_names st"
    "ctx_ctrs (ls_ctx st2) = ctx_ctrs (ls_ctx st)" "ctr_ccr (ctx_ctr (ls_ctx st2)) = set_ccr_fields skx_ccrs fs 0"
    using s1 by (simp_all add: st2_def)
  obtain st3 where st3: "load_v_name h v (load_h_name h st2) = Inr st3" "ls_ctx st3 = ls_ctx st2"
    "h_event_name (ls_ctr st3) = h" "v_event_name (ls_ctr st3) = v"
    using load_v_after_h [where st = st2 and h = h and v = v] assms(5) s2 by auto
  have lh: "ls_ofm (load_h_name h st2) = fillOpcodeFieldMapForPCIeEvents"
    using s2 by (simp add: load_h_name_def Let_def)
  have items: "load_items iio_evt_parse_handler junk (split (render_line fs h v) CHR '','') (st1, []) = Inr (st3, h)"
    using assms(1,2) st3(1) load_items_fields [OF s1(1,2), of junk fs "[''hname='' @ h, ''vname='' @ v]" "[]"]
      load_item_hname [of st2 h] load_item_vname [of "load_h_name h st2" v] s2(1) lh s1(5)
    by (simp add: split_render_line plain_name_def st2_def)
  have line: "load_line iio_evt_parse_handler junk (render_line fs h v) st =
      call_evtcb iio_evt_parse_handler EVT_LINE_COMPLETE [] 0 st3"
    using items assms(1,2) render_line_chars [of h v fs]
    by (simp add: load_line_def Let_def call_evtcb_def st1_def plain_name_def)
  have reg: "f \<in> fst ` set qs \<or> ccr_get skx_ccrs f (set_ccr_fields skx_ccrs fs 0) =
      take_bit (field_width IIOPMUCNTCTLRegister (ccr_name f)) x"
    using skx_ccr.program_last_wins [of ps qs f x 0]
    by (auto simp: set_ccr_fields_def skx_ccr.program_def fs_def)
  show ?thesis
    using reg st3 s2 unfolding fs_def [symmetric] line
    by (auto simp: call_evtcb_def Let_def)
qed

theorem load_line_rendered_witness:
  "\<exists>st' c. load_line iio_evt_parse_handler 0 (render_line ([(Umask, 0x3)] @ (Event_select, 0x183) # []) ''IB write'' ''Part0'')
       \<lparr>ls_ctx = \<lparr>cpu_family_model = Some skx_ccrs, ctx_ctr = counter_default, ctx_ctrs = []\<rparr>,
        ls_ctr = counter_default, ls_ofm = fillOpcodeFieldMapForPCIeEvents, ls_names = []\<rparr> = Inr st' \<and>
     ctx_ctrs (ls_ctx st') = [c] \<and> h_event_name c = ''IB write'' \<and> v_event_name c = ''Part0'' \<and>
     ccr_get skx_ccrs Event_select (ctr_ccr c) = 0x83"
  using load_line_rendered [of "''IB write''" "''Part0''"
      "\<lparr>ls_ctx = \<lparr>cpu_family_model = Some skx_ccrs, ctx_ctr = counter_default, ctx_ctrs = []\<rparr>,
        ls_ctr = counter_default, ls_ofm = fillOpcodeFieldMapForPCIeEvents, ls_names = []\<rparr>"
      0 "[(Umask, 0x3)]" Event_select "0x183" "[]"]
  by (simp add: plain_name_def IIOPMUCNTCTLRegister_def) fastforce

end
