(* ===== verification/Width_Extender.thy ===== *)
theory Width_Extender
  imports Bits
begin

text \<open>
  \<^verbatim>\<open>CounterWidthExtender\<close> of \<^verbatim>\<open>src/src/width_extender.h\<close> (constructor in
  \<^verbatim>\<open>src/src/cpucounters.cpp\<close>): a 64-bit software counter on top of a narrower wrapping hardware
  counter, kept up to date by a watchdog thread. The critical sections \<^verbatim>\<open>internal_read\<close> and
  \<^verbatim>\<open>reset\<close> run under one mutex, so client reads, watchdog reads and resets are atomic steps that
  interleave with hardware counting; \<open>ext_step\<close> is that interleaving. Hardware is a parameter:
  \<open>rd\<close> and \<open>wr\<close> read and write a model-specific register of a machine state.
\<close>

section \<open>Raw counters\<close>

definition MsrHandleCounter :: "('m \<Rightarrow> u64 \<Rightarrow> u64) \<Rightarrow> u64 \<Rightarrow> u64 \<Rightarrow> 'm \<Rightarrow> u64 \<times> 'm" where
  "MsrHandleCounter rd msr_addr msr_mask m = (rd m msr_addr AND msr_mask, m)"

definition IA32_QM_EVTSEL :: u64 where "IA32_QM_EVTSEL = 0xc8d"
definition IA32_QM_CTR :: u64 where "IA32_QM_CTR = 0xc8e"

definition qm_evtsel_value :: "u64 \<Rightarrow> u64 \<Rightarrow> u64" where
  "qm_evtsel_value event old = (old AND 0xfffffffffffffff0) OR (event AND (push_bit 8 1 - 1))"

definition MBLCounter ::
  "('m \<Rightarrow> u64 \<Rightarrow> u64) \<Rightarrow> ('m \<Rightarrow> u64 \<Rightarrow> u64 \<Rightarrow> 'm) \<Rightarrow> 'm \<Rightarrow> u64 \<times> 'm" where
  "MBLCounter rd wr m =
     (let event = 3; msr_qm_evtsel = qm_evtsel_value event (rd m IA32_QM_EVTSEL);
          m' = wr m IA32_QM_EVTSEL msr_qm_evtsel
      in (rd m' IA32_QM_CTR, m'))"

definition MBTCounter ::
  "('m \<Rightarrow> u64 \<Rightarrow> u64) \<Rightarrow> ('m \<Rightarrow> u64 \<Rightarrow> u64 \<Rightarrow> 'm) \<Rightarrow> 'm \<Rightarrow> u64 \<times> 'm" where
  "MBTCounter rd wr m =
     (let event = 2; msr_qm_evtsel = qm_evtsel_value event (rd m IA32_QM_EVTSEL);
          m' = wr m IA32_QM_EVTSEL msr_qm_evtsel
      in (rd m' IA32_QM_CTR, m'))"

section \<open>The extender\<close>

record extender =
  extended_value :: u64
  last_raw_value :: u64
  counter_width :: nat
  watchdog_delay_ms :: u32

definition CounterWidthExtender :: "u64 \<Rightarrow> nat \<Rightarrow> u32 \<Rightarrow> extender" where
  "CounterWidthExtender raw width0 delay0 =
     \<lparr>extended_value = raw, last_raw_value = raw, counter_width = width0,
      watchdog_delay_ms = delay0\<rparr>"

definition internal_read :: "u64 \<Rightarrow> extender \<Rightarrow> u64 \<times> extender" where
  "internal_read new_raw_value e =
     (let e1 = (if new_raw_value < last_raw_value e
                then e\<lparr>extended_value := extended_value e +
                        ((push_bit (counter_width e) 1 - last_raw_value e) + new_raw_value)\<rparr>
                else e\<lparr>extended_value := extended_value e + (new_raw_value - last_raw_value e)\<rparr>);
          e2 = e1\<lparr>last_raw_value := new_raw_value\<rparr>
      in (extended_value e2, e2))"

definition ext_read :: "u64 \<Rightarrow> extender \<Rightarrow> u64 \<times> extender" where
  "ext_read raw e = internal_read raw e"

definition ext_reset :: "u64 \<Rightarrow> extender \<Rightarrow> extender" where
  "ext_reset raw e = e\<lparr>extended_value := raw, last_raw_value := raw\<rparr>"

section \<open>What a raw counter promises\<close>

text \<open>
  \<open>sample\<close> is \<^verbatim>\<open>AbstractRawCounter::operator()\<close>, \<open>total\<close> the number of events the hardware has
  counted since power-on, without wrap-around.
\<close>

locale wrapping_counter =
  fixes sample :: "'h \<Rightarrow> u64 \<times> 'h"
    and total :: "'h \<Rightarrow> nat"
    and width :: nat
  assumes width_bound: "width < 64"
    and sample_value: "unat (fst (sample h)) = total h mod 2 ^ width"
    and sample_total: "total (snd (sample h)) = total h"
begin

definition tracks :: "nat \<Rightarrow> nat \<Rightarrow> extender \<Rightarrow> bool" where
  "tracks t0 t e \<longleftrightarrow> counter_width e = width \<and> t0 \<le> t \<and>
     unat (last_raw_value e) = t mod 2 ^ width \<and>
     extended_value e = of_nat (t0 mod 2 ^ width + (t - t0))"

lemma sample_word: "fst (sample h) = of_nat (total h mod 2 ^ width)"
  by (metis sample_value of_nat_unat ucast_id)

lemma tracks_new:
  "tracks (total h) (total h) (CounterWidthExtender (fst (sample h)) width d)"
  by (simp add: tracks_def CounterWidthExtender_def sample_value) (rule sample_word)

lemma tracks_reset:
  assumes "tracks t0 t e"
  shows "tracks (total h) (total h) (ext_reset (fst (sample h)) e)"
  using assms by (simp add: tracks_def ext_reset_def sample_value) (rule sample_word)

end

lemma wrap_distance:
  fixes t T n :: nat
  assumes "t \<le> T" and "T - t < n"
  shows "T - t = (if T mod n < t mod n then n - t mod n + T mod n else T mod n - t mod n)"
proof -
  have n: "0 < n" using assms by simp
  have "T mod n = (t mod n + (T - t)) mod n"
    using assms(1) by (metis le_add_diff_inverse mod_add_left_eq)
  also have "\<dots> = (if t mod n + (T - t) < n then t mod n + (T - t) else t mod n + (T - t) - n)"
  proof -
    have "t mod n + (T - t) < 2 * n" using assms(2) n mod_less_divisor [OF n, of t] by linarith
    then show ?thesis by (simp add: mod_if [of "t mod n + (T - t)"] le_mod_geq)
  qed
  finally have e: "T mod n = (if t mod n + (T - t) < n then t mod n + (T - t) else t mod n + (T - t) - n)" .
  have "t mod n < n" using n by simp
  with e assms(2) show ?thesis by (auto split: if_splits)
qed

context wrapping_counter
begin

lemma tracks_read:
  assumes "tracks t0 t e" and "t \<le> total h" and "total h - t < 2 ^ width"
  shows "tracks t0 (total h) (snd (internal_read (fst (sample h)) e)) \<and>
         fst (internal_read (fst (sample h)) e) = of_nat (t0 mod 2 ^ width + (total h - t0))"
proof -
  define raw where "raw = fst (sample h)"
  define T where "T = total h"
  have raw: "unat raw = T mod 2 ^ width" by (simp add: raw_def T_def sample_value)
  have e: "counter_width e = width" "t0 \<le> t" "unat (last_raw_value e) = t mod 2 ^ width"
    "extended_value e = of_nat (t0 mod 2 ^ width + (t - t0))"
    using assms(1) by (auto simp: tracks_def)
  have less: "raw < last_raw_value e \<longleftrightarrow> T mod 2 ^ width < t mod 2 ^ width"
    using raw e(3) by (simp add: word_less_nat_alt)
  have d: "(of_nat (T - t) :: u64) =
    (if raw < last_raw_value e then (push_bit width 1 - last_raw_value e) + raw else raw - last_raw_value e)"
  proof -
    have r: "raw = of_nat (T mod 2 ^ width)" "last_raw_value e = of_nat (t mod 2 ^ width)"
      using raw e(3) by (metis of_nat_unat ucast_id)+
    have le: "t mod 2 ^ width \<le> 2 ^ width" by simp
    show ?thesis
    proof (cases "raw < last_raw_value e")
      case True
      then have "T - t = 2 ^ width - t mod 2 ^ width + T mod 2 ^ width"
        using wrap_distance [of t T "2 ^ width"] assms(2,3) less by (simp add: T_def)
      then have "(of_nat (T - t) :: u64) = 2 ^ width - of_nat (t mod 2 ^ width) + of_nat (T mod 2 ^ width)"
        by (simp only: of_nat_add of_nat_diff [OF le] of_nat_power of_nat_numeral)
      with True show ?thesis unfolding r push_bit_eq_mult by simp
    next
      case False
      then have "T - t = T mod 2 ^ width - t mod 2 ^ width" and "t mod 2 ^ width \<le> T mod 2 ^ width"
        using wrap_distance [of t T "2 ^ width"] assms(2,3) less by (simp_all add: T_def)
      then have "(of_nat (T - t) :: u64) = of_nat (T mod 2 ^ width) - of_nat (t mod 2 ^ width)"
        by (simp only: of_nat_diff)
      with False show ?thesis unfolding r by simp
    qed
  qed
  have ext: "extended_value (snd (internal_read raw e)) = extended_value e + of_nat (T - t)"
    using d e(1) by (simp add: internal_read_def Let_def)
  also have "\<dots> = of_nat (t0 mod 2 ^ width + (T - t0))"
    using e(2,4) assms(2) unfolding T_def [symmetric]
    by (simp only: of_nat_add [symmetric]) simp
  finally have x: "extended_value (snd (internal_read raw e)) = of_nat (t0 mod 2 ^ width + (T - t0))" .
  moreover have "counter_width (snd (internal_read raw e)) = width"
    "last_raw_value (snd (internal_read raw e)) = raw"
    "fst (internal_read raw e) = extended_value (snd (internal_read raw e))"
    using e(1) by (simp_all add: internal_read_def Let_def)
  ultimately show ?thesis
    using raw e(2) assms(2) unfolding raw_def [symmetric] T_def [symmetric]
    by (simp add: tracks_def)
qed

end

section \<open>Interleaving with the hardware and the watchdog\<close>

text \<open>
  \<open>es_total\<close> is the hardware's event count, \<open>es_base\<close> and \<open>es_last\<close> record the count at the last
  construction or reset and at the last update of the extender. The guard of \<open>count\<close> is what the
  watchdog period is chosen for: the hardware never counts a full \<open>2 ^ w\<close> events between updates.
\<close>

record ext_sys =
  es_total :: nat
  es_ext :: extender
  es_base :: nat
  es_last :: nat

definition raw_value :: "nat \<Rightarrow> nat \<Rightarrow> u64" where
  "raw_value w n = of_nat (n mod 2 ^ w)"

definition es_start :: "nat \<Rightarrow> u32 \<Rightarrow> nat \<Rightarrow> ext_sys" where
  "es_start w delay n =
     \<lparr>es_total = n, es_ext = CounterWidthExtender (raw_value w n) w delay, es_base = n, es_last = n\<rparr>"

inductive ext_step :: "nat \<Rightarrow> ext_sys \<Rightarrow> ext_sys \<Rightarrow> bool" for w where
  count: "es_total s + d - es_last s < 2 ^ w \<Longrightarrow> ext_step w s (s\<lparr>es_total := es_total s + d\<rparr>)"
| client_read: "ext_step w s (s\<lparr>es_ext := snd (ext_read (raw_value w (es_total s)) (es_ext s)),
                              es_last := es_total s\<rparr>)"
| watchdog_read: "ext_step w s (s\<lparr>es_ext := snd (internal_read (raw_value w (es_total s)) (es_ext s)),
                                es_last := es_total s\<rparr>)"
| reset: "ext_step w s (s\<lparr>es_ext := ext_reset (raw_value w (es_total s)) (es_ext s),
                        es_base := es_total s, es_last := es_total s\<rparr>)"

inductive ext_reachable :: "nat \<Rightarrow> u32 \<Rightarrow> ext_sys \<Rightarrow> bool" for w delay where
  start: "ext_reachable w delay (es_start w delay n)"
| step: "ext_reachable w delay s \<Longrightarrow> ext_step w s t \<Longrightarrow> ext_reachable w delay t"

lemma raw_value_counter:
  assumes "w < 64"
  shows "wrapping_counter (\<lambda>n. (raw_value w n, n)) id w"
proof
  have "n mod 2 ^ w < 2 ^ 64" for n :: nat
  proof -
    have "n mod 2 ^ w < 2 ^ w" by simp
    also have "(2::nat) ^ w \<le> 2 ^ 64" using assms by (intro power_increasing) simp_all
    finally show ?thesis .
  qed
  then show "unat (fst (raw_value w n, n)) = id n mod 2 ^ w" for n
    by (simp add: raw_value_def unat_of_nat del: of_nat_mod)
qed (use assms in simp_all)

lemma ext_reachable_tracks:
  assumes "ext_reachable w delay s" and "w < 64"
  shows "wrapping_counter.tracks w (es_base s) (es_last s) (es_ext s) \<and>
         es_last s \<le> es_total s \<and> es_total s - es_last s < 2 ^ w"
  using assms(1)
proof (induction rule: ext_reachable.induct)
  case (start n)
  show ?case
    using wrapping_counter.tracks_new [OF raw_value_counter [OF assms(2)], of n delay]
    by (simp add: es_start_def)
next
  case (step s t)
  note wc = raw_value_counter [OF assms(2)]
  from step.hyps(2) step.IH show ?case
  proof (cases rule: ext_step.cases)
    case (count d)
    with step.IH show ?thesis by auto
  next
    case client_read
    with step.IH wrapping_counter.tracks_read [OF wc, of "es_base s" "es_last s" "es_ext s" "es_total s"]
    show ?thesis by (simp add: ext_read_def)
  next
    case watchdog_read
    with step.IH wrapping_counter.tracks_read [OF wc, of "es_base s" "es_last s" "es_ext s" "es_total s"]
    show ?thesis by simp
  next
    case reset
    with step.IH wrapping_counter.tracks_reset [OF wc, of "es_base s" "es_last s" "es_ext s" "es_total s"]
    show ?thesis by simp
  qed
qed

text \<open>C7: the extended counter refines an unbounded counter. In every state reachable by counting,
  client reads, watchdog reads and resets in any order, provided the hardware never counts \<open>2 ^ w\<close>
  events between two updates, a read returns the hardware count at the last reset reduced to the
  counter width plus every event counted since, modulo \<open>2 ^ 64\<close>, however often the \<open>w\<close>-bit
  hardware counter wrapped.\<close>

theorem extender_refines_total:
  assumes "ext_reachable w delay s" and "w < 64"
  shows "fst (ext_read (raw_value w (es_total s)) (es_ext s)) =
     of_nat (es_base s mod 2 ^ w + (es_total s - es_base s))"
proof -
  note inv = ext_reachable_tracks [OF assms]
  with wrapping_counter.tracks_read [OF raw_value_counter [OF assms(2)],
      of "es_base s" "es_last s" "es_ext s" "es_total s"]
  show ?thesis by (simp add: ext_read_def)
qed

lemma ext_example_reachable:
  "ext_reachable 32 10000
     \<lparr>es_total = 2 ^ 32 + 5, es_ext = snd (internal_read 5 (CounterWidthExtender (2 ^ 32 - 1) 32 10000)),
      es_base = 2 ^ 32 - 1, es_last = 2 ^ 32 + 5\<rparr>"
proof -
  let ?s0 = "es_start 32 10000 (2 ^ 32 - 1)"
  let ?s1 = "?s0\<lparr>es_total := es_total ?s0 + 6\<rparr>"
  have "ext_reachable 32 10000 ?s1"
    by (rule ext_reachable.step [OF ext_reachable.start]) (rule ext_step.count, simp add: es_start_def)
  then have "ext_reachable 32 10000 (?s1\<lparr>es_ext := snd (internal_read (raw_value 32 (es_total ?s1)) (es_ext ?s1)),
                                es_last := es_total ?s1\<rparr>)"
    by (rule ext_reachable.step) (rule ext_step.watchdog_read)
  then show ?thesis
    by (simp add: es_start_def raw_value_def CounterWidthExtender_def internal_read_def)
qed

theorem extender_refines_total_witness:
  "ext_reachable 32 10000
     \<lparr>es_total = 2 ^ 32 + 5, es_ext = snd (internal_read 5 (CounterWidthExtender (2 ^ 32 - 1) 32 10000)),
      es_base = 2 ^ 32 - 1, es_last = 2 ^ 32 + 5\<rparr> \<and>
   fst (ext_read (raw_value 32 (2 ^ 32 + 5))
     (snd (internal_read 5 (CounterWidthExtender (2 ^ 32 - 1) 32 10000)))) = 2 ^ 32 + 5"
  using ext_example_reachable extender_refines_total [OF ext_example_reachable] by simp

section \<open>The raw counters keep the promise\<close>

text \<open>
  The system energy register: a 32-bit wrapping energy count in the low half, other information in
  the high half, which is why PCM masks it. With the mask it is a wrapping counter of width 32.
\<close>

definition MSR_SYS_ENERGY_STATUS :: u64 where "MSR_SYS_ENERGY_STATUS = 0x64D"

definition sys_energy_rd :: "nat \<times> u32 \<Rightarrow> u64 \<Rightarrow> u64" where
  "sys_energy_rd m a = cvt_ds_join (of_nat (fst m)) (snd m)"

lemma sys_energy_masked:
  "sys_energy_rd m a AND 0x00000000FFFFFFFF = of_nat (fst m mod 2 ^ 32)"
proof -
  have "(0xFFFFFFFF :: u64) = mask 32" by (simp add: mask_eq_exp_minus_1)
  then have "sys_energy_rd m a AND 0xFFFFFFFF = take_bit 32 (sys_energy_rd m a)"
    by (simp add: take_bit_eq_mask)
  also have "\<dots> = ucast (of_nat (fst m) :: u32)"
    by (rule bit_word_eqI) (auto simp: sys_energy_rd_def cvt_ds_join_def bit_simps)
  also have "\<dots> = of_nat (unat (of_nat (fst m) :: u32))"
    by simp
  finally show ?thesis by (simp only: unat_of_nat) simp
qed

interpretation sys_energy: wrapping_counter
  "MsrHandleCounter sys_energy_rd MSR_SYS_ENERGY_STATUS 0x00000000FFFFFFFF" fst 32
  by unfold_locales
    (simp_all add: MsrHandleCounter_def sys_energy_masked unat_of_nat del: of_nat_mod)

interpretation raw32: wrapping_counter "\<lambda>n. (raw_value 32 n, n)" id 32
  by (rule raw_value_counter) simp

interpretation raw24: wrapping_counter "\<lambda>n. (raw_value 24 n, n)" id 24
  by (rule raw_value_counter) simp

interpretation raw48: wrapping_counter "\<lambda>n. (raw_value 48 n, n)" id 48
  by (rule raw_value_counter) simp

text \<open>Selecting a QoS event keeps the resource monitoring identifier in the upper half.\<close>

lemma qm_evtsel_keeps_rmid:
  "event < 16 \<Longrightarrow> qm_evtsel_value event old AND 0xF = event \<and>
     drop_bit 4 (qm_evtsel_value event old) = drop_bit 4 old"
proof -
  assume e: "event < 16"
  have t: "take_bit 4 event = event"
    using e by (intro word_unat_eq_iff [THEN iffD2])
      (simp add: word_less_nat_alt unsigned_take_bit_eq take_bit_nat_eq_self)
  have hi: "\<not> bit event n" if "4 \<le> n" for n
    using that by (subst t [symmetric]) (simp add: bit_take_bit_iff)
  have m: "(0xfffffffffffffff0 :: u64) = NOT (mask 4)" "(0xF :: u64) = mask 4" "push_bit 8 1 - 1 = (mask 8 :: u64)"
    by (simp_all add: mask_eq_exp_minus_1)
  show ?thesis
    unfolding qm_evtsel_value_def m
    by (intro conjI; rule bit_word_eqI)
      (auto simp: bit_simps hi simp del: mask_numeral dest: bit_imp_le_length intro: ccontr)
qed

end
