(* ===== verification/Thread_Pool.thy ===== *)
theory Thread_Pool
  imports Prelude "HOL-Library.Multiset" "HOL-Library.Sublist"
begin

text \<open>
  The worker threads: \<^verbatim>\<open>ThreadPool\<close> and \<^verbatim>\<open>WorkQueue\<close> (threadpool.h, threadpool.cpp) and the one-thread
  \<^verbatim>\<open>CoreTaskQueue\<close> of every core (cpucounters.cpp). A null work pointer is \<open>None\<close>. A thread is between two
  calls (\<open>Ready\<close>), asleep on the condition variable (\<open>Blocked\<close>), executing a job or gone. Each step of
  \<open>pool_step\<close> and \<open>ctq_step\<close> is a critical section of the code or the execution of a job; the scheduler, the
  choice of the thread \<^verbatim>\<open>notify_one\<close> wakes, and spurious wake-ups are the nondeterminism. The fields
  \<open>submitted\<close>, \<open>retrieved\<close>, \<open>executed\<close> and \<open>reaped\<close> record history and are read by no operation.
\<close>

section \<open>The pool\<close>

datatype 'w worker = Ready | Blocked | Running 'w | Dead

record 'w pool =
  threads :: "'w worker list"
  workQ :: "'w option list"
  submitted :: "'w option list"
  retrieved :: "'w option list"
  executed :: "'w list"
  reaped :: nat

definition ThreadPool :: "nat \<Rightarrow> 'w pool" where
  "ThreadPool n = \<lparr>threads = replicate n Ready, workQ = [], submitted = [], retrieved = [], executed = [], reaped = 0\<rparr>"

definition getInstance_size :: nat where
  "getInstance_size = 64"

definition set_thread :: "nat \<Rightarrow> 'w worker \<Rightarrow> 'w pool \<Rightarrow> 'w pool" where
  "set_thread i t p = p\<lparr>threads := (threads p)[i := t]\<rparr>"

text \<open>\<^verbatim>\<open>notify_one\<close> wakes some blocked thread when there is one.\<close>

definition can_notify :: "'w pool \<Rightarrow> nat option \<Rightarrow> bool" where
  "can_notify p woken = (case woken of
     None \<Rightarrow> Blocked \<notin> set (threads p)
   | Some j \<Rightarrow> j < length (threads p) \<and> threads p ! j = Blocked)"

definition addWork :: "'w option \<Rightarrow> nat option \<Rightarrow> 'w pool \<Rightarrow> 'w pool" where
  "addWork w woken p =
     (let p' = p\<lparr>workQ := workQ p @ [w], submitted := submitted p @ [w]\<rparr>
      in case woken of None \<Rightarrow> p' | Some j \<Rightarrow> set_thread j Ready p')"

text \<open>\<^verbatim>\<open>retrieveWork\<close>: \<open>None\<close> when the queue is empty and the call sleeps.\<close>

definition retrieveWork :: "'w pool \<Rightarrow> ('w option \<times> 'w pool) option" where
  "retrieveWork p = (case workQ p of
     [] \<Rightarrow> None
   | w # q \<Rightarrow> Some (w, p\<lparr>workQ := q, retrieved := retrieved p @ [w]\<rparr>))"

text \<open>One round of the loop of \<^verbatim>\<open>ThreadPool::execute\<close>: retrieving, then (unless the work was null) executing.\<close>

definition execute_retrieve :: "nat \<Rightarrow> 'w pool \<Rightarrow> 'w pool" where
  "execute_retrieve i p = (case retrieveWork p of
     None \<Rightarrow> set_thread i Blocked p
   | Some (None, p') \<Rightarrow> set_thread i Dead p'
   | Some (Some w, p') \<Rightarrow> set_thread i (Running w) p')"

definition execute_work :: "nat \<Rightarrow> 'w \<Rightarrow> 'w pool \<Rightarrow> 'w pool" where
  "execute_work i w p = (set_thread i Ready p)\<lparr>executed := executed p @ [w]\<rparr>"

text \<open>\<^verbatim>\<open>emptyThreadPool\<close>: one null work per thread is added, every thread is joined, the vector is cleared.\<close>

definition emptyThreadPool_works :: "'w pool \<Rightarrow> 'w option list" where
  "emptyThreadPool_works p = replicate (length (threads p)) None"

definition emptyThreadPool_clear :: "'w pool \<Rightarrow> 'w pool" where
  "emptyThreadPool_clear p = p\<lparr>threads := [], reaped := reaped p + length (threads p)\<rparr>"

definition all_joined :: "'w pool \<Rightarrow> bool" where
  "all_joined p = (\<forall>t \<in> set (threads p). case t of Dead \<Rightarrow> True | _ \<Rightarrow> False)"

inductive worker_step :: "'w pool \<Rightarrow> 'w pool \<Rightarrow> bool" where
  ws_retrieve: "i < length (threads p) \<Longrightarrow> threads p ! i = Ready \<Longrightarrow> worker_step p (execute_retrieve i p)"
| ws_execute: "i < length (threads p) \<Longrightarrow> threads p ! i = Running w \<Longrightarrow> worker_step p (execute_work i w p)"

inductive pool_step :: "'w pool \<Rightarrow> 'w pool \<Rightarrow> bool" where
  ps_worker: "worker_step p q \<Longrightarrow> pool_step p q"
| ps_add: "can_notify p woken \<Longrightarrow> pool_step p (addWork w woken p)"
| ps_spurious: "i < length (threads p) \<Longrightarrow> threads p ! i = Blocked \<Longrightarrow> pool_step p (set_thread i Ready p)"
| ps_joined: "all_joined p \<Longrightarrow> pool_step p (emptyThreadPool_clear p)"

inductive pool_reachable :: "nat \<Rightarrow> 'w pool \<Rightarrow> bool" for n where
  pr_init: "pool_reachable n (ThreadPool n)"
| pr_step: "pool_reachable n p \<Longrightarrow> pool_step p q \<Longrightarrow> pool_reachable n q"

inductive_cases worker_stepE: "worker_step p q"
inductive_cases pool_stepE: "pool_step p q"

section \<open>The work queue in front of the pool\<close>

record 'w work_queue =
  wq_tp :: "'w pool"
  workProcessed :: u64

definition WorkQueue :: "'w pool \<Rightarrow> 'w work_queue" where
  "WorkQueue p = \<lparr>wq_tp = p, workProcessed = 0\<rparr>"

definition wq_addWork :: "'w option \<Rightarrow> nat option \<Rightarrow> 'w work_queue \<Rightarrow> 'w work_queue" where
  "wq_addWork w woken q = q\<lparr>workProcessed := workProcessed q + 1, wq_tp := addWork w woken (wq_tp q)\<rparr>"

section \<open>The queue of one core\<close>

datatype ctq_worker = Ctq_waiting | Ctq_woken | Ctq_holding

record 't core_task_queue =
  wQueue :: "'t list"
  ctq_thread :: ctq_worker
  ctq_submitted :: "'t list"
  ctq_executed :: "'t list"

text \<open>The new thread still has to take the mutex.\<close>

definition CoreTaskQueue :: "'t core_task_queue" where
  "CoreTaskQueue = \<lparr>wQueue = [], ctq_thread = Ctq_woken, ctq_submitted = [], ctq_executed = []\<rparr>"

definition ctq_push :: "'t \<Rightarrow> 't core_task_queue \<Rightarrow> 't core_task_queue" where
  "ctq_push t q =
     (let q' = q\<lparr>wQueue := wQueue q @ [t], ctq_submitted := ctq_submitted q @ [t]\<rparr>
      in if ctq_thread q = Ctq_waiting then q'\<lparr>ctq_thread := Ctq_woken\<rparr> else q')"

text \<open>With the mutex held: the front task runs and is popped, or the thread goes to sleep, releasing the mutex.\<close>

definition ctq_loop :: "'t core_task_queue \<Rightarrow> 't core_task_queue" where
  "ctq_loop q = (case wQueue q of
     [] \<Rightarrow> q\<lparr>ctq_thread := Ctq_waiting\<rparr>
   | t # ts \<Rightarrow> q\<lparr>wQueue := ts, ctq_executed := ctq_executed q @ [t]\<rparr>)"

inductive ctq_step :: "'t core_task_queue \<Rightarrow> 't core_task_queue \<Rightarrow> bool" where
  ct_push: "ctq_thread q \<noteq> Ctq_holding \<Longrightarrow> ctq_step q (ctq_push t q)"
| ct_lock: "ctq_thread q = Ctq_woken \<Longrightarrow> ctq_step q (q\<lparr>ctq_thread := Ctq_holding\<rparr>)"
| ct_loop: "ctq_thread q = Ctq_holding \<Longrightarrow> ctq_step q (ctq_loop q)"
| ct_spurious: "ctq_thread q = Ctq_waiting \<Longrightarrow> ctq_step q (q\<lparr>ctq_thread := Ctq_woken\<rparr>)"

inductive ctq_reachable :: "'t core_task_queue \<Rightarrow> bool" where
  cr_init: "ctq_reachable CoreTaskQueue"
| cr_step: "ctq_reachable p \<Longrightarrow> ctq_step p q \<Longrightarrow> ctq_reachable q"

section \<open>What every task queue promises\<close>

text \<open>
  \<open>given\<close> lists the jobs in the order they were handed over, \<open>taken\<close> the ones a thread has taken and \<open>waiting\<close>
  the ones still queued.
\<close>

locale fifo_executor =
  fixes reach :: "'s \<Rightarrow> bool" and step :: "'s \<Rightarrow> 's \<Rightarrow> bool"
    and given taken waiting :: "'s \<Rightarrow> 'j list"
  assumes split_reach: "reach s \<Longrightarrow> taken s @ waiting s = given s"
    and given_grows: "step s t \<Longrightarrow> prefix (given s) (given t)"
    and taken_grows: "step s t \<Longrightarrow> prefix (taken s) (taken t)"
    and reach_step: "reach s \<Longrightarrow> step s t \<Longrightarrow> reach t"
begin

lemma taken_prefix: "reach s \<Longrightarrow> prefix (taken s) (given s)"
  using split_reach [of s] by (metis prefix_def)

lemma taken_in_order: "reach s \<Longrightarrow> i < length (taken s) \<Longrightarrow> taken s ! i = given s ! i"
  using split_reach [of s] by (metis nth_append)

lemma all_taken: "reach s \<Longrightarrow> waiting s = [] \<Longrightarrow> taken s = given s"
  using split_reach [of s] by simp

lemma steps_grow:
  assumes "step\<^sup>*\<^sup>* s t" "reach s"
  shows "reach t \<and> prefix (given s) (given t) \<and> prefix (taken s) (taken t)"
  using assms by (induction rule: rtranclp_induct)
    (auto intro: reach_step prefix_order.trans given_grows taken_grows)

end

section \<open>Invariants of the pool\<close>

abbreviation ready_count :: "'w pool \<Rightarrow> nat" where
  "ready_count p \<equiv> count_list (threads p) Ready"

definition running :: "'w worker \<Rightarrow> 'w list" where
  "running t = (case t of Running w \<Rightarrow> [w] | _ \<Rightarrow> [])"

definition works :: "'w option list \<Rightarrow> 'w list" where
  "works q = concat (map (\<lambda>w. case w of Some x \<Rightarrow> [x] | None \<Rightarrow> []) q)"

definition pool_inv :: "nat \<Rightarrow> 'w pool \<Rightarrow> bool" where
  "pool_inv n p \<longleftrightarrow>
     retrieved p @ workQ p = submitted p \<and>
     mset (executed p) + mset (concat (map running (threads p))) = mset (works (retrieved p)) \<and>
     (Blocked \<in> set (threads p) \<longrightarrow> length (workQ p) \<le> ready_count p) \<and>
     count_list (retrieved p) None = count_list (threads p) Dead + reaped p \<and>
     length (threads p) + reaped p = n"


lemma count_list_list_update:
  "i < length xs \<Longrightarrow>
     count_list (xs[i := y]) z + (if xs ! i = z then 1 else 0) = count_list xs z + (if y = z then 1 else 0)"
proof (induction xs arbitrary: i)
  case (Cons a xs)
  from Cons.IH [of "i - 1"] Cons.prems show ?case by (cases i) (auto split: if_splits)
qed simp

lemma running_simps [simp]:
  "running Ready = []" "running Blocked = []" "running Dead = []" "running (Running w) = [w]"
  by (simp_all add: running_def)

lemma works_simps [simp]:
  "works [] = []" "works (xs @ ys) = works xs @ works ys" "works (Some w # xs) = w # works xs" "works (None # xs) = works xs"
  by (simp_all add: works_def)

lemma works_map_Some [simp]: "works (map Some ws) = ws"
  by (induction ws) simp_all

lemma works_replicate_None [simp]: "works (replicate n None) = []"
  by (induction n) simp_all

lemma thread_in_update: "t \<in> set (xs[i := y]) \<Longrightarrow> t \<noteq> y \<Longrightarrow> t \<in> set xs"
  using set_update_subset_insert by fast

lemma ready_count_pos: "i < length xs \<Longrightarrow> xs ! i = t \<Longrightarrow> 0 < count_list xs t"
  by (metis count_list_0_iff gr0I nth_mem)

lemmas pool_defs = addWork_def set_thread_def execute_retrieve_def retrieveWork_def execute_work_def
  emptyThreadPool_clear_def can_notify_def

lemma pool_inv_init: "pool_inv n (ThreadPool n)"
  by (induction n) (simp_all add: pool_inv_def ThreadPool_def)

text \<open>What replacing one thread by another does to the quantities the invariant counts.\<close>

lemma thread_update:
  assumes "i < length ts" "ts ! i = old"
  shows "count_list (ts[i := new]) Ready =
           count_list ts Ready + (if new = Ready then 1 else 0) - (if old = Ready then 1 else 0)"
    and "count_list (ts[i := new]) Dead =
           count_list ts Dead + (if new = Dead then 1 else 0) - (if old = Dead then 1 else 0)"
    and "mset (concat (map running (ts[i := new]))) + mset (running old) = mset (concat (map running ts)) + mset (running new)"
  using count_list_list_update [of i ts new Ready] count_list_list_update [of i ts new Dead]
    mset_concat_map_update [of i ts running new] assms by auto

lemma pool_inv_add:
  assumes inv: "pool_inv n p" and ok: "can_notify p woken"
  shows "pool_inv n (addWork w woken p)"
proof (cases woken)
  case None
  with inv ok show ?thesis by (simp add: pool_inv_def pool_defs)
next
  case (Some j)
  with ok have j: "j < length (threads p)" "threads p ! j = Blocked" by (simp_all add: can_notify_def)
  then have b: "Blocked \<in> set (threads p)" by (metis nth_mem)
  from inv b thread_update [OF j, where new = Ready] Some show ?thesis
    by (simp add: pool_inv_def pool_defs)
qed

lemma pool_inv_retrieve:
  assumes inv: "pool_inv n p" and i: "i < length (threads p)" "threads p ! i = Ready"
  shows "pool_inv n (execute_retrieve i p)"
proof (cases "workQ p")
  case Nil
  with inv thread_update [OF i, where new = Blocked] show ?thesis
    by (auto simp: pool_inv_def pool_defs)
next
  case (Cons w q)
  have pos: "0 < ready_count p" using i by (rule ready_count_pos)
  show ?thesis
  proof (cases w)
    case None
    with inv Cons pos thread_update [OF i, where new = Dead] show ?thesis
      by (auto simp: pool_inv_def pool_defs dest: thread_in_update)
  next
    case (Some x)
    with inv Cons pos thread_update [OF i, where new = "Running x"] show ?thesis
      by (auto simp: pool_inv_def pool_defs dest: thread_in_update)
  qed
qed

lemma pool_inv_execute:
  assumes inv: "pool_inv n p" and i: "i < length (threads p)" "threads p ! i = Running w"
  shows "pool_inv n (execute_work i w p)"
proof -
  have "add_mset w (mset (executed p) + mset (concat (map running ((threads p)[i := Ready])))) =
        mset (executed p) + mset (concat (map running (threads p)))"
    using thread_update(3) [OF i, where new = Ready] by (metis add.right_neutral mset.simps(1) mset.simps(2)
        running_simps(1) running_simps(4) union_mset_add_mset_right)
  with inv thread_update [OF i, where new = Ready] show ?thesis
    by (auto simp: pool_inv_def pool_defs dest: thread_in_update)
qed

lemma pool_inv_spurious:
  assumes inv: "pool_inv n p" and i: "i < length (threads p)" "threads p ! i = Blocked"
  shows "pool_inv n (set_thread i Ready p)"
proof -
  have "Blocked \<in> set (threads p)" using i by (metis nth_mem)
  with inv thread_update [OF i, where new = Ready] show ?thesis
    by (simp add: pool_inv_def pool_defs)
qed

lemma all_joined_iff: "all_joined p \<longleftrightarrow> (\<forall>t \<in> set (threads p). t = Dead)"
  unfolding all_joined_def by (intro ball_cong refl) (simp split: worker.splits)

lemma all_joined_replicate: "all_joined p \<Longrightarrow> threads p = replicate (length (threads p)) Dead"
  by (simp add: all_joined_iff replicate_eqI)

lemma replicate_Dead_counts:
  "count_list (replicate k Dead) Dead = k" "concat (map running (replicate k Dead)) = []"
  by (induction k) simp_all

lemma pool_inv_joined:
  assumes inv: "pool_inv n p" and j: "all_joined p"
  shows "pool_inv n (emptyThreadPool_clear p)"
proof -
  obtain k where k: "threads p = replicate k Dead" using all_joined_replicate [OF j] by metis
  show ?thesis using inv unfolding pool_inv_def
    by (simp add: pool_defs k replicate_Dead_counts)
qed

lemma pool_inv_step: "pool_step p q \<Longrightarrow> pool_inv n p \<Longrightarrow> pool_inv n q"
  by (elim pool_stepE worker_stepE)
    (simp_all add: pool_inv_retrieve pool_inv_execute pool_inv_add pool_inv_spurious pool_inv_joined)

lemma pool_reachable_inv: "pool_reachable n p \<Longrightarrow> pool_inv n p"
  by (induction rule: pool_reachable.induct) (auto intro: pool_inv_init pool_inv_step)


subsection \<open>Shutting down\<close>

lemma count_list_all: "count_list xs z = length xs \<Longrightarrow> t \<in> set xs \<Longrightarrow> t = z"
proof (induction xs)
  case (Cons a xs)
  have "count_list xs z \<le> length xs" by (rule count_le_length)
  with Cons show ?case by (auto split: if_splits)
qed simp

lemma count_list_map_Some [simp]: "count_list (map Some ws) None = 0"
  by (induction ws) simp_all

lemma count_list_replicate_self [simp]: "count_list (replicate n x) x = n"
  by (induction n) simp_all

lemma pills_last:
  assumes "xs @ ys = map Some ws @ replicate n None" "count_list xs None = n" "0 < n"
  shows "ys = []"
proof (rule ccontr)
  assume "ys \<noteq> []"
  then have "last ys = None" using assms by (metis last_appendR last_replicate length_0_conv length_replicate less_nat_zero_code)
  then have "None \<in> set ys" using \<open>ys \<noteq> []\<close> by (metis last_in_set)
  moreover have "count_list xs None + count_list ys None = n"
    using arg_cong [OF assms(1), of "\<lambda>l. count_list l None"] by simp
  ultimately show False using assms(2) by (simp add: count_list_0_iff)
qed

definition pool_measure :: "'w pool \<Rightarrow> nat" where
  "pool_measure p = 3 * length (workQ p) + ready_count p + 2 * length (concat (map running (threads p)))"

lemma worker_step_decreases: "worker_step p q \<Longrightarrow> pool_measure q < pool_measure p"
proof (elim worker_stepE)
  fix i
  assume q: "q = execute_retrieve i p" and i: "i < length (threads p)" "threads p ! i = Ready"
  have pos: "0 < ready_count p" using i by (rule ready_count_pos)
  have l: "length (concat (map running ((threads p)[i := new]))) =
           length (concat (map running (threads p))) + length (running new)" for new
    using arg_cong [OF thread_update(3) [OF i, where new = new], of size] by simp
  show "pool_measure q < pool_measure p"
    using pos l thread_update(1) [OF i]
    by (cases "workQ p") (auto simp: q pool_measure_def pool_defs split: option.splits)
next
  fix i w
  assume q: "q = execute_work i w p" and i: "i < length (threads p)" "threads p ! i = Running w"
  have "Suc (length (concat (map running ((threads p)[i := Ready])))) = length (concat (map running (threads p)))"
    using arg_cong [OF thread_update(3) [OF i, where new = Ready], of size] by simp
  then show "pool_measure q < pool_measure p"
    using thread_update(1) [OF i, where new = Ready] by (simp add: q pool_measure_def pool_defs)
qed

lemma stuck_threads:
  assumes "\<nexists>q. worker_step p q" "t \<in> set (threads p)"
  shows "t = Blocked \<or> t = Dead"
proof (cases t)
  case Ready
  with assms show ?thesis by (metis in_set_conv_nth ws_retrieve)
next
  case (Running w)
  with assms show ?thesis by (metis in_set_conv_nth ws_execute)
qed simp_all

lemma all_dead_retrieved:
  assumes inv: "pool_inv n p" and s: "submitted p = map Some ws @ replicate n None" and n: "0 < n"
    and c: "count_list (retrieved p) None = n"
  shows "workQ p = [] \<and> works (retrieved p) = ws"
  using inv pills_last [of "retrieved p" "workQ p" ws n] s n c by (auto simp: pool_inv_def)

lemma stuck_all_dead:
  assumes inv: "pool_inv n p" and s: "submitted p = map Some ws @ replicate n None"
    and st: "\<nexists>q. worker_step p q"
  shows "all_joined p"
proof -
  have "Blocked \<notin> set (threads p)"
  proof
    assume b: "Blocked \<in> set (threads p)"
    have "ready_count p = 0" using stuck_threads [OF st] by (auto simp: count_list_0_iff)
    then have "workQ p = []" using inv b by (simp add: pool_inv_def)
    then have "count_list (threads p) Dead = length (threads p)"
      using inv s unfolding pool_inv_def by auto
    then show False using count_list_all b by fastforce
  qed
  then show ?thesis using stuck_threads [OF st] unfolding all_joined_iff by blast
qed


section \<open>Invariants of the core task queue\<close>

definition ctq_inv :: "'t core_task_queue \<Rightarrow> bool" where
  "ctq_inv q \<longleftrightarrow> ctq_executed q @ wQueue q = ctq_submitted q \<and> (ctq_thread q = Ctq_waiting \<longrightarrow> wQueue q = [])"

lemma ctq_inv_step: "ctq_step p q \<Longrightarrow> ctq_inv p \<Longrightarrow> ctq_inv q"
  by (induction rule: ctq_step.induct)
    (auto simp: ctq_inv_def ctq_push_def ctq_loop_def Let_def split: list.splits)

lemma ctq_reachable_inv: "ctq_reachable q \<Longrightarrow> ctq_inv q"
  by (induction rule: ctq_reachable.induct) (auto simp: ctq_inv_step, simp add: ctq_inv_def CoreTaskQueue_def)

section \<open>Both are first-in first-out executors\<close>

lemma pool_history: "pool_step p q \<Longrightarrow> prefix (submitted p) (submitted q) \<and> prefix (retrieved p) (retrieved q)"
  by (elim pool_stepE worker_stepE)
    (auto simp: pool_defs Let_def split: option.splits list.splits)

lemma ctq_history:
  "ctq_step p q \<Longrightarrow> prefix (ctq_submitted p) (ctq_submitted q) \<and> prefix (ctq_executed p) (ctq_executed q)"
  by (induction rule: ctq_step.induct)
    (auto simp: ctq_push_def ctq_loop_def Let_def split: list.splits)

interpretation pool_fifo: fifo_executor "pool_reachable n" pool_step submitted retrieved workQ
  by unfold_locales (auto dest: pool_reachable_inv pool_history intro: pr_step simp: pool_inv_def)

interpretation ctq_fifo: fifo_executor ctq_reachable ctq_step ctq_submitted ctq_executed wQueue
  by unfold_locales (auto dest: ctq_reachable_inv ctq_history intro: cr_step simp: ctq_inv_def)

section \<open>Properties\<close>

text \<open>Two runs of a pool of one thread, for concrete instances: a job is done and the thread sleeps; then the null
  work of the shutdown wakes it and it ends.\<close>

definition pool_demo_blocked :: "nat pool" where
  "pool_demo_blocked = execute_retrieve 0 (execute_work 0 7 (execute_retrieve 0 (addWork (Some 7) None (ThreadPool 1))))"

definition pool_demo_done :: "nat pool" where
  "pool_demo_done = execute_retrieve 0 (addWork None (Some 0) pool_demo_blocked)"

lemma pool_demo_blocked_eq:
  "pool_demo_blocked = \<lparr>threads = [Blocked], workQ = [], submitted = [Some 7], retrieved = [Some 7], executed = [7], reaped = 0\<rparr>"
  by (simp add: pool_demo_blocked_def ThreadPool_def pool_defs)

lemma pool_demo_done_eq:
  "pool_demo_done = \<lparr>threads = [Dead], workQ = [], submitted = [Some 7, None], retrieved = [Some 7, None],
     executed = [7], reaped = 0\<rparr>"
  by (simp add: pool_demo_done_def pool_demo_blocked_eq pool_defs)

lemma pool_demo_blocked_reachable: "pool_reachable 1 pool_demo_blocked"
  unfolding pool_demo_blocked_def
  by (intro pr_step [OF _ ps_worker [OF ws_retrieve]] pr_step [OF _ ps_worker [OF ws_execute]]
      pr_step [OF _ ps_add] pr_init) (simp_all add: ThreadPool_def pool_defs)

lemma pool_demo_done_reachable: "pool_reachable 1 pool_demo_done"
  unfolding pool_demo_done_def
  by (intro pr_step [OF _ ps_worker [OF ws_retrieve]] pr_step [OF _ ps_add] pool_demo_blocked_reachable)
    (simp_all add: pool_demo_blocked_eq pool_defs)

text \<open>C13: every job handed to the pool runs at most once, and in first-in first-out order of retrieval. In every
  reachable state of a pool of \<open>n\<close> threads, whatever the scheduling, the wake-ups and the work added by other
  threads, what was retrieved is a prefix of what was submitted, the rest is still queued, and the finished jobs
  together with the ones being executed are exactly the retrieved non-null ones, with multiplicity.\<close>

theorem pool_exactly_once:
  assumes "pool_reachable n p"
  shows "prefix (retrieved p) (submitted p) \<and> retrieved p @ workQ p = submitted p \<and>
    mset (executed p) + mset (concat (map running (threads p))) = mset (works (retrieved p))"
  using pool_fifo.taken_prefix [OF assms] pool_reachable_inv [OF assms] by (simp add: pool_inv_def)

theorem pool_exactly_once_witness:
  "prefix (retrieved pool_demo_blocked) (submitted pool_demo_blocked) \<and> executed pool_demo_blocked = [7]"
  using pool_exactly_once [OF pool_demo_blocked_reachable] by (simp add: pool_demo_blocked_eq)

text \<open>C20: no wake-up is lost. Whenever work is queued and a thread of the pool sleeps on the condition variable,
  at least as many threads as there are queued works are on their way to \<^verbatim>\<open>retrieveWork\<close>.\<close>

theorem pool_no_lost_wakeup:
  assumes "pool_reachable n p" and "Blocked \<in> set (threads p)"
  shows "length (workQ p) \<le> count_list (threads p) Ready"
  using pool_reachable_inv [OF assms(1)] assms(2) by (simp add: pool_inv_def)

theorem pool_no_lost_wakeup_witness: "length (workQ pool_demo_blocked) \<le> count_list (threads pool_demo_blocked) Ready"
  using pool_no_lost_wakeup [OF pool_demo_blocked_reachable] by (simp add: pool_demo_blocked_eq)



text \<open>C35: a core task queue runs every task pushed to it exactly once and in order, and never sleeps on work: in a
  reachable state the executed tasks followed by the queued ones are the pushed ones, and a non-empty queue means
  the thread holds the mutex or is about to take it.\<close>

theorem core_task_queue_fifo:
  assumes "ctq_reachable q"
  shows "ctq_executed q @ wQueue q = ctq_submitted q \<and> (wQueue q \<noteq> [] \<longrightarrow> ctq_thread q \<in> {Ctq_woken, Ctq_holding})"
  using ctq_fifo.split_reach [OF assms] ctq_reachable_inv [OF assms]
  by (cases "ctq_thread q") (auto simp: ctq_inv_def)

theorem core_task_queue_fifo_witness:
  "ctq_executed (ctq_push (3 :: nat) CoreTaskQueue) @ wQueue (ctq_push 3 CoreTaskQueue) = [3]"
  using core_task_queue_fifo [OF cr_step [OF cr_init ct_push], of 3] by (simp add: CoreTaskQueue_def ctq_push_def)

end
