(* ===== verification/Topology.thy ===== *)
theory Topology
  imports Bits Text_Utils "HOL-Library.Multiset" "HOL-Library.Product_Lexorder"
begin

text \<open>
  The processor topology: \<^verbatim>\<open>TopologyEntry\<close>, \<^verbatim>\<open>fillEntry\<close> and \<^verbatim>\<open>initCoreMasks\<close> (topologyentry.h), the system tree
  of sockets, cores and hyper-threads (topology.h, topology.cpp), and \<^verbatim>\<open>PCM::discoverSystemTopology\<close>
  (cpucounters.cpp) in its Linux branch. The processor is a parameter: \<open>cpuid c leaf subleaf\<close> are the registers
  the \<^verbatim>\<open>cpuid\<close> instruction returns on core \<open>c\<close>, and \<open>affinity c\<close> says whether a thread may be bound to core \<open>c\<close>
  (a \<^verbatim>\<open>TemporalThreadAffinity\<close> throws otherwise). The two \<^verbatim>\<open>cpuid\<close> enumeration loops end when the processor
  reports an invalid level; they are \<^verbatim>\<open>partial_function\<close>s, so a processor that never does so gives \<open>None\<close>.
  Identifiers are \<^verbatim>\<open>int32\<close> and are assigned from \<^verbatim>\<open>uint32\<close> bit fields, hence \<open>i32\<close>.
\<close>

section \<open>Topology entries\<close>

record cpuid_info =
  cpuid_eax :: u32
  cpuid_ebx :: u32
  cpuid_ecx :: u32
  cpuid_edx :: u32

definition i32 :: "u32 \<Rightarrow> int" where
  "i32 w = sint w"

record TopologyEntry =
  os_id :: int
  thread_id :: int
  core_id :: int
  module_id :: int
  tile_id :: int
  die_id :: int
  die_grp_id :: int
  socket_id :: int
  socket_unique_core_id :: int
  l3_cache_id :: int
  native_cpu_model :: int
  core_type :: int

definition TopologyEntry_init :: TopologyEntry where
  "TopologyEntry_init = \<lparr>os_id = -1, thread_id = -1, core_id = -1, module_id = -1, tile_id = -1, die_id = -1,
     die_grp_id = -1, socket_id = -1, socket_unique_core_id = -1, l3_cache_id = -1, native_cpu_model = -1,
     core_type = -1\<rparr>"

definition InvalidDomainTypeID :: u32 where "InvalidDomainTypeID = 0"
definition LogicalProcessorDomain :: u32 where "LogicalProcessorDomain = 1"
definition CoreDomain :: u32 where "CoreDomain = 2"
definition ModuleDomain :: u32 where "ModuleDomain = 3"
definition TileDomain :: u32 where "TileDomain = 4"
definition DieDomain :: u32 where "DieDomain = 5"
definition DieGrpDomain :: u32 where "DieGrpDomain = 6"
definition SocketPackageDomain :: u32 where "SocketPackageDomain = 0xffff"

definition getCoreTypeStr :: "TopologyEntry \<Rightarrow> string" where
  "getCoreTypeStr te =
     (if core_type te = 0x20 then ''Atom'' else if core_type te = 0x40 then ''Core''
      else if core_type te = -1 then ''invalid'' else ''unknown'')"

definition getDomainTypeStr :: "u32 \<Rightarrow> string" where
  "getDomainTypeStr d =
     (if d = InvalidDomainTypeID then ''invalid'' else if d = LogicalProcessorDomain then ''LogicalProcessor''
      else if d = CoreDomain then ''Core'' else if d = ModuleDomain then ''Module'' else if d = TileDomain then ''Tile''
      else if d = DieDomain then ''Die'' else if d = DieGrpDomain then ''DieGroup''
      else if d = SocketPackageDomain then ''Socket/Package'' else ''unknown'')"

definition isSameSocket :: "TopologyEntry \<Rightarrow> TopologyEntry \<Rightarrow> bool" where
  "isSameSocket a b = (socket_id a = socket_id b)"

definition isSameDieGroup :: "TopologyEntry \<Rightarrow> TopologyEntry \<Rightarrow> bool" where
  "isSameDieGroup a b = (die_grp_id a = die_grp_id b \<and> isSameSocket a b)"

definition isSameDie :: "TopologyEntry \<Rightarrow> TopologyEntry \<Rightarrow> bool" where
  "isSameDie a b = (die_id a = die_id b \<and> isSameDieGroup a b)"

definition isSameTile :: "TopologyEntry \<Rightarrow> TopologyEntry \<Rightarrow> bool" where
  "isSameTile a b = (tile_id a = tile_id b \<and> isSameDie a b)"

definition isSameModule :: "TopologyEntry \<Rightarrow> TopologyEntry \<Rightarrow> bool" where
  "isSameModule a b = (module_id a = module_id b \<and> isSameTile a b)"

definition isSameCore :: "TopologyEntry \<Rightarrow> TopologyEntry \<Rightarrow> bool" where
  "isSameCore a b = (core_id a = core_id b \<and> isSameModule a b)"

definition te_less :: "TopologyEntry \<Rightarrow> TopologyEntry \<Rightarrow> bool" where
  "te_less a b =
     (if socket_id a \<noteq> socket_id b then socket_id a < socket_id b
      else if die_grp_id a \<noteq> die_grp_id b then die_grp_id a < die_grp_id b
      else if die_id a \<noteq> die_id b then die_id a < die_id b
      else if tile_id a \<noteq> tile_id b then tile_id a < tile_id b
      else if module_id a \<noteq> module_id b then module_id a < module_id b
      else if core_id a \<noteq> core_id b then core_id a < core_id b
      else thread_id a < thread_id b)"

definition fillEntry :: "u32 \<Rightarrow> u32 \<Rightarrow> u32 \<Rightarrow> u32 \<Rightarrow> TopologyEntry \<Rightarrow> TopologyEntry" where
  "fillEntry smtMaskWidth coreMaskWidth l2CacheMaskShift apic_id entry =
     (let core = i32 (if coreMaskWidth \<noteq> 0
                      then extract_bits_32 apic_id smtMaskWidth (smtMaskWidth + coreMaskWidth - 1) else 0)
      in entry\<lparr>thread_id := i32 (if smtMaskWidth \<noteq> 0 then extract_bits_32 apic_id 0 (smtMaskWidth - 1) else 0),
               core_id := core,
               socket_id := i32 (extract_bits_32 apic_id (smtMaskWidth + coreMaskWidth) 31),
               tile_id := i32 (extract_bits_32 apic_id l2CacheMaskShift 31),
               socket_unique_core_id := core\<rparr>)"

section \<open>The masks of leaf 0xB and leaf 4\<close>

record mask_state =
  ms_smtMaskWidth :: u32
  ms_corePlusSMTMaskWidth :: u32
  ms_wasThreadReported :: bool
  ms_wasCoreReported :: bool

partial_function (option) leaf_b_loop :: "(u32 \<Rightarrow> u32 \<Rightarrow> cpuid_info) \<Rightarrow> u32 \<Rightarrow> mask_state \<Rightarrow> mask_state option" where
  "leaf_b_loop cpuid subleaf st =
     (let r = cpuid 0xb subleaf in
      if cpuid_ebx r = 0 then Some st
      else let levelType = extract_bits_32 (cpuid_ecx r) 8 15;
               levelShift = extract_bits_32 (cpuid_eax r) 0 4
           in leaf_b_loop cpuid (subleaf + 1)
                (if levelType = 1 then st\<lparr>ms_smtMaskWidth := levelShift, ms_wasThreadReported := True\<rparr>
                 else if levelType = 2 then st\<lparr>ms_corePlusSMTMaskWidth := levelShift, ms_wasCoreReported := True\<rparr>
                 else st))"

function cache_shift :: "u32 \<Rightarrow> u32 \<Rightarrow> u32" where
  "cache_shift w shift = (if w > 1 then cache_shift (drop_bit 1 w) (shift + 1) else shift)"
  by pat_completeness auto
termination
  by (relation "measure (unat \<circ> fst)")
    (auto simp: word_less_nat_alt drop_bit_eq_div unat_div)

declare cache_shift.simps [simp del]

record core_masks =
  smtMaskWidth :: u32
  coreMaskWidth :: u32
  l2CacheMaskShift :: u32
  l3CacheMaskShift :: u32

definition cache_sharing :: "(u32 \<Rightarrow> u32 \<Rightarrow> cpuid_info) \<Rightarrow> u32 \<Rightarrow> u32" where
  "cache_sharing cpuid it = 1 + extract_bits_32 (cpuid_eax (cpuid 0x4 it)) 14 25"

text \<open>\<^verbatim>\<open>initCoreMasks\<close>, called with all four reference arguments zero. The inner \<open>None\<close> is its return value false;
  the loop over all caches at its end only prints.\<close>

definition initCoreMasks :: "(u32 \<Rightarrow> u32 \<Rightarrow> cpuid_info) \<Rightarrow> core_masks option option" where
  "initCoreMasks cpuid =
     (case leaf_b_loop cpuid 0 \<lparr>ms_smtMaskWidth = 0, ms_corePlusSMTMaskWidth = 0, ms_wasThreadReported = False,
             ms_wasCoreReported = False\<rparr> of
        None \<Rightarrow> None
      | Some st \<Rightarrow>
          (let finish = (\<lambda>width.
             (let l2 = cache_shift (cache_sharing cpuid 2) 0; l3 = cache_shift (cache_sharing cpuid 3) 0
              in if l3 > 31 then None
                 else Some \<lparr>smtMaskWidth = ms_smtMaskWidth st, coreMaskWidth = width,
                            l2CacheMaskShift = l2, l3CacheMaskShift = l3\<rparr>))
           in Some (if ms_wasThreadReported st \<and> ms_wasCoreReported st
                    then finish (ms_corePlusSMTMaskWidth st - ms_smtMaskWidth st)
                    else if \<not> ms_wasCoreReported st \<and> ms_wasThreadReported st then finish (ms_smtMaskWidth st)
                    else None)))"

section \<open>The domains of leaf 0x1F\<close>

record domain =
  dom_type :: u32
  levelShift :: u32
  nextLevelShift :: u32
  dom_width :: u32

definition back_shift :: "domain list \<Rightarrow> u32" where
  "back_shift ds = (if ds = [] then 0 else nextLevelShift (last ds))"

partial_function (option) leaf_1f_loop :: "(u32 \<Rightarrow> u32 \<Rightarrow> cpuid_info) \<Rightarrow> u32 \<Rightarrow> domain list \<Rightarrow> domain list option" where
  "leaf_1f_loop cpuid subleaf ds =
     (let r = cpuid 0x1F subleaf; t = extract_bits_32 (cpuid_ecx r) 8 15 in
      if t = InvalidDomainTypeID then Some ds
      else let next = extract_bits_32 (cpuid_eax r) 0 4; shift = back_shift ds
           in leaf_1f_loop cpuid (subleaf + 1)
                (ds @ [\<lparr>dom_type = t, levelShift = shift, nextLevelShift = next, dom_width = next - shift\<rparr>]))"

definition add_package_domain :: "domain list \<Rightarrow> domain list" where
  "add_package_domain ds =
     (if ds = [] then []
      else ds @ [\<lparr>dom_type = SocketPackageDomain, levelShift = back_shift ds, nextLevelShift = 32,
                  dom_width = 32 - back_shift ds\<rparr>])"

definition discover_domains :: "(u32 \<Rightarrow> u32 \<Rightarrow> cpuid_info) \<Rightarrow> u32 \<Rightarrow> domain list option" where
  "discover_domains cpuid max_cpuid =
     (if max_cpuid \<ge> 0x1F
      then (case leaf_1f_loop cpuid 0 [] of None \<Rightarrow> None | Some ds \<Rightarrow> Some (add_package_domain ds))
      else Some [])"

text \<open>\<^verbatim>\<open>topologyDomainMap\<close>: a later level of the same type replaces an earlier one.\<close>

definition find_domain :: "domain list \<Rightarrow> u32 \<Rightarrow> domain option" where
  "find_domain ds t = find (\<lambda>d. dom_type d = t) (rev ds)"

definition getID :: "domain list \<Rightarrow> u32 \<Rightarrow> u32 \<Rightarrow> u32" where
  "getID ds apic_id t = (case find_domain ds t of
     Some d \<Rightarrow> extract_bits_32 apic_id (levelShift d) (nextLevelShift d - 1)
   | None \<Rightarrow> 0)"

definition getDomain :: "domain list \<Rightarrow> u32 \<Rightarrow> domain result" where
  "getDomain ds t = (case find_domain ds t of Some d \<Rightarrow> Inr d | None \<Rightarrow> Inl (Runtime_error ''DomainType not found''))"

definition getAPICID :: "(u32 \<Rightarrow> u32 \<Rightarrow> cpuid_info) \<Rightarrow> u32 \<Rightarrow> u32" where
  "getAPICID cpuid leaf = cpuid_edx (cpuid leaf 0)"

definition populateEntry ::
  "domain list \<Rightarrow> core_masks \<Rightarrow> (u32 \<Rightarrow> u32 \<Rightarrow> cpuid_info) \<Rightarrow> TopologyEntry \<Rightarrow> TopologyEntry result" where
  "populateEntry ds ms cpuid entry =
     rbind (if ds \<noteq> [] then
              (let tile = i32 (extract_bits_32 (getAPICID cpuid 0xb) (l2CacheMaskShift ms) 31);
                   apic_id = getAPICID cpuid 0x1F;
                   e = entry\<lparr>thread_id := i32 (getID ds apic_id LogicalProcessorDomain),
                             core_id := i32 (getID ds apic_id CoreDomain),
                             module_id := i32 (getID ds apic_id ModuleDomain),
                             tile_id := (if tile = 0 then i32 (getID ds apic_id TileDomain) else tile),
                             die_id := i32 (getID ds apic_id DieDomain),
                             die_grp_id := i32 (getID ds apic_id DieGrpDomain),
                             socket_id := i32 (getID ds apic_id SocketPackageDomain)\<rparr>
               in rbind (getDomain ds CoreDomain) (\<lambda>d1.
                  rbind (getDomain ds SocketPackageDomain) (\<lambda>d2.
                    Inr (e\<lparr>socket_unique_core_id := i32 (extract_bits_32 apic_id (levelShift d1) (levelShift d2 - 1))\<rparr>))))
            else Inr (fillEntry (smtMaskWidth ms) (coreMaskWidth ms) (l2CacheMaskShift ms) (getAPICID cpuid 0xb) entry))
       (\<lambda>e. Inr (e\<lparr>l3_cache_id := i32 (extract_bits_32 (getAPICID cpuid 0xb) (l3CacheMaskShift ms) 31)\<rparr>))"

definition populateHybridEntry :: "bool \<Rightarrow> (u32 \<Rightarrow> u32 \<Rightarrow> cpuid_info) \<Rightarrow> TopologyEntry \<Rightarrow> TopologyEntry" where
  "populateHybridEntry hybrid cpuid entry =
     (if \<not> hybrid then entry
      else let a = cpuid_eax (cpuid 0x1a 0)
           in entry\<lparr>native_cpu_model := i32 (extract_bits_32 a 0 23), core_type := i32 (extract_bits_32 a 24 31)\<rparr>)"

section \<open>The system tree\<close>

record hyper_thread =
  ht_osID :: int
  ht_te :: TopologyEntry
  ht_online :: bool

record core =
  core_threads :: "hyper_thread list"
  MAX_THREADS_PER_CORE :: int

record socket =
  socket_cores :: "core list"
  socket_refCore :: "core option"
  logicalID :: int

record system_root =
  sockets :: "socket list"
  offlinedThreadsAtStart :: "hyper_thread list"

definition addHyperThreadInfo :: "int \<Rightarrow> TopologyEntry \<Rightarrow> core \<Rightarrow> core result" where
  "addHyperThreadInfo osID te c =
     (if thread_id te \<ge> MAX_THREADS_PER_CORE c then Inl (Runtime_error ''thread_id too large'')
      else if core_threads c = [] \<or> find (\<lambda>ht. ht_osID ht = osID) (core_threads c) = None
      then Inr (c\<lparr>core_threads := core_threads c @ [\<lparr>ht_osID = osID, ht_te = te, ht_online = True\<rparr>]\<rparr>)
      else Inr c)"

definition hyperThread :: "core \<Rightarrow> nat \<Rightarrow> hyper_thread result" where
  "hyperThread c threadNo =
     (if threadNo \<ge> length (core_threads c) then Inl (Runtime_error ''threadNo larger than vector'')
      else Inr (core_threads c ! threadNo))"

text \<open>The identifiers of a core are the ones of its first thread.\<close>

definition core_front :: "(hyper_thread \<Rightarrow> 'a) \<Rightarrow> core \<Rightarrow> 'a result" where
  "core_front f c = (case core_threads c of [] \<Rightarrow> Inl (Runtime_error ''BUG: No threads yet'') | t # _ \<Rightarrow> Inr (f t))"

definition coreID :: "core \<Rightarrow> int result" where
  "coreID = core_front (\<lambda>t. core_id (ht_te t))"

definition moduleID :: "core \<Rightarrow> int result" where
  "moduleID = core_front (\<lambda>t. module_id (ht_te t))"

definition tileID :: "core \<Rightarrow> int result" where
  "tileID = core_front (\<lambda>t. tile_id (ht_te t))"

definition dieID :: "core \<Rightarrow> int result" where
  "dieID = core_front (\<lambda>t. die_id (ht_te t))"

definition dieGroupID :: "core \<Rightarrow> int result" where
  "dieGroupID = core_front (\<lambda>t. die_grp_id (ht_te t))"

definition socketID :: "core \<Rightarrow> int result" where
  "socketID = core_front (\<lambda>t. socket_id (ht_te t))"

definition socketUniqueCoreID :: "core \<Rightarrow> int result" where
  "socketUniqueCoreID = core_front (\<lambda>t. socket_unique_core_id (ht_te t))"

definition int_string :: "int \<Rightarrow> string" where
  "int_string i = (if i < 0 then CHR ''-'' # dec_string (nat (- i)) else dec_string (nat i))"

definition topologyDataString :: "hyper_thread \<Rightarrow> string" where
  "topologyDataString h =
     (let te = ht_te h in
      concat (map (\<lambda>i. int_string i @ [CHR 0x09])
        [ht_osID h, socket_id te, die_grp_id te, die_id te, tile_id te, core_id te, thread_id te]))"

definition core_findThreadByOSID :: "int \<Rightarrow> core \<Rightarrow> hyper_thread option" where
  "core_findThreadByOSID osID c = find (\<lambda>ht. ht_osID ht = osID) (core_threads c)"

definition core_isOnline :: "core \<Rightarrow> bool" where
  "core_isOnline c = list_ex ht_online (core_threads c)"

fun first_some :: "('a \<Rightarrow> 'b option) \<Rightarrow> 'a list \<Rightarrow> 'b option" where
  "first_some f [] = None"
| "first_some f (x # xs) = (case f x of Some y \<Rightarrow> Some y | None \<Rightarrow> first_some f xs)"

definition socket_findThreadByOSID :: "int \<Rightarrow> socket \<Rightarrow> hyper_thread option" where
  "socket_findThreadByOSID osID s = first_some (core_findThreadByOSID osID) (socket_cores s)"

definition setRefCore :: "socket \<Rightarrow> socket result" where
  "setRefCore s =
     (if socket_cores s = [] then Inl (Runtime_error ''No cores added to the socket so cannot set reference core'')
      else Inr (s\<lparr>socket_refCore := Some (hd (socket_cores s))\<rparr>))"

text \<open>\<^verbatim>\<open>findCoreByTopologyEntry\<close> returns the position of the core in the vector of the socket.\<close>

fun findCore :: "TopologyEntry \<Rightarrow> core list \<Rightarrow> nat \<Rightarrow> nat option result" where
  "findCore te [] i = Inr None"
| "findCore te (c # cs) i =
     rbind (hyperThread c 0) (\<lambda>ht. if isSameCore (ht_te ht) te then Inr (Some i) else findCore te cs (Suc i))"

definition findCoreByTopologyEntry :: "TopologyEntry \<Rightarrow> socket \<Rightarrow> nat option result" where
  "findCoreByTopologyEntry te s = findCore te (socket_cores s) 0"

text \<open>\<^verbatim>\<open>Socket\<close>: the kind of its uncore is decided by the processor; neither kind is an error.\<close>

definition addSocket :: "bool \<Rightarrow> int \<Rightarrow> system_root \<Rightarrow> system_root result" where
  "addSocket supported logical_id r =
     (if \<not> supported then Inl (Runtime_error ''Neither a client nor a server part'')
      else Inr (r\<lparr>sockets := sockets r @ [\<lparr>socket_cores = [], socket_refCore = None, logicalID = logical_id\<rparr>]\<rparr>))"

definition socket_addThread :: "int \<Rightarrow> int \<Rightarrow> TopologyEntry \<Rightarrow> socket \<Rightarrow> socket result" where
  "socket_addThread tpc osID te s =
     rbind (findCoreByTopologyEntry te s) (\<lambda>found.
       case found of
         None \<Rightarrow> rbind (addHyperThreadInfo osID te \<lparr>core_threads = [], MAX_THREADS_PER_CORE = tpc\<rparr>)
                   (\<lambda>c. Inr (s\<lparr>socket_cores := socket_cores s @ [c]\<rparr>))
       | Some i \<Rightarrow> rbind (addHyperThreadInfo osID te (socket_cores s ! i))
                   (\<lambda>c. Inr (s\<lparr>socket_cores := (socket_cores s)[i := c]\<rparr>)))"

text \<open>The loop of \<^verbatim>\<open>SystemRoot::addThread\<close> stops at the first socket with the right logical identifier.\<close>

fun sockets_addThread :: "int \<Rightarrow> int \<Rightarrow> TopologyEntry \<Rightarrow> socket list \<Rightarrow> socket list option result" where
  "sockets_addThread tpc osID te [] = Inr None"
| "sockets_addThread tpc osID te (s # ss) =
     (if logicalID s = socket_id te
      then rbind (socket_addThread tpc osID te s) (\<lambda>s'. Inr (Some (s' # ss)))
      else rbind (sockets_addThread tpc osID te ss) (\<lambda>r. Inr (map_option (Cons s) r)))"

definition addThread :: "int \<Rightarrow> int \<Rightarrow> TopologyEntry \<Rightarrow> system_root \<Rightarrow> system_root result" where
  "addThread tpc osID te r =
     rbind (sockets_addThread tpc osID te (sockets r)) (\<lambda>added.
       case added of
         Some ss \<Rightarrow> Inr (r\<lparr>sockets := ss\<rparr>)
       | None \<Rightarrow> Inr (r\<lparr>offlinedThreadsAtStart := offlinedThreadsAtStart r @
                         [\<lparr>ht_osID = osID, ht_te = te, ht_online = False\<rparr>]\<rparr>))"

definition findThreadByOSID :: "int \<Rightarrow> system_root \<Rightarrow> hyper_thread option" where
  "findThreadByOSID osID r =
     (case first_some (socket_findThreadByOSID osID) (sockets r) of
        Some t \<Rightarrow> Some t
      | None \<Rightarrow> find (\<lambda>ht. ht_osID ht = osID) (offlinedThreadsAtStart r))"

section \<open>Discovery\<close>

record pcm_topology =
  topology :: "TopologyEntry list"
  num_cores :: int
  num_online_cores :: int
  num_sockets :: int
  num_online_sockets :: int
  threads_per_core :: int
  num_phys_cores_per_socket :: int
  systemTopology :: system_root
  socketRefCore :: "int list"

definition entry_online :: "TopologyEntry \<Rightarrow> bool" where
  "entry_online e = (os_id e \<noteq> -1 \<and> core_id e \<noteq> -1 \<and> socket_id e \<noteq> -1)"

definition isCoreOnline :: "TopologyEntry list \<Rightarrow> nat \<Rightarrow> bool" where
  "isCoreOnline topo i = entry_online (topo ! i)"

text \<open>\<^verbatim>\<open>socketIdMap\<close> is an ordered map; its keys in order, distinct.\<close>

fun map_key_insert :: "u32 \<Rightarrow> u32 list \<Rightarrow> u32 list" where
  "map_key_insert k [] = [k]"
| "map_key_insert k (x # xs) = (if k < x then k # x # xs else if k = x then x # xs else x # map_key_insert k xs)"

record cpuinfo_state =
  ci_entry :: TopologyEntry
  ci_topology :: "TopologyEntry list"
  ci_socketIds :: "u32 list"
  ci_online :: int

definition processor_prefix :: string where
  "processor_prefix = ''processor''"

text \<open>One line of \<^verbatim>\<open>/proc/cpuinfo\<close>. Writing \<^verbatim>\<open>topology\<close> outside its size is undefined in C++; here it is an error.\<close>

definition cpuinfo_line ::
  "(int \<Rightarrow> bool) \<Rightarrow> (int \<Rightarrow> u32 \<Rightarrow> u32 \<Rightarrow> cpuid_info) \<Rightarrow> bool \<Rightarrow> domain list \<Rightarrow> core_masks \<Rightarrow> string \<Rightarrow> cpuinfo_state
     \<Rightarrow> cpuinfo_state result" where
  "cpuinfo_line affinity cpuid hybrid ds ms buffer st =
     (if take 9 buffer \<noteq> processor_prefix then Inr st
      else let id = fst (is_read_int (s_expect_match (processor_prefix @ CHR 0x09 # '': '') (istringstream buffer))
                           (os_id (ci_entry st)));
               e = (ci_entry st)\<lparr>os_id := id\<rparr>
           in if \<not> affinity id then Inr (st\<lparr>ci_entry := e\<rparr>)
              else case populateEntry ds ms (cpuid id) e of
                     Inl _ \<Rightarrow> Inr (st\<lparr>ci_entry := e\<rparr>)
                   | Inr e' \<Rightarrow>
                       (let e'' = populateHybridEntry hybrid (cpuid id) e'
                        in if id < 0 \<or> int (length (ci_topology st)) \<le> id then Inl Out_of_range
                           else Inr (st\<lparr>ci_entry := e'', ci_topology := (ci_topology st)[nat id := e''],
                                        ci_socketIds := map_key_insert (word_of_int (socket_id e'')) (ci_socketIds st),
                                        ci_online := ci_online st + 1\<rparr>)))"

fun position :: "'a list \<Rightarrow> 'a \<Rightarrow> nat" where
  "position [] x = 0"
| "position (y # ys) x = (if y = x then 0 else Suc (position ys x))"

definition renumber_sockets :: "u32 list \<Rightarrow> TopologyEntry list \<Rightarrow> TopologyEntry list" where
  "renumber_sockets ids topo =
     map (\<lambda>e. if ids \<noteq> [] \<and> entry_online e
              then e\<lparr>socket_id := int (position ids (word_of_int (socket_id e)))\<rparr> else e) topo"

text \<open>The scan for the largest number of threads of one core, over the entries sorted by \<open>te_less\<close>.\<close>

fun tpc_scan :: "TopologyEntry \<Rightarrow> int \<Rightarrow> int \<Rightarrow> TopologyEntry list \<Rightarrow> int" where
  "tpc_scan firstCore current tpc [] = max tpc current"
| "tpc_scan firstCore current tpc (e # es) =
     (if isSameCore e firstCore then tpc_scan firstCore (current + 1) tpc es
      else tpc_scan e 1 (max tpc current) es)"

definition find_threads_per_core :: "TopologyEntry list \<Rightarrow> int result" where
  "find_threads_per_core sortedTopology =
     (case dropWhile (\<lambda>e. \<not> entry_online e) sortedTopology of
        [] \<Rightarrow> Inl Assert_failed
      | e # es \<Rightarrow> Inr (tpc_scan e 0 0 (e # es)))"

fun fill_ref_cores :: "TopologyEntry list \<Rightarrow> nat \<Rightarrow> int list \<Rightarrow> int list" where
  "fill_ref_cores [] i refs = refs"
| "fill_ref_cores (e # es) i refs =
     fill_ref_cores es (Suc i) (if entry_online e then refs[nat (socket_id e) := int i] else refs)"

definition te_insert :: "TopologyEntry \<Rightarrow> TopologyEntry list \<Rightarrow> TopologyEntry list" where
  "te_insert e xs = takeWhile (\<lambda>x. te_less x e) xs @ e # dropWhile (\<lambda>x. te_less x e) xs"


definition te_sort :: "TopologyEntry list \<Rightarrow> TopologyEntry list" where
  "te_sort xs = foldr te_insert xs []"

function find_affinity :: "(int \<Rightarrow> bool) \<Rightarrow> nat \<Rightarrow> nat option" where
  "find_affinity affinity core =
     (if core < 65536 then if affinity (int core) then Some core else find_affinity affinity (Suc core) else None)"
  by pat_completeness auto
termination
  by (relation "measure (\<lambda>(_, c). 65536 - c)") auto

declare find_affinity.simps [simp del]

text \<open>The part of \<^verbatim>\<open>discoverSystemTopology\<close> after the entries were read: logical socket numbers, threads per core,
  the system tree and the reference cores.\<close>

definition build_topology :: "bool \<Rightarrow> cpuinfo_state \<Rightarrow> pcm_topology result" where
  "build_topology supported st =
     (let ids = ci_socketIds st; topo = renumber_sockets ids (ci_topology st);
          n = int (length topo); ns = max (int (length ids)) 1
      in rbind (find_threads_per_core (te_sort topo)) (\<lambda>tpc.
         rbind (rfold (addSocket supported) (map int [0..<length ids]) \<lparr>sockets = [], offlinedThreadsAtStart = []\<rparr>) (\<lambda>root.
         rbind (rfold (\<lambda>(cid, te). addThread tpc (int cid) te) (enumerate 0 topo) root) (\<lambda>root.
         rbind (rfold (\<lambda>s acc. rbind (setRefCore s) (\<lambda>s'. Inr (acc @ [s']))) (sockets root) []) (\<lambda>ss.
           let refs = fill_ref_cores topo 0 (replicate (nat ns) (- 1))
           in Inr \<lparr>topology = topo, num_cores = n,
                   num_online_cores = (if ci_online st = 0 then n else ci_online st),
                   num_sockets = ns,
                   num_online_sockets = int (length (filter (\<lambda>r. r \<noteq> - 1) refs)),
                   threads_per_core = tpc,
                   num_phys_cores_per_socket = (if n = ci_online st then n div ns div tpc else 0),
                   systemTopology = root\<lparr>sockets := ss\<rparr>,
                   socketRefCore = refs\<rparr>)))))"

text \<open>The outer \<open>None\<close> is a processor whose enumeration never ends, \<open>Inr None\<close> is the return value false.
  \<open>present\<close> and \<open>cpuinfo\<close> are the contents of the two Linux files; \<open>supported\<close> says that the processor is a
  known client or server part.\<close>

definition discoverSystemTopology ::
  "(int \<Rightarrow> bool) \<Rightarrow> (int \<Rightarrow> u32 \<Rightarrow> u32 \<Rightarrow> cpuid_info) \<Rightarrow> bool \<Rightarrow> u32 \<Rightarrow> bool \<Rightarrow> string \<Rightarrow> string list option
     \<Rightarrow> pcm_topology option result option" where
  "discoverSystemTopology affinity cpuid hybrid max_cpuid supported present cpuinfo =
     (case find_affinity affinity 0 of
        None \<Rightarrow> Some (Inl Std_exception)
      | Some aff \<Rightarrow>
          (case initCoreMasks (cpuid (int aff)) of
             None \<Rightarrow> None
           | Some None \<Rightarrow> Some (Inr None)
           | Some (Some ms) \<Rightarrow>
               (case discover_domains (cpuid (int aff)) max_cpuid of
                  None \<Rightarrow> None
                | Some ds \<Rightarrow> Some (
                    (let m = readMaxFromSysFS present in
                     if m = - 1 then Inr None
                     else case cpuinfo of
                            None \<Rightarrow> Inr None
                          | Some lines \<Rightarrow>
                              if m + 1 < 0 then Inl Length_error
                              else rbind (rfold (cpuinfo_line affinity cpuid hybrid ds ms) lines
                                     \<lparr>ci_entry = TopologyEntry_init,
                                      ci_topology = replicate (nat (m + 1)) TopologyEntry_init,
                                      ci_socketIds = [], ci_online = 0\<rparr>)
                                   (\<lambda>st. rbind (build_topology supported st) (\<lambda>t. Inr (Some t))))))))"

section \<open>The order on entries\<close>

definition te_key :: "TopologyEntry \<Rightarrow> int \<times> int \<times> int \<times> int \<times> int \<times> int \<times> int" where
  "te_key e = (socket_id e, die_grp_id e, die_id e, tile_id e, module_id e, core_id e, thread_id e)"

lemmas same_core_defs = isSameCore_def isSameModule_def isSameTile_def isSameDie_def isSameDieGroup_def isSameSocket_def

lemma te_less_key: "te_less a b \<longleftrightarrow> te_key a < te_key b"
  by (auto simp: te_less_def te_key_def)

lemma isSameCore_refl [simp]: "isSameCore a a"
  by (simp add: same_core_defs)

lemma isSameCore_sym: "isSameCore a b = isSameCore b a"
  by (auto simp: same_core_defs)

lemma isSameCore_trans: "isSameCore a b \<Longrightarrow> isSameCore b c \<Longrightarrow> isSameCore a c"
  by (auto simp: same_core_defs)

text \<open>Entries between two threads of one core belong to that core.\<close>

lemma isSameCore_between:
  assumes "\<not> te_less b a" "\<not> te_less c b" "isSameCore a c"
  shows "isSameCore a b"
  using assms by (auto simp: te_less_def same_core_defs split: if_splits)

section \<open>Threads per core\<close>

definition core_group :: "TopologyEntry \<Rightarrow> TopologyEntry list \<Rightarrow> int" where
  "core_group e xs = int (length (filter (isSameCore e) xs))"

abbreviation te_sorted :: "TopologyEntry list \<Rightarrow> bool" where
  "te_sorted \<equiv> sorted_wrt (\<lambda>a b. \<not> te_less b a)"

lemma core_group_simps [simp]:
  "core_group e [] = 0"
  "core_group e (x # xs) = (if isSameCore e x then 1 else 0) + core_group e xs"
  by (simp_all add: core_group_def)

lemma core_group_cong: "isSameCore a b \<Longrightarrow> core_group a xs = core_group b xs"
  unfolding core_group_def by (auto simp: same_core_defs intro!: arg_cong [where f = length] filter_cong)

lemma core_group_none: "(\<And>x. x \<in> set xs \<Longrightarrow> \<not> isSameCore e x) \<Longrightarrow> core_group e xs = 0"
  by (simp add: core_group_def filter_empty_conv)

lemma core_group_nonneg [simp]: "0 \<le> core_group e xs"
  by (simp add: core_group_def)

definition other_groups :: "TopologyEntry \<Rightarrow> TopologyEntry list \<Rightarrow> int set" where
  "other_groups f xs = (\<lambda>e. core_group e xs) ` {e \<in> set xs. \<not> isSameCore e f}"

lemma finite_other_groups [simp]: "finite (other_groups f xs)"
  by (simp add: other_groups_def)

lemma other_groups_same:
  assumes "isSameCore e f"
  shows "other_groups f (e # es) = other_groups f es"
proof -
  have "\<not> isSameCore x e" if "\<not> isSameCore x f" for x
    using that assms isSameCore_trans by blast
  then show ?thesis using assms by (auto simp: other_groups_def)
qed

lemma other_groups_new:
  assumes "\<not> isSameCore e f" and none: "\<And>x. x \<in> set es \<Longrightarrow> \<not> isSameCore x f"
  shows "other_groups f (e # es) = insert (1 + core_group e es) (other_groups e es)"
proof
  show "other_groups f (e # es) \<subseteq> insert (1 + core_group e es) (other_groups e es)"
    by (auto simp: other_groups_def isSameCore_sym core_group_cong)
  show "insert (1 + core_group e es) (other_groups e es) \<subseteq> other_groups f (e # es)"
    using assms by (auto simp: other_groups_def image_iff)
qed

lemma other_groups_insert:
  assumes "f \<in> set ys"
  shows "insert (core_group f ys) (other_groups f ys) = (\<lambda>e. core_group e ys) ` set ys"
proof
  show "insert (core_group f ys) (other_groups f ys) \<subseteq> (\<lambda>e. core_group e ys) ` set ys"
    using assms by (auto simp: other_groups_def)
  have "core_group e ys \<in> insert (core_group f ys) (other_groups f ys)" if "e \<in> set ys" for e
    using that core_group_cong [of e f ys] by (cases "isSameCore e f") (auto simp: other_groups_def)
  then show "(\<lambda>e. core_group e ys) ` set ys \<subseteq> insert (core_group f ys) (other_groups f ys)" by blast
qed

lemma tpc_scan_max:
  assumes "te_sorted xs" and "\<And>x. x \<in> set xs \<Longrightarrow> \<not> te_less x f"
  shows "tpc_scan f c t xs = Max (insert t (insert (c + core_group f xs) (other_groups f xs)))"
  using assms
proof (induction xs arbitrary: f c t)
  case Nil
  then show ?case by (simp add: other_groups_def)
next
  case (Cons e es)
  show ?case
  proof (cases "isSameCore e f")
    case True
    then show ?thesis using Cons.IH [of f "c + 1" t] Cons.prems
      by (simp add: other_groups_same isSameCore_sym ac_simps)
  next
    case False
    have none: "\<not> isSameCore x f" if "x \<in> set es" for x
      using isSameCore_between [of e f x] Cons.prems that False isSameCore_sym by auto
    then have z: "core_group f (e # es) = 0"
      using False by (intro core_group_none) (auto simp: isSameCore_sym)
    have "tpc_scan e 1 (max t c) es = Max (insert (max t c) (insert (1 + core_group e es) (other_groups e es)))"
      using Cons.IH [of e 1 "max t c"] Cons.prems by simp
    then show ?thesis using False none z
      by (simp add: other_groups_new max.assoc)
  qed
qed

lemma te_sorted_dropWhile_filter:
  assumes "te_sorted xs"
    and "\<And>e. e \<in> set xs \<Longrightarrow> if entry_online e then 0 \<le> socket_id e else socket_id e = -1"
  shows "dropWhile (\<lambda>e. \<not> entry_online e) xs = filter entry_online xs"
  using assms
proof (induction xs)
  case (Cons e es)
  have "entry_online x" if "entry_online e" "x \<in> set es" for x
  proof (rule ccontr)
    assume "\<not> entry_online x"
    then have "socket_id x < socket_id e" using Cons.prems(2) [of x] Cons.prems(2) [of e] that by auto
    then have "te_less x e" by (simp add: te_less_def)
    then show False using Cons.prems(1) that by simp
  qed
  then show ?case using Cons by auto
qed simp

lemma te_sorted_filter: "te_sorted xs \<Longrightarrow> te_sorted (filter P xs)"
  by (induction xs) auto

text \<open>The standard library may order equivalent entries either way, so the result is stated for any sorting of the
  entries; \<open>te_sort\<close> is one.\<close>

lemma te_insert_mset: "mset (te_insert e xs) = add_mset e (mset xs)"
  unfolding te_insert_def by (metis add_mset_add_single mset.simps(2) mset_append takeWhile_dropWhile_id union_mset_add_mset_right)

lemma te_insert_sorted: "te_sorted xs \<Longrightarrow> te_sorted (te_insert e xs)"
proof (induction xs)
  case (Cons x xs)
  show ?case
  proof (cases "te_less x e")
    case True
    then have eq: "te_insert e (x # xs) = x # te_insert e xs" by (simp add: te_insert_def)
    have "set (te_insert e xs) = insert e (set xs)"
      using arg_cong [OF te_insert_mset [of e xs], of set_mset] by simp
    then show ?thesis using Cons True by (auto simp: eq te_less_key)
  next
    case False
    then show ?thesis using Cons by (auto simp: te_insert_def te_less_key)
  qed
qed (simp add: te_insert_def)

lemma te_sort_sorted: "te_sorted (te_sort xs) \<and> mset (te_sort xs) = mset xs"
  by (induction xs) (simp_all add: te_sort_def te_insert_sorted te_insert_mset)

text \<open>\<^verbatim>\<open>threads_per_core\<close> is the largest number of online threads that share a core. For every order of the
  entries that \<^verbatim>\<open>std::sort\<close> may produce, the scan returns the maximum, over the online entries, of the number of
  online entries with the same core, module, tile, die, die group and socket.\<close>

lemma threads_per_core_max:
  assumes "te_sorted xs" and "mset xs = mset topo" and "filter entry_online topo \<noteq> []"
    and "\<forall>e \<in> set topo. if entry_online e then 0 \<le> socket_id e else socket_id e = -1"
  shows "find_threads_per_core xs =
    Inr (Max ((\<lambda>e. int (length (filter (isSameCore e) (filter entry_online topo)))) ` set (filter entry_online topo)))"
proof -
  define ys where "ys = filter entry_online xs"
  have set_eq: "set xs = set topo" using assms(2) by (metis set_mset_mset)
  have dw: "dropWhile (\<lambda>e. \<not> entry_online e) xs = ys"
    unfolding ys_def using assms(1,4) set_eq by (intro te_sorted_dropWhile_filter) auto
  have sy: "te_sorted ys" unfolding ys_def using assms(1) by (rule te_sorted_filter)
  have ms: "mset ys = mset (filter entry_online topo)" by (simp add: ys_def assms(2))
  then have sety: "set ys = set (filter entry_online topo)" by (metis set_mset_mset)
  obtain f zs where y: "ys = f # zs" using ms assms(3) by (cases ys) auto
  have grp: "core_group e ys = int (length (filter (isSameCore e) (filter entry_online topo)))" for e
    unfolding core_group_def using arg_cong [OF ms, of "\<lambda>m. size (filter_mset (isSameCore e) m)"]
    by (simp flip: mset_filter)
  have "te_less x f \<Longrightarrow> x \<notin> set ys" for x using sy y by (auto simp: te_less_key)
  then have scan: "tpc_scan f 0 0 ys = Max (insert 0 (insert (core_group f ys) (other_groups f ys)))"
    using tpc_scan_max [OF sy, of f 0 0] by auto
  have "insert (core_group f ys) (other_groups f ys) = (\<lambda>e. core_group e ys) ` set ys"
    using y by (intro other_groups_insert) simp
  moreover have "0 \<le> Max ((\<lambda>e. core_group e ys) ` set ys)"
    using y by (intro Max_ge_iff [THEN iffD2]) auto
  ultimately have "tpc_scan f 0 0 ys = Max ((\<lambda>e. core_group e ys) ` set ys)"
    using scan y by simp
  moreover have "find_threads_per_core xs = Inr (tpc_scan f 0 0 ys)"
    by (simp add: find_threads_per_core_def dw y del: tpc_scan.simps)
  ultimately show ?thesis by (simp only: sety [symmetric] grp [symmetric])
qed

definition demo_entry :: "int \<Rightarrow> int \<Rightarrow> int \<Rightarrow> int \<Rightarrow> TopologyEntry" where
  "demo_entry os s c t = TopologyEntry_init\<lparr>os_id := os, socket_id := s, core_id := c, thread_id := t\<rparr>"

section \<open>APIC identifiers\<close>

lemma unat_extract_5: "unat (extract_bits_32 x 0 4) < 32"
proof -
  have "extract_bits_32 x 0 4 = take_bit 5 x" by (simp add: bits_simps)
  then show ?thesis by (simp add: take_bit_eq_mod unat_mod)
qed

text \<open>The levels cover the bits below the last shift without gaps.\<close>

definition domain_chain :: "domain list \<Rightarrow> bool" where
  "domain_chain ds \<longleftrightarrow>
     (\<forall>d \<in> set ds. unat (nextLevelShift d) \<le> 32) \<and>
     (\<forall>n < unat (back_shift ds). \<exists>d \<in> set ds. unat (levelShift d) \<le> n \<and> n < unat (nextLevelShift d))"

lemma back_shift_snoc [simp]: "back_shift (ds @ [d]) = nextLevelShift d"
  by (simp add: back_shift_def)

lemma domain_chain_Nil [simp]: "domain_chain []"
  by (simp add: domain_chain_def back_shift_def)

lemma domain_chain_snoc:
  assumes "domain_chain ds" "levelShift d = back_shift ds" "unat (nextLevelShift d) \<le> 32"
  shows "domain_chain (ds @ [d])"
proof -
  have "\<exists>x \<in> set (ds @ [d]). unat (levelShift x) \<le> n \<and> n < unat (nextLevelShift x)"
    if "n < unat (nextLevelShift d)" for n
  proof (cases "n < unat (back_shift ds)")
    case True
    then show ?thesis using assms(1) by (auto simp: domain_chain_def)
  next
    case False
    then show ?thesis using that assms(2) by (intro bexI [of _ d]) auto
  qed
  then show ?thesis using assms(1,3) by (auto simp: domain_chain_def)
qed

lemma leaf_1f_chain:
  assumes "leaf_1f_loop cpuid k ds = Some r" "domain_chain ds"
  shows "domain_chain r"
  using assms
proof (induction rule: leaf_1f_loop.raw_induct [rotated, consumes 1, case_names step])
  case (step loop cpuid k ds r)
  show ?case
  proof (cases "extract_bits_32 (cpuid_ecx (cpuid 0x1F k)) 8 15 = InvalidDomainTypeID")
    case True
    with step show ?thesis by (simp add: Let_def)
  next
    case False
    show ?thesis
      by (rule step(1) [OF _ domain_chain_snoc [OF \<open>domain_chain ds\<close>]])
        (use step False unat_extract_5 [of "cpuid_eax (cpuid 0x1F k)"] in \<open>auto simp: Let_def\<close>)
  qed
qed

lemma discover_domains_chain:
  assumes "discover_domains cpuid max_cpuid = Some ds"
  shows "domain_chain ds \<and> (ds \<noteq> [] \<longrightarrow> unat (back_shift ds) = 32)"
proof -
  have "domain_chain (add_package_domain ds') \<and> (add_package_domain ds' \<noteq> [] \<longrightarrow> unat (back_shift (add_package_domain ds')) = 32)"
    if "domain_chain ds'" for ds'
    using that by (auto simp: add_package_domain_def intro!: domain_chain_snoc)
  then show ?thesis using assms leaf_1f_chain [of cpuid 0 "[]"]
    by (auto simp: discover_domains_def split: if_splits option.splits)
qed

lemma find_distinct_key:
  "distinct (map f xs) \<Longrightarrow> d \<in> set xs \<Longrightarrow> find (\<lambda>x. f x = f d) xs = Some d"
  by (induction xs) (auto simp: image_iff)

lemma find_domain_distinct:
  assumes "distinct (map dom_type ds)" "d \<in> set ds"
  shows "find_domain ds (dom_type d) = Some d"
  unfolding find_domain_def using assms by (intro find_distinct_key) (simp_all add: rev_map [symmetric])

lemma bit_getID:
  assumes "domain_chain ds" "distinct (map dom_type ds)" "d \<in> set ds"
    and "unat (levelShift d) \<le> n" "n < unat (nextLevelShift d)"
  shows "bit (getID ds x (dom_type d)) (n - unat (levelShift d)) = bit x n"
proof -
  have le: "unat (nextLevelShift d) \<le> 32" using assms by (auto simp: domain_chain_def)
  have m1: "unat (nextLevelShift d - 1) = unat (nextLevelShift d) - 1"
    using assms(5) by (subst unat_minus_ge) (auto simp: word_le_nat_alt)
  have "levelShift d \<le> nextLevelShift d - 1" using assms(4,5) m1 by (simp add: word_le_nat_alt)
  then have "getID ds x (dom_type d) =
      take_bit (unat (nextLevelShift d) - unat (levelShift d)) (drop_bit (unat (levelShift d)) x)"
    using assms(5) le m1 by (simp add: getID_def find_domain_distinct [OF assms(2,3)] extract_bits_32_ordered Suc_diff_le)
  then show ?thesis using assms(4,5) by (auto simp: bit_simps)
qed

lemma getID_determines_apic:
  assumes "domain_chain ds" "distinct (map dom_type ds)" "unat (back_shift ds) = 32"
    and "\<And>d. d \<in> set ds \<Longrightarrow> getID ds a (dom_type d) = getID ds b (dom_type d)"
  shows "a = b"
proof (rule bit_word_eqI)
  fix n assume "n < LENGTH(32)"
  then obtain d where "d \<in> set ds" "unat (levelShift d) \<le> n" "n < unat (nextLevelShift d)"
    using assms(1,3) by (auto simp: domain_chain_def)
  then show "bit a n = bit b n" using bit_getID [OF assms(1,2)] assms(4) by metis
qed


lemma i32_inject: "i32 a = i32 b \<longleftrightarrow> a = b"
  by (simp add: i32_def word_eq_iff_signed [symmetric])

text \<open>
  A level that reports the same shift as the one below it has no bits of its own, but \<^verbatim>\<open>getID\<close> then reads two bits,
  the highest of the level below and the lowest of the level above, because \<^verbatim>\<open>extract_bits_32\<close> swaps its ends; the
  lowest level with shift 0 reads the whole identifier, because the upper end wraps to \<open>2 ^ 32 - 1\<close> and is clamped.
\<close>

lemma getID_empty_level:
  assumes "find_domain ds t = Some d" "nextLevelShift d = levelShift d" "0 < unat (levelShift d)" "unat (levelShift d) < 32"
  shows "getID ds x t = take_bit 2 (drop_bit (unat (levelShift d) - 1) x)"
proof -
  have m: "unat (levelShift d - 1) = unat (levelShift d) - 1"
    using assms(3) by (subst unat_minus_ge) (auto simp: word_le_nat_alt)
  have "levelShift d - 1 \<le> levelShift d" using m by (simp add: word_le_nat_alt)
  then show ?thesis using assms m
    by (simp add: getID_def extract_bits_32_swap [of x "levelShift d"] extract_bits_32_ordered numeral_2_eq_2)
qed

lemma getID_empty_lowest_level:
  assumes "find_domain ds t = Some d" "nextLevelShift d = 0" "levelShift d = 0"
  shows "getID ds x t = x"
  using assms by (simp add: getID_def extract_bits_32_def build_bit_ui_def)

lemma populateEntry_fields:
  assumes "populateEntry ds ms cpuid e = Inr e'" "ds \<noteq> []"
  shows "thread_id e' = i32 (getID ds (getAPICID cpuid 0x1F) LogicalProcessorDomain)"
    "core_id e' = i32 (getID ds (getAPICID cpuid 0x1F) CoreDomain)"
    "module_id e' = i32 (getID ds (getAPICID cpuid 0x1F) ModuleDomain)"
    "die_id e' = i32 (getID ds (getAPICID cpuid 0x1F) DieDomain)"
    "die_grp_id e' = i32 (getID ds (getAPICID cpuid 0x1F) DieGrpDomain)"
    "socket_id e' = i32 (getID ds (getAPICID cpuid 0x1F) SocketPackageDomain)"
    "os_id e' = os_id e"
  using assms by (auto simp: populateEntry_def Let_def)


definition demo_cpuid :: "u32 \<Rightarrow> u32 \<Rightarrow> u32 \<Rightarrow> cpuid_info" where
  "demo_cpuid apic leaf subleaf =
     \<lparr>cpuid_eax = (if leaf = 0x1F \<or> leaf = 0xb then if subleaf = 0 then 1 else if subleaf = 1 then 4 else 0
                  else if leaf = 4 then 0x4000 else 0),
      cpuid_ebx = (if leaf = 0xb \<and> subleaf < 2 then 2 else 0),
      cpuid_ecx = (if subleaf = 0 then 0x100 else if subleaf = 1 then 0x200 else 0),
      cpuid_edx = apic\<rparr>"

lemma demo_domains:
  "discover_domains (demo_cpuid 0) 0x20 = Some
     [\<lparr>dom_type = 1, levelShift = 0, nextLevelShift = 1, dom_width = 1\<rparr>,
      \<lparr>dom_type = 2, levelShift = 1, nextLevelShift = 4, dom_width = 3\<rparr>,
      \<lparr>dom_type = 0xffff, levelShift = 4, nextLevelShift = 32, dom_width = 28\<rparr>]"
  by (simp add: discover_domains_def leaf_1f_loop.simps demo_cpuid_def bits_simps InvalidDomainTypeID_def
      back_shift_def add_package_domain_def SocketPackageDomain_def take_bit_eq_mod drop_bit_eq_div)


definition demo_masks :: core_masks where
  "demo_masks = \<lparr>smtMaskWidth = 1, coreMaskWidth = 3, l2CacheMaskShift = 1, l3CacheMaskShift = 4\<rparr>"

lemmas domain_ids = InvalidDomainTypeID_def LogicalProcessorDomain_def CoreDomain_def ModuleDomain_def TileDomain_def
  DieDomain_def DieGrpDomain_def SocketPackageDomain_def

lemma demo_populate:
  assumes "discover_domains (demo_cpuid 0) 0x20 = Some ds"
  shows "\<exists>e'. populateEntry ds demo_masks (demo_cpuid a) e = Inr e'"
  using assms unfolding demo_domains
  by (auto simp: populateEntry_def getDomain_def find_domain_def domain_ids Let_def)


section \<open>Socket numbers and reference cores\<close>

lemma map_key_insert_set [simp]: "set (map_key_insert k xs) = insert k (set xs)"
  by (induction xs) auto

lemma map_key_insert_sorted: "sorted_wrt (<) xs \<Longrightarrow> sorted_wrt (<) (map_key_insert k xs)"
  by (induction xs) auto

lemma position_less: "x \<in> set xs \<Longrightarrow> position xs x < length xs"
  by (induction xs) auto

lemma position_nth: "x \<in> set xs \<Longrightarrow> xs ! position xs x = x"
  by (induction xs) auto

lemma position_mono:
  assumes "sorted_wrt (<) (xs :: u32 list)" "x \<in> set xs" "y \<in> set xs" "x < y"
  shows "position xs x < position xs y"
  using assms by (induction xs) auto

text \<open>What the cpuinfo loop keeps: every online entry of the vector has its socket in the map, which is ordered.\<close>

definition cpuinfo_inv :: "nat \<Rightarrow> cpuinfo_state \<Rightarrow> bool" where
  "cpuinfo_inv n st \<longleftrightarrow> length (ci_topology st) = n \<and> sorted_wrt (<) (ci_socketIds st) \<and>
     (\<forall>e \<in> set (ci_topology st). entry_online e \<longrightarrow> word_of_int (socket_id e) \<in> set (ci_socketIds st))"

lemma cpuinfo_line_cases:
  assumes "cpuinfo_line affinity cpuid hybrid ds ms buffer st = Inr st'"
  obtains "ci_topology st' = ci_topology st" "ci_socketIds st' = ci_socketIds st" "ci_online st' = ci_online st"
  | i e where "i < length (ci_topology st)" "os_id e = int i" "ci_topology st' = (ci_topology st)[i := e]"
      "ci_socketIds st' = map_key_insert (word_of_int (socket_id e)) (ci_socketIds st)" "ci_online st' = ci_online st + 1"
proof (cases "take 9 buffer = processor_prefix")
  case True
  define id where "id = fst (is_read_int (s_expect_match (processor_prefix @ CHR 0x09 # '': '') (istringstream buffer))
                               (os_id (ci_entry st)))"
  have os: "os_id (populateHybridEntry hybrid c x) = os_id x" for c x
    by (simp add: populateHybridEntry_def Let_def)
  have os': "os_id y = os_id x" if "populateEntry ds ms c x = Inr y" for c x y
    using that by (auto simp: populateEntry_def Let_def fillEntry_def split: if_splits)
  show ?thesis
  proof (cases "affinity id \<and> (\<exists>e'. populateEntry ds ms (cpuid id) ((ci_entry st)\<lparr>os_id := id\<rparr>) = Inr e')")
    case act: True
    then obtain e' where e': "populateEntry ds ms (cpuid id) ((ci_entry st)\<lparr>os_id := id\<rparr>) = Inr e'" by blast
    then show ?thesis using assms True act os' [OF e']
      by (intro that(2) [of "nat id" "populateHybridEntry hybrid (cpuid id) e'"])
        (auto simp: cpuinfo_line_def id_def [symmetric] Let_def os split: if_splits)
  next
    case False
    then show ?thesis using assms True
      by (intro that(1)) (auto simp: cpuinfo_line_def id_def [symmetric] Let_def split: if_splits sum.splits)
  qed
next
  case False
  then have "st' = st" using assms by (simp add: cpuinfo_line_def)
  then show ?thesis by (intro that(1)) simp_all
qed

lemma cpuinfo_line_inv:
  assumes "cpuinfo_line affinity cpuid hybrid ds ms buffer st = Inr st'" "cpuinfo_inv n st"
  shows "cpuinfo_inv n st'"
  using assms(1)
proof (cases rule: cpuinfo_line_cases)
  case 1
  with assms(2) show ?thesis by (simp add: cpuinfo_inv_def)
next
  case (2 i e)
  with assms(2) show ?thesis
    by (auto simp: cpuinfo_inv_def map_key_insert_sorted dest: set_list_updateD)
qed

lemma renumber_online:
  assumes "cpuinfo_inv n st" "e \<in> set (renumber_sockets (ci_socketIds st) (ci_topology st))" "entry_online e"
  shows "0 \<le> socket_id e \<and> socket_id e < int (length (ci_socketIds st))"
  using assms by (fastforce simp: cpuinfo_inv_def renumber_sockets_def entry_online_def intro: position_less
      split: if_splits)

lemma fill_ref_cores_length [simp]: "length (fill_ref_cores es i refs) = length refs"
  by (induction es arbitrary: i refs) auto

text \<open>Reference cores: a slot keeps its old value or becomes the index of an online core of that socket, and becomes
  one when the socket has an online core.\<close>

lemma fill_ref_cores_nth:
  assumes "s < length refs" and "\<And>e. e \<in> set es \<Longrightarrow> entry_online e \<Longrightarrow> 0 \<le> socket_id e"
  shows "(\<exists>k < length es. entry_online (es ! k) \<and> socket_id (es ! k) = int s \<and>
            fill_ref_cores es i refs ! s = int (i + k)) \<or>
         (\<forall>k < length es. entry_online (es ! k) \<longrightarrow> socket_id (es ! k) \<noteq> int s) \<and>
            fill_ref_cores es i refs ! s = refs ! s"
  using assms
proof (induction es arbitrary: i refs)
  case (Cons e es)
  let ?refs = "if entry_online e then refs[nat (socket_id e) := int i] else refs"
  have r: "?refs ! s = (if entry_online e \<and> socket_id e = int s then int i else refs ! s)"
    using Cons.prems(2) [of e] Cons.prems(1) by (auto simp: nth_list_update)
  have "s < length ?refs" using Cons.prems(1) by simp
  note ih = Cons.IH [OF this, of "Suc i"]
  consider (later) k where "k < length es" "entry_online (es ! k)" "socket_id (es ! k) = int s"
      "fill_ref_cores es (Suc i) ?refs ! s = int (Suc i + k)"
    | (none) "\<forall>k < length es. entry_online (es ! k) \<longrightarrow> socket_id (es ! k) \<noteq> int s"
      "fill_ref_cores es (Suc i) ?refs ! s = ?refs ! s"
    using ih Cons.prems(2) by (metis list.set_intros(2))
  then show ?case
  proof cases
    case later
    then show ?thesis by (intro disjI1 exI [of _ "Suc k"]) simp
  next
    case none
    show ?thesis
    proof (cases "entry_online e \<and> socket_id e = int s")
      case True
      then show ?thesis using none r by (intro disjI1 exI [of _ 0]) simp
    next
      case False
      then have "\<forall>k < length (e # es). entry_online ((e # es) ! k) \<longrightarrow> socket_id ((e # es) ! k) \<noteq> int s"
        using none by (auto simp: less_Suc_eq_0_disj)
      then show ?thesis using False none r by auto
    qed
  qed
qed simp


lemma discover_build:
  assumes "discoverSystemTopology affinity cpuid hybrid max_cpuid supported present cpuinfo = Some (Inr (Some t))"
  obtains n st where "cpuinfo_inv n st" "build_topology supported st = Inr t"
proof -
  obtain ds ms lines st where
    r: "rfold (cpuinfo_line affinity cpuid hybrid ds ms) lines
          \<lparr>ci_entry = TopologyEntry_init, ci_topology = replicate (nat (readMaxFromSysFS present + 1)) TopologyEntry_init,
           ci_socketIds = [], ci_online = 0\<rparr> = Inr st"
    and b: "build_topology supported st = Inr t"
    using assms by (auto simp: discoverSystemTopology_def Let_def split: option.splits if_splits)
  have "cpuinfo_inv (nat (readMaxFromSysFS present + 1)) st"
  proof (rule rfold_invariant [OF r])
    show "cpuinfo_inv (nat (readMaxFromSysFS present + 1))
      \<lparr>ci_entry = TopologyEntry_init, ci_topology = replicate (nat (readMaxFromSysFS present + 1)) TopologyEntry_init,
       ci_socketIds = [], ci_online = 0\<rparr>"
      by (auto simp: cpuinfo_inv_def entry_online_def TopologyEntry_init_def)
  qed (rule cpuinfo_line_inv)
  then show ?thesis using b by (rule that)
qed

lemma build_topology_fields:
  assumes "build_topology supported st = Inr t"
  defines "topo \<equiv> renumber_sockets (ci_socketIds st) (ci_topology st)"
  defines "ns \<equiv> max (int (length (ci_socketIds st))) 1"
  shows "topology t = topo" "num_sockets t = ns" "socketRefCore t = fill_ref_cores topo 0 (replicate (nat ns) (- 1))"
    "find_threads_per_core (te_sort topo) = Inr (threads_per_core t)"
    "\<exists>r0 r1. rfold (addSocket supported) (map int [0..<length (ci_socketIds st)])
        \<lparr>sockets = [], offlinedThreadsAtStart = []\<rparr> = Inr r0 \<and>
      rfold (\<lambda>(cid, te). addThread (threads_per_core t) (int cid) te) (enumerate 0 topo) r0 = Inr r1 \<and>
      rfold (\<lambda>s acc. rbind (setRefCore s) (\<lambda>s'. Inr (acc @ [s']))) (sockets r1) [] = Inr (sockets (systemTopology t)) \<and>
      offlinedThreadsAtStart (systemTopology t) = offlinedThreadsAtStart r1"
  using assms by (auto simp: build_topology_def Let_def)

text \<open>C19: socket numbers are logical and every online socket has a reference core. When the discovery succeeds,
  the sockets of the online cores are numbered below \<^verbatim>\<open>num_sockets\<close>, so every index by socket number is in range;
  the reference core of such a socket is an online core of that very socket; and a socket without an online core
  has the mark \<open>-1\<close>.\<close>

theorem discover_reference_cores:
  assumes "discoverSystemTopology affinity cpuid hybrid max_cpuid supported present cpuinfo = Some (Inr (Some t))"
  shows "(\<forall>e \<in> set (topology t). entry_online e \<longrightarrow> 0 \<le> socket_id e \<and> socket_id e < num_sockets t) \<and>
    length (socketRefCore t) = nat (num_sockets t) \<and>
    (\<forall>s < length (socketRefCore t).
       if \<exists>e \<in> set (topology t). entry_online e \<and> socket_id e = int s
       then \<exists>k < length (topology t). socketRefCore t ! s = int k \<and> entry_online (topology t ! k) \<and>
              socket_id (topology t ! k) = int s
       else socketRefCore t ! s = - 1)"
proof -
  obtain n st where inv: "cpuinfo_inv n st" and b: "build_topology supported st = Inr t"
    using discover_build [OF assms] .
  note f = build_topology_fields [OF b]
  have range: "0 \<le> socket_id e \<and> socket_id e < int (length (ci_socketIds st))"
    if "e \<in> set (topology t)" "entry_online e" for e
    using renumber_online [OF inv] that f(1) by simp
  have nth: "(\<exists>k < length (topology t). entry_online (topology t ! k) \<and> socket_id (topology t ! k) = int s \<and>
            socketRefCore t ! s = int k) \<or>
         (\<forall>k < length (topology t). entry_online (topology t ! k) \<longrightarrow> socket_id (topology t ! k) \<noteq> int s) \<and>
            socketRefCore t ! s = - 1"
    if "s < length (socketRefCore t)" for s
    using fill_ref_cores_nth [of s "replicate (nat (num_sockets t)) (- 1)" "topology t" 0] range that f(1-3)
    by simp
  have "\<exists>k < length (topology t). topology t ! k = e" if "e \<in> set (topology t)" for e
    using that by (simp add: in_set_conv_nth)
  then show ?thesis using range nth f(2,3) by (fastforce simp: max_def)
qed


lemma demo_init_masks:
  "initCoreMasks (demo_cpuid a) = Some (Some \<lparr>smtMaskWidth = 1, coreMaskWidth = 3, l2CacheMaskShift = 1, l3CacheMaskShift = 1\<rparr>)"
  by (simp add: initCoreMasks_def leaf_b_loop.simps demo_cpuid_def bits_simps cache_sharing_def
      take_bit_eq_mod drop_bit_eq_div cache_shift.simps)


definition demo_lines :: "string list" where
  "demo_lines = [''processor'' @ CHR 0x09 # '': 0'', ''vendor_id'', ''processor'' @ CHR 0x09 # '': 1'']"

definition demo_discover :: "pcm_topology option result option" where
  "demo_discover = discoverSystemTopology (\<lambda>_. True) (\<lambda>c. demo_cpuid (word_of_int c)) False 0x20 True ''0-1''
     (Some demo_lines)"

lemma demo_find_affinity: "find_affinity (\<lambda>_. True) 0 = Some 0"
  by (simp add: find_affinity.simps)

lemma demo_present: "readMaxFromSysFS ''0-1'' = 1"
  by code_simp

lemma demo_os_id:
  "fst (is_read_int (s_expect_match (''processor'' @ CHR 0x09 # '': '') (istringstream (''processor'' @ CHR 0x09 # '': 0''))) old) = 0"
  "fst (is_read_int (s_expect_match (''processor'' @ CHR 0x09 # '': '') (istringstream (''processor'' @ CHR 0x09 # '': 1''))) old) = 1"
  by (simp_all add: s_expect_match_def istringstream_def is_get_def is_read_int_def is_sentry_def num_sign_def is_digit_of_def digit_val_def digits_value_def)

definition demo_te :: "int \<Rightarrow> TopologyEntry" where
  "demo_te t = \<lparr>os_id = t, thread_id = t, core_id = 0, module_id = 0, tile_id = 0, die_id = 0, die_grp_id = 0,
     socket_id = 0, socket_unique_core_id = 0, l3_cache_id = 0, native_cpu_model = -1, core_type = -1\<rparr>"

definition demo_state :: cpuinfo_state where
  "demo_state = \<lparr>ci_entry = demo_te 1, ci_topology = [demo_te 0, demo_te 1], ci_socketIds = [0], ci_online = 2\<rparr>"

definition demo_ms :: core_masks where
  "demo_ms = \<lparr>smtMaskWidth = 1, coreMaskWidth = 3, l2CacheMaskShift = 1, l3CacheMaskShift = 1\<rparr>"

definition demo_ds :: "domain list" where
  "demo_ds = [\<lparr>dom_type = 1, levelShift = 0, nextLevelShift = 1, dom_width = 1\<rparr>,
      \<lparr>dom_type = 2, levelShift = 1, nextLevelShift = 4, dom_width = 3\<rparr>,
      \<lparr>dom_type = 0xffff, levelShift = 4, nextLevelShift = 32, dom_width = 28\<rparr>]"

lemma demo_populate_eq:
  "native_cpu_model e = -1 \<Longrightarrow> core_type e = -1 \<Longrightarrow>
     populateEntry demo_ds demo_ms (demo_cpuid 0) (e\<lparr>os_id := 0\<rparr>) = Inr (demo_te 0) \<and>
     populateEntry demo_ds demo_ms (demo_cpuid 1) (e\<lparr>os_id := 1\<rparr>) = Inr (demo_te 1)"
  by (cases e) (simp add: populateEntry_def getAPICID_def demo_cpuid_def bits_simps take_bit_eq_mod drop_bit_eq_div
    getDomain_def getID_def find_domain_def domain_ids demo_ds_def demo_ms_def demo_te_def Let_def i32_def)

lemma demo_build: "\<exists>t. build_topology True demo_state = Inr t"
  by (simp add: build_topology_def renumber_sockets_def entry_online_def te_sort_def te_insert_def te_less_def
      find_threads_per_core_def same_core_defs addSocket_def addThread_def socket_addThread_def
      findCoreByTopologyEntry_def hyperThread_def addHyperThreadInfo_def setRefCore_def Let_def demo_state_def demo_te_def)

lemma demo_te_fields:
  "native_cpu_model TopologyEntry_init = -1" "core_type TopologyEntry_init = -1" "native_cpu_model (demo_te t) = -1"
  "core_type (demo_te t) = -1" "socket_id (demo_te t) = 0"
  by (simp_all add: TopologyEntry_init_def demo_te_def)

lemma demo_cpuinfo:
  "rfold (cpuinfo_line (\<lambda>_. True) (\<lambda>c. demo_cpuid (word_of_int c)) False demo_ds demo_ms) demo_lines
     \<lparr>ci_entry = TopologyEntry_init, ci_topology = replicate 2 TopologyEntry_init, ci_socketIds = [], ci_online = 0\<rparr>
   = Inr demo_state"
  using demo_populate_eq [of TopologyEntry_init] demo_populate_eq [of "demo_te 0"]
  by (simp add: demo_lines_def cpuinfo_line_def processor_prefix_def demo_os_id [simplified] populateHybridEntry_def
      demo_state_def demo_te_fields Let_def numeral_2_eq_2)

lemma demo_discover_ok: "\<exists>t. demo_discover = Some (Inr (Some t))"
  using demo_build demo_cpuinfo unfolding demo_discover_def discoverSystemTopology_def demo_find_affinity
  by (auto simp: demo_init_masks [folded demo_ms_def] demo_domains [folded demo_ds_def] demo_present)

theorem discover_reference_cores_witness:
  "\<exists>t. demo_discover = Some (Inr (Some t)) \<and> length (socketRefCore t) = nat (num_sockets t)"
proof -
  obtain t where t: "demo_discover = Some (Inr (Some t))" using demo_discover_ok by blast
  then show ?thesis using discover_reference_cores [OF t [unfolded demo_discover_def]] by blast
qed


section \<open>The system tree groups threads by core\<close>

abbreviation core_te :: "core \<Rightarrow> TopologyEntry" where
  "core_te c \<equiv> ht_te (hd (core_threads c))"

definition core_ok :: "int \<Rightarrow> core \<Rightarrow> bool" where
  "core_ok sid c \<longleftrightarrow> core_threads c \<noteq> [] \<and>
     (\<forall>ht \<in> set (core_threads c). isSameCore (core_te c) (ht_te ht) \<and> socket_id (ht_te ht) = sid \<and> ht_online ht)"

definition socket_ok :: "socket \<Rightarrow> bool" where
  "socket_ok s \<longleftrightarrow> (\<forall>c \<in> set (socket_cores s). core_ok (logicalID s) c) \<and>
     sorted_wrt (\<lambda>c d. \<not> isSameCore (core_te c) (core_te d)) (socket_cores s)"

definition socket_threads :: "socket \<Rightarrow> hyper_thread list" where
  "socket_threads s = concat (map core_threads (socket_cores s))"

definition all_threads :: "system_root \<Rightarrow> hyper_thread list" where
  "all_threads r = concat (map socket_threads (sockets r)) @ offlinedThreadsAtStart r"

lemma findCore_None:
  "findCore te cs i = Inr None \<Longrightarrow> c \<in> set cs \<Longrightarrow> core_threads c \<noteq> [] \<Longrightarrow> \<not> isSameCore (core_te c) te"
  by (induction cs arbitrary: i) (auto simp: hyperThread_def hd_conv_nth split: if_splits)

lemma findCore_Some:
  "findCore te cs i = Inr (Some j) \<Longrightarrow> i \<le> j \<and> j - i < length cs \<and> isSameCore (core_te (cs ! (j - i))) te"
proof (induction cs arbitrary: i)
  case (Cons c cs)
  then show ?case
    by (auto simp: hyperThread_def hd_conv_nth split: if_splits) (fastforce simp: nth_Cons' Suc_diff_le)+
qed simp

lemma addHyperThreadInfo_fresh:
  assumes "addHyperThreadInfo osID te c = Inr c'" "osID \<notin> ht_osID ` set (core_threads c)"
  shows "core_threads c' = core_threads c @ [\<lparr>ht_osID = osID, ht_te = te, ht_online = True\<rparr>]"
proof -
  have "find (\<lambda>ht. ht_osID ht = osID) (core_threads c) = None"
    using assms(2) by (auto simp: find_None_iff)
  then show ?thesis using assms(1) by (auto simp: addHyperThreadInfo_def split: if_splits)
qed


lemma core_ok_add:
  assumes "core_ok sid c" "isSameCore (core_te c) te" "socket_id te = sid"
    and "core_threads c' = core_threads c @ [\<lparr>ht_osID = osID, ht_te = te, ht_online = True\<rparr>]"
  shows "core_ok sid c' \<and> core_te c' = core_te c"
  using assms by (auto simp: core_ok_def)

lemma sorted_wrt_core_update:
  assumes "sorted_wrt (\<lambda>c d. \<not> isSameCore (core_te c) (core_te d)) cs" "core_te c' = core_te (cs ! i)" "i < length cs"
  shows "sorted_wrt (\<lambda>c d. \<not> isSameCore (core_te c) (core_te d)) (cs[i := c'])"
  using assms by (auto simp: sorted_wrt_iff_nth_less nth_list_update)

lemma socket_addThread_ok:
  assumes "socket_addThread tpc osID te s = Inr s'" "socket_ok s" "socket_id te = logicalID s"
    and fresh: "osID \<notin> ht_osID ` set (socket_threads s)"
  shows "socket_ok s' \<and> logicalID s' = logicalID s \<and>
    mset (socket_threads s') = add_mset \<lparr>ht_osID = osID, ht_te = te, ht_online = True\<rparr> (mset (socket_threads s))"
proof -
  obtain found where f: "findCore te (socket_cores s) 0 = Inr found"
    using assms(1) by (auto simp: socket_addThread_def findCoreByTopologyEntry_def)
  show ?thesis
  proof (cases found)
    case None
    then obtain c where c: "addHyperThreadInfo osID te \<lparr>core_threads = [], MAX_THREADS_PER_CORE = tpc\<rparr> = Inr c"
      and s': "s' = s\<lparr>socket_cores := socket_cores s @ [c]\<rparr>"
      using assms(1) f by (auto simp: socket_addThread_def findCoreByTopologyEntry_def)
    have ct: "core_threads c = [\<lparr>ht_osID = osID, ht_te = te, ht_online = True\<rparr>]"
      using addHyperThreadInfo_fresh [OF c] by simp
    have "\<not> isSameCore (core_te d) te" if "d \<in> set (socket_cores s)" for d
      using findCore_None [OF f [unfolded None] that] that assms(2) by (auto simp: socket_ok_def core_ok_def)
    then show ?thesis using assms(2,3) s' ct
      by (auto simp: socket_ok_def core_ok_def socket_threads_def sorted_wrt_append)
  next
    case (Some i)
    let ?c0 = "socket_cores s ! i"
    have i: "i < length (socket_cores s)" "isSameCore (core_te ?c0) te"
      using findCore_Some [OF f [unfolded Some]] by simp_all
    obtain c where c: "addHyperThreadInfo osID te ?c0 = Inr c"
      and s': "s' = s\<lparr>socket_cores := (socket_cores s)[i := c]\<rparr>"
      using assms(1) f Some by (auto simp: socket_addThread_def findCoreByTopologyEntry_def)
    have "osID \<notin> ht_osID ` set (core_threads ?c0)"
      using fresh nth_mem [OF i(1)] by (auto simp: socket_threads_def image_iff)
    note ct = addHyperThreadInfo_fresh [OF c this]
    have ok: "core_ok (logicalID s) c \<and> core_te c = core_te ?c0"
      using core_ok_add [OF _ i(2) assms(3) ct] assms(2) i(1) by (simp add: socket_ok_def)
    have "mset (socket_threads s') = add_mset \<lparr>ht_osID = osID, ht_te = te, ht_online = True\<rparr> (mset (socket_threads s))"
      using mset_concat_map_update [OF i(1), of core_threads c] ct by (simp add: s' socket_threads_def)
    then show ?thesis using ok assms(2) s' i(1) sorted_wrt_core_update [of "socket_cores s" c i]
      by (auto simp: socket_ok_def dest: set_list_updateD)
  qed
qed

lemma sockets_addThread_ok:
  assumes "sockets_addThread tpc osID te ss = Inr r" "\<forall>s \<in> set ss. socket_ok s"
    and "osID \<notin> ht_osID ` set (concat (map socket_threads ss))"
  shows "case r of
      None \<Rightarrow> socket_id te \<notin> logicalID ` set ss
    | Some ss' \<Rightarrow> (\<forall>s \<in> set ss'. socket_ok s) \<and> map logicalID ss' = map logicalID ss \<and> socket_id te \<in> logicalID ` set ss \<and>
        mset (concat (map socket_threads ss')) =
          add_mset \<lparr>ht_osID = osID, ht_te = te, ht_online = True\<rparr> (mset (concat (map socket_threads ss)))"
  using assms
proof (induction ss arbitrary: r)
  case (Cons s ss)
  show ?case
  proof (cases "logicalID s = socket_id te")
    case True
    then obtain s' where s': "socket_addThread tpc osID te s = Inr s'" "r = Some (s' # ss)"
      using Cons.prems by auto
    have "osID \<notin> ht_osID ` set (socket_threads s)" using Cons.prems(3) by auto
    with socket_addThread_ok [OF s'(1)] Cons.prems(2) True s'(2) show ?thesis by auto
  next
    case False
    then obtain r' where r': "sockets_addThread tpc osID te ss = Inr r'" "r = map_option (Cons s) r'"
      using Cons.prems by auto
    have "osID \<notin> ht_osID ` set (concat (map socket_threads ss))" using Cons.prems(3) by auto
    with Cons.IH [OF r'(1)] Cons.prems(2) r'(2) False show ?thesis
      by (auto split: option.splits)
  qed
qed simp

definition root_ok :: "int list \<Rightarrow> (int \<times> TopologyEntry) list \<Rightarrow> system_root \<Rightarrow> bool" where
  "root_ok ids added r \<longleftrightarrow> (\<forall>s \<in> set (sockets r). socket_ok s) \<and> map logicalID (sockets r) = ids \<and>
     mset (all_threads r) =
       mset (map (\<lambda>(osID, te). \<lparr>ht_osID = osID, ht_te = te, ht_online = (socket_id te \<in> set ids)\<rparr>) added)"

lemma addThread_ok:
  assumes "addThread tpc osID te r = Inr r'" "root_ok ids added r" "osID \<notin> fst ` set added"
  shows "root_ok ids (added @ [(osID, te)]) r'"
proof -
  have ids: "logicalID ` set (sockets r) = set ids"
    using assms(2) unfolding root_ok_def by (metis set_map)
  have "set (all_threads r) = (\<lambda>(osID, te). \<lparr>ht_osID = osID, ht_te = te, ht_online = (socket_id te \<in> set ids)\<rparr>) ` set added"
    using assms(2) mset_eq_setD unfolding root_ok_def by fastforce
  then have "ht_osID ` set (all_threads r) = fst ` set added" by (simp add: image_image case_prod_unfold)
  then have fresh: "osID \<notin> ht_osID ` set (concat (map socket_threads (sockets r)))"
    using assms(3) by (auto simp: all_threads_def)
  obtain res where res: "sockets_addThread tpc osID te (sockets r) = Inr res"
    using assms(1) by (auto simp: addThread_def)
  have old: "\<forall>s \<in> set (sockets r). socket_ok s" "map logicalID (sockets r) = ids"
    "mset (all_threads r) =
       mset (map (\<lambda>(osID, te). \<lparr>ht_osID = osID, ht_te = te, ht_online = (socket_id te \<in> set ids)\<rparr>) added)"
    using assms(2) by (auto simp: root_ok_def)
  note ok = sockets_addThread_ok [OF res old(1) fresh]
  show ?thesis
  proof (cases res)
    case None
    then have "r' = r\<lparr>offlinedThreadsAtStart := offlinedThreadsAtStart r @ [\<lparr>ht_osID = osID, ht_te = te, ht_online = False\<rparr>]\<rparr>"
      using assms(1) res by (simp add: addThread_def)
    moreover have "socket_id te \<notin> set ids" using ok None ids by simp
    ultimately show ?thesis using old by (simp add: root_ok_def all_threads_def)
  next
    case (Some ss)
    then have r': "r' = r\<lparr>sockets := ss\<rparr>" using assms(1) res by (simp add: addThread_def)
    have ok': "\<forall>s \<in> set ss. socket_ok s" "map logicalID ss = ids" "socket_id te \<in> set ids"
      "mset (concat (map socket_threads ss)) =
          add_mset \<lparr>ht_osID = osID, ht_te = te, ht_online = True\<rparr> (mset (concat (map socket_threads (sockets r))))"
      using ok Some ids old(2) by simp_all
    have "mset (all_threads r') = add_mset \<lparr>ht_osID = osID, ht_te = te, ht_online = True\<rparr> (mset (all_threads r))"
      unfolding all_threads_def r' mset_append using ok'(4) by simp
    then show ?thesis using ok' old(3) by (simp add: root_ok_def r')
  qed
qed


lemma addThreads_ok:
  assumes "rfold (\<lambda>(cid, te). addThread tpc (int cid) te) (enumerate n xs) r = Inr r'" "root_ok ids added r"
    and "\<forall>x \<in> fst ` set added. x < int n"
  shows "root_ok ids (added @ map (\<lambda>(i, te). (int i, te)) (enumerate n xs)) r'"
  using assms
proof (induction xs arbitrary: n r added)
  case (Cons x xs)
  then obtain r1 where r1: "addThread tpc (int n) x r = Inr r1"
    "rfold (\<lambda>(cid, te). addThread tpc (int cid) te) (enumerate (Suc n) xs) r1 = Inr r'" by auto
  have "int n \<notin> fst ` set added" using Cons.prems(3) by force
  with Cons.IH [OF r1(2) addThread_ok [OF r1(1) Cons.prems(2)]] Cons.prems(3) show ?case by force
qed simp

lemma addSockets_ok:
  assumes "rfold (addSocket supported) is r = Inr r'"
  shows "sockets r' = sockets r @ map (\<lambda>i. \<lparr>socket_cores = [], socket_refCore = None, logicalID = i\<rparr>) is \<and>
    offlinedThreadsAtStart r' = offlinedThreadsAtStart r"
  using assms by (induction "is" arbitrary: r) (auto simp: addSocket_def split: if_splits)

lemma setRefCores_ok:
  assumes "rfold (\<lambda>s acc. rbind (setRefCore s) (\<lambda>s'. Inr (acc @ [s']))) ss acc = Inr out"
  shows "out = acc @ map (\<lambda>s. s\<lparr>socket_refCore := Some (hd (socket_cores s))\<rparr>) ss \<and> (\<forall>s \<in> set ss. socket_cores s \<noteq> [])"
  using assms
proof (induction ss arbitrary: acc)
  case (Cons s ss)
  then obtain s' where s': "setRefCore s = Inr s'"
    and rest: "rfold (\<lambda>s acc. rbind (setRefCore s) (\<lambda>s'. Inr (acc @ [s']))) ss (acc @ [s']) = Inr out" by auto
  show ?case using Cons.IH [OF rest] s' by (auto simp: setRefCore_def split: if_splits)
qed simp

lemma socket_ok_refCore: "socket_ok (s\<lparr>socket_refCore := c\<rparr>) = socket_ok s"
  by (simp add: socket_ok_def)

lemma socket_threads_refCore: "socket_threads (s\<lparr>socket_refCore := c\<rparr>) = socket_threads s"
  by (simp add: socket_threads_def)

lemma find_append_case: "find P (xs @ ys) = (case find P xs of Some x \<Rightarrow> Some x | None \<Rightarrow> find P ys)"
  by (induction xs) auto

lemma first_some_find: "first_some (\<lambda>x. find P (f x)) xs = find P (concat (map f xs))"
  by (induction xs) (auto simp: find_append_case split: option.splits)

lemma findThreadByOSID_all: "findThreadByOSID osID r = find (\<lambda>ht. ht_osID ht = osID) (all_threads r)"
proof -
  have "socket_findThreadByOSID osID = (\<lambda>s. find (\<lambda>ht. ht_osID ht = osID) (socket_threads s))"
    unfolding socket_findThreadByOSID_def core_findThreadByOSID_def socket_threads_def
    by (rule ext) (rule first_some_find)
  then show ?thesis
    by (simp add: findThreadByOSID_def all_threads_def find_append_case first_some_find)
qed

lemma root_ok_find:
  assumes "root_ok ids added r" "distinct (map fst added)" "(osID, te) \<in> set added"
  shows "findThreadByOSID osID r = Some \<lparr>ht_osID = osID, ht_te = te, ht_online = (socket_id te \<in> set ids)\<rparr>"
proof -
  let ?f = "\<lambda>(osID, te). \<lparr>ht_osID = osID, ht_te = te, ht_online = (socket_id te \<in> set ids)\<rparr>"
  have m: "mset (all_threads r) = mset (map ?f added)" using assms(1) unfolding root_ok_def by blast
  then have "mset (map ht_osID (all_threads r)) = mset (map fst added)"
    by (simp add: multiset.map_comp comp_def case_prod_unfold)
  then have "distinct (map ht_osID (all_threads r))" using assms(2) by (metis mset_eq_imp_distinct_iff)
  moreover have "?f (osID, te) \<in> set (all_threads r)" using mset_eq_setD [OF m] assms(3) by force
  ultimately show ?thesis
    using find_distinct_key [of ht_osID "all_threads r" "?f (osID, te)"] by (simp add: findThreadByOSID_all)
qed

lemma build_topology_tree:
  assumes "build_topology supported st = Inr t"
  defines "ids \<equiv> map int [0..<length (ci_socketIds st)]"
  shows "root_ok ids (map (\<lambda>(i, te). (int i, te)) (enumerate 0 (topology t))) (systemTopology t) \<and>
    (\<forall>s \<in> set (sockets (systemTopology t)). socket_cores s \<noteq> [] \<and> socket_refCore s = Some (hd (socket_cores s)))"
proof -
  obtain r0 r1 where r0: "rfold (addSocket supported) ids \<lparr>sockets = [], offlinedThreadsAtStart = []\<rparr> = Inr r0"
    and r1: "rfold (\<lambda>(cid, te). addThread (threads_per_core t) (int cid) te) (enumerate 0 (topology t)) r0 = Inr r1"
    and ss: "rfold (\<lambda>s acc. rbind (setRefCore s) (\<lambda>s'. Inr (acc @ [s']))) (sockets r1) [] = Inr (sockets (systemTopology t))"
    and off: "offlinedThreadsAtStart (systemTopology t) = offlinedThreadsAtStart r1"
    using build_topology_fields [OF assms(1)] unfolding ids_def by metis
  have "root_ok ids [] r0" using addSockets_ok [OF r0]
    by (auto simp: root_ok_def all_threads_def socket_ok_def socket_threads_def comp_def)
  from addThreads_ok [OF r1 this]
  have ok: "root_ok ids (map (\<lambda>(i, te). (int i, te)) (enumerate 0 (topology t))) r1" by simp
  show ?thesis using ok setRefCores_ok [OF ss] off
    by (auto simp: root_ok_def all_threads_def socket_ok_refCore socket_threads_refCore comp_def)
qed



end
