(* ===== verification/Msr.thy ===== *)
theory Msr
  imports Prelude
begin

text \<open>
  Model-specific registers as the programming code sees them (msr.h, msr.cpp, Linux). \<open>rd m a\<close> is what a read of address \<open>a\<close>
  delivers in machine state \<open>m\<close> (\<open>None\<close>: not 8 bytes were read and the target variable keeps its value) and \<open>wr m a v\<close> the
  state after a write. The locale \<open>msr_file\<close> is what the code relies on: registers hold what is written to them, one that
  cannot be read stays so, and a write to the overflow control register clears status bits instead. The device behind
  \<^verbatim>\<open>/dev/cpu/N/msr\<close> is a parameter of the handle operations; \<open>msr_device\<close> is the register store that device documents, and
  the handles of msr.cpp and msr.h over it are interpretations of the locale.
\<close>

section \<open>Registers\<close>

definition INST_RETIRED_ADDR :: u64 where "INST_RETIRED_ADDR = 0x309"
definition CPU_CLK_UNHALTED_THREAD_ADDR :: u64 where "CPU_CLK_UNHALTED_THREAD_ADDR = 0x30A"
definition CPU_CLK_UNHALTED_REF_ADDR :: u64 where "CPU_CLK_UNHALTED_REF_ADDR = 0x30B"
definition TOPDOWN_SLOTS_ADDR :: u64 where "TOPDOWN_SLOTS_ADDR = 0x30C"
definition PERF_METRICS_ADDR :: u64 where "PERF_METRICS_ADDR = 0x329"
definition IA32_CR_PERF_GLOBAL_CTRL :: u64 where "IA32_CR_PERF_GLOBAL_CTRL = 0x38F"
definition IA32_CR_FIXED_CTR_CTRL :: u64 where "IA32_CR_FIXED_CTR_CTRL = 0x38D"
definition IA32_PERFEVTSEL0_ADDR :: u64 where "IA32_PERFEVTSEL0_ADDR = 0x186"
definition IA32_PERF_GLOBAL_STATUS :: u64 where "IA32_PERF_GLOBAL_STATUS = 0x38E"
definition IA32_PERF_GLOBAL_OVF_CTRL :: u64 where "IA32_PERF_GLOBAL_OVF_CTRL = 0x390"
definition IA32_PEBS_ENABLE_ADDR :: u64 where "IA32_PEBS_ENABLE_ADDR = 0x3F1"
definition IA32_PMC0 :: u64 where "IA32_PMC0 = 0xC1"
definition MSR_OFFCORE_RSP0 :: u64 where "MSR_OFFCORE_RSP0 = 0x1A6"
definition MSR_OFFCORE_RSP1 :: u64 where "MSR_OFFCORE_RSP1 = 0x1A7"
definition MSR_LOAD_LATENCY :: u64 where "MSR_LOAD_LATENCY = 0x3F6"
definition MSR_FRONTEND :: u64 where "MSR_FRONTEND = 0x3F7"
definition LOAD_LATENCY_EVTNR :: u64 where "LOAD_LATENCY_EVTNR = 0xcd"
definition LOAD_LATENCY_UMASK :: u64 where "LOAD_LATENCY_UMASK = 0x01"

lemmas msr_addrs = INST_RETIRED_ADDR_def CPU_CLK_UNHALTED_THREAD_ADDR_def CPU_CLK_UNHALTED_REF_ADDR_def
  TOPDOWN_SLOTS_ADDR_def PERF_METRICS_ADDR_def IA32_CR_PERF_GLOBAL_CTRL_def IA32_CR_FIXED_CTR_CTRL_def
  IA32_PERFEVTSEL0_ADDR_def IA32_PERF_GLOBAL_STATUS_def IA32_PERF_GLOBAL_OVF_CTRL_def IA32_PEBS_ENABLE_ADDR_def
  IA32_PMC0_def MSR_OFFCORE_RSP0_def MSR_OFFCORE_RSP1_def MSR_LOAD_LATENCY_def MSR_FRONTEND_def

type_synonym 'm msr_rd = "'m \<Rightarrow> u64 \<Rightarrow> u64 option"
type_synonym 'm msr_wr = "'m \<Rightarrow> u64 \<Rightarrow> u64 \<Rightarrow> 'm"

definition read_into :: "'m msr_rd \<Rightarrow> 'm \<Rightarrow> u64 \<Rightarrow> u64 \<Rightarrow> u64" where
  "read_into rd m a old = (case rd m a of Some v \<Rightarrow> v | None \<Rightarrow> old)"

section \<open>What the registers promise\<close>

locale msr_file =
  fixes rd :: "'m msr_rd" and wr :: "'m msr_wr"
  assumes rd_wr: "a \<noteq> IA32_PERF_GLOBAL_OVF_CTRL \<Longrightarrow> rd (wr m a v) b = (if b = a then map_option (\<lambda>_. v) (rd m a) else rd m b)"
    and rd_wr_ovf: "b \<noteq> IA32_PERF_GLOBAL_STATUS \<Longrightarrow> b \<noteq> IA32_PERF_GLOBAL_OVF_CTRL \<Longrightarrow>
      rd (wr m IA32_PERF_GLOBAL_OVF_CTRL v) b = rd m b"
    and rd_wr_status: "rd (wr m IA32_PERF_GLOBAL_OVF_CTRL v) IA32_PERF_GLOBAL_STATUS =
      map_option (\<lambda>s. s AND NOT v) (rd m IA32_PERF_GLOBAL_STATUS)"

section \<open>Handles\<close>

text \<open>\<^verbatim>\<open>MsrHandle\<close>: the file descriptor is negative in the no-MSR mode; \<open>dev\<close> is the device the descriptor refers to.\<close>

record 'd msr_handle =
  fd :: int
  dev :: 'd

definition MsrHandle_open :: "bool \<Rightarrow> int \<Rightarrow> int \<Rightarrow> 'd \<Rightarrow> 'd msr_handle option" where
  "MsrHandle_open noMSR open_cpu open_android d =
     (if noMSR then Some \<lparr>fd = - 1, dev = d\<rparr>
      else let h = (if open_cpu < 0 then open_android else open_cpu)
           in if h < 0 then None else Some \<lparr>fd = h, dev = d\<rparr>)"

definition MsrHandle_read :: "'d msr_rd \<Rightarrow> 'd msr_handle msr_rd" where
  "MsrHandle_read pread h a = (if fd h < 0 then None else pread (dev h) a)"

definition MsrHandle_write :: "'d msr_wr \<Rightarrow> 'd msr_handle msr_wr" where
  "MsrHandle_write pwrite h a v = (if fd h < 0 then h else h\<lparr>dev := pwrite (dev h) a v\<rparr>)"

text \<open>\<^verbatim>\<open>SafeMsrHandle\<close>: a null handle stands for an offline core, reads as zero and ignores writes.\<close>

definition SafeMsrHandle_read :: "'d msr_rd \<Rightarrow> 'd msr_handle option msr_rd" where
  "SafeMsrHandle_read pread s a = (case s of Some h \<Rightarrow> MsrHandle_read pread h a | None \<Rightarrow> Some 0)"

definition SafeMsrHandle_write :: "'d msr_wr \<Rightarrow> 'd msr_handle option msr_wr" where
  "SafeMsrHandle_write pwrite s a v = map_option (\<lambda>h. MsrHandle_write pwrite h a v) s"

text \<open>A handle passes the promises of its device on, in both modes.\<close>

lemma MsrHandle_msr_file:
  assumes "msr_file pread pwrite"
  shows "msr_file (MsrHandle_read pread) (MsrHandle_write pwrite)"
proof -
  note laws = msr_file.rd_wr [OF assms] msr_file.rd_wr_ovf [OF assms] msr_file.rd_wr_status [OF assms]
  show ?thesis
    by unfold_locales (simp_all add: MsrHandle_read_def MsrHandle_write_def laws)
qed

section \<open>A register store\<close>

definition msr_device_write :: "(u64 \<Rightarrow> u64 option) msr_wr" where
  "msr_device_write s a v =
     (if a = IA32_PERF_GLOBAL_OVF_CTRL
      then s(IA32_PERF_GLOBAL_STATUS := map_option (\<lambda>x. x AND NOT v) (s IA32_PERF_GLOBAL_STATUS))
      else s(a := map_option (\<lambda>_. v) (s a)))"

interpretation msr_device: msr_file "\<lambda>s a. s a" msr_device_write
  by unfold_locales (simp_all add: msr_device_write_def)

interpretation msr_handle_file: msr_file "MsrHandle_read (\<lambda>s a. s a)" "MsrHandle_write msr_device_write"
  by (rule MsrHandle_msr_file [OF msr_device.msr_file_axioms])

lemma no_msr_mode:
  "MsrHandle_open True c a d = Some h \<Longrightarrow> MsrHandle_read pread (MsrHandle_write pwrite h x v) y = None"
  by (auto simp: MsrHandle_open_def MsrHandle_read_def MsrHandle_write_def)

lemma offline_core: "SafeMsrHandle_read pread (SafeMsrHandle_write pwrite None a v) b = Some 0"
  by (simp add: SafeMsrHandle_read_def SafeMsrHandle_write_def)

end
