(* ===== verification/Core_Pmu.thy ===== *)
theory Core_Pmu
  imports Bits Topology Msr
begin

text \<open>
  The core performance monitoring unit of one hardware thread, programmed directly through model-specific registers
  (\<^verbatim>\<open>canUsePerf\<close> false): \<^verbatim>\<open>readCoreCounterConfig\<close>, \<^verbatim>\<open>programCoreCounters\<close>, \<^verbatim>\<open>checkCustomCoreProgramming\<close>,
  \<^verbatim>\<open>PMUinUse\<close>, \<^verbatim>\<open>cleanupPMU\<close>, \<^verbatim>\<open>resetPMU\<close> and the counter extractors (cpucounters.cpp). The registers are a parameter:
  the functions \<open>rd\<close> and \<open>wr\<close> of the locale \<open>msr_file\<close> (theory Msr).
\<close>

section \<open>Counter configuration and widths\<close>

record core_counters =
  perfmon_version :: u32
  core_gen_counter_num_max :: u32
  core_gen_counter_width :: u32
  core_fixed_counter_num_max :: u32
  core_fixed_counter_width :: u32

text \<open>\<^verbatim>\<open>readCoreCounterConfig\<close>. \<open>tsx\<close> is the value of \<^verbatim>\<open>MSR_TSX_FORCE_ABORT\<close> when that mode is available and readable,
  \<open>aws\<close> the conjunction of the workaround's conditions other than the counter number, \<open>nmi\<close> that the NMI watchdog is
  enabled and kept.\<close>

definition readCoreCounterConfig ::
  "u32 \<Rightarrow> cpuid_info \<Rightarrow> u64 option \<Rightarrow> bool \<Rightarrow> bool \<Rightarrow> core_counters \<Rightarrow> core_counters" where
  "readCoreCounterConfig max_cpuid cpuinfo tsx aws nmi c =
     (if max_cpuid \<ge> 0xa then
        (let a = cpuid_eax cpuinfo; d = cpuid_edx cpuinfo;
             version = extract_bits_32 a 0 7;
             c1 = c\<lparr>perfmon_version := version, core_gen_counter_num_max := extract_bits_32 a 8 15,
                    core_gen_counter_width := extract_bits_32 a 16 23\<rparr>;
             c2 = (if version > 1 then c1\<lparr>core_fixed_counter_num_max := extract_bits_32 d 0 4,
                                          core_fixed_counter_width := extract_bits_32 d 5 12\<rparr>
                   else if version = 1 then c1\<lparr>core_fixed_counter_num_max := 3,
                                               core_fixed_counter_width := core_gen_counter_width c1\<rparr>
                   else c1);
             c3 = (case tsx of Some v \<Rightarrow> if v AND 1 = 0 then c2\<lparr>core_gen_counter_num_max := 3\<rparr> else c2 | None \<Rightarrow> c2);
             c4 = (if aws \<and> core_gen_counter_num_max c3 > 3 then c3\<lparr>core_gen_counter_num_max := 3\<rparr> else c3)
         in if nmi then c4\<lparr>core_gen_counter_num_max := core_gen_counter_num_max c4 - 1\<rparr> else c4)
      else c)"

definition isFixedCounterSupported :: "u32 \<Rightarrow> cpuid_info \<Rightarrow> u32 \<Rightarrow> bool" where
  "isFixedCounterSupported max_cpuid cpuinfo c =
     (max_cpuid \<ge> 0xa \<and> (extract_bits_32 (cpuid_ecx cpuinfo) c c \<noteq> 0 \<or> extract_bits_32 (cpuid_edx cpuinfo) 4 0 > c))"

definition extract_width :: "u32 \<Rightarrow> u64 \<Rightarrow> u64" where
  "extract_width w val = (if w \<noteq> 0 then extract_bits val 0 (w - 1) else val)"

definition extractCoreGenCounterValue :: "bool \<Rightarrow> core_counters \<Rightarrow> u64 \<Rightarrow> u64" where
  "extractCoreGenCounterValue canUsePerf c val = (if canUsePerf then val else extract_width (core_gen_counter_width c) val)"

definition extractCoreFixedCounterValue :: "bool \<Rightarrow> core_counters \<Rightarrow> u64 \<Rightarrow> u64" where
  "extractCoreFixedCounterValue canUsePerf c val = (if canUsePerf then val else extract_width (core_fixed_counter_width c) val)"

definition extractUncoreGenCounterValue :: "u32 \<Rightarrow> u64 \<Rightarrow> u64" where
  "extractUncoreGenCounterValue width val = extract_width width val"

definition extractUncoreFixedCounterValue :: "u32 \<Rightarrow> u64 \<Rightarrow> u64" where
  "extractUncoreFixedCounterValue width val = extract_width width val"

definition PCM_INVALID_QOS_MONITORING_DATA :: u64 where
  "PCM_INVALID_QOS_MONITORING_DATA = - 1"

definition extractQOSMonitoring :: "u64 \<Rightarrow> u64" where
  "extractQOSMonitoring val =
     (if val AND push_bit 62 3 \<noteq> 0 then PCM_INVALID_QOS_MONITORING_DATA else extract_bits val 0 61)"

definition PCM_INVALID_THERMAL_HEADROOM :: int where
  "PCM_INVALID_THERMAL_HEADROOM = - (2 ^ 31)"

definition extractThermalHeadroom :: "u64 \<Rightarrow> int" where
  "extractThermalHeadroom val =
     (if val AND push_bit 31 1 \<noteq> 0 then sint (ucast (extract_bits val 16 22) :: u32) else PCM_INVALID_THERMAL_HEADROOM)"

section \<open>Programming\<close>

text \<open>\<^verbatim>\<open>CustomCoreEventDescription\<close>: signed 32-bit fields, sign-extended where they become register fields.\<close>

record event_desc =
  event_number :: u32
  umask_value :: u32

text \<open>\<^verbatim>\<open>ExtendedCustomCoreEventDescription\<close>; a null pointer is \<open>None\<close>.\<close>

record ext_desc =
  fixedCfg :: "u64 option"
  gpCounterCfg :: "u64 list option"
  gpCounterHybridAtomCfg :: "u64 list option"
  OffcoreResponseMsrValue0 :: u64
  OffcoreResponseMsrValue1 :: u64
  LoadLatencyMsrValue :: u64
  FrontendMsrValue :: u64

definition invalidMsrValue :: u64 where
  "invalidMsrValue = NOT 0"

record pmu_config =
  core_gen_counter_num_used :: nat
  fixed3_supported :: bool
  hwtma_l1 :: bool
  atom_or_knl :: bool
  is_hybrid :: bool
  this_core_type :: int
  coreEventDesc :: "event_desc list"
  hybridAtomEventDesc :: "event_desc list"

abbreviation esr_set :: "string \<Rightarrow> u64 \<Rightarrow> u64 \<Rightarrow> u64" where
  "esr_set \<equiv> set_field EventSelectRegister"

abbreviation esr_get :: "string \<Rightarrow> u64 \<Rightarrow> u64" where
  "esr_get \<equiv> get_field EventSelectRegister"

abbreviation fec_set :: "string \<Rightarrow> u64 \<Rightarrow> u64 \<Rightarrow> u64" where
  "fec_set \<equiv> set_field FixedEventControlRegister"

abbreviation fec_get :: "string \<Rightarrow> u64 \<Rightarrow> u64" where
  "fec_get \<equiv> get_field FixedEventControlRegister"

definition initFixedCtrl :: "bool \<Rightarrow> ext_desc option \<Rightarrow> bool \<Rightarrow> u64" where
  "initFixedCtrl ext_mode pExtDesc ctr3 =
     (case (if ext_mode then Option.bind pExtDesc fixedCfg else None) of
        Some cfg \<Rightarrow> cfg
      | None \<Rightarrow>
          (let r = fec_set ''usr2'' 1 (fec_set ''os2'' 1 (fec_set ''usr1'' 1 (fec_set ''os1'' 1
                     (fec_set ''usr0'' 1 (fec_set ''os0'' 1 0)))))
           in if ctr3 then fec_set ''usr3'' 1 (fec_set ''os3'' 1 r) else r))"

definition setEvent :: "u64 \<Rightarrow> u64 \<Rightarrow> u64 \<Rightarrow> u64" where
  "setEvent reg event um =
     fold (\<lambda>(f, x) r. esr_set f x r)
       [(''event_select'', event), (''umask'', um), (''usr'', 1), (''os'', 1), (''edge'', 0), (''pin_control'', 0),
        (''apic_int'', 0), (''any_thread'', 0), (''enable'', 1), (''invert'', 0), (''cmask'', 0), (''in_tx'', 0),
        (''in_txcp'', 0)] reg"

definition write_ext_msrs :: "'m msr_wr \<Rightarrow> bool \<Rightarrow> ext_desc option \<Rightarrow> 'm \<Rightarrow> 'm" where
  "write_ext_msrs wr ext_mode pExtDesc m =
     (case pExtDesc of
        None \<Rightarrow> m
      | Some d \<Rightarrow>
          if \<not> ext_mode then m
          else let m1 = (if OffcoreResponseMsrValue0 d \<noteq> 0 then wr m MSR_OFFCORE_RSP0 (OffcoreResponseMsrValue0 d) else m);
                   m2 = (if OffcoreResponseMsrValue1 d \<noteq> 0 then wr m1 MSR_OFFCORE_RSP1 (OffcoreResponseMsrValue1 d) else m1);
                   m3 = (if LoadLatencyMsrValue d \<noteq> invalidMsrValue then wr m2 MSR_LOAD_LATENCY (LoadLatencyMsrValue d) else m2)
               in if FrontendMsrValue d \<noteq> invalidMsrValue then wr m3 MSR_FRONTEND (FrontendMsrValue d) else m3)"

text \<open>The event select value of counter \<open>j\<close>; \<open>reg\<close> is the variable's value from the previous counter, which survives
  when the core is neither a big nor a small core of a hybrid processor.\<close>

definition event_select :: "'m msr_rd \<Rightarrow> pmu_config \<Rightarrow> bool \<Rightarrow> ext_desc option \<Rightarrow> 'm \<Rightarrow> nat \<Rightarrow> u64 \<Rightarrow> u64" where
  "event_select rd cfg ext_mode pExtDesc m j reg =
     (let custom = (\<lambda>sel. if ext_mode then Option.bind pExtDesc sel else None);
          default = (\<lambda>descs. setEvent (read_into rd m (IA32_PERFEVTSEL0_ADDR + of_nat j) reg)
                       (scast (event_number (descs ! j))) (scast (umask_value (descs ! j))))
      in if \<not> is_hybrid cfg \<or> this_core_type cfg = 0x40 then
           (case custom gpCounterCfg of Some g \<Rightarrow> esr_set ''enable'' 1 (g ! j) | None \<Rightarrow> default (coreEventDesc cfg))
         else if this_core_type cfg = 0x20 then
           (case custom gpCounterHybridAtomCfg of Some g \<Rightarrow> esr_set ''enable'' 1 (g ! j) | None \<Rightarrow> default (hybridAtomEventDesc cfg))
         else reg)"

record 'm program_state =
  ps_msrs :: 'm
  ps_reg :: u64
  ps_result :: "u64 list"
  ps_PEBSEnable :: u64

definition program_counter ::
  "'m msr_rd \<Rightarrow> 'm msr_wr \<Rightarrow> pmu_config \<Rightarrow> bool \<Rightarrow> ext_desc option \<Rightarrow> nat \<Rightarrow> 'm program_state \<Rightarrow> 'm program_state" where
  "program_counter rd wr cfg ext_mode pExtDesc j s =
     (let reg = event_select rd cfg ext_mode pExtDesc (ps_msrs s) j (ps_reg s);
          pebs = (if pExtDesc \<noteq> None \<and> esr_get ''event_select'' reg = LOAD_LATENCY_EVTNR \<and>
                     esr_get ''umask'' reg = LOAD_LATENCY_UMASK
                  then ps_PEBSEnable s OR push_bit j 1 else ps_PEBSEnable s);
          m1 = wr (ps_msrs s) (IA32_PMC0 + of_nat j) 0
      in s\<lparr>ps_msrs := wr m1 (IA32_PERFEVTSEL0_ADDR + of_nat j) reg, ps_reg := reg,
           ps_result := ps_result s @ [reg], ps_PEBSEnable := pebs\<rparr>)"

definition global_ctrl_value :: "pmu_config \<Rightarrow> u64" where
  "global_ctrl_value cfg =
     (let v0 = push_bit 0 1 + push_bit 1 1 + push_bit 2 1 + push_bit 3 1 + push_bit 32 1 + push_bit 33 1 + push_bit 34 1;
          v1 = (if fixed3_supported cfg then v0 OR push_bit 35 1 else v0);
          v2 = (if hwtma_l1 cfg then v1 OR push_bit 48 1 else v1);
          v3 = (if atom_or_knl cfg then push_bit 0 1 + push_bit 1 1 + push_bit 32 1 + push_bit 33 1 + push_bit 34 1 else v2)
      in fold (\<lambda>j v. v OR push_bit j 1) [0..<core_gen_counter_num_used cfg] v3)"

definition configure_fixed :: "'m msr_wr \<Rightarrow> pmu_config \<Rightarrow> bool \<Rightarrow> ext_desc option \<Rightarrow> 'm \<Rightarrow> 'm" where
  "configure_fixed wr cfg ext_mode pExtDesc m =
     (let m1 = wr m IA32_CR_PERF_GLOBAL_CTRL 0;
          m2 = wr (wr (wr m1 INST_RETIRED_ADDR 0) CPU_CLK_UNHALTED_THREAD_ADDR 0) CPU_CLK_UNHALTED_REF_ADDR 0
      in wr m2 IA32_CR_FIXED_CTR_CTRL (initFixedCtrl ext_mode pExtDesc (fixed3_supported cfg)))"

definition start_counting :: "'m msr_wr \<Rightarrow> pmu_config \<Rightarrow> u64 \<Rightarrow> 'm \<Rightarrow> 'm" where
  "start_counting wr cfg PEBSEnable m =
     (let v = global_ctrl_value cfg;
          m1 = (if fixed3_supported cfg then wr m TOPDOWN_SLOTS_ADDR 0 else m);
          m2 = (if hwtma_l1 cfg then wr m1 PERF_METRICS_ADDR 0 else m1);
          m3 = wr (wr m2 IA32_PERF_GLOBAL_OVF_CTRL v) IA32_CR_PERF_GLOBAL_CTRL v
      in if PEBSEnable \<noteq> 0 then wr m3 IA32_PEBS_ENABLE_ADDR PEBSEnable else m3)"

text \<open>\<^verbatim>\<open>programCoreCounters\<close> on one core: the registers afterwards, the values it remembers for the corruption check, and
  whether precise events need a cleanup. The comparison with a \<^verbatim>\<open>core_global_ctrl_value\<close> stored by another core is an
  assertion.\<close>

definition programCoreCounters ::
  "'m msr_rd \<Rightarrow> 'm msr_wr \<Rightarrow> pmu_config \<Rightarrow> bool \<Rightarrow> ext_desc option \<Rightarrow> 'm \<Rightarrow> 'm \<times> u64 list \<times> bool" where
  "programCoreCounters rd wr cfg ext_mode pExtDesc m =
     (let m1 = write_ext_msrs wr ext_mode pExtDesc (configure_fixed wr cfg ext_mode pExtDesc m);
          s = fold (program_counter rd wr cfg ext_mode pExtDesc) [0..<core_gen_counter_num_used cfg]
                \<lparr>ps_msrs = m1, ps_reg = 0, ps_result = [], ps_PEBSEnable = 0\<rparr>
      in (start_counting wr cfg (ps_PEBSEnable s) (ps_msrs s), ps_result s, ps_PEBSEnable s \<noteq> 0))"

section \<open>Checking and releasing\<close>

definition corrupted_counters :: "'m msr_rd \<Rightarrow> u64 list \<Rightarrow> 'm \<Rightarrow> u32" where
  "corrupted_counters rd lastProgrammed m =
     fold (\<lambda>ctr msk. case rd m (IA32_PERFEVTSEL0_ADDR + of_nat ctr) of
         None \<Rightarrow> msk
       | Some v \<Rightarrow> if v \<noteq> lastProgrammed ! ctr then msk OR push_bit ctr 1 else msk)
       [0..<length lastProgrammed] 0"

definition checkCustomCoreProgramming :: "'m msr_rd \<Rightarrow> bool \<Rightarrow> u64 list list \<Rightarrow> nat \<Rightarrow> 'm \<Rightarrow> u32" where
  "checkCustomCoreProgramming rd canUsePerf lastProgrammedCustomCounters core m =
     (if length lastProgrammedCustomCounters \<le> core \<or> canUsePerf then 0
      else corrupted_counters rd (lastProgrammedCustomCounters ! core) m)"

text \<open>\<^verbatim>\<open>PMUinUse\<close>. A read that fails delivers a negative count, which the code treats like a successful one, unless the handle
  is in the no-MSR mode (\<open>noMSR\<close>), where the count is zero. The variable keeps its previous value on failure, initially all
  ones. The warning about \<^verbatim>\<open>MSR_PERF_GLOBAL_INUSE\<close> has no effect.\<close>

definition count_nonzero :: "'m msr_rd \<Rightarrow> bool \<Rightarrow> 'm \<Rightarrow> u64 \<Rightarrow> bool" where
  "count_nonzero rd noMSR m a = (rd m a \<noteq> None \<or> \<not> noMSR)"

fun event_selects_busy :: "'m msr_rd \<Rightarrow> bool \<Rightarrow> bool \<Rightarrow> 'm \<Rightarrow> nat list \<Rightarrow> u64 \<Rightarrow> bool" where
  "event_selects_busy rd noMSR needToRestoreNMIWatchdog m [] reg = False"
| "event_selects_busy rd noMSR needToRestoreNMIWatchdog m (j # js) reg =
     (let v = read_into rd m (IA32_PERFEVTSEL0_ADDR + of_nat j) reg
      in if count_nonzero rd noMSR m (IA32_PERFEVTSEL0_ADDR + of_nat j) \<and>
            (esr_get ''event_select'' v \<noteq> 0 \<or> esr_get ''apic_int'' v \<noteq> 0) \<and>
            \<not> (needToRestoreNMIWatchdog \<and> esr_get ''event_select'' v = 0x3C \<and> esr_get ''umask'' v = 0)
         then True else event_selects_busy rd noMSR needToRestoreNMIWatchdog m js v)"

definition fixed_ctrl_busy :: "'m msr_rd \<Rightarrow> bool \<Rightarrow> bool \<Rightarrow> 'm \<Rightarrow> bool" where
  "fixed_ctrl_busy rd noMSR needToRestoreNMIWatchdog m =
     (let v = read_into rd m IA32_CR_FIXED_CTR_CTRL (NOT 0)
      in count_nonzero rd noMSR m IA32_CR_FIXED_CTR_CTRL \<and>
         (fec_get ''enable_pmi0'' v \<noteq> 0 \<or> fec_get ''enable_pmi1'' v \<noteq> 0 \<or> fec_get ''enable_pmi2'' v \<noteq> 0) \<and>
         \<not> needToRestoreNMIWatchdog)"

definition PMUinUse :: "'m msr_rd \<Rightarrow> bool \<Rightarrow> nat \<Rightarrow> bool \<Rightarrow> 'm list \<Rightarrow> bool" where
  "PMUinUse rd noMSR gen_max needToRestoreNMIWatchdog cores =
     list_ex (\<lambda>m. event_selects_busy rd noMSR needToRestoreNMIWatchdog m [0..<gen_max] (NOT 0) \<or>
                  fixed_ctrl_busy rd noMSR needToRestoreNMIWatchdog m) cores"

definition cleanupPMU_core :: "'m msr_wr \<Rightarrow> nat \<Rightarrow> bool \<Rightarrow> 'm \<Rightarrow> 'm" where
  "cleanupPMU_core wr gen_max cleanupPEBS m =
     (let m1 = wr m IA32_CR_PERF_GLOBAL_CTRL (push_bit 32 1 + push_bit 33 1 + push_bit 34 1);
          m2 = fold (\<lambda>j m. wr m (IA32_PERFEVTSEL0_ADDR + of_nat j) 0) [0..<gen_max] m1
      in if cleanupPEBS then wr m2 IA32_PEBS_ENABLE_ADDR 0 else m2)"

definition cleanupPMU :: "'m msr_wr \<Rightarrow> nat \<Rightarrow> bool \<Rightarrow> 'm list \<Rightarrow> 'm list" where
  "cleanupPMU wr gen_max cleanupPEBS cores = map (cleanupPMU_core wr gen_max cleanupPEBS) cores"

definition resetPMU_core :: "'m msr_rd \<Rightarrow> 'm msr_wr \<Rightarrow> nat \<Rightarrow> 'm \<Rightarrow> 'm" where
  "resetPMU_core rd wr gen_max m =
     (let m1 = wr m IA32_CR_PERF_GLOBAL_CTRL 0;
          m2 = fold (\<lambda>j m. wr m (IA32_PERFEVTSEL0_ADDR + of_nat j) 0) [0..<gen_max] m1;
          v = read_into rd m2 IA32_CR_FIXED_CTR_CTRL (NOT 0)
      in if list_ex (\<lambda>f. fec_get f v \<noteq> 0) [''os0'', ''usr0'', ''enable_pmi0'', ''os1'', ''usr1'', ''enable_pmi1'',
              ''os2'', ''usr2'', ''enable_pmi2'']
         then wr m2 IA32_CR_FIXED_CTR_CTRL 0 else m2)"

definition resetPMU :: "'m msr_rd \<Rightarrow> 'm msr_wr \<Rightarrow> nat \<Rightarrow> 'm list \<Rightarrow> 'm list" where
  "resetPMU rd wr gen_max cores = map (resetPMU_core rd wr gen_max) cores"

section \<open>Register addresses\<close>

abbreviation evtsel :: "nat \<Rightarrow> u64" where
  "evtsel j \<equiv> IA32_PERFEVTSEL0_ADDR + of_nat j"

abbreviation pmc :: "nat \<Rightarrow> u64" where
  "pmc j \<equiv> IA32_PMC0 + of_nat j"

text \<open>The event select registers and counters lie apart from each other and from the control registers.\<close>

lemma unat_evtsel: "j < 32 \<Longrightarrow> unat (evtsel j) = 0x186 + j"
  by (simp add: unat_word_ariths unat_of_nat take_bit_eq_mod IA32_PERFEVTSEL0_ADDR_def)

lemma unat_pmc: "j < 32 \<Longrightarrow> unat (pmc j) = 0xC1 + j"
  by (simp add: unat_word_ariths unat_of_nat take_bit_eq_mod IA32_PMC0_def)

lemma evtsel_inj [simp]: "i < 32 \<Longrightarrow> j < 32 \<Longrightarrow> evtsel i = evtsel j \<longleftrightarrow> i = j"
  using unat_evtsel [of i] unat_evtsel [of j] by (metis add_left_cancel)

lemma pmc_inj [simp]: "i < 32 \<Longrightarrow> j < 32 \<Longrightarrow> pmc i = pmc j \<longleftrightarrow> i = j"
  using unat_pmc [of i] unat_pmc [of j] by (metis add_left_cancel)

lemma evtsel_neq: "j < 32 \<Longrightarrow> unat a < 0x186 \<or> 0x186 + 32 \<le> unat a \<Longrightarrow> evtsel j \<noteq> a"
  using unat_evtsel [of j] by auto

lemma pmc_neq: "j < 32 \<Longrightarrow> unat a < 0xC1 \<or> 0xC1 + 32 \<le> unat a \<Longrightarrow> pmc j \<noteq> a"
  using unat_pmc [of j] by auto

lemma pmc_evtsel_neq [simp]:
  assumes "i < 32" "j < 32"
  shows "pmc i \<noteq> evtsel j" "evtsel j \<noteq> pmc i"
proof -
  have "unat (pmc i) < unat (evtsel j)"
    using assms by (simp only: unat_pmc unat_evtsel)
  then show "pmc i \<noteq> evtsel j" "evtsel j \<noteq> pmc i"
    by (metis less_irrefl)+
qed

lemma evtsel_pmc_base [simp]: "IA32_PERFEVTSEL0_ADDR \<noteq> IA32_PMC0" "IA32_PMC0 \<noteq> IA32_PERFEVTSEL0_ADDR"
  by (simp_all add: msr_addrs)

lemma fresh_counter:
  assumes "k < 32"
  shows "evtsel k \<notin> evtsel ` {..<k} \<union> pmc ` {..<k}" "pmc k \<notin> evtsel ` {..<k} \<union> pmc ` {..<k}"
proof -
  have "evtsel k \<noteq> evtsel i \<and> evtsel k \<noteq> pmc i \<and> pmc k \<noteq> evtsel i \<and> pmc k \<noteq> pmc i" if "i < k" for i
    using that assms evtsel_inj [of k i] pmc_inj [of k i] pmc_evtsel_neq [of i k] pmc_evtsel_neq [of k i] by auto
  then show "evtsel k \<notin> evtsel ` {..<k} \<union> pmc ` {..<k}" "pmc k \<notin> evtsel ` {..<k} \<union> pmc ` {..<k}"
    by blast+
qed

lemma ctrl_unat:
  "unat IA32_PERF_GLOBAL_OVF_CTRL = 0x390" "unat IA32_CR_PERF_GLOBAL_CTRL = 0x38F" "unat IA32_CR_FIXED_CTR_CTRL = 0x38D"
  "unat IA32_PEBS_ENABLE_ADDR = 0x3F1" "unat INST_RETIRED_ADDR = 0x309" "unat CPU_CLK_UNHALTED_THREAD_ADDR = 0x30A"
  "unat CPU_CLK_UNHALTED_REF_ADDR = 0x30B" "unat TOPDOWN_SLOTS_ADDR = 0x30C" "unat PERF_METRICS_ADDR = 0x329"
  "unat MSR_OFFCORE_RSP0 = 0x1A6" "unat MSR_OFFCORE_RSP1 = 0x1A7" "unat MSR_LOAD_LATENCY = 0x3F6" "unat MSR_FRONTEND = 0x3F7"
  "unat IA32_PERF_GLOBAL_STATUS = 0x38E"
  by (simp_all add: msr_addrs)

lemma ctrl_neq [simp]:
  assumes "j < 32"
    and "a \<in> {IA32_PERF_GLOBAL_OVF_CTRL, IA32_CR_PERF_GLOBAL_CTRL, IA32_CR_FIXED_CTR_CTRL, IA32_PEBS_ENABLE_ADDR,
      INST_RETIRED_ADDR, CPU_CLK_UNHALTED_THREAD_ADDR, CPU_CLK_UNHALTED_REF_ADDR, TOPDOWN_SLOTS_ADDR, PERF_METRICS_ADDR,
      MSR_OFFCORE_RSP0, MSR_OFFCORE_RSP1, MSR_LOAD_LATENCY, MSR_FRONTEND, IA32_PERF_GLOBAL_STATUS}"
  shows "evtsel j \<noteq> a" "a \<noteq> evtsel j" "pmc j \<noteq> a" "a \<noteq> pmc j"
proof -
  have "0x1A6 \<le> unat a" using assms(2) by (auto simp: ctrl_unat)
  then show "evtsel j \<noteq> a" "a \<noteq> evtsel j" "pmc j \<noteq> a" "a \<noteq> pmc j"
    using evtsel_neq [OF assms(1), of a] pmc_neq [OF assms(1), of a] by auto
qed

context msr_file
begin

lemma rd_clear_fold:
  assumes "\<forall>j \<in> set js. f j \<noteq> IA32_PERF_GLOBAL_OVF_CTRL"
  shows "rd (fold (\<lambda>j m. wr m (f j) v) js m) b = (if b \<in> f ` set js then map_option (\<lambda>_. v) (rd m b) else rd m b)"
  using assms by (induction js arbitrary: m) (auto simp: rd_wr option.map_comp o_def)

text \<open>The loop over the programmable counters: every select register it has passed holds the value it reported, every
  counter it has passed is zero, and no other register changes.\<close>

lemma program_loop:
  fixes P :: "nat \<Rightarrow> 'm program_state \<Rightarrow> 'm program_state"
  assumes "k \<le> 32" and "P = program_counter rd wr cfg ext_mode pExtDesc"
    and "s = fold P [0..<k] \<lparr>ps_msrs = m, ps_reg = r, ps_result = [], ps_PEBSEnable = e\<rparr>"
  shows "length (ps_result s) = k \<and>
    (\<forall>j < k. rd (ps_msrs s) (evtsel j) = map_option (\<lambda>_. ps_result s ! j) (rd m (evtsel j)) \<and>
             rd (ps_msrs s) (pmc j) = map_option (\<lambda>_. 0) (rd m (pmc j))) \<and>
    (\<forall>b. b \<notin> evtsel ` {..<k} \<union> pmc ` {..<k} \<longrightarrow> rd (ps_msrs s) b = rd m b)"
  using assms(1,3)
proof (induction k arbitrary: s)
  case 0
  then show ?case by simp
next
  case (Suc k)
  define t where "t = fold P [0..<k] \<lparr>ps_msrs = m, ps_reg = r, ps_result = [], ps_PEBSEnable = e\<rparr>"
  have s: "s = P k t" using Suc.prems(2) by (simp add: t_def)
  have k: "k < 32" "k \<le> 32" using Suc.prems(1) by simp_all
  note IH = Suc.IH [OF k(2) t_def]
  have len: "length (ps_result t) = k" using IH by blast
  obtain x where res: "ps_result s = ps_result t @ [x]" and
    msrs: "ps_msrs s = wr (wr (ps_msrs t) (pmc k) 0) (evtsel k) x"
    by (simp add: s assms(2) program_counter_def Let_def)
  have new: "rd (ps_msrs s) b = (if b = evtsel k then map_option (\<lambda>_. x) (rd (ps_msrs t) b)
      else if b = pmc k then map_option (\<lambda>_. 0) (rd (ps_msrs t) b) else rd (ps_msrs t) b)" for b
    using k(1) by (simp add: msrs rd_wr)
  have out: "rd (ps_msrs t) (evtsel k) = rd m (evtsel k)" "rd (ps_msrs t) (pmc k) = rd m (pmc k)"
    using IH fresh_counter [OF k(1)] by blast+
  show ?case
  proof (intro conjI allI impI)
    show "length (ps_result s) = Suc k" by (simp add: res len)
  next
    fix j assume j: "j < Suc k"
    have "evtsel j = evtsel k \<longleftrightarrow> j = k" "pmc j = pmc k \<longleftrightarrow> j = k" "pmc k \<noteq> evtsel j" "evtsel k \<noteq> pmc j"
      using evtsel_inj [of j k] pmc_inj [of j k] pmc_evtsel_neq [of k j] pmc_evtsel_neq [of j k] j k(1) by auto
    note addr = this
    have old: "j \<noteq> k \<Longrightarrow> rd (ps_msrs t) (evtsel j) = map_option (\<lambda>_. ps_result t ! j) (rd m (evtsel j))"
      "j \<noteq> k \<Longrightarrow> rd (ps_msrs t) (pmc j) = map_option (\<lambda>_. 0) (rd m (pmc j))"
      using IH j by auto
    show "rd (ps_msrs s) (evtsel j) = map_option (\<lambda>_. ps_result s ! j) (rd m (evtsel j))"
      using old(1) out(1) new [of "evtsel j"] addr j by (cases "j = k") (simp_all add: res len nth_append)
    show "rd (ps_msrs s) (pmc j) = map_option (\<lambda>_. 0) (rd m (pmc j))"
      using old(2) out(2) new [of "pmc j"] addr j by (cases "j = k") simp_all
  next
    fix b assume "b \<notin> evtsel ` {..<Suc k} \<union> pmc ` {..<Suc k}"
    then show "rd (ps_msrs s) b = rd m b"
      using IH new [of b] by (auto simp: lessThan_Suc)
  qed
qed

lemma rd_ext_msrs:
  "b \<notin> {MSR_OFFCORE_RSP0, MSR_OFFCORE_RSP1, MSR_LOAD_LATENCY, MSR_FRONTEND} \<Longrightarrow>
   rd (write_ext_msrs wr ext_mode pExtDesc m) b = rd m b"
  by (simp add: write_ext_msrs_def rd_wr msr_addrs Let_def split: option.split)

lemma rd_configure_fixed:
  "rd (configure_fixed wr cfg ext_mode pExtDesc m) b =
     (if b = IA32_CR_FIXED_CTR_CTRL then map_option (\<lambda>_. initFixedCtrl ext_mode pExtDesc (fixed3_supported cfg)) (rd m b)
      else if b \<in> {INST_RETIRED_ADDR, CPU_CLK_UNHALTED_THREAD_ADDR, CPU_CLK_UNHALTED_REF_ADDR, IA32_CR_PERF_GLOBAL_CTRL}
      then map_option (\<lambda>_. 0) (rd m b) else rd m b)"
  by (simp add: configure_fixed_def rd_wr msr_addrs Let_def)

lemma rd_start_counting:
  "b \<notin> {IA32_PERF_GLOBAL_OVF_CTRL, IA32_CR_PERF_GLOBAL_CTRL, IA32_PEBS_ENABLE_ADDR, TOPDOWN_SLOTS_ADDR, PERF_METRICS_ADDR,
     IA32_PERF_GLOBAL_STATUS} \<Longrightarrow> rd (start_counting wr cfg e m) b = rd m b"
  "rd (start_counting wr cfg e m) IA32_CR_PERF_GLOBAL_CTRL = map_option (\<lambda>_. global_ctrl_value cfg) (rd m IA32_CR_PERF_GLOBAL_CTRL)"
  "rd (start_counting wr cfg e m) IA32_PERF_GLOBAL_STATUS =
     map_option (\<lambda>s. s AND NOT (global_ctrl_value cfg)) (rd m IA32_PERF_GLOBAL_STATUS)"
proof -
  define a where "a = IA32_PERF_GLOBAL_OVF_CTRL"
  define b' where "b' = IA32_PERF_GLOBAL_STATUS"
  have ne: "IA32_CR_PERF_GLOBAL_CTRL \<noteq> a" "IA32_PEBS_ENABLE_ADDR \<noteq> a" "TOPDOWN_SLOTS_ADDR \<noteq> a" "PERF_METRICS_ADDR \<noteq> a"
    "b' \<noteq> IA32_CR_PERF_GLOBAL_CTRL" "b' \<noteq> IA32_PEBS_ENABLE_ADDR" "b' \<noteq> TOPDOWN_SLOTS_ADDR" "b' \<noteq> PERF_METRICS_ADDR"
    "b' \<noteq> a" "IA32_CR_PERF_GLOBAL_CTRL \<noteq> IA32_PEBS_ENABLE_ADDR" "IA32_CR_PERF_GLOBAL_CTRL \<noteq> TOPDOWN_SLOTS_ADDR"
    "IA32_CR_PERF_GLOBAL_CTRL \<noteq> PERF_METRICS_ADDR"
    by (simp_all add: a_def b'_def msr_addrs)
  note ovf = rd_wr [folded a_def] rd_wr_ovf [folded a_def b'_def] rd_wr_status [folded a_def b'_def]
  show "b \<notin> {IA32_PERF_GLOBAL_OVF_CTRL, IA32_CR_PERF_GLOBAL_CTRL, IA32_PEBS_ENABLE_ADDR, TOPDOWN_SLOTS_ADDR, PERF_METRICS_ADDR,
     IA32_PERF_GLOBAL_STATUS} \<Longrightarrow> rd (start_counting wr cfg e m) b = rd m b"
    using ne unfolding a_def [symmetric] b'_def [symmetric] by (simp add: start_counting_def ovf a_def [symmetric] Let_def)
  show "rd (start_counting wr cfg e m) IA32_CR_PERF_GLOBAL_CTRL =
      map_option (\<lambda>_. global_ctrl_value cfg) (rd m IA32_CR_PERF_GLOBAL_CTRL)"
    using ne by (simp add: start_counting_def ovf a_def [symmetric] Let_def)
  show "rd (start_counting wr cfg e m) IA32_PERF_GLOBAL_STATUS =
      map_option (\<lambda>s. s AND NOT (global_ctrl_value cfg)) (rd m IA32_PERF_GLOBAL_STATUS)"
    using ne unfolding b'_def [symmetric] by (simp add: start_counting_def ovf a_def [symmetric] Let_def)
qed

lemma programCoreCounters_effect:
  assumes n: "core_gen_counter_num_used cfg \<le> 32"
    and eq: "programCoreCounters rd wr cfg ext_mode pExtDesc m = (m', result, pebs)"
  shows "length result = core_gen_counter_num_used cfg"
    and "j < core_gen_counter_num_used cfg \<Longrightarrow> rd m' (evtsel j) = map_option (\<lambda>_. result ! j) (rd m (evtsel j))"
    and "j < core_gen_counter_num_used cfg \<Longrightarrow> rd m' (pmc j) = map_option (\<lambda>_. 0) (rd m (pmc j))"
    and "rd m' IA32_CR_FIXED_CTR_CTRL =
      map_option (\<lambda>_. initFixedCtrl ext_mode pExtDesc (fixed3_supported cfg)) (rd m IA32_CR_FIXED_CTR_CTRL)"
    and "rd m' IA32_CR_PERF_GLOBAL_CTRL = map_option (\<lambda>_. global_ctrl_value cfg) (rd m IA32_CR_PERF_GLOBAL_CTRL)"
    and "rd m' IA32_PERF_GLOBAL_STATUS =
      map_option (\<lambda>s. s AND NOT (global_ctrl_value cfg)) (rd m IA32_PERF_GLOBAL_STATUS)"
    and "i < 32 \<Longrightarrow> rd m' (evtsel i) = None \<longleftrightarrow> rd m (evtsel i) = None"
proof -
  define n where "n = core_gen_counter_num_used cfg"
  define m1 where "m1 = write_ext_msrs wr ext_mode pExtDesc (configure_fixed wr cfg ext_mode pExtDesc m)"
  define s where "s = fold (program_counter rd wr cfg ext_mode pExtDesc) [0..<n]
    \<lparr>ps_msrs = m1, ps_reg = 0, ps_result = [], ps_PEBSEnable = 0\<rparr>"
  have m': "m' = start_counting wr cfg (ps_PEBSEnable s) (ps_msrs s)" and result: "result = ps_result s"
    using eq unfolding programCoreCounters_def Let_def s_def m1_def n_def by simp_all
  have n32: "n \<le> 32" using n by (simp add: n_def)
  note loop = program_loop [OF n32 refl s_def]
  show "length result = core_gen_counter_num_used cfg"
    using loop by (simp add: result n_def)
  show "rd m' (evtsel i) = None \<longleftrightarrow> rd m (evtsel i) = None" if "i < 32"
  proof -
    have "rd m' (evtsel i) = rd (ps_msrs s) (evtsel i)" "rd m1 (evtsel i) = rd m (evtsel i)"
      using that by (simp_all add: m' m1_def rd_start_counting rd_ext_msrs rd_configure_fixed)
    moreover have "rd (ps_msrs s) (evtsel i) = None \<longleftrightarrow> rd m1 (evtsel i) = None"
    proof (cases "i < n")
      case False
      then have "evtsel i \<noteq> evtsel k \<and> evtsel i \<noteq> pmc k" if "k < n" for k
        using evtsel_inj [of i k] pmc_evtsel_neq [of k i] that \<open>i < 32\<close> n32 by auto
      then have "evtsel i \<notin> evtsel ` {..<n} \<union> pmc ` {..<n}" by blast
      then show ?thesis using loop by simp
    qed (use loop in simp)
    ultimately show ?thesis by simp
  qed
  show "rd m' (evtsel j) = map_option (\<lambda>_. result ! j) (rd m (evtsel j))"
    and "rd m' (pmc j) = map_option (\<lambda>_. 0) (rd m (pmc j))" if "j < core_gen_counter_num_used cfg"
  proof -
    have j: "j < n" "j < 32" using that n by (simp_all add: n_def)
    show "rd m' (evtsel j) = map_option (\<lambda>_. result ! j) (rd m (evtsel j))"
      using loop j by (simp add: m' result m1_def rd_start_counting rd_ext_msrs rd_configure_fixed)
    show "rd m' (pmc j) = map_option (\<lambda>_. 0) (rd m (pmc j))"
      using loop j by (simp add: m' result m1_def rd_start_counting rd_ext_msrs rd_configure_fixed)
  qed
  have ctrl: "rd (ps_msrs s) b = rd m1 b" if "b \<in> {IA32_CR_FIXED_CTR_CTRL, IA32_CR_PERF_GLOBAL_CTRL, IA32_PERF_GLOBAL_STATUS}" for b
  proof -
    have "b \<noteq> evtsel i \<and> b \<noteq> pmc i" if "i < n" for i
      using ctrl_neq [of i b] that n32 \<open>b \<in> _\<close> by auto
    then show ?thesis using loop by blast
  qed
  have m1: "rd m1 IA32_CR_FIXED_CTR_CTRL =
      map_option (\<lambda>_. initFixedCtrl ext_mode pExtDesc (fixed3_supported cfg)) (rd m IA32_CR_FIXED_CTR_CTRL)"
    "rd m1 IA32_CR_PERF_GLOBAL_CTRL = map_option (\<lambda>_. 0) (rd m IA32_CR_PERF_GLOBAL_CTRL)"
    "rd m1 IA32_PERF_GLOBAL_STATUS = rd m IA32_PERF_GLOBAL_STATUS"
    unfolding m1_def by (simp_all add: rd_ext_msrs rd_configure_fixed msr_addrs)
  show "rd m' IA32_CR_FIXED_CTR_CTRL =
      map_option (\<lambda>_. initFixedCtrl ext_mode pExtDesc (fixed3_supported cfg)) (rd m IA32_CR_FIXED_CTR_CTRL)"
    using ctrl m1 unfolding m' by (subst rd_start_counting(1)) (simp_all add: msr_addrs)
  show "rd m' IA32_CR_PERF_GLOBAL_CTRL = map_option (\<lambda>_. global_ctrl_value cfg) (rd m IA32_CR_PERF_GLOBAL_CTRL)"
    using ctrl m1 unfolding m' by (simp add: rd_start_counting(2) option.map_comp o_def)
  show "rd m' IA32_PERF_GLOBAL_STATUS =
      map_option (\<lambda>s. s AND NOT (global_ctrl_value cfg)) (rd m IA32_PERF_GLOBAL_STATUS)"
    using ctrl m1 unfolding m' by (simp add: rd_start_counting(3))
qed

lemma rd_cleanup:
  assumes "gen_max \<le> 32"
  shows "j < gen_max \<Longrightarrow> rd (cleanupPMU_core wr gen_max pebs m) (evtsel j) = map_option (\<lambda>_. 0) (rd m (evtsel j))"
    and "rd (cleanupPMU_core wr gen_max pebs m) IA32_CR_FIXED_CTR_CTRL = rd m IA32_CR_FIXED_CTR_CTRL"
proof -
  have j: "\<forall>i \<in> set [0..<gen_max]. evtsel i \<noteq> IA32_PERF_GLOBAL_OVF_CTRL"
    "IA32_CR_FIXED_CTR_CTRL \<notin> evtsel ` {0..<gen_max}" "j < gen_max \<Longrightarrow> j < 32"
    using assms by auto
  have c: "IA32_CR_PERF_GLOBAL_CTRL \<noteq> IA32_PERF_GLOBAL_OVF_CTRL" "IA32_PEBS_ENABLE_ADDR \<noteq> IA32_PERF_GLOBAL_OVF_CTRL"
    "IA32_CR_FIXED_CTR_CTRL \<noteq> IA32_CR_PERF_GLOBAL_CTRL" "IA32_CR_FIXED_CTR_CTRL \<noteq> IA32_PEBS_ENABLE_ADDR"
    by (simp_all add: msr_addrs)
  show "j < gen_max \<Longrightarrow> rd (cleanupPMU_core wr gen_max pebs m) (evtsel j) = map_option (\<lambda>_. 0) (rd m (evtsel j))"
    using j c unfolding cleanupPMU_core_def Let_def by (simp add: rd_wr rd_clear_fold [OF j(1)])
  show "rd (cleanupPMU_core wr gen_max pebs m) IA32_CR_FIXED_CTR_CTRL = rd m IA32_CR_FIXED_CTR_CTRL"
    using j c unfolding cleanupPMU_core_def Let_def by (simp add: rd_wr rd_clear_fold [OF j(1)])
qed

lemma cleared_not_busy:
  assumes "\<forall>j \<in> set js. rd m (evtsel j) = Some 0 \<or> rd m (evtsel j) = None \<and> noMSR"
  shows "\<not> event_selects_busy rd noMSR w m js v"
  using assms by (induction js arbitrary: v) (auto simp: Let_def read_into_def count_nonzero_def get_field_def)

lemma cleanup_idle:
  assumes "gen_max \<le> 32" and "\<forall>m \<in> set cores. \<not> fixed_ctrl_busy rd noMSR w m"
    and "\<forall>m \<in> set cores. noMSR \<or> (\<forall>j < gen_max. rd m (evtsel j) \<noteq> None)"
  shows "\<not> PMUinUse rd noMSR gen_max w (cleanupPMU wr gen_max pebs cores)"
proof -
  have "\<not> event_selects_busy rd noMSR w (cleanupPMU_core wr gen_max pebs m) [0..<gen_max] v" if "m \<in> set cores" for m v
    using assms(3) that by (intro cleared_not_busy) (auto simp: rd_cleanup [OF assms(1)])
  moreover have "\<not> fixed_ctrl_busy rd noMSR w (cleanupPMU_core wr gen_max pebs m)" if "m \<in> set cores" for m
    using assms(2) that by (simp add: fixed_ctrl_busy_def read_into_def count_nonzero_def rd_cleanup [OF assms(1)])
  ultimately show ?thesis by (simp add: PMUinUse_def cleanupPMU_def list_ex_iff)
qed

lemma reset_idle:
  assumes "gen_max \<le> 32"
    and "\<forall>m \<in> set cores. noMSR \<or> rd m IA32_CR_FIXED_CTR_CTRL \<noteq> None \<and> (\<forall>j < gen_max. rd m (evtsel j) \<noteq> None)"
  shows "\<not> PMUinUse rd noMSR gen_max w (resetPMU rd wr gen_max cores)"
proof -
  have j: "\<forall>i \<in> set [0..<gen_max]. evtsel i \<noteq> IA32_PERF_GLOBAL_OVF_CTRL"
    "IA32_CR_FIXED_CTR_CTRL \<notin> evtsel ` {0..<gen_max}" "i < gen_max \<Longrightarrow> i < 32" for i
    using assms by auto
  have c: "IA32_CR_PERF_GLOBAL_CTRL \<noteq> IA32_PERF_GLOBAL_OVF_CTRL" "IA32_CR_FIXED_CTR_CTRL \<noteq> IA32_PERF_GLOBAL_OVF_CTRL"
    "IA32_CR_FIXED_CTR_CTRL \<noteq> IA32_CR_PERF_GLOBAL_CTRL"
    by (simp_all add: msr_addrs)
  define clr where "clr m = fold (\<lambda>j m. wr m (evtsel j) 0) [0..<gen_max] (wr m IA32_CR_PERF_GLOBAL_CTRL 0)" for m
  have clr: "i < gen_max \<Longrightarrow> rd (clr m) (evtsel i) = map_option (\<lambda>_. 0) (rd m (evtsel i))"
    "rd (clr m) IA32_CR_FIXED_CTR_CTRL = rd m IA32_CR_FIXED_CTR_CTRL" for i m
    using j c unfolding clr_def by (simp_all add: rd_wr rd_clear_fold [OF j(1)])
  have "rd (resetPMU_core rd wr gen_max m) (evtsel i) = map_option (\<lambda>_. 0) (rd m (evtsel i))" if "i < gen_max" for i m
    using that j c clr(1) [OF that] unfolding resetPMU_core_def clr_def [symmetric] Let_def by (simp add: rd_wr)
  then have "\<not> event_selects_busy rd noMSR w (resetPMU_core rd wr gen_max m) [0..<gen_max] v" if "m \<in> set cores" for m v
    using assms(2) that by (intro cleared_not_busy) auto
  moreover have "\<not> fixed_ctrl_busy rd noMSR w (resetPMU_core rd wr gen_max m)" if "m \<in> set cores" for m
    using assms(2) that c clr(2) unfolding resetPMU_core_def clr_def [symmetric] Let_def fixed_ctrl_busy_def count_nonzero_def
    by (auto simp: rd_wr get_field_def read_into_def split: option.splits)
  ultimately show ?thesis by (simp add: PMUinUse_def resetPMU_def list_ex_iff)
qed

end

lemma bit_corrupted_counters:
  "k \<le> 32 \<Longrightarrow>
   bit (fold (\<lambda>ctr msk. case rd m (evtsel ctr) of None \<Rightarrow> msk
       | Some v \<Rightarrow> if v \<noteq> prog ! ctr then msk OR push_bit ctr 1 else msk) [0..<k] (0 :: u32)) i
   \<longleftrightarrow> i < k \<and> (\<exists>v. rd m (evtsel i) = Some v \<and> v \<noteq> prog ! i)"
  by (induction k) (auto simp: bit_simps less_Suc_eq split: option.splits)

lemma bit_global_ctrl_aux:
  "bit (fold (\<lambda>j v. v OR push_bit j 1) [0..<k] (v :: u64)) i \<longleftrightarrow> bit v i \<or> i < k \<and> i < 64"
  by (induction k) (auto simp: bit_simps less_Suc_eq)

section \<open>What programming establishes\<close>

lemma check_zero_iff:
  assumes "length prog \<le> 32"
  shows "corrupted_counters rd prog m = 0 \<longleftrightarrow> (\<forall>j < length prog. rd m (evtsel j) \<in> {None, Some (prog ! j)})"
proof -
  have "corrupted_counters rd prog m = 0 \<longleftrightarrow> (\<forall>i. \<not> bit (corrupted_counters rd prog m) i)"
    by (metis bit_0_eq bit_eqI bot_apply bot_bool_def)
  also have "\<dots> \<longleftrightarrow> (\<forall>i < length prog. \<forall>v. rd m (evtsel i) = Some v \<longrightarrow> v = prog ! i)"
    unfolding corrupted_counters_def bit_corrupted_counters [OF assms] by blast
  also have "\<dots> \<longleftrightarrow> (\<forall>j < length prog. rd m (evtsel j) \<in> {None, Some (prog ! j)})"
  proof -
    have "(\<forall>v. x = Some v \<longrightarrow> v = y) \<longleftrightarrow> x \<in> {None, Some y}" for x and y :: u64
      by (cases x) auto
    then show ?thesis by simp
  qed
  finally show ?thesis .
qed

lemma bit_global_ctrl_value:
  "core_gen_counter_num_used cfg \<le> 64 \<Longrightarrow> j < core_gen_counter_num_used cfg \<Longrightarrow> bit (global_ctrl_value cfg) j"
  "j \<in> {32, 33, 34} \<Longrightarrow> bit (global_ctrl_value cfg) j"
  unfolding global_ctrl_value_def Let_def bit_global_ctrl_aux by (auto simp: bit_simps bit_numeral_rec)

definition two_counters :: pmu_config where
  "two_counters = \<lparr>core_gen_counter_num_used = 2, fixed3_supported = True, hwtma_l1 = False, atom_or_knl = False, is_hybrid = False,
     this_core_type = 0, coreEventDesc = [\<lparr>event_number = 0xD1, umask_value = 0x02\<rparr>, \<lparr>event_number = 0xC0, umask_value = 0x01\<rparr>],
     hybridAtomEventDesc = []\<rparr>"



lemma program_loop_values:
  "s = fold (program_counter rd wr cfg ext_mode pExtDesc) [0..<k] \<lparr>ps_msrs = m, ps_reg = r, ps_result = [], ps_PEBSEnable = e\<rparr> \<Longrightarrow>
   length (ps_result s) = k \<and> (\<forall>j < k. \<exists>m' r'. ps_result s ! j = event_select rd cfg ext_mode pExtDesc m' j r')"
proof (induction k arbitrary: s)
  case 0
  then show ?case by simp
next
  case (Suc k)
  define t where "t = fold (program_counter rd wr cfg ext_mode pExtDesc) [0..<k]
    \<lparr>ps_msrs = m, ps_reg = r, ps_result = [], ps_PEBSEnable = e\<rparr>"
  have s: "s = program_counter rd wr cfg ext_mode pExtDesc k t"
    using Suc.prems by (simp add: t_def)
  have "ps_result s = ps_result t @ [event_select rd cfg ext_mode pExtDesc (ps_msrs t) k (ps_reg t)]"
    unfolding s by (simp add: program_counter_def Let_def)
  with Suc.IH [OF t_def] show ?case
    by (auto simp: less_Suc_eq nth_append)
qed

lemma setEvent_fields:
  "(f, x) \<in> set [(''event_select'', event), (''umask'', um), (''usr'', 1), (''os'', 1), (''edge'', 0), (''pin_control'', 0),
     (''apic_int'', 0), (''any_thread'', 0), (''enable'', 1), (''invert'', 0), (''cmask'', 0), (''in_tx'', 0), (''in_txcp'', 0)] \<Longrightarrow>
   esr_get f (setEvent reg event um) = take_bit (field_width EventSelectRegister f) x"
  unfolding setEvent_def esr.program_def [symmetric]
  by (rule esr.program_distinct) (simp_all add: EventSelectRegister_def)

lemma default_result:
  assumes "programCoreCounters rd wr cfg False pExtDesc m = (m', result, pebs)" and "j < core_gen_counter_num_used cfg"
    and "descs = (if is_hybrid cfg \<and> this_core_type cfg = 0x20 then hybridAtomEventDesc cfg else coreEventDesc cfg)"
    and "\<not> is_hybrid cfg \<or> this_core_type cfg \<in> {0x20, 0x40}"
  obtains v where "result ! j = setEvent v (scast (event_number (descs ! j))) (scast (umask_value (descs ! j)))"
proof -
  define s where "s = fold (program_counter rd wr cfg False pExtDesc) [0..<core_gen_counter_num_used cfg]
    \<lparr>ps_msrs = write_ext_msrs wr False pExtDesc (configure_fixed wr cfg False pExtDesc m), ps_reg = 0, ps_result = [],
     ps_PEBSEnable = 0\<rparr>"
  have "result = ps_result s"
    using assms(1) unfolding programCoreCounters_def Let_def s_def by simp
  then obtain m1 r where "result ! j = event_select rd cfg False pExtDesc m1 j r"
    using program_loop_values [OF s_def] assms(2) by auto
  then have "result ! j = setEvent (read_into rd m1 (evtsel j) r) (scast (event_number (descs ! j))) (scast (umask_value (descs ! j)))"
    using assms(3,4) by (auto simp: event_select_def Let_def)
  then show thesis by (rule that)
qed

text \<open>C30: Outside the extended mode, every counter of a core that is not of an unknown kind is programmed for the event
  configured for that kind of core: event number and unit mask truncated to eight bits, counting in user and kernel mode,
  enabled, and with every other control field cleared.\<close>

theorem default_events_programmed:
  assumes "programCoreCounters rd wr cfg False pExtDesc m = (m', result, pebs)" and "j < core_gen_counter_num_used cfg"
    and "descs = (if is_hybrid cfg \<and> this_core_type cfg = 0x20 then hybridAtomEventDesc cfg else coreEventDesc cfg)"
    and "\<not> is_hybrid cfg \<or> this_core_type cfg \<in> {0x20, 0x40}"
  shows "get_field EventSelectRegister ''event_select'' (result ! j) = take_bit 8 (scast (event_number (descs ! j))) \<and>
    get_field EventSelectRegister ''umask'' (result ! j) = take_bit 8 (scast (umask_value (descs ! j))) \<and>
    (\<forall>f \<in> {''usr'', ''os'', ''enable''}. get_field EventSelectRegister f (result ! j) = 1) \<and>
    (\<forall>f \<in> {''edge'', ''pin_control'', ''apic_int'', ''any_thread'', ''invert'', ''cmask'', ''in_tx'', ''in_txcp''}.
       get_field EventSelectRegister f (result ! j) = 0)"
proof -
  obtain v where res: "result ! j = setEvent v (scast (event_number (descs ! j))) (scast (umask_value (descs ! j)))"
    using default_result [OF assms] .
  show ?thesis
    unfolding res by (simp add: setEvent_fields) (simp add: EventSelectRegister_def)
qed

theorem default_events_programmed_witness:
  "\<exists>m' result pebs. programCoreCounters (\<lambda>s a. s a) msr_device_write two_counters False None (\<lambda>_. Some 7) = (m', result, pebs) \<and>
     get_field EventSelectRegister ''event_select'' (result ! 1) = 0xC0 \<and> get_field EventSelectRegister ''enable'' (result ! 1) = 1"
proof -
  obtain m' result pebs where
    eq: "programCoreCounters (\<lambda>s a. s a) msr_device_write two_counters False None (\<lambda>_. Some 7) = (m', result, pebs)"
    by (cases "programCoreCounters (\<lambda>s a. s a) msr_device_write two_counters False None (\<lambda>_. Some 7)") simp
  have n: "1 < core_gen_counter_num_used two_counters" "\<not> is_hybrid two_counters"
    "take_bit 8 (scast (event_number (coreEventDesc two_counters ! 1)) :: u64) = 0xC0"
    by (simp_all add: two_counters_def)
  show ?thesis
    using default_events_programmed [OF eq n(1) refl] eq n(2,3) by auto
qed

text \<open>C36: The corruption check of a core that was programmed reports counter \<open>i\<close> exactly when its event select register can
  be read and differs from the value last programmed; a core that was not programmed is never reported.\<close>

theorem checkCustomCoreProgramming_exact:
  assumes "\<forall>l \<in> set lastProgrammed. length l \<le> 8"
  shows "bit (checkCustomCoreProgramming rd False lastProgrammed core m) i \<longleftrightarrow>
    core < length lastProgrammed \<and> i < length (lastProgrammed ! core) \<and>
    (\<exists>v. rd m (IA32_PERFEVTSEL0_ADDR + of_nat i) = Some v \<and> v \<noteq> lastProgrammed ! core ! i)"
proof (cases "core < length lastProgrammed")
  case True
  then have "length (lastProgrammed ! core) \<le> 32"
    using assms nth_mem [OF True] by fastforce
  then show ?thesis
    using True bit_corrupted_counters [of "length (lastProgrammed ! core)" "lastProgrammed ! core" rd m i]
    by (simp add: checkCustomCoreProgramming_def corrupted_counters_def)
qed (simp add: checkCustomCoreProgramming_def)

theorem checkCustomCoreProgramming_exact_witness:
  "bit (checkCustomCoreProgramming (\<lambda>s a. s a) False [[5, 6]] 0 ((\<lambda>_. Some 5) :: u64 \<Rightarrow> u64 option)) 1 \<and>
   \<not> bit (checkCustomCoreProgramming (\<lambda>s a. s a) False [[5, 6]] 0 ((\<lambda>_. Some 5) :: u64 \<Rightarrow> u64 option)) 0"
  using checkCustomCoreProgramming_exact [of "[[5, 6]]" "\<lambda>s a. s a" 0 "\<lambda>_. Some 5" 0]
    checkCustomCoreProgramming_exact [of "[[5, 6]]" "\<lambda>s a. s a" 0 "\<lambda>_. Some 5" 1] by simp

section \<open>Counter values\<close>

lemma qos_error_bits: "v AND push_bit 62 3 = 0 \<longleftrightarrow> \<not> bit v 62 \<and> \<not> bit v 63" for v :: u64
proof -
  have p: "bit (push_bit 62 3 :: u64) i \<longleftrightarrow> i = 62 \<or> i = 63" for i
  proof -
    have "bit (push_bit 62 (mask 2) :: u64) i \<longleftrightarrow> i = 62 \<or> i = 63"
      by (auto simp: bit_push_bit_iff bit_mask_iff)
    then show ?thesis by (simp add: mask_eq_exp_minus_1)
  qed
  have "v AND push_bit 62 3 = 0 \<longleftrightarrow> (\<forall>i < 64. \<not> bit (v AND push_bit 62 3) i)"
    by (subst bit_eq_iff) simp
  then have "v AND push_bit 62 3 = 0 \<longleftrightarrow> (\<forall>i < 64. bit v i \<longrightarrow> i \<noteq> 62 \<and> i \<noteq> 63)"
    unfolding bit_and_iff p by blast
  also have "\<dots> \<longleftrightarrow> \<not> bit v 62 \<and> \<not> bit v 63"
  proof
    assume all: "\<forall>i < 64. bit v i \<longrightarrow> i \<noteq> 62 \<and> i \<noteq> 63"
    show "\<not> bit v 62 \<and> \<not> bit v 63"
      using all [rule_format, of 62] all [rule_format, of 63] by auto
  qed auto
  finally show ?thesis .
qed

lemma extractQOSMonitoring_valid:
  "extractQOSMonitoring v = (if bit v 62 \<or> bit v 63 then PCM_INVALID_QOS_MONITORING_DATA else v)"
proof (cases "bit v 62 \<or> bit v 63")
  case False
  have "take_bit 62 v = v"
  proof (rule bit_word_eqI)
    fix i assume "i < LENGTH(64)"
    then have "i < 62 \<or> i = 62 \<or> i = 63" by auto
    with False show "bit (take_bit 62 v) i = bit v i" by (auto simp: bit_simps)
  qed
  then have "extract_bits v 0 61 = v" by (simp add: extract_bits_ordered)
  with False show ?thesis unfolding extractQOSMonitoring_def qos_error_bits by simp
qed (simp only: extractQOSMonitoring_def qos_error_bits de_Morgan_conj not_not if_True)

text \<open>C37: Extracting a counter reading: with a width \<open>w\<close> of 1 to 64 bits the generic, fixed and uncore extractors return the
  reading modulo two to the \<open>w\<close>, so the difference of two readings modulo two to the \<open>w\<close> survives the extraction; a monitoring
  reading is invalid exactly when one of its two top bits is set and is returned unchanged otherwise.\<close>

theorem counter_extraction:
  assumes "0 < unat w" and "unat w \<le> 64"
  shows "unat (extractUncoreGenCounterValue w v) = unat v mod 2 ^ unat w \<and>
    unat (extractUncoreFixedCounterValue w v) = unat v mod 2 ^ unat w \<and>
    (core_gen_counter_width c = w \<longrightarrow> unat (extractCoreGenCounterValue False c v) = unat v mod 2 ^ unat w) \<and>
    (core_fixed_counter_width c = w \<longrightarrow> unat (extractCoreFixedCounterValue False c v) = unat v mod 2 ^ unat w) \<and>
    extractQOSMonitoring v = (if bit v 62 \<or> bit v 63 then PCM_INVALID_QOS_MONITORING_DATA else v)"
proof -
  have "0 < w" using assms(1) by (simp add: word_less_nat_alt)
  then have w: "unat (w - 1) = unat w - 1" "w \<noteq> 0" by (auto simp: unat_minus_one)
  have "unat (extract_width w v) = unat v mod 2 ^ unat w"
    using assms \<open>0 < w\<close> extract_bits_value_aux [of 0 "w - 1" v] w by (simp add: extract_width_def)
  moreover have "extractQOSMonitoring v = (if bit v 62 \<or> bit v 63 then PCM_INVALID_QOS_MONITORING_DATA else v)"
    by (rule extractQOSMonitoring_valid)
  ultimately show ?thesis by (simp add: extractUncoreGenCounterValue_def extractUncoreFixedCounterValue_def
    extractCoreGenCounterValue_def extractCoreFixedCounterValue_def)
qed

theorem counter_extraction_witness:
  "unat (extractUncoreGenCounterValue 48 0x1000000000005) = 5"
  using counter_extraction [of 48 "0x1000000000005"] by simp

section \<open>Acquiring and releasing the unit\<close>

lemma initFixedCtrl_no_pmi:
  "f \<in> {''enable_pmi0'', ''enable_pmi1'', ''enable_pmi2''} \<Longrightarrow> fec_get f (initFixedCtrl False pExtDesc c3) = 0"
proof -
  assume f: "f \<in> {''enable_pmi0'', ''enable_pmi1'', ''enable_pmi2''}"
  let ?ps = "[(''os0'', 1), (''usr0'', 1), (''os1'', 1), (''usr1'', 1), (''os2'', 1), (''usr2'', 1)] @
    (if c3 then [(''os3'', 1), (''usr3'', 1)] else [])"
  have "initFixedCtrl False pExtDesc c3 = fecr.program ?ps 0"
    by (simp add: initFixedCtrl_def fecr.program_def)
  moreover have "fec_get f (fecr.program ?ps 0) = fec_get f 0"
    using f by (intro fecr.program_unassigned) (auto simp: FixedEventControlRegister_def)
  ultimately show ?thesis by (simp add: get_field_def)
qed

lemma event_selects_busyI:
  assumes "j \<in> set js" and "rd m (evtsel j) = Some v" and "esr_get ''event_select'' v \<notin> {0, 0x3C}"
  shows "event_selects_busy rd noMSR w m js reg"
  using assms by (induction js arbitrary: reg) (auto simp: Let_def read_into_def count_nonzero_def)

lemma programmed_busy:
  assumes "msr_file rd wr" and "core_gen_counter_num_used cfg \<le> gen_max" and "gen_max \<le> 8"
    and "m \<in> set cores" and "j < core_gen_counter_num_used cfg" and "rd m (evtsel j) \<noteq> None" and "\<not> is_hybrid cfg"
    and "take_bit 8 (scast (event_number (coreEventDesc cfg ! j)) :: u64) \<notin> {0, 0x3C}"
  shows "PMUinUse rd noMSR gen_max w (map (\<lambda>m. fst (programCoreCounters rd wr cfg False pExtDesc m)) cores)"
proof -
  obtain m' result pebs where eq: "programCoreCounters rd wr cfg False pExtDesc m = (m', result, pebs)"
    by (cases "programCoreCounters rd wr cfg False pExtDesc m") auto
  have n: "core_gen_counter_num_used cfg \<le> 32" "j < gen_max" using assms(2,3,5) by simp_all
  have "rd m' (evtsel j) = Some (result ! j)"
    using msr_file.programCoreCounters_effect(2) [OF assms(1) n(1) eq assms(5)] assms(6) by auto
  moreover obtain v where
    "result ! j = setEvent v (scast (event_number (coreEventDesc cfg ! j))) (scast (umask_value (coreEventDesc cfg ! j)))"
    using default_result [OF eq assms(5) refl] assms(7) by auto
  then have "esr_get ''event_select'' (result ! j) \<notin> {0, 0x3C}"
    using assms(8) by (simp add: setEvent_fields) (simp add: EventSelectRegister_def)
  ultimately have "event_selects_busy rd noMSR w m' [0..<gen_max] v" for v
    using n(2) by (intro event_selects_busyI [of j _ _ _ "result ! j"]) auto
  then show ?thesis
    using assms(4) n(2) eq unfolding PMUinUse_def list_ex_iff by force
qed

text \<open>C18: The life cycle of the unit over all cores, in the no-MSR mode or when its registers can be read: once PCM has
  programmed a real event on one readable counter, another instance that asks finds the unit in use; after cleanup it does
  not; and neither does it after a forced reset, whatever the registers held before.\<close>

theorem pmu_lifecycle:
  assumes "msr_file rd wr" and "core_gen_counter_num_used cfg \<le> gen_max" and "gen_max \<le> 8" and "\<not> is_hybrid cfg"
    and "programmed = map (\<lambda>m. fst (programCoreCounters rd wr cfg False pExtDesc m)) cores"
    and "\<forall>m \<in> set cores. noMSR \<or> rd m IA32_CR_FIXED_CTR_CTRL \<noteq> None \<and>
           (\<forall>j < gen_max. rd m (IA32_PERFEVTSEL0_ADDR + of_nat j) \<noteq> None)"
  shows "((\<exists>m \<in> set cores. \<exists>j < core_gen_counter_num_used cfg. rd m (IA32_PERFEVTSEL0_ADDR + of_nat j) \<noteq> None \<and>
             take_bit 8 (scast (event_number (coreEventDesc cfg ! j)) :: u64) \<notin> {0, 0x3C}) \<longrightarrow>
            PMUinUse rd noMSR gen_max w programmed) \<and>
    \<not> PMUinUse rd noMSR gen_max w (cleanupPMU wr gen_max pebs programmed) \<and>
    \<not> PMUinUse rd noMSR gen_max w (resetPMU rd wr gen_max cores)"
proof -
  have g: "gen_max \<le> 32" using assms(3) by simp
  have busy: "(\<exists>m \<in> set cores. \<exists>j < core_gen_counter_num_used cfg. rd m (evtsel j) \<noteq> None \<and>
      take_bit 8 (scast (event_number (coreEventDesc cfg ! j)) :: u64) \<notin> {0, 0x3C}) \<longrightarrow> PMUinUse rd noMSR gen_max w programmed"
    using programmed_busy [OF assms(1-3)] assms(4) unfolding assms(5) by blast
  have idle: "\<not> fixed_ctrl_busy rd noMSR w m' \<and> (noMSR \<or> (\<forall>j < gen_max. rd m' (evtsel j) \<noteq> None))"
    if mem: "m' \<in> set programmed" for m'
  proof -
    obtain m where m: "m' = fst (programCoreCounters rd wr cfg False pExtDesc m)" "m \<in> set cores"
      using mem unfolding assms(5) set_map by (rule imageE)
    then obtain result e where eq: "programCoreCounters rd wr cfg False pExtDesc m = (m', result, e)"
      by (cases "programCoreCounters rd wr cfg False pExtDesc m") simp
    have n: "core_gen_counter_num_used cfg \<le> 32" using assms(2,3) by simp
    note eff = msr_file.programCoreCounters_effect [OF assms(1) n eq]
    have "\<not> fixed_ctrl_busy rd noMSR w m'"
      using eff(4) bspec [OF assms(6) m(2)] unfolding fixed_ctrl_busy_def count_nonzero_def read_into_def
      by (cases "rd m IA32_CR_FIXED_CTR_CTRL") (auto simp: initFixedCtrl_no_pmi Let_def)
    moreover have "rd m' (evtsel j) \<noteq> None" if "j < gen_max" "\<not> noMSR" for j
      using eff(7) [of j] bspec [OF assms(6) m(2)] that g by simp
    ultimately show ?thesis by blast
  qed
  have "\<not> PMUinUse rd noMSR gen_max w (cleanupPMU wr gen_max pebs programmed)"
    using idle by (intro msr_file.cleanup_idle [OF assms(1) g]) blast+
  with busy msr_file.reset_idle [OF assms(1) g assms(6), of w] show ?thesis by blast
qed

theorem pmu_lifecycle_witness:
  "PMUinUse (\<lambda>s a. s a) False 4 False
     (map (\<lambda>m. fst (programCoreCounters (\<lambda>s a. s a) msr_device_write two_counters False None m)) [\<lambda>_. Some 0]) \<and>
   \<not> PMUinUse (\<lambda>s a. s a) False 4 False (cleanupPMU msr_device_write 4 False
     (map (\<lambda>m. fst (programCoreCounters (\<lambda>s a. s a) msr_device_write two_counters False None m)) [\<lambda>_. Some 0]))"
proof -
  have n: "core_gen_counter_num_used two_counters = 2" "\<not> is_hybrid two_counters"
    "take_bit 8 (scast (event_number (coreEventDesc two_counters ! 0)) :: u64) \<notin> {0, 0x3C}"
    by (simp_all add: two_counters_def)
  have le: "core_gen_counter_num_used two_counters \<le> 4" by (simp add: n)
  have four: "(4 :: nat) \<le> 8" by simp
  have readable: "\<forall>m \<in> set [\<lambda>_. Some 0]. False \<or> m IA32_CR_FIXED_CTR_CTRL \<noteq> None \<and>
      (\<forall>j < 4. m (IA32_PERFEVTSEL0_ADDR + of_nat j) \<noteq> None)"
    by simp
  have ex: "\<exists>m \<in> set [\<lambda>_. Some 0]. \<exists>j < core_gen_counter_num_used two_counters. m (IA32_PERFEVTSEL0_ADDR + of_nat j) \<noteq> None \<and>
      take_bit 8 (scast (event_number (coreEventDesc two_counters ! j)) :: u64) \<notin> {0, 0x3C}"
    using n(1,3) by (intro bexI [of _ "\<lambda>_. Some 0"] exI [of _ 0]) simp_all
  show ?thesis
    using pmu_lifecycle [OF msr_device.msr_file_axioms le four n(2) refl readable, of False None False] ex by blast
qed

end
