(* ===== verification/Pci_Scan.thy ===== *)
theory Pci_Scan
  imports Bits
begin

text \<open>
  Finding devices and reading their memory: \<^verbatim>\<open>forAllDevices\<close>, the \<^verbatim>\<open>VSEC\<close> union and \<^verbatim>\<open>processDVSEC\<close> (pci.h) and
  \<^verbatim>\<open>mmio_memcpy\<close> (mmio.cpp). A \<^verbatim>\<open>PciHandle\<close> is a value of \<open>pci_dev\<close>: what its \<^verbatim>\<open>read32\<close> and \<^verbatim>\<open>read64\<close> return at each
  offset (\<open>None\<close>: fewer bytes than asked for) and its NUMA node; \<open>bus a = None\<close> says that opening address \<open>a\<close> throws.
  Physical memory is \<open>mem\<close>: the 32-bit value at an address, and \<open>map_ok\<close> says which ranges can be mapped. The
  callback of \<^verbatim>\<open>processDVSEC\<close> works on a state of any type and may throw, so the walk threads a state and a result. The
  walk itself is a \<^verbatim>\<open>partial_function\<close>: on a cyclic capability list it does not return.
\<close>

section \<open>Devices\<close>

record mcfg_record =
  PCISegmentGroupNumber :: nat
  startBusNumber :: nat
  endBusNumber :: nat

record pci_addr =
  pa_group :: nat
  pa_bus :: nat
  pa_device :: nat
  pa_function :: nat

record pci_dev =
  pci_read32 :: "u64 \<Rightarrow> u32 option"
  pci_read64 :: "u64 \<Rightarrow> u64 option"
  pci_numa :: int

text \<open>The loops over groups, buses, devices and functions, in their order. A requested device or function replaces
  the loop.\<close>

definition all_addresses :: "mcfg_record list \<Rightarrow> nat option \<Rightarrow> nat option \<Rightarrow> pci_addr list" where
  "all_addresses mcfg requestedDevice requestedFunction =
     concat (map (\<lambda>r. concat (map (\<lambda>bus. concat (map (\<lambda>device. map (\<lambda>function.
       \<lparr>pa_group = PCISegmentGroupNumber r, pa_bus = bus, pa_device = device, pa_function = function\<rparr>)
         (case requestedFunction of None \<Rightarrow> [0..<8] | Some f \<Rightarrow> [f]))
         (case requestedDevice of None \<Rightarrow> [0..<32] | Some d \<Rightarrow> [d])))
         [startBusNumber r..<Suc (endBusNumber r)])) mcfg)"

definition PCM_INTEL_PCI_VENDOR_ID :: u32 where
  "PCM_INTEL_PCI_VENDOR_ID = 0x8086"

text \<open>\<^verbatim>\<open>probe\<close>: a device that cannot be opened is skipped; a failed read leaves \<^verbatim>\<open>value\<close> 0.\<close>

definition probe ::
  "(pci_addr \<Rightarrow> pci_dev option) \<Rightarrow> (pci_addr \<Rightarrow> u32 \<Rightarrow> 's \<Rightarrow> 's result option) \<Rightarrow> u32 option \<Rightarrow> pci_addr \<Rightarrow> 's
     \<Rightarrow> 's result option" where
  "probe bus f requestedVendorID a s =
     (case bus a of
        None \<Rightarrow> Some (Inr s)
      | Some h \<Rightarrow>
          (let v = (case pci_read32 h 0 of Some x \<Rightarrow> x | None \<Rightarrow> 0);
               vendor_id = v AND 0xffff; device_id = drop_bit 16 v AND 0xffff
           in if requestedVendorID \<noteq> None \<and> Some vendor_id \<noteq> requestedVendorID then Some (Inr s)
              else f a device_id s))"

fun forEach :: "('x \<Rightarrow> 's \<Rightarrow> 's result option) \<Rightarrow> 'x list \<Rightarrow> 's \<Rightarrow> 's result option" where
  "forEach f [] s = Some (Inr s)"
| "forEach f (x # xs) s =
     (case f x s of None \<Rightarrow> None | Some (Inl e) \<Rightarrow> Some (Inl e) | Some (Inr s') \<Rightarrow> forEach f xs s')"

definition forAllDevices ::
  "(pci_addr \<Rightarrow> pci_dev option) \<Rightarrow> mcfg_record list \<Rightarrow> (pci_addr \<Rightarrow> u32 \<Rightarrow> 's \<Rightarrow> 's result option) \<Rightarrow> u32 option
     \<Rightarrow> nat option \<Rightarrow> nat option \<Rightarrow> 's \<Rightarrow> 's result option" where
  "forAllDevices bus mcfg f requestedVendorID requestedDevice requestedFunction s =
     forEach (probe bus f requestedVendorID) (all_addresses mcfg requestedDevice requestedFunction) s"

definition forAllIntelDevices ::
  "(pci_addr \<Rightarrow> pci_dev option) \<Rightarrow> mcfg_record list \<Rightarrow> (pci_addr \<Rightarrow> u32 \<Rightarrow> 's \<Rightarrow> 's result option)
     \<Rightarrow> nat option \<Rightarrow> nat option \<Rightarrow> 's \<Rightarrow> 's result option" where
  "forAllIntelDevices bus mcfg f requestedDevice requestedFunction s =
     forAllDevices bus mcfg f (Some PCM_INTEL_PCI_VENDOR_ID) requestedDevice requestedFunction s"

section \<open>Extended capabilities\<close>

record vsec =
  raw_lo :: u64
  raw_hi :: u64

definition VSEC_lo :: layout where
  "VSEC_lo = [(''cap_id'', 16), (''cap_version'', 4), (''cap_next'', 12), (''vsec_id'', 16), (''vsec_version'', 4),
     (''vsec_length'', 12)]"

definition VSEC_hi :: layout where
  "VSEC_hi = [(''entryID'', 16), (''NumEntries'', 8), (''EntrySize'', 8), (''tBIR'', 3), (''Address'', 29)]"

definition vsec_lo :: "string \<Rightarrow> vsec \<Rightarrow> u64" where
  "vsec_lo f h = get_field VSEC_lo f (raw_lo h)"

definition vsec_hi :: "string \<Rightarrow> vsec \<Rightarrow> u64" where
  "vsec_hi f h = get_field VSEC_hi f (raw_hi h)"

type_synonym 's dvsec_process = "u64 \<Rightarrow> vsec \<Rightarrow> int \<Rightarrow> 's \<Rightarrow> 's result"

text \<open>A match: the base address register it names is read and, for memory space, its address is passed on. Type 1 is
  reserved and, like an unreadable register, only reported.\<close>

definition dvsec_match :: "pci_dev \<Rightarrow> 's dvsec_process \<Rightarrow> vsec \<Rightarrow> 's \<Rightarrow> 's result" where
  "dvsec_match h processFunc header s =
     (let barOffset = 0x10 + vsec_hi ''tBIR'' header * 4 in
      case pci_read32 h barOffset of
        None \<Rightarrow> Inr s
      | Some bar \<Rightarrow>
          if bar = 0 then Inr s
          else if extract_bits_32 bar 0 0 = 0 then
            (let t = extract_bits_32 bar 2 1 in
             if t = 0 then processFunc (ucast (bar AND NOT 0xf)) header (pci_numa h) s
             else if t = 2 then
               (case pci_read32 h (barOffset + 4) of
                  None \<Rightarrow> Inr s
                | Some bar_high \<Rightarrow>
                    processFunc ((push_bit 32 (ucast bar_high) OR ucast bar) AND NOT 0xf) header (pci_numa h) s)
             else Inr s)
          else Inr s)"

definition next_offset :: "vsec \<Rightarrow> u64" where
  "next_offset header = vsec_lo ''cap_next'' header AND NOT 3"

definition read_vsec :: "pci_dev \<Rightarrow> u64 \<Rightarrow> vsec option" where
  "read_vsec h offset =
     (if offset = 0 then None
      else case pci_read32 h offset of
             None \<Rightarrow> None
           | Some v \<Rightarrow>
               if v = 0 then None
               else case (pci_read64 h offset, pci_read64 h (offset + 8)) of
                      (Some lo, Some hi) \<Rightarrow> Some \<lparr>raw_lo = lo, raw_hi = hi\<rparr>
                    | _ \<Rightarrow> None)"

partial_function (option) dvsec_loop ::
  "pci_dev \<Rightarrow> (vsec \<Rightarrow> bool) \<Rightarrow> 's dvsec_process \<Rightarrow> u64 \<Rightarrow> 's \<Rightarrow> 's result option" where
  "dvsec_loop h matchFunc processFunc offset s =
     (case read_vsec h offset of
        None \<Rightarrow> Some (Inr s)
      | Some header \<Rightarrow>
          (case (if matchFunc header then dvsec_match h processFunc header s else Inr s) of
             Inl e \<Rightarrow> Some (Inl e)
           | Inr s' \<Rightarrow>
               if next_offset header = offset then Some (Inr s')
               else dvsec_loop h matchFunc processFunc (next_offset header) s'))"

definition dvsec_device ::
  "(pci_addr \<Rightarrow> pci_dev option) \<Rightarrow> (vsec \<Rightarrow> bool) \<Rightarrow> 's dvsec_process \<Rightarrow> pci_addr \<Rightarrow> u32 \<Rightarrow> 's \<Rightarrow> 's result option" where
  "dvsec_device bus matchFunc processFunc a device_id s =
     (case bus a of
        None \<Rightarrow> Some (Inl Std_exception)
      | Some h \<Rightarrow>
          (let status = (case pci_read32 h 4 of Some x \<Rightarrow> x | None \<Rightarrow> 0) in
           if status AND 0x100000 \<noteq> 0 then dvsec_loop h matchFunc processFunc 0x100 s else Some (Inr s)))"

definition processDVSEC ::
  "(pci_addr \<Rightarrow> pci_dev option) \<Rightarrow> mcfg_record list \<Rightarrow> (vsec \<Rightarrow> bool) \<Rightarrow> 's dvsec_process \<Rightarrow> 's \<Rightarrow> 's result option" where
  "processDVSEC bus mcfg matchFunc processFunc s =
     forAllIntelDevices bus mcfg (dvsec_device bus matchFunc processFunc) None None s"

section \<open>Copying device memory\<close>

text \<open>\<^verbatim>\<open>mmio_memcpy\<close> maps the pages around the source and copies 32-bit values; with \<^verbatim>\<open>checkFailures\<close> the value of a
  bad read, all ones, is an error. The sizes are multiples of 4 and the range does not wrap around the address space
  (physical addresses have at most 52 bits).\<close>

fun mmio_copy :: "(u64 \<Rightarrow> u32) \<Rightarrow> bool \<Rightarrow> u64 \<Rightarrow> nat \<Rightarrow> u32 list result" where
  "mmio_copy mem checkFailures i 0 = Inr []"
| "mmio_copy mem checkFailures i (Suc k) =
     (if checkFailures \<and> mem i = NOT 0 then Inl (Runtime_error ''Failed to read memory'')
      else rbind (mmio_copy mem checkFailures (i + 4) k) (\<lambda>vs. Inr (mem i # vs)))"

definition mmio_memcpy ::
  "(u64 \<Rightarrow> u64 \<Rightarrow> bool) \<Rightarrow> (u64 \<Rightarrow> u32) \<Rightarrow> u64 \<Rightarrow> nat \<Rightarrow> bool \<Rightarrow> u32 list result" where
  "mmio_memcpy map_ok mem src n checkFailures =
     (let end0 = src + of_nat n; mapBegin = roundDownTo4K src; mapSize = roundUpTo4K end0 - mapBegin in
      if \<not> map_ok mapBegin mapSize then Inl (Runtime_error ''mmap failed'')
      else mmio_copy (\<lambda>i. mem i) checkFailures src (n div 4))"

text \<open>A table of 64-bit values copied from memory.\<close>

fun join_words :: "u32 list \<Rightarrow> u64 list" where
  "join_words (a # b # vs) = cvt_ds_join a b # join_words vs"
| "join_words _ = []"

interpretation vsec_low: bitfield_layout VSEC_lo
  by unfold_locales (simp_all add: VSEC_lo_def layout_size_def)

interpretation vsec_high: bitfield_layout VSEC_hi
  by unfold_locales (simp_all add: VSEC_hi_def layout_size_def)

section \<open>The walk visits the whole capability list\<close>

inductive vsec_chain :: "pci_dev \<Rightarrow> u64 \<Rightarrow> vsec list \<Rightarrow> bool" for h where
  chain_end: "read_vsec h off = None \<Longrightarrow> vsec_chain h off []"
| chain_self: "read_vsec h off = Some hdr \<Longrightarrow> next_offset hdr = off \<Longrightarrow> vsec_chain h off [hdr]"
| chain_next: "read_vsec h off = Some hdr \<Longrightarrow> next_offset hdr \<noteq> off \<Longrightarrow> vsec_chain h (next_offset hdr) hs \<Longrightarrow>
    vsec_chain h off (hdr # hs)"

definition visit :: "pci_dev \<Rightarrow> (vsec \<Rightarrow> bool) \<Rightarrow> 's dvsec_process \<Rightarrow> vsec \<Rightarrow> 's \<Rightarrow> 's result" where
  "visit h matchFunc processFunc header s = (if matchFunc header then dvsec_match h processFunc header s else Inr s)"

lemma dvsec_loop_chain:
  assumes "vsec_chain h off hs"
  shows "dvsec_loop h m p off s = Some (rfold (visit h m p) hs s)"
  using assms by (induction arbitrary: s)
    (simp_all add: dvsec_loop.simps visit_def rbind_def split: sum.splits)

lemma next_offset_bound: "unat (next_offset hdr) < 4096"
proof -
  have "unat (next_offset hdr) \<le> unat (vsec_lo ''cap_next'' hdr)"
    unfolding next_offset_def by (simp only: word_le_nat_alt [symmetric] word_and_le2)
  also have "\<dots> < 4096"
    by (simp add: vsec_lo_def get_field_def VSEC_lo_def unsigned_take_bit_eq take_bit_eq_mod unat_mod)
  finally show ?thesis .
qed

text \<open>Capability lists whose links go forward, as the PCI Express specification lays them out, have an end.\<close>

definition ascending :: "pci_dev \<Rightarrow> bool" where
  "ascending h \<longleftrightarrow> (\<forall>off hdr. read_vsec h off = Some hdr \<longrightarrow> next_offset hdr = 0 \<or> off \<le> next_offset hdr)"

lemma read_vsec_0 [simp]: "read_vsec h 0 = None"
  by (simp add: read_vsec_def)

lemma ascending_chain:
  assumes "ascending h"
  shows "\<exists>hs. vsec_chain h off hs"
proof (induction "4096 - unat off" arbitrary: off rule: less_induct)
  case less
  show ?case
  proof (cases "read_vsec h off")
    case None
    then show ?thesis by (blast intro: chain_end)
  next
    case (Some hdr)
    consider "next_offset hdr = off" | "next_offset hdr = 0" "off \<noteq> 0" | "off < next_offset hdr"
      using assms Some unfolding ascending_def by fastforce
    then show ?thesis
    proof cases
      case 2
      then show ?thesis using Some by (metis chain_end chain_next read_vsec_0)
    next
      case 3
      then have "4096 - unat (next_offset hdr) < 4096 - unat off"
        using next_offset_bound [of hdr] by (auto simp: word_less_nat_alt)
      then show ?thesis using less Some 3 by (metis chain_next less_irrefl)
    qed (use Some in \<open>blast intro: chain_self\<close>)
  qed
qed

text \<open>C27: the capability walk of \<^verbatim>\<open>processDVSEC\<close> is complete. On a device whose capability links go forward the walk
  returns, and its result is that of visiting, in list order, every capability from the start offset on, with the
  callback applied to exactly the matching ones until one throws.\<close>

theorem dvsec_walk_complete:
  assumes "ascending h"
  shows "\<exists>hs. vsec_chain h off hs \<and> dvsec_loop h matchFunc processFunc off s =
    Some (rfold (\<lambda>header s. if matchFunc header then dvsec_match h processFunc header s else Inr s) hs s)"
  using ascending_chain [OF assms, of off] dvsec_loop_chain [of h off _ matchFunc processFunc s]
  by (auto simp: visit_def [abs_def])

definition demo_pci :: pci_dev where
  "demo_pci = \<lparr>pci_read32 = (\<lambda>off. if off = 0x100 then Some 0x14010023 else if off = 0x140 then Some 0x00010023
        else if off = 0x10 then Some 0xfe000000 else Some 0),
     pci_read64 = (\<lambda>off. if off = 0x100 then Some 0x14010023 else if off = 0x140 then Some 0x00010023
        else if off = 0x148 then Some 1 else Some 0),
     pci_numa = 0\<rparr>"

lemma demo_pci_ascending: "ascending demo_pci"
  by (auto simp: ascending_def read_vsec_def demo_pci_def next_offset_def vsec_lo_def get_field_def VSEC_lo_def
      take_bit_eq_mod drop_bit_eq_div split: if_splits)

theorem dvsec_walk_complete_witness:
  "\<exists>hs. vsec_chain demo_pci 0x100 hs \<and>
     dvsec_loop demo_pci (\<lambda>_. True) (\<lambda>bar header numa s. Inr (s @ [bar])) 0x100 [] =
       Some (rfold (\<lambda>header s. if True then dvsec_match demo_pci (\<lambda>bar header numa s. Inr (s @ [bar])) header s else Inr s) hs [])"
  using dvsec_walk_complete [OF demo_pci_ascending, of "0x100" "\<lambda>_. True" "\<lambda>bar header numa s. Inr (s @ [bar])" "[]"]
  by simp

text \<open>C38: the comparison of consecutive offsets does not protect against longer cycles. If two capabilities point at
  each other and the callback never throws on them, the walk does not return.\<close>

theorem dvsec_cycle_diverges:
  assumes "read_vsec h a = Some ha" and "next_offset ha = b" and "read_vsec h b = Some hb" and "next_offset hb = a"
    and "a \<noteq> b" and "\<And>bar header numa s e. processFunc bar header numa s \<noteq> Inl e"
  shows "dvsec_loop h matchFunc processFunc a s = None"
proof -
  have nothrow: "dvsec_match h processFunc header s \<noteq> Inl e" for header s e
    using assms(6) by (auto simp: dvsec_match_def Let_def split: option.splits if_splits)
  have False if "dvsec_loop h' m p off s = Some r" "h' = h" "p = processFunc" "off = a \<or> off = b" for h' m p off s r
    using that
  proof (induction rule: dvsec_loop.raw_induct [rotated, consumes 1, case_names step])
    case (step loop h' m p off s r)
    then show ?case using assms(1-5) nothrow
      by (auto split: sum.splits if_splits; blast)
  qed
  then show ?thesis by (metis not_None_eq)
qed

definition demo_cycle :: pci_dev where
  "demo_cycle = \<lparr>pci_read32 = (\<lambda>off. Some 1),
     pci_read64 = (\<lambda>off. if off = 0x100 then Some 0x14010023 else Some 0x10010023), pci_numa = 0\<rparr>"

theorem dvsec_cycle_diverges_witness:
  "dvsec_loop demo_cycle (\<lambda>_. False) (\<lambda>bar header numa s. Inr s) 0x100 () = None"
  by (rule dvsec_cycle_diverges [where b = "0x140" and ha = "\<lparr>raw_lo = 0x14010023, raw_hi = 0x10010023\<rparr>"
        and hb = "\<lparr>raw_lo = 0x10010023, raw_hi = 0x10010023\<rparr>"])
    (simp_all add: demo_cycle_def read_vsec_def next_offset_def vsec_lo_def get_field_def VSEC_lo_def
      take_bit_eq_mod drop_bit_eq_div)

lemma forEach_skip: "\<forall>a \<in> set as. bus a = None \<Longrightarrow> forEach (probe bus f v) as s = Some (Inr s)"
  by (induction as) (simp_all add: probe_def)

lemma one_bus_addresses:
  "\<exists>rest. all_addresses [\<lparr>PCISegmentGroupNumber = g, startBusNumber = b, endBusNumber = b\<rparr>] None None =
      \<lparr>pa_group = g, pa_bus = b, pa_device = 0, pa_function = 0\<rparr> # rest \<and>
    (\<forall>a \<in> set rest. pa_device a \<noteq> 0 \<or> pa_function a \<noteq> 0)"
proof -
  have "[0..<8] = 0 # [1..<8]" "[0..<32] = 0 # [1..<32]" by (simp_all add: upt_conv_Cons)
  then show ?thesis by (auto simp: all_addresses_def)
qed

section \<open>What a client of the scan relies on\<close>

text \<open>
  A component that uses \<^verbatim>\<open>processDVSEC\<close> gives a callback; an invariant of its state that the callback keeps holds after
  the whole scan. The second locale is for callbacks that never throw: then the scan does not throw either.
\<close>

locale dvsec_client =
  fixes processFunc :: "'s dvsec_process" and I :: "'s \<Rightarrow> bool"
  assumes keeps: "I s \<Longrightarrow> processFunc bar header numa s = Inr s' \<Longrightarrow> I s'"
begin

lemma match_keeps: "I s \<Longrightarrow> dvsec_match h processFunc header s = Inr s' \<Longrightarrow> I s'"
  by (auto simp: dvsec_match_def Let_def split: option.splits if_splits intro: keeps)

lemma loop_keeps: "dvsec_loop h m processFunc off s = Some r \<Longrightarrow> I s \<Longrightarrow> r = Inr s' \<Longrightarrow> I s'"
proof (induction p \<equiv> processFunc off s r arbitrary: s' rule: dvsec_loop.raw_induct [rotated, consumes 1, case_names step])
  case (step loop h m off s r)
  then show ?case
    by (auto split: option.splits sum.splits if_splits intro: match_keeps dest: match_keeps; blast dest: match_keeps)
qed

lemma device_keeps:
  "dvsec_device bus m processFunc a i s = Some (Inr s') \<Longrightarrow> I s \<Longrightarrow> I s'"
  by (auto simp: dvsec_device_def Let_def split: option.splits if_splits intro: loop_keeps)

lemma forEach_keeps:
  "forEach (probe bus (dvsec_device bus m processFunc) v) as s = Some (Inr s') \<Longrightarrow> I s \<Longrightarrow> I s'"
proof (induction as arbitrary: s)
  case (Cons a as)
  obtain s1 where s1: "probe bus (dvsec_device bus m processFunc) v a s = Some (Inr s1)"
    "forEach (probe bus (dvsec_device bus m processFunc) v) as s1 = Some (Inr s')"
    using Cons.prems(1) by (auto split: option.splits sum.splits)
  have "I s1" using s1(1) Cons.prems(2)
    by (auto simp: probe_def Let_def split: option.splits if_splits intro: device_keeps)
  then show ?case using Cons.IH s1(2) by blast
qed simp

lemma scan_keeps: "processDVSEC bus mcfg m processFunc s = Some (Inr s') \<Longrightarrow> I s \<Longrightarrow> I s'"
  unfolding processDVSEC_def forAllIntelDevices_def forAllDevices_def by (rule forEach_keeps)

end

locale dvsec_nothrow_client = dvsec_client +
  assumes nothrow: "processFunc bar header numa s \<noteq> Inl e"
begin

lemma match_nothrow: "dvsec_match h processFunc header s \<noteq> Inl e"
  using nothrow by (auto simp: dvsec_match_def Let_def split: option.splits if_splits)

lemma loop_nothrow: "dvsec_loop h m processFunc off s = Some r \<Longrightarrow> r \<noteq> Inl e"
proof (induction p \<equiv> processFunc off s r rule: dvsec_loop.raw_induct [rotated, consumes 1, case_names step])
  case (step loop h m off s r)
  then show ?case using match_nothrow
    by (auto split: option.splits sum.splits if_splits)
qed

lemma probe_nothrow: "probe bus (dvsec_device bus m processFunc) v a s \<noteq> Some (Inl e)"
  by (auto simp: probe_def dvsec_device_def Let_def split: option.splits if_splits dest: loop_nothrow)

lemma scan_nothrow: "processDVSEC bus mcfg m processFunc s \<noteq> Some (Inl e)"
proof -
  have "forEach (probe bus (dvsec_device bus m processFunc) v) as s \<noteq> Some (Inl e)" for v as
    by (induction as arbitrary: s) (auto split: option.splits sum.splits simp: probe_nothrow)
  then show ?thesis unfolding processDVSEC_def forAllIntelDevices_def forAllDevices_def .
qed

end

end
