(* ===== verification/Uncore_Discovery.thy ===== *)
theory Uncore_Discovery
  imports Pci_Scan
begin

text \<open>
  The self-describing uncore PMUs: \<^verbatim>\<open>UncorePMUDiscovery\<close> (uncore_pmu_discovery.h, uncore_pmu_discovery.cpp). A
  discovery table starts with a global unit of three 64-bit words and continues with one entry of three words per
  box; \<open>processTables\<close> reads one table and appends it as a new die of its socket. The register addresses of a box
  come from the accessors. \<open>numa_socket\<close> is \<^verbatim>\<open>PCM::mapNUMANodeToSocket\<close>. The map from box types to boxes is a total
  function with default \<open>[]\<close>: \<^verbatim>\<open>operator[]\<close> of the C++ map inserts an empty vector for a missing type, which no
  accessor can tell from a missing one.
\<close>

section \<open>Data\<close>

definition SPR_PCU_BOX_TYPE :: u64 where "SPR_PCU_BOX_TYPE = 4"
definition SPR_IMC_BOX_TYPE :: u64 where "SPR_IMC_BOX_TYPE = 6"
definition SPR_UPILL_BOX_TYPE :: u64 where "SPR_UPILL_BOX_TYPE = 8"
definition SPR_MDF_BOX_TYPE :: u64 where "SPR_MDF_BOX_TYPE = 11"
definition SPR_CXLCM_BOX_TYPE :: u64 where "SPR_CXLCM_BOX_TYPE = 12"
definition SPR_CXLDP_BOX_TYPE :: u64 where "SPR_CXLDP_BOX_TYPE = 13"
definition BHS_MDF_BOX_TYPE :: u64 where "BHS_MDF_BOX_TYPE = 20"
definition BHS_PCIE_GEN5x16_TYPE :: u64 where "BHS_PCIE_GEN5x16_TYPE = 21"
definition BHS_PCIE_GEN5x8_TYPE :: u64 where "BHS_PCIE_GEN5x8_TYPE = 22"

definition MSR_access :: u64 where "MSR_access = 0"
definition MMIO_access :: u64 where "MMIO_access = 1"
definition PCICFG_access :: u64 where "PCICFG_access = 2"
definition unknownAccessType :: u64 where "unknownAccessType = 255"

definition accessTypeStr :: "u64 \<Rightarrow> string" where
  "accessTypeStr t =
     (if t = MSR_access then ''MSR'' else if t = MMIO_access then ''MMIO''
      else if t = PCICFG_access then ''PCICFG'' else ''unknown'')"

definition PCICFGAddress :: layout where
  "PCICFGAddress = [(''offset'', 12), (''function'', 3), (''device'', 5), (''bus'', 8)]"

record table3 =
  table_0 :: u64
  table_1 :: u64
  table_2 :: u64

definition GlobalPMU_0 :: layout where
  "GlobalPMU_0 = [(''type'', 8), (''stride'', 8), (''maxUnits'', 10), (''__reserved1'', 36), (''accessType'', 2)]"

definition GlobalPMU_2 :: layout where
  "GlobalPMU_2 = [(''statusOffset'', 8), (''numStatus'', 16), (''__reserved2'', 40)]"

definition BoxPMU_0 :: layout where
  "BoxPMU_0 = [(''numRegs'', 8), (''ctrlOffset'', 8), (''bitWidth'', 8), (''ctrOffset'', 8), (''statusOffset'', 8),
     (''__reserved1'', 22), (''accessType'', 2)]"

definition BoxPMU_2 :: layout where
  "BoxPMU_2 = [(''boxType'', 16), (''boxID'', 16), (''__reserved2'', 32)]"

definition stride :: "table3 \<Rightarrow> u64" where "stride g = get_field GlobalPMU_0 ''stride'' (table_0 g)"
definition maxUnits :: "table3 \<Rightarrow> u64" where "maxUnits g = get_field GlobalPMU_0 ''maxUnits'' (table_0 g)"
definition numRegs :: "table3 \<Rightarrow> u64" where "numRegs b = get_field BoxPMU_0 ''numRegs'' (table_0 b)"
definition ctrlOffset :: "table3 \<Rightarrow> u64" where "ctrlOffset b = get_field BoxPMU_0 ''ctrlOffset'' (table_0 b)"
definition bitWidth :: "table3 \<Rightarrow> u64" where "bitWidth b = get_field BoxPMU_0 ''bitWidth'' (table_0 b)"
definition ctrOffset :: "table3 \<Rightarrow> u64" where "ctrOffset b = get_field BoxPMU_0 ''ctrOffset'' (table_0 b)"
definition accessType :: "table3 \<Rightarrow> u64" where "accessType b = get_field BoxPMU_0 ''accessType'' (table_0 b)"
definition boxCtrlAddr :: "table3 \<Rightarrow> u64" where "boxCtrlAddr b = table_1 b"
definition boxType :: "table3 \<Rightarrow> u64" where "boxType b = get_field BoxPMU_2 ''boxType'' (table_2 b)"

interpretation global_0: bitfield_layout GlobalPMU_0
  by unfold_locales (simp_all add: GlobalPMU_0_def layout_size_def)

interpretation global_2: bitfield_layout GlobalPMU_2
  by unfold_locales (simp_all add: GlobalPMU_2_def layout_size_def)

interpretation box_0: bitfield_layout BoxPMU_0
  by unfold_locales (simp_all add: BoxPMU_0_def layout_size_def)

interpretation box_2: bitfield_layout BoxPMU_2
  by unfold_locales (simp_all add: BoxPMU_2_def layout_size_def)

interpretation pcicfg_addr: bitfield_layout PCICFGAddress
  by unfold_locales (simp_all add: PCICFGAddress_def layout_size_def)

type_synonym box_map = "u64 \<Rightarrow> table3 list"

record pmu_discovery =
  boxPMUs :: "box_map list list"
  globalPMUs :: "table3 list list"

section \<open>Reading the tables\<close>

definition read_table :: "(u64 \<Rightarrow> u64 \<Rightarrow> bool) \<Rightarrow> (u64 \<Rightarrow> u32) \<Rightarrow> u64 \<Rightarrow> table3 result" where
  "read_table map_ok mem addr =
     rbind (mmio_memcpy map_ok mem addr 24 True) (\<lambda>vs.
       case join_words vs of
         [a, b, c] \<Rightarrow> Inr \<lparr>table_0 = a, table_1 = b, table_2 = c\<rparr>
       | _ \<Rightarrow> Inl Assert_failed)"

definition resize_to :: "nat \<Rightarrow> 'a \<Rightarrow> 'a list \<Rightarrow> 'a list" where
  "resize_to n d xs = xs @ replicate (max n (length xs) - length xs) d"

definition unit_address :: "u64 \<Rightarrow> table3 \<Rightarrow> nat \<Rightarrow> u64" where
  "unit_address bar g u = bar + (of_nat u + 1) * (stride g * 8)"

definition add_unit :: "table3 \<Rightarrow> box_map \<Rightarrow> box_map" where
  "add_unit unit m =
     (if table_0 unit = 0 \<and> table_1 unit = 0 then m
      else m(boxType unit := m (boxType unit) @ [unit]))"

definition read_units :: "(u64 \<Rightarrow> u64 \<Rightarrow> bool) \<Rightarrow> (u64 \<Rightarrow> u32) \<Rightarrow> u64 \<Rightarrow> table3 \<Rightarrow> box_map result" where
  "read_units map_ok mem bar g =
     rfold (\<lambda>u m. rbind (read_table map_ok mem (unit_address bar g u)) (\<lambda>unit. Inr (add_unit unit m)))
       [0..<unat (maxUnits g)] (\<lambda>_. [])"

definition table_socket :: "(int \<Rightarrow> int) \<Rightarrow> int \<Rightarrow> nat" where
  "table_socket numa_socket NUMANode =
     (if NUMANode \<ge> 0 \<and> numa_socket NUMANode \<ge> 0 then nat (numa_socket NUMANode) else 0)"

text \<open>\<^verbatim>\<open>processTables\<close> catches every exception: a table whose units cannot be read has already appended its global unit.\<close>

definition processTables ::
  "(u64 \<Rightarrow> u64 \<Rightarrow> bool) \<Rightarrow> (u64 \<Rightarrow> u32) \<Rightarrow> (int \<Rightarrow> int) \<Rightarrow> pmu_discovery dvsec_process" where
  "processTables map_ok mem numa_socket bar vsec NUMANode d =
     (case read_table map_ok mem bar of
        Inl _ \<Rightarrow> Inr d
      | Inr g \<Rightarrow>
          (let socket = table_socket numa_socket NUMANode;
               gs = resize_to (socket + 1) [] (globalPMUs d);
               d1 = d\<lparr>globalPMUs := gs[socket := gs ! socket @ [g]]\<rparr>
           in case read_units map_ok mem bar g of
                Inl _ \<Rightarrow> Inr d1
              | Inr m \<Rightarrow>
                  (let bs = resize_to (socket + 1) [] (boxPMUs d1)
                   in Inr (d1\<lparr>boxPMUs := bs[socket := bs ! socket @ [m]]\<rparr>))))"

definition discovery_match :: "vsec \<Rightarrow> bool" where
  "discovery_match v = (vsec_lo ''cap_id'' v = 0x23 \<and> vsec_hi ''entryID'' v = 1)"

text \<open>The constructor: \<open>disabled\<close> is \<^verbatim>\<open>PCM_NO_UNCORE_PMU_DISCOVERY\<close>; an exception of the scan is caught, keeping nothing
  of it here because \<open>processTables\<close> never throws.\<close>

definition UncorePMUDiscovery ::
  "bool \<Rightarrow> (pci_addr \<Rightarrow> pci_dev option) \<Rightarrow> mcfg_record list \<Rightarrow> (u64 \<Rightarrow> u64 \<Rightarrow> bool) \<Rightarrow> (u64 \<Rightarrow> u32) \<Rightarrow> (int \<Rightarrow> int)
     \<Rightarrow> pmu_discovery option" where
  "UncorePMUDiscovery disabled bus mcfg map_ok mem numa_socket =
     (let d0 = \<lparr>boxPMUs = [], globalPMUs = []\<rparr> in
      if disabled then Some d0
      else case processDVSEC bus mcfg discovery_match (processTables map_ok mem numa_socket) d0 of
             None \<Rightarrow> None
           | Some (Inl _) \<Rightarrow> Some d0
           | Some (Inr d) \<Rightarrow> Some d)"

section \<open>Accessors\<close>

definition validBox :: "pmu_discovery \<Rightarrow> u64 \<Rightarrow> nat \<Rightarrow> nat \<Rightarrow> nat \<Rightarrow> bool" where
  "validBox d t socket die pos =
     (socket < length (boxPMUs d) \<and> die < length (boxPMUs d ! socket) \<and> pos < length ((boxPMUs d ! socket ! die) t))"

abbreviation the_box :: "pmu_discovery \<Rightarrow> u64 \<Rightarrow> nat \<Rightarrow> nat \<Rightarrow> nat \<Rightarrow> table3" where
  "the_box d t socket die pos \<equiv> (boxPMUs d ! socket ! die) t ! pos"

definition box_step :: "table3 \<Rightarrow> u64" where
  "box_step b =
     (let width = bitWidth b in
      if accessType b = MSR_access then (if width \<le> 64 then 1 else 0)
      else if accessType b = PCICFG_access \<or> accessType b = MMIO_access then
        (if width \<le> 8 then 1 else if width \<le> 16 then 2 else if width \<le> 32 then 4 else if width \<le> 64 then 8 else 0)
      else 0)"

definition registerStep :: "pmu_discovery \<Rightarrow> u64 \<Rightarrow> nat \<Rightarrow> nat \<Rightarrow> nat \<Rightarrow> u64" where
  "registerStep d t socket die pos = box_step (the_box d t socket die pos)"

definition getNumDies :: "pmu_discovery \<Rightarrow> nat \<Rightarrow> nat" where
  "getNumDies d socket = (if socket < length (boxPMUs d) then length (boxPMUs d ! socket) else 0)"

definition getNumBoxes :: "pmu_discovery \<Rightarrow> u64 \<Rightarrow> nat \<Rightarrow> nat \<Rightarrow> nat" where
  "getNumBoxes d t socket die =
     (if socket < length (boxPMUs d) \<and> die < length (boxPMUs d ! socket) then length ((boxPMUs d ! socket ! die) t) else 0)"

definition getBoxCtlAddr :: "pmu_discovery \<Rightarrow> u64 \<Rightarrow> nat \<Rightarrow> nat \<Rightarrow> nat \<Rightarrow> u64" where
  "getBoxCtlAddr d t socket die pos =
     (if validBox d t socket die pos then boxCtrlAddr (the_box d t socket die pos) else 0)"

definition getBoxCtlAddr_reg :: "pmu_discovery \<Rightarrow> u64 \<Rightarrow> nat \<Rightarrow> nat \<Rightarrow> nat \<Rightarrow> u64 \<Rightarrow> u64" where
  "getBoxCtlAddr_reg d t socket die pos c =
     (if validBox d t socket die pos \<and> c < numRegs (the_box d t socket die pos)
      then let step = (if t = SPR_IMC_BOX_TYPE then 4 else registerStep d t socket die pos)
           in boxCtrlAddr (the_box d t socket die pos) + ctrlOffset (the_box d t socket die pos) + c * step
      else 0)"

definition getBoxCtrAddr :: "pmu_discovery \<Rightarrow> u64 \<Rightarrow> nat \<Rightarrow> nat \<Rightarrow> nat \<Rightarrow> u64 \<Rightarrow> u64" where
  "getBoxCtrAddr d t socket die pos c =
     (if validBox d t socket die pos \<and> c < numRegs (the_box d t socket die pos)
      then boxCtrlAddr (the_box d t socket die pos) + ctrOffset (the_box d t socket die pos) + c * registerStep d t socket die pos
      else 0)"

definition getBoxAccessType :: "pmu_discovery \<Rightarrow> u64 \<Rightarrow> nat \<Rightarrow> nat \<Rightarrow> nat \<Rightarrow> u64" where
  "getBoxAccessType d t socket die pos =
     (if validBox d t socket die pos then accessType (the_box d t socket die pos) else unknownAccessType)"

definition getBoxNumRegs :: "pmu_discovery \<Rightarrow> u64 \<Rightarrow> nat \<Rightarrow> nat \<Rightarrow> nat \<Rightarrow> u64" where
  "getBoxNumRegs d t socket die pos = (if validBox d t socket die pos then numRegs (the_box d t socket die pos) else 0)"

section \<open>What a table contains\<close>

definition valid_unit :: "table3 \<Rightarrow> bool" where
  "valid_unit b \<longleftrightarrow> \<not> (table_0 b = 0 \<and> table_1 b = 0)"

lemma add_units_filter:
  "fold add_unit ts m t = m t @ filter (\<lambda>b. valid_unit b \<and> boxType b = t) ts"
  by (induction ts arbitrary: m) (auto simp: add_unit_def valid_unit_def)

lemma rfold_read_fold:
  assumes "rfold (\<lambda>u m. rbind (rd u) (\<lambda>x. Inr (f x m))) us m = Inr m'"
  shows "\<exists>xs. map rd us = map Inr xs \<and> m' = fold f xs m"
  using assms
proof (induction us arbitrary: m)
  case (Cons u us)
  then obtain x where x: "rd u = Inr x" "rfold (\<lambda>u m. rbind (rd u) (\<lambda>x. Inr (f x m))) us (f x m) = Inr m'"
    by auto
  from Cons.IH [OF x(2)] obtain xs where "map rd us = map Inr xs" "m' = fold f xs (f x m)" by blast
  then show ?case using x(1) by (intro exI [of _ "x # xs"]) simp
qed simp

text \<open>C15: a discovery table is listed completely and in order. When the units of a table can be read, the boxes of
  every type are exactly the entries of that type, in table order, without the all-zero entries; the entries are the
  ones read at the addresses \<open>bar + (u + 1) * stride * 8\<close> for every unit number below \<^verbatim>\<open>maxUnits\<close>.\<close>

theorem read_units_complete:
  assumes "read_units map_ok mem bar g = Inr m"
  shows "\<exists>ts. length ts = unat (maxUnits g) \<and>
    (\<forall>u < length ts. read_table map_ok mem (bar + (of_nat u + 1) * (stride g * 8)) = Inr (ts ! u)) \<and>
    (\<forall>t. m t = filter (\<lambda>b. \<not> (table_0 b = 0 \<and> table_1 b = 0) \<and> boxType b = t) ts)"
proof -
  obtain ts where ts: "map (\<lambda>u. read_table map_ok mem (unit_address bar g u)) [0..<unat (maxUnits g)] = map Inr ts"
    "m = fold add_unit ts (\<lambda>_. [])"
    using rfold_read_fold [OF assms [unfolded read_units_def]] by blast
  have len: "length ts = unat (maxUnits g)" using arg_cong [OF ts(1), of length] by simp
  moreover have "read_table map_ok mem (unit_address bar g u) = Inr (ts ! u)" if "u < length ts" for u
    using arg_cong [OF ts(1), of "\<lambda>l. l ! u"] that len by simp
  ultimately show ?thesis using ts(2) by (auto simp: unit_address_def add_units_filter valid_unit_def)
qed

definition demo_mem :: "u64 \<Rightarrow> u32" where
  "demo_mem a = (if a = 0x1000 then 0x00010304 else if a = 0x1018 then 4 else if a = 0x1020 then 0x2000
     else if a = 0x1028 then 6 else 0)"

lemma read_table_eval:
  assumes "map_ok (roundDownTo4K a) (roundUpTo4K (a + 24) - roundDownTo4K a)"
    and "\<forall>o' \<in> {0, 4, 8, 12, 16, 20}. mem (a + o') \<noteq> NOT 0"
  shows "read_table map_ok mem a =
    Inr \<lparr>table_0 = cvt_ds_join (mem a) (mem (a + 4)), table_1 = cvt_ds_join (mem (a + 8)) (mem (a + 12)),
         table_2 = cvt_ds_join (mem (a + 16)) (mem (a + 20))\<rparr>"
proof -
  have six: "(6 :: nat) = Suc (Suc (Suc (Suc (Suc (Suc 0)))))" by simp
  show ?thesis using assms by (simp add: read_table_def mmio_memcpy_def six add.assoc)
qed

lemma demo_read_units:
  "read_units (\<lambda>_ _. True) demo_mem 0x1000 \<lparr>table_0 = 0x00010304, table_1 = 0, table_2 = 0\<rparr> =
   Inr ((\<lambda>_. [])(6 := [\<lparr>table_0 = 4, table_1 = 0x2000, table_2 = 6\<rparr>]))"
proof -
  let ?g = "\<lparr>table_0 = 0x00010304, table_1 = 0, table_2 = 0\<rparr>"
  have g: "maxUnits ?g = 1" "stride ?g = 3"
    by (simp_all add: maxUnits_def stride_def get_field_def GlobalPMU_0_def take_bit_eq_mod drop_bit_eq_div)
  have t: "read_table (\<lambda>_ _. True) demo_mem 0x1018 = Inr \<lparr>table_0 = 4, table_1 = 0x2000, table_2 = 6\<rparr>"
    by (subst read_table_eval) (simp_all add: demo_mem_def cvt_ds_join_def)
  have u: "unit_address 0x1000 ?g 0 = 0x1018" "[0..<unat (maxUnits ?g)] = [0]"
    by (simp_all add: unit_address_def g)
  have b: "add_unit \<lparr>table_0 = 4, table_1 = 0x2000, table_2 = 6\<rparr> (\<lambda>_. []) =
      (\<lambda>_. [])(6 := [\<lparr>table_0 = 4, table_1 = 0x2000, table_2 = 6\<rparr>])"
    by (simp add: add_unit_def boxType_def get_field_def BoxPMU_2_def take_bit_eq_mod)
  show ?thesis by (simp only: read_units_def u t b rfold.simps rbind_simps)
qed

theorem read_units_complete_witness:
  "\<exists>ts. length ts = unat (maxUnits \<lparr>table_0 = 0x00010304, table_1 = 0, table_2 = 0\<rparr>) \<and>
     filter (\<lambda>b. \<not> (table_0 b = 0 \<and> table_1 b = 0) \<and> boxType b = 6) ts = [\<lparr>table_0 = 4, table_1 = 0x2000, table_2 = 6\<rparr>]"
proof -
  obtain ts where ts: "length ts = unat (maxUnits \<lparr>table_0 = 0x00010304, table_1 = 0, table_2 = 0\<rparr>)"
    and all: "\<forall>t. ((\<lambda>_. [])(6 := [\<lparr>table_0 = 4, table_1 = 0x2000, table_2 = 6\<rparr>])) t =
      filter (\<lambda>b. \<not> (table_0 b = 0 \<and> table_1 b = 0) \<and> boxType b = t) ts"
    using read_units_complete [OF demo_read_units] by blast
  show ?thesis using ts spec [OF all, of 6] by (intro exI [of _ ts]) (simp only: fun_upd_same simp_thms)
qed

section \<open>The two vectors of the discovery\<close>

definition discovery_ok :: "pmu_discovery \<Rightarrow> bool" where
  "discovery_ok d \<longleftrightarrow> length (boxPMUs d) \<le> length (globalPMUs d) \<and>
     (\<forall>s < length (boxPMUs d). length (boxPMUs d ! s) \<le> length (globalPMUs d ! s))"

lemma resize_to_length [simp]: "length (resize_to n x xs) = max n (length xs)"
  by (simp add: resize_to_def)

lemma resize_to_nth: "i < max n (length xs) \<Longrightarrow> resize_to n x xs ! i = (if i < length xs then xs ! i else x)"
  by (simp add: resize_to_def nth_append)

lemma processTables_ok:
  assumes "discovery_ok d" "processTables map_ok mem numa_socket bar v n d = Inr d'"
  shows "discovery_ok d'"
proof (cases "read_table map_ok mem bar")
  case (Inr g)
  define k where "k = table_socket numa_socket n"
  define gs where "gs = resize_to (k + 1) [] (globalPMUs d)"
  define gs' where "gs' = gs[k := gs ! k @ [g]]"
  have ok: "length (boxPMUs d) \<le> length gs' \<and> (\<forall>s < length (boxPMUs d). length (boxPMUs d ! s) \<le> length (gs' ! s))"
    using assms(1) by (auto simp: discovery_ok_def gs'_def gs_def resize_to_nth nth_list_update intro: le_SucI)
  show ?thesis
  proof (cases "read_units map_ok mem bar g")
    case (Inl e)
    then have "d' = d\<lparr>globalPMUs := gs'\<rparr>"
      using assms(2) Inr by (simp add: processTables_def Let_def k_def gs_def gs'_def)
    then show ?thesis using ok by (simp add: discovery_ok_def)
  next
    case u: (Inr m)
    define bs where "bs = resize_to (k + 1) [] (boxPMUs d)"
    have d': "d' = d\<lparr>globalPMUs := gs', boxPMUs := bs[k := bs ! k @ [m]]\<rparr>"
      using assms(2) Inr u by (simp add: processTables_def Let_def k_def gs_def gs'_def bs_def)
    have "length (gs' ! s) = length (gs ! s) + (if s = k then 1 else 0)" if "s < length gs" for s
      using that by (simp add: gs'_def nth_list_update)
    moreover have "length (bs ! s) \<le> length (gs ! s)" if "s < length bs" for s
      using that assms(1) by (auto simp: bs_def gs_def resize_to_nth discovery_ok_def)
    moreover have "length bs \<le> length gs" using assms(1) by (auto simp: bs_def gs_def discovery_ok_def)
    ultimately show ?thesis by (auto simp: discovery_ok_def d' nth_list_update gs'_def)
  qed
qed (use assms in \<open>simp add: processTables_def\<close>)

interpretation discovery_scan: dvsec_nothrow_client "processTables map_ok mem numa_socket" discovery_ok
  by unfold_locales (auto simp: processTables_ok, auto simp: processTables_def Let_def split: sum.splits)

text \<open>The consistency check of the printed tables never fails. For every device tree and memory contents, when the
  discovery ends there is a global unit for every die that has boxes: \<^verbatim>\<open>s < globalPMUs.size()\<close> and
  \<^verbatim>\<open>die < globalPMUs[s].size()\<close>.\<close>

lemma discovery_has_global_units:
  assumes "UncorePMUDiscovery disabled bus mcfg map_ok mem numa_socket = Some d"
    and "s < length (boxPMUs d)" and "die < getNumDies d s"
  shows "s < length (globalPMUs d) \<and> die < length (globalPMUs d ! s)"
proof -
  have z: "discovery_ok \<lparr>boxPMUs = [], globalPMUs = []\<rparr>" by (simp add: discovery_ok_def)
  then have "discovery_ok d"
    using assms(1) discovery_scan.scan_keeps [OF _ z]
    by (auto simp: UncorePMUDiscovery_def Let_def split: if_splits option.splits sum.splits)
  then show ?thesis using assms(2,3) by (auto simp: discovery_ok_def getNumDies_def intro: less_le_trans)
qed

definition demo_device :: pci_dev where
  "demo_device = \<lparr>pci_read32 = (\<lambda>off. if off = 0 then Some 0x32498086 else if off = 4 then Some 0x100000
        else if off = 0x10 then Some 0x1000 else if off = 0x100 then Some 0x00010023 else Some 0),
     pci_read64 = (\<lambda>off. if off = 0x100 then Some 0x00010023 else if off = 0x108 then Some 1 else Some 0),
     pci_numa = -1\<rparr>"

definition demo_bus :: "pci_addr \<Rightarrow> pci_dev option" where
  "demo_bus a = (if pa_device a = 0 \<and> pa_function a = 0 then Some demo_device else None)"

definition demo_discovery :: pmu_discovery where
  "demo_discovery = \<lparr>boxPMUs = [[(\<lambda>_. [])(6 := [\<lparr>table_0 = 4, table_1 = 0x2000, table_2 = 6\<rparr>])]],
     globalPMUs = [[\<lparr>table_0 = 0x00010304, table_1 = 0, table_2 = 0\<rparr>]]\<rparr>"

lemma demo_process:
  "processTables (\<lambda>_ _. True) demo_mem numa_socket 0x1000 v (- 1) \<lparr>boxPMUs = [], globalPMUs = []\<rparr> = Inr demo_discovery"
proof -
  have "read_table (\<lambda>_ _. True) demo_mem 0x1000 = Inr \<lparr>table_0 = 0x00010304, table_1 = 0, table_2 = 0\<rparr>"
    by (subst read_table_eval) (simp_all add: demo_mem_def cvt_ds_join_def)
  then show ?thesis
    by (simp add: processTables_def demo_read_units table_socket_def resize_to_def demo_discovery_def del: fun_upd_apply)
qed

lemma demo_scan:
  "dvsec_loop demo_device discovery_match (processTables (\<lambda>_ _. True) demo_mem numa_socket) 0x100
     \<lparr>boxPMUs = [], globalPMUs = []\<rparr> = Some (Inr demo_discovery)"
proof -
  let ?v = "\<lparr>raw_lo = 0x00010023, raw_hi = 1\<rparr>"
  have v: "read_vsec demo_device 0x100 = Some ?v" by (simp add: read_vsec_def demo_device_def)
  have m: "discovery_match ?v" "next_offset ?v = 0" "vsec_hi ''tBIR'' ?v = 0"
    by (simp_all add: discovery_match_def next_offset_def vsec_lo_def vsec_hi_def get_field_def VSEC_lo_def VSEC_hi_def
        take_bit_eq_mod drop_bit_eq_div)
  have r: "pci_read32 demo_device 0x10 = Some 0x1000" "pci_numa demo_device = - 1" by (simp_all add: demo_device_def)
  have "dvsec_match demo_device (processTables (\<lambda>_ _. True) demo_mem numa_socket) ?v \<lparr>boxPMUs = [], globalPMUs = []\<rparr> =
      Inr demo_discovery"
    by (simp add: dvsec_match_def m r demo_process extract_bits_32_swap [of _ 2] bits_simps take_bit_eq_mod drop_bit_eq_div)
  then show ?thesis by (simp add: dvsec_loop.simps [of _ _ _ "0x100"] dvsec_loop.simps [of _ _ _ 0] v m)
qed

lemma demo_discover:
  "UncorePMUDiscovery False demo_bus [\<lparr>PCISegmentGroupNumber = 0, startBusNumber = 0, endBusNumber = 0\<rparr>]
     (\<lambda>_ _. True) demo_mem id = Some demo_discovery"
proof -
  let ?a = "\<lparr>pa_group = 0, pa_bus = 0, pa_device = 0, pa_function = 0\<rparr>"
  obtain rest where rest: "all_addresses [\<lparr>PCISegmentGroupNumber = 0, startBusNumber = 0, endBusNumber = 0\<rparr>] None None = ?a # rest"
    "\<forall>a \<in> set rest. demo_bus a = None"
    using one_bus_addresses [of 0 0] by (auto simp: demo_bus_def)
  have "probe demo_bus (dvsec_device demo_bus discovery_match (processTables (\<lambda>_ _. True) demo_mem id))
      (Some PCM_INTEL_PCI_VENDOR_ID) ?a \<lparr>boxPMUs = [], globalPMUs = []\<rparr> = Some (Inr demo_discovery)"
    using demo_scan by (simp add: probe_def demo_bus_def dvsec_device_def demo_device_def PCM_INTEL_PCI_VENDOR_ID_def)
  then show ?thesis
    by (simp add: UncorePMUDiscovery_def processDVSEC_def forAllIntelDevices_def forAllDevices_def rest forEach_skip)
qed

section \<open>Register addresses\<close>

lemma get_field_less: "unat (get_field l f v) < 2 ^ field_width l f"
  by (simp add: get_field_def unsigned_take_bit_eq)

lemma numRegs_less: "unat (numRegs b) < 256"
  using get_field_less [of BoxPMU_0 "''numRegs''" "table_0 b"] by (simp add: numRegs_def BoxPMU_0_def)

lemma box_step_cases:
  assumes "unat (bitWidth b) \<le> 64" "accessType b \<in> {MSR_access, MMIO_access, PCICFG_access}"
  shows "box_step b \<in> {1, 2, 4, 8} \<and> (accessType b \<noteq> MSR_access \<longrightarrow> unat (bitWidth b) \<le> 8 * unat (box_step b))"
  using assms by (auto simp: box_step_def Let_def MSR_access_def MMIO_access_def PCICFG_access_def word_le_nat_alt)

lemma step_product:
  assumes "unat c < 256" "k \<in> {1, 2, 4, 8}"
  shows "unat (c * k :: u64) = unat c * unat k"
  using assms by (auto simp: unat_word_ariths)

text \<open>C31: the counter registers of a discovered box do not overlap. For a box of at most 64 bits behind one of the
  three access types, register \<open>c'\<close> lies exactly \<open>(c' - c)\<close> steps above register \<open>c\<close>, so distinct registers have
  distinct addresses; and in the byte-addressed access types a step has room for the width of the register.\<close>

theorem counter_registers_disjoint:
  assumes "validBox d t socket die pos" and "unat (bitWidth (the_box d t socket die pos)) \<le> 64"
    and "accessType (the_box d t socket die pos) \<in> {MSR_access, MMIO_access, PCICFG_access}"
    and "c < c'" and "c' < numRegs (the_box d t socket die pos)"
  shows "unat (getBoxCtrAddr d t socket die pos c' - getBoxCtrAddr d t socket die pos c) =
      (unat c' - unat c) * unat (registerStep d t socket die pos) \<and>
    getBoxCtrAddr d t socket die pos c' \<noteq> getBoxCtrAddr d t socket die pos c \<and>
    (getBoxAccessType d t socket die pos \<noteq> MSR_access \<longrightarrow>
      unat (bitWidth (the_box d t socket die pos)) \<le> 8 * unat (registerStep d t socket die pos))"
proof -
  let ?b = "the_box d t socket die pos"
  note st = box_step_cases [OF assms(2,3)]
  have c: "c < numRegs ?b" "unat c' < 256" using assms(4,5) numRegs_less [of ?b] by (auto simp: word_less_nat_alt)
  have "getBoxCtrAddr d t socket die pos c' - getBoxCtrAddr d t socket die pos c = (c' - c) * box_step ?b"
    using assms(1,5) c(1) by (simp add: getBoxCtrAddr_def registerStep_def algebra_simps)
  moreover have s: "unat (c' - c) = unat c' - unat c" using assms(4) by (simp add: unat_minus_ge)
  moreover have "unat ((c' - c) * box_step ?b) = unat (c' - c) * unat (box_step ?b)"
    using c(2) st s by (intro step_product) auto
  ultimately have d: "unat (getBoxCtrAddr d t socket die pos c' - getBoxCtrAddr d t socket die pos c) =
      (unat c' - unat c) * unat (box_step ?b)" by simp
  have "0 < (unat c' - unat c) * unat (box_step ?b)" using assms(4) st by (auto simp: word_less_nat_alt)
  with d have "getBoxCtrAddr d t socket die pos c' \<noteq> getBoxCtrAddr d t socket die pos c" by auto
  with d st assms(1) show ?thesis by (auto simp: registerStep_def getBoxAccessType_def)
qed

theorem counter_registers_disjoint_witness:
  "getBoxCtrAddr demo_discovery 6 0 0 0 3 \<noteq> getBoxCtrAddr demo_discovery 6 0 0 0 1"
proof -
  have f: "the_box demo_discovery 6 0 0 0 = \<lparr>table_0 = 4, table_1 = 0x2000, table_2 = 6\<rparr>"
    by (simp add: demo_discovery_def)
  have "bitWidth \<lparr>table_0 = 4, table_1 = 0x2000, table_2 = 6\<rparr> = 0" "accessType \<lparr>table_0 = 4, table_1 = 0x2000, table_2 = 6\<rparr> = 0"
    "numRegs \<lparr>table_0 = 4, table_1 = 0x2000, table_2 = 6\<rparr> = 4"
    by (simp_all add: bitWidth_def accessType_def numRegs_def get_field_def BoxPMU_0_def take_bit_eq_mod drop_bit_eq_div)
  then show ?thesis
    using counter_registers_disjoint [of demo_discovery 6 0 0 0 1 3] unfolding f
    by (simp add: validBox_def demo_discovery_def MSR_access_def)
qed

end
