(* ===== verification/Url.thy ===== *)
theory Url
  imports Istream
begin

text \<open>
  The \<^verbatim>\<open>URL\<close> class of the sensor server (pcm-sensor-server.cpp): percent encoding, parsing and printing. Positions in strings
  are \<^verbatim>\<open>size_t\<close> values with \<^verbatim>\<open>npos\<close> the largest of them, and their differences wrap around, since the parser subtracts
  positions without comparing them. \<^verbatim>\<open>substr\<close> with a start beyond the end throws \<^verbatim>\<open>std::out_of_range\<close>.
\<close>

section \<open>Strings\<close>

definition npos :: nat where
  "npos = 2 ^ 64 - 1"

definition sz_sub :: "nat \<Rightarrow> nat \<Rightarrow> nat" where
  "sz_sub a b = (if b \<le> a then a - b else a + 2 ^ 64 - b)"

definition str_find :: "char \<Rightarrow> string \<Rightarrow> nat \<Rightarrow> nat" where
  "str_find c s start =
     (let t = drop start s; n = length (takeWhile (\<lambda>x. x \<noteq> c) t)
      in if c \<in> set t then start + n else npos)"

fun find_slashes :: "string \<Rightarrow> nat option" where
  "find_slashes (a # b # s) =
     (if a = CHR ''/'' \<and> b = CHR ''/'' then Some 0 else map_option Suc (find_slashes (b # s)))"
| "find_slashes _ = None"

definition str_find_slashes :: "string \<Rightarrow> nat \<Rightarrow> nat" where
  "str_find_slashes s start = (case find_slashes (drop start s) of None \<Rightarrow> npos | Some n \<Rightarrow> start + n)"

text \<open>The last occurrence at or before a position.\<close>

definition str_rfind :: "char \<Rightarrow> string \<Rightarrow> nat \<Rightarrow> nat" where
  "str_rfind c s pos =
     (let t = take (Suc pos) s; n = length (takeWhile (\<lambda>x. x \<noteq> c) (rev t))
      in if c \<in> set t then length t - Suc n else npos)"

definition substr :: "string \<Rightarrow> nat \<Rightarrow> nat \<Rightarrow> string result" where
  "substr s pos n = (if length s < pos then Inl Out_of_range else Inr (take n (drop pos s)))"

text \<open>\<^verbatim>\<open>std::stoull\<close> in base 10; both exceptions it throws are caught by the caller.\<close>

definition stoull :: "string \<Rightarrow> nat option" where
  "stoull s = (let (v, bad, rest) = num_get 64 Dec (dropWhile is_space s) in if bad then None else Some v)"

definition is_alnum :: "char \<Rightarrow> bool" where
  "is_alnum c =
     (let n = of_char c :: nat in 48 \<le> n \<and> n \<le> 57 \<or> 65 \<le> n \<and> n \<le> 90 \<or> 97 \<le> n \<and> n \<le> 122)"

section \<open>Percent encoding\<close>

definition charToNumber :: "char \<Rightarrow> nat result" where
  "charToNumber c =
     (let n = of_char c :: nat in
      if 65 \<le> n \<and> n \<le> 70 then Inr (n - 65 + 10)
      else if 97 \<le> n \<and> n \<le> 102 then Inr (n - 97 + 10)
      else if 48 \<le> n \<and> n \<le> 57 then Inr (n - 48)
      else Inl (Runtime_error ''not a hexadecimal digit''))"

definition upper_digit :: "nat \<Rightarrow> char" where
  "upper_digit d = (char_of (if d < 10 then 48 + d else 55 + d) :: char)"

text \<open>\<^verbatim>\<open>std::setw(2)\<close> pads a single digit with the fill character of the stream, which is a space.\<close>

definition encode_char :: "char \<Rightarrow> string" where
  "encode_char c =
     (let n = of_char c :: nat in
      if is_alnum c \<or> c \<in> {CHR ''-'', CHR ''_'', CHR ''.'', CHR ''~''} then [c]
      else CHR ''%'' # (if n < 16 then CHR '' '' else upper_digit (n div 16)) # [upper_digit (n mod 16)])"

definition percentEncode :: "string \<Rightarrow> string" where
  "percentEncode s = concat (map encode_char s)"

fun percentDecode :: "string \<Rightarrow> string result" where
  "percentDecode [] = Inr []"
| "percentDecode (c # s) =
     (if c = CHR ''%'' then
        (case s of
           [] \<Rightarrow> Inl (Runtime_error ''Malformed URL, percent found but no next char'')
         | x # s1 \<Rightarrow> rbind (charToNumber x) (\<lambda>hi.
             case s1 of
               [] \<Rightarrow> Inl (Runtime_error ''Malformed URL, percent found but no next next char'')
             | y # s2 \<Rightarrow> rbind (charToNumber y) (\<lambda>lo.
                 rbind (percentDecode s2) (\<lambda>r. Inr (char_of (hi * 16 + lo) # r)))))
      else rbind (percentDecode s) (\<lambda>r. Inr (c # r)))"

section \<open>Parsing\<close>

record URL =
  url_scheme :: string
  url_user :: string
  url_passwd :: string
  url_host :: string
  url_path :: string
  url_fragment :: string
  url_arguments :: "(string \<times> string) list"
  url_port :: u16
  url_hasScheme :: bool
  url_hasUser :: bool
  url_hasPasswd :: bool
  url_hasHost :: bool
  url_hasPort :: bool
  url_hasQuery :: bool
  url_hasFragment :: bool
  url_pathIsStar :: bool

definition URL_init :: URL where
  "URL_init = \<lparr>url_scheme = [], url_user = [], url_passwd = [], url_host = [], url_path = [], url_fragment = [], url_arguments = [], url_port = 0,
     url_hasScheme = False, url_hasUser = False, url_hasPasswd = False, url_hasHost = False, url_hasPort = False, url_hasQuery = False,
     url_hasFragment = False, url_pathIsStar = False\<rparr>"

definition scheme_char :: "char \<Rightarrow> bool" where
  "scheme_char c \<longleftrightarrow> is_alnum c \<or> c \<in> {CHR ''+'', CHR ''-'', CHR ''.''}"

text \<open>User and password before an \<open>@\<close>; returns what is left of the authority.\<close>

definition parse_userinfo :: "string \<Rightarrow> URL \<Rightarrow> (string \<times> URL) result" where
  "parse_userinfo authority url =
     (let atPos = str_find CHR ''@'' authority 0 in
      if atPos = npos then Inr (authority, url)
      else if atPos = 0 then Inl (Runtime_error ''@ found in the first column, username would be empty'')
      else let passwdColonPos = str_rfind CHR '':'' authority atPos in
        rbind (if passwdColonPos \<noteq> npos
               then rbind (substr authority (passwdColonPos + 1) (sz_sub atPos (passwdColonPos + 1))) (\<lambda>p.
                    rbind (percentDecode p) (\<lambda>pw. Inr (passwdColonPos, url\<lparr>url_passwd := pw, url_hasPasswd := True\<rparr>)))
               else Inr (atPos, url)) (\<lambda>(userEndPos, url).
        rbind (substr authority 0 userEndPos) (\<lambda>user.
        if user = [] then Inl (Runtime_error ''User not found before @ sign'')
        else rbind (percentDecode user) (\<lambda>us.
          Inr (drop (atPos + 1) authority, url\<lparr>url_user := us, url_hasUser := True\<rparr>)))))"

definition parse_port :: "string \<Rightarrow> nat" where
  "parse_port portString = (if portString = [] then 0 else case stoull portString of Some p \<Rightarrow> p | None \<Rightarrow> 0)"

definition parse_bracket :: "string \<Rightarrow> URL \<Rightarrow> (string \<times> URL) result" where
  "parse_bracket authority url =
     (if authority \<noteq> [] \<and> hd authority = CHR ''['' then
        (let closePos = str_find CHR '']'' authority 0 in
         if closePos = npos then Inl (Runtime_error ''No matching IPv6 ] found.'')
         else rbind (substr authority 0 closePos) (\<lambda>h.
           Inr (drop (closePos + 1) authority, url\<lparr>url_host := h, url_hasHost := True\<rparr>)))
      else Inr (authority, url))"

definition parse_hostport :: "string \<Rightarrow> URL \<Rightarrow> URL result" where
  "parse_hostport authority url =
     (if authority \<noteq> [] then
       (let portColonPos = str_rfind CHR '':'' authority npos in
        if portColonPos \<noteq> npos then
          if portColonPos = 0 \<and> \<not> url_hasHost url then Inl (Runtime_error ''No hostname found'')
          else rbind (if portColonPos \<noteq> 0
                      then rbind (substr authority 0 portColonPos) (\<lambda>h. Inr (url\<lparr>url_host := h, url_hasHost := True\<rparr>))
                      else Inr url) (\<lambda>url.
               rbind (substr authority (portColonPos + 1) npos) (\<lambda>portString.
               let port = parse_port portString in
               if port \<ge> 65536 then Inl (Runtime_error ''URL::parse: port too large'')
               else Inr (url\<lparr>url_port := of_nat port, url_hasPort := True\<rparr>)))
        else Inr (url\<lparr>url_host := authority, url_hasHost := True\<rparr>))
     else if \<not> url_hasHost url then Inl (Runtime_error ''No hostname found'')
     else Inr url)"

definition parse_host :: "string \<Rightarrow> URL \<Rightarrow> URL result" where
  "parse_host authority url = rbind (parse_bracket authority url) (\<lambda>(authority, url). parse_hostport authority url)"

text \<open>Everything before the path, when the URL does not start with a slash.\<close>

definition parse_authority :: "string \<Rightarrow> nat \<Rightarrow> nat \<Rightarrow> (nat \<times> URL) result" where
  "parse_authority fullURL questionMarkPos numberPos =
     (let schemeColonPos = str_find CHR '':'' fullURL 0 in
      if schemeColonPos = npos \<or> schemeColonPos = 0 then Inl (Runtime_error ''URL does not start with / and has no scheme'')
      else rbind (substr fullURL 0 schemeColonPos) (\<lambda>scheme.
        if \<not> list_all scheme_char scheme then Inl (Runtime_error ''Scheme contains invalid characters'')
        else let url = URL_init\<lparr>url_scheme := scheme, url_hasScheme := True\<rparr>;
                 authorityPos = str_find_slashes fullURL (schemeColonPos + 1)
             in if authorityPos = npos then Inl (Runtime_error ''// not found'')
                else if schemeColonPos + 1 \<noteq> authorityPos then Inl (Runtime_error ''Something between : and //'')
                else let pathBeginPos = str_find CHR ''/'' fullURL (authorityPos + 2);
                         authorityEndPos = min pathBeginPos (min questionMarkPos numberPos)
                     in rbind (substr fullURL (authorityPos + 2) (sz_sub authorityEndPos (authorityPos + 2))) (\<lambda>authority.
                        rbind (parse_userinfo authority url) (\<lambda>(authority, url).
                        rbind (parse_host authority url) (\<lambda>url. Inr (pathBeginPos, url))))))"

text \<open>The loop over the query string.\<close>

function parse_query :: "string \<Rightarrow> (string \<times> string) list \<Rightarrow> (string \<times> string) list result" where
  "parse_query queryString args =
     (if queryString = [] then Inr args
      else let ampPos = str_find CHR ''&'' queryString 0 in
        rbind (substr queryString 0 ampPos) (\<lambda>query.
        let equalsPos = str_find CHR ''='' query 0 in
        if equalsPos = npos then Inl (Runtime_error ''Did not find a = in the query'')
        else rbind (substr query 0 equalsPos) (\<lambda>one.
             rbind (percentDecode one) (\<lambda>one.
             rbind (substr query (equalsPos + 1) npos) (\<lambda>two.
             rbind (percentDecode two) (\<lambda>two.
             parse_query (if ampPos = npos then [] else drop (ampPos + 1) queryString) (args @ [(one, two)])))))))"
  by pat_completeness auto
termination by (relation "measure (\<lambda>(q, args). length q)") auto

declare parse_query.simps [simp del]

text \<open>Path, query and fragment.\<close>

definition parse_tail :: "string \<Rightarrow> nat \<Rightarrow> nat \<Rightarrow> nat \<Rightarrow> URL \<Rightarrow> URL result" where
  "parse_tail fullURL questionMarkPos numberPos pathBeginPos url =
     (let pathEndPos = min questionMarkPos numberPos in
      rbind (if pathBeginPos \<noteq> npos then substr fullURL pathBeginPos (sz_sub pathEndPos pathBeginPos) else Inr []) (\<lambda>path.
      let url = url\<lparr>url_path := path\<rparr> in
      rbind (if questionMarkPos \<noteq> npos
             then rbind (substr fullURL (questionMarkPos + 1) (sz_sub numberPos (questionMarkPos + 1))) (\<lambda>queryString.
                    if queryString = [] then Inl (Runtime_error ''Invalid URL: query not found after question mark'')
                    else rbind (parse_query queryString []) (\<lambda>args. Inr (url\<lparr>url_hasQuery := True, url_arguments := args\<rparr>)))
             else Inr url) (\<lambda>url.
      rbind (if numberPos \<noteq> npos
             then rbind (substr fullURL (numberPos + 1) npos) (\<lambda>f. Inr (url\<lparr>url_hasFragment := True, url_fragment := f\<rparr>))
             else Inr url) (\<lambda>url.
      if CHR ''%'' \<in> set (url_path url)
      then Inl (Runtime_error ''DEV: Some URL component still contains percent encoded values'')
      else Inr url))))"

definition URL_parse :: "string \<Rightarrow> URL result" where
  "URL_parse fullURL =
     (if fullURL = [] then Inr (URL_init\<lparr>url_path := ''/''\<rparr>)
      else if fullURL = ''*'' then Inr (URL_init\<lparr>url_path := fullURL, url_pathIsStar := True\<rparr>)
      else let questionMarkPos = str_find CHR ''?'' fullURL 0; numberPos = str_find CHR ''#'' fullURL 0 in
        rbind (if hd fullURL = CHR ''/'' then Inr (0, URL_init)
               else parse_authority fullURL questionMarkPos numberPos) (\<lambda>(pathBeginPos, url).
        parse_tail fullURL questionMarkPos numberPos pathBeginPos url))"

section \<open>Printing\<close>

text \<open>The loop prints all arguments but the last with an \<open>&\<close>; it is only entered with at least one argument, because a parsed
  URL has a query only when it has one.\<close>

fun print_arguments :: "(string \<times> string) list \<Rightarrow> string" where
  "print_arguments [] = []"
| "print_arguments [(a, b)] = percentEncode a @ ''='' @ percentEncode b"
| "print_arguments ((a, b) # args) = percentEncode a @ ''='' @ percentEncode b @ ''&'' @ print_arguments args"

definition URL_text :: "URL \<Rightarrow> string" where
  "URL_text u =
     (if url_hasScheme u then url_scheme u @ '':'' else []) @
     (if url_hasHost u then ''//'' @ (if url_hasUser u then percentEncode (url_user u) else []) @
        (if url_hasPasswd u then '':'' @ percentEncode (url_passwd u) else []) @ (if url_hasUser u then ''@'' else []) @
        url_host u @ (if url_hasPort u then '':'' @ dec_string (unat (url_port u)) else []) else []) @
     (if url_path u = [] then ''/'' else url_path u) @
     (if url_hasQuery u then ''?'' @ print_arguments (url_arguments u) else []) @
     (if url_hasFragment u then ''#'' @ url_fragment u else [])"

definition printURL :: "URL \<Rightarrow> string" where
  "printURL u = URL_text u @ [CHR 0x0A]"

section \<open>Searching\<close>

lemma str_find_at:
  "drop start s = xs @ c # ys \<Longrightarrow> c \<notin> set xs \<Longrightarrow> str_find c s start = start + length xs"
  by (simp add: str_find_def Let_def)

lemma str_find_none: "c \<notin> set s \<Longrightarrow> str_find c s start = npos"
  using in_set_dropD [of c start s] by (auto simp: str_find_def Let_def)

lemma str_find_bound: "str_find c s start \<noteq> npos \<Longrightarrow> start \<le> str_find c s start \<and> str_find c s start < length s"
proof -
  assume "str_find c s start \<noteq> npos"
  then have c: "c \<in> set (drop start s)" by (auto simp: str_find_def Let_def split: if_splits)
  then have "length (takeWhile (\<lambda>x. x \<noteq> c) (drop start s)) < length (drop start s)"
  proof -
    obtain ys zs where yz: "drop start s = ys @ c # zs" "c \<notin> set ys" using split_list_first [OF c] by blast
    then show ?thesis by (simp only: takeWhile_delim) simp
  qed
  with c show ?thesis by (auto simp: str_find_def Let_def)
qed

lemma str_find_less [simp]: "str_find c s start \<noteq> npos \<Longrightarrow> str_find c s start < length s"
  using str_find_bound by blast

lemma str_rfind_at:
  assumes "take (Suc pos) s = xs @ c # ys" and "c \<notin> set ys"
  shows "str_rfind c s pos = length xs"
proof -
  have "takeWhile (\<lambda>x. x \<noteq> c) (rev (xs @ c # ys)) = rev ys"
    using assms(2) by (simp add: takeWhile_append_stop)
  then show ?thesis unfolding str_rfind_def Let_def assms(1) by simp
qed

lemma str_rfind_none: "c \<notin> set (take (Suc pos) s) \<Longrightarrow> str_rfind c s pos = npos"
  by (auto simp: str_rfind_def Let_def)

lemma str_rfind_bound: "str_rfind c s pos \<noteq> npos \<Longrightarrow> str_rfind c s pos < length s"
  by (cases s) (auto simp: str_rfind_def Let_def min_def split: if_splits)

section \<open>Percent encoding round trip\<close>

lemma charToNumber_upper [simp]: "d < 16 \<Longrightarrow> charToNumber (upper_digit d) = Inr d"
  by (simp add: charToNumber_def upper_digit_def Let_def)

lemma percentDecode_encode_char:
  assumes "16 \<le> (of_char c :: nat)"
  shows "percentDecode (encode_char c @ s) = rbind (percentDecode s) (\<lambda>r. Inr (c # r))"
proof (cases "is_alnum c \<or> c \<in> {CHR ''-'', CHR ''_'', CHR ''.'', CHR ''~''}")
  case True
  then have "c \<noteq> CHR ''%''" by (auto simp: is_alnum_def)
  with True show ?thesis by (simp add: encode_char_def)
next
  case False
  have "(of_char c :: nat) div 16 < 16" by (simp add: less_mult_imp_div_less)
  moreover have "char_of ((of_char c :: nat) div 16 * 16 + of_char c mod 16) = c"
    by (simp del: semiring_norm(163))
  ultimately show ?thesis using False assms by (simp add: encode_char_def Let_def)
qed

lemma percent_decode_encode:
  "list_all (\<lambda>c. 16 \<le> (of_char c :: nat)) s \<Longrightarrow> percentDecode (percentEncode s) = Inr s"
  by (induction s) (simp_all add: percentEncode_def percentDecode_encode_char del: percentDecode.simps(2))

lemma encode_char_set: "x \<in> set (encode_char c) \<Longrightarrow> is_alnum x \<or> x \<in> {CHR ''-'', CHR ''_'', CHR ''.'', CHR ''~'', CHR ''%'', CHR '' ''}"
proof -
  have "is_alnum (upper_digit d)" if "d < 16" for d
    using that by (simp add: is_alnum_def upper_digit_def Let_def)
  moreover have "(of_char c :: nat) div 16 < 16" by (simp add: less_mult_imp_div_less)
  ultimately show "x \<in> set (encode_char c) \<Longrightarrow> is_alnum x \<or> x \<in> {CHR ''-'', CHR ''_'', CHR ''.'', CHR ''~'', CHR ''%'', CHR '' ''}"
    by (auto simp: encode_char_def Let_def split: if_splits)
qed

definition separators :: "char set" where
  "separators = {CHR '':'', CHR ''@'', CHR ''/'', CHR ''?'', CHR ''#'', CHR ''&'', CHR ''='', CHR ''['', CHR '']''}"

lemma separator_not_alnum: "c \<in> separators \<Longrightarrow> \<not> is_alnum c"
  by (auto simp: separators_def is_alnum_def)

lemma encoded_no_separator [simp]: "c \<in> separators \<Longrightarrow> c \<notin> set (percentEncode s)"
  using encode_char_set [of c] separator_not_alnum [of c]
  by (auto simp: percentEncode_def separators_def)

abbreviation printable :: "string \<Rightarrow> bool" where
  "printable \<equiv> list_all (\<lambda>c. 16 \<le> (of_char c :: nat))"

text \<open>Percent encoding round trip: decoding the encoding of a string gives the string back, for every string whose
  characters have codes of at least 16, and the encoding never contains a character that separates URL components.\<close>

lemma percent_roundtrip:
  assumes "\<forall>c \<in> set s. 16 \<le> (of_char c :: nat)"
  shows "percentDecode (percentEncode s) = Inr s \<and>
    set (percentEncode s) \<inter> {CHR '':'', CHR ''@'', CHR ''/'', CHR ''?'', CHR ''#'', CHR ''&'', CHR ''=''} = {}"
proof -
  have "list_all (\<lambda>c. 16 \<le> (of_char c :: nat)) s" using assms by (simp add: list_all_iff)
  moreover have "c \<notin> set (percentEncode s)" if "c \<in> {CHR '':'', CHR ''@'', CHR ''/'', CHR ''?'', CHR ''#'', CHR ''&'', CHR ''=''}" for c
    using that by (intro encoded_no_separator) (auto simp: separators_def)
  ultimately show ?thesis using percent_decode_encode by blast
qed

text \<open>A line feed is encoded with a space, which the decoder rejects.\<close>

lemma percent_encode_control:
  "percentEncode [CHR 0x0A] = ''% A'' \<and> percentDecode ''% A'' = Inl (Runtime_error ''not a hexadecimal digit'')"
  by code_simp

section \<open>Printing and parsing a URL\<close>

lemma stoull_dec: "n < 2 ^ 64 \<Longrightarrow> stoull (dec_string n) = Some n"
proof -
  assume n: "n < 2 ^ 64"
  have d: "list_all (is_digit_of 10) (dec_string n)" "dec_string n \<noteq> []" "digits_value 10 (dec_string n) = n"
    by (simp_all add: dec_string_def digits_of_digits digits_value_digits_of)
  then have "dropWhile is_space (dec_string n) = dec_string n"
    by (cases "dec_string n") (auto simp: digit_not_space)
  with n d show ?thesis by (simp add: stoull_def num_get_dec_digits)
qed

lemma dec_string_no_separator [simp]: "c \<in> separators \<Longrightarrow> c \<notin> set (dec_string n)"
proof
  assume c: "c \<in> separators" "c \<in> set (dec_string n)"
  have "list_all (is_digit_of 10) (dec_string n)" by (simp add: dec_string_def digits_of_digits)
  with c(2) have "is_digit_of 10 c" by (simp add: list_all_iff)
  with c(1) show False by (auto simp: separators_def is_digit_of_def digit_val_def)
qed

lemma separators_mem [simp]:
  "CHR '':'' \<in> separators" "CHR ''@'' \<in> separators" "CHR ''/'' \<in> separators" "CHR ''?'' \<in> separators" "CHR ''#'' \<in> separators"
  "CHR ''&'' \<in> separators" "CHR ''='' \<in> separators" "CHR ''['' \<in> separators" "CHR '']'' \<in> separators"
  by (simp_all add: separators_def)

lemma npos_bound: "length s < npos \<Longrightarrow> take npos s = s" "length s < npos \<Longrightarrow> n \<le> length s \<Longrightarrow> n \<noteq> npos"
  by simp_all

lemma parse_query_arguments:
  assumes "length (print_arguments args) < npos" and "\<forall>(a, b) \<in> set args. printable a \<and> printable b"
  shows "parse_query (print_arguments args) acc = Inr (acc @ args)"
  using assms
proof (induction args arbitrary: acc rule: print_arguments.induct)
  case 1
  then show ?case by (simp add: parse_query.simps)
next
  case (2 a b)
  let ?q = "percentEncode a @ CHR ''='' # percentEncode b"
  have "str_find CHR ''&'' ?q 0 = npos" by (rule str_find_none) simp
  moreover have "str_find CHR ''='' ?q 0 = length (percentEncode a)"
    using str_find_at [of 0 ?q "percentEncode a" "CHR ''=''" "percentEncode b"] by simp
  ultimately show ?case
    using 2 by (subst parse_query.simps) (simp add: substr_def percent_decode_encode npos_bound parse_query.simps Let_def)
next
  case (3 a b v va)
  define q where "q = percentEncode a @ CHR ''='' # percentEncode b"
  define r where "r = print_arguments (v # va)"
  have "CHR ''&'' \<notin> set q" by (simp add: q_def)
  then have amp: "str_find CHR ''&'' (q @ CHR ''&'' # r) 0 = length q"
    using str_find_at [of 0 "q @ CHR ''&'' # r" q "CHR ''&''" r] by simp
  have eq: "str_find CHR ''='' q 0 = length (percentEncode a)"
    using str_find_at [of 0 q "percentEncode a" "CHR ''=''" "percentEncode b"] by (simp add: q_def)
  have shape: "print_arguments ((a, b) # v # va) = q @ CHR ''&'' # r" by (simp add: q_def r_def)
  have dec: "percentDecode (percentEncode a) = Inr a" "percentDecode (percentEncode b) = Inr b"
    using "3.prems"(2) by (simp_all add: percent_decode_encode)
  have parts: "take (length (percentEncode a)) q = percentEncode a" "drop (Suc (length (percentEncode a))) q = percentEncode b"
    "\<not> length q < Suc (length (percentEncode a))" "length (percentEncode a) \<le> length q"
    by (simp_all add: q_def)
  have len: "length q < npos" "length r < npos" "length (percentEncode b) < npos" "length (percentEncode a) < npos"
    using "3.prems"(1) unfolding shape by (simp_all add: q_def)
  then have ne: "length q \<noteq> npos" "length (percentEncode a) \<noteq> npos" by simp_all
  have "parse_query r (acc @ [(a, b)]) = Inr ((acc @ [(a, b)]) @ v # va)"
    unfolding r_def by (rule "3.IH") (use "3.prems"(2) len(2) r_def in simp_all)
  then show ?case
    unfolding shape by (subst parse_query.simps) (simp add: Let_def amp eq substr_def dec parts len ne npos_bound)
qed

text \<open>URLs in the form the printer produces: absolute ones with scheme and host or relative ones with neither, unset components
  empty, a non-empty path, and no separator inside a component that is printed without encoding.\<close>

definition authority_text :: "URL \<Rightarrow> string" where
  "authority_text u = (if url_hasUser u then percentEncode (url_user u) @
       (if url_hasPasswd u then CHR '':'' # percentEncode (url_passwd u) else []) @ ''@'' else []) @
     url_host u @ (if url_hasPort u then CHR '':'' # dec_string (unat (url_port u)) else [])"

definition wf_authority :: "URL \<Rightarrow> bool" where
  "wf_authority u \<longleftrightarrow>
     (if url_hasHost u
      then url_hasScheme u \<and> url_scheme u \<noteq> [] \<and> list_all scheme_char (url_scheme u) \<and>
           url_host u \<noteq> [] \<and> set (url_host u) \<inter> separators = {} \<and> (url_hasPasswd u \<longrightarrow> url_hasUser u) \<and>
           (url_hasUser u \<longrightarrow> url_user u \<noteq> [] \<and> printable (url_user u) \<and> printable (url_passwd u))
      else \<not> url_hasScheme u \<and> \<not> url_hasUser u \<and> \<not> url_hasPasswd u \<and> \<not> url_hasPort u \<and> url_scheme u = [] \<and> url_host u = []) \<and>
     (\<not> url_hasUser u \<longrightarrow> url_user u = []) \<and> (\<not> url_hasPasswd u \<longrightarrow> url_passwd u = []) \<and> (\<not> url_hasPort u \<longrightarrow> url_port u = 0)"

definition wf_url :: "URL \<Rightarrow> bool" where
  "wf_url u \<longleftrightarrow> wf_authority u \<and> \<not> url_pathIsStar u \<and>
     url_path u \<noteq> [] \<and> hd (url_path u) = CHR ''/'' \<and> set (url_path u) \<inter> {CHR ''?'', CHR ''#'', CHR ''%''} = {} \<and>
     (url_hasQuery u \<longleftrightarrow> url_arguments u \<noteq> []) \<and> (\<forall>(a, b) \<in> set (url_arguments u). printable a \<and> printable b) \<and>
     (\<not> url_hasFragment u \<longrightarrow> url_fragment u = []) \<and> (\<not> url_hasQuery u \<longrightarrow> CHR ''?'' \<notin> set (url_fragment u))"

lemma host_facts:
  assumes "host \<noteq> []" and "set host \<inter> separators = {}"
  shows "hd host \<noteq> CHR ''[''" and "str_rfind CHR '':'' host npos = npos"
proof -
  have nosep: "c \<notin> set host" if "c \<in> separators" for c using assms(2) that by blast
  have "hd host \<in> set host" using assms(1) by simp
  then show "hd host \<noteq> CHR ''[''" using nosep [of "CHR ''[''"] by auto
  show "str_rfind CHR '':'' host npos = npos"
    by (rule str_rfind_none) (use nosep [of "CHR '':''"] in \<open>auto dest: in_set_takeD\<close>)
qed

lemma parse_host_plain:
  assumes "host \<noteq> []" and "set host \<inter> separators = {}"
  shows "parse_host host u = Inr (u\<lparr>url_host := host, url_hasHost := True\<rparr>)"
  using assms(1) host_facts [OF assms] by (simp add: parse_host_def parse_bracket_def parse_hostport_def)

lemma parse_host_port:
  assumes "host \<noteq> []" and "set host \<inter> separators = {}" and "length (host @ CHR '':'' # dec_string (unat p)) < npos"
  shows "parse_host (host @ CHR '':'' # dec_string (unat (p :: u16))) u =
      Inr (u\<lparr>url_host := host, url_hasHost := True, url_port := p, url_hasPort := True\<rparr>)"
proof -
  define h where "h = host @ CHR '':'' # dec_string (unat p)"
  have hp: "hd h \<noteq> CHR ''[''" "h \<noteq> []" using host_facts(1) [OF assms(1,2)] assms(1) by (simp_all add: h_def)
  have "take (Suc npos) h = h" using assms(3) by (simp add: h_def)
  then have at: "str_rfind CHR '':'' h npos = length host"
    using str_rfind_at [of npos h host "CHR '':''" "dec_string (unat p)"] by (simp add: h_def)
  have parts: "take (length host) h = host" "drop (Suc (length host)) h = dec_string (unat p)" "\<not> length h < Suc (length host)"
    by (simp_all add: h_def)
  have lt: "unat p < 65536" using unsigned_less [of p, where ?'a = nat] by simp
  have port: "parse_port (dec_string (unat p)) = unat p"
    using stoull_dec [of "unat p"] lt by (simp add: parse_port_def dec_string_def)
  have len: "length host \<noteq> npos" "take npos (dec_string (unat p)) = dec_string (unat p)" using assms(3) by simp_all
  show "parse_host (host @ CHR '':'' # dec_string (unat p)) u =
      Inr (u\<lparr>url_host := host, url_hasHost := True, url_port := p, url_hasPort := True\<rparr>)"
    unfolding h_def [symmetric] using hp lt assms(1) by (simp add: parse_host_def parse_bracket_def parse_hostport_def Let_def at substr_def parts len port)
qed

lemma percentEncode_Nil_iff [simp]: "percentEncode s = [] \<longleftrightarrow> s = []"
  by (cases s) (simp_all add: percentEncode_def encode_char_def Let_def)

lemma parse_userinfo_text:
  assumes "CHR ''@'' \<notin> set rest" and "user \<noteq> []" and "printable user" and "printable pw"
    and "length (percentEncode user @ (if b then CHR '':'' # percentEncode pw else []) @ CHR ''@'' # rest) < npos"
  shows "parse_userinfo (percentEncode user @ (if b then CHR '':'' # percentEncode pw else []) @ CHR ''@'' # rest) u =
      Inr (rest, (if b then u\<lparr>url_passwd := pw, url_hasPasswd := True\<rparr> else u)\<lparr>url_user := user, url_hasUser := True\<rparr>)"
proof -
  define e where "e = percentEncode user"
  define i where "i = e @ (if b then CHR '':'' # percentEncode pw else [])"
  define t where "t = i @ CHR ''@'' # rest"
  have t: "percentEncode user @ (if b then CHR '':'' # percentEncode pw else []) @ CHR ''@'' # rest = t"
    by (simp add: t_def i_def e_def)
  have len: "length t < npos" using assms(5) unfolding t .
  have i: "CHR ''@'' \<notin> set i" "length i \<noteq> npos" "i \<noteq> []" "take (Suc (length i)) t = i @ ''@''" "drop (Suc (length i)) t = rest"
    "t \<noteq> []"
    using len assms(2) by (auto simp: t_def i_def e_def)
  have at: "str_find CHR ''@'' t 0 = length i"
    using str_find_at [of 0 t i "CHR ''@''" rest] i(1) by (simp add: t_def)
  have du: "percentDecode e = Inr user" "percentDecode (percentEncode pw) = Inr pw" "e \<noteq> []"
    using assms(2-4) by (simp_all add: e_def percent_decode_encode)
  show ?thesis
  proof (cases b)
    case True
    then have ib: "i = e @ CHR '':'' # percentEncode pw" by (simp add: i_def)
    have colon: "str_rfind CHR '':'' t (length i) = length e"
      using str_rfind_at [of "length i" t e "CHR '':''" "percentEncode pw @ ''@''"] i(4) by (simp add: ib)
    have parts: "take (sz_sub (length i) (Suc (length e))) (drop (Suc (length e)) t) = percentEncode pw"
      "take (length e) t = e" "\<not> length t < Suc (length e)" "length e \<noteq> npos"
      using len by (simp_all add: t_def ib sz_sub_def)
    show ?thesis
      unfolding t using True i(2,3,5,6) du by (simp add: parse_userinfo_def Let_def at colon substr_def parts)
  next
    case False
    then have ib: "i = e" by (simp add: i_def)
    have colon: "str_rfind CHR '':'' t (length e) = npos"
      using i(4) by (intro str_rfind_none) (simp add: ib e_def)
    have parts: "take (length e) t = e" by (simp add: t_def ib)
    show ?thesis
      unfolding t using False i(2,3,5,6) du by (simp add: parse_userinfo_def Let_def at ib colon substr_def parts)
  qed
qed

lemma parse_userinfo_none: "CHR ''@'' \<notin> set a \<Longrightarrow> parse_userinfo a u = Inr (a, u)"
  by (simp add: parse_userinfo_def str_find_none)

lemma authority_text_no_sep:
  assumes "wf_authority u" and "url_hasHost u" and "c \<in> {CHR ''/'', CHR ''?'', CHR ''#''}"
  shows "c \<notin> set (authority_text u)"
proof -
  have "c \<in> separators" "c \<noteq> CHR '':''" "c \<noteq> CHR ''@''" using assms(3) by auto
  moreover from this have "c \<notin> set (url_host u)" using assms(1,2) by (auto simp: wf_authority_def)
  ultimately show ?thesis by (simp add: authority_text_def)
qed

lemma parse_authority_parts:
  assumes "wf_authority u" and "url_hasHost u" and "length (authority_text u) < npos"
  shows "rbind (parse_userinfo (authority_text u) (URL_init\<lparr>url_scheme := url_scheme u, url_hasScheme := True\<rparr>))
      (\<lambda>(authority, url). parse_host authority url) =
    Inr (u\<lparr>url_path := [], url_fragment := [], url_arguments := [], url_hasQuery := False, url_hasFragment := False,
           url_pathIsStar := False\<rparr>)"
proof -
  define rest where "rest = url_host u @ (if url_hasPort u then CHR '':'' # dec_string (unat (url_port u)) else [])"
  define v where "v = URL_init\<lparr>url_scheme := url_scheme u, url_hasScheme := True\<rparr>"
  define w where "w = (if url_hasUser u then (if url_hasPasswd u then v\<lparr>url_passwd := url_passwd u, url_hasPasswd := True\<rparr> else v)
    \<lparr>url_user := url_user u, url_hasUser := True\<rparr> else v)"
  have "CHR ''@'' \<notin> set (url_host u)" using assms(1,2) by (auto simp: wf_authority_def separators_def)
  then have rest: "CHR ''@'' \<notin> set rest" by (simp add: rest_def)
  have a: "authority_text u = (if url_hasUser u then percentEncode (url_user u) @
      (if url_hasPasswd u then CHR '':'' # percentEncode (url_passwd u) else []) @ CHR ''@'' # rest else rest)"
    by (simp add: authority_text_def rest_def)
  have info: "parse_userinfo (authority_text u) v = Inr (rest, w)"
  proof (cases "url_hasUser u")
    case True
    then have wf: "url_user u \<noteq> []" "printable (url_user u)" "printable (url_passwd u)"
      using assms(1,2) by (simp_all add: wf_authority_def)
    show ?thesis
      using parse_userinfo_text [OF rest wf, of "url_hasPasswd u" v] assms(3) True unfolding a w_def by simp
  next
    case False
    then show ?thesis unfolding a w_def by (simp add: parse_userinfo_none [OF rest])
  qed
  have host: "url_host u \<noteq> []" "set (url_host u) \<inter> separators = {}"
    using assms(1,2) by (simp_all add: wf_authority_def)
  have "length rest \<le> length (authority_text u)" unfolding a by simp
  then have len: "length rest < npos" using assms(3) by simp
  have "parse_host rest w = Inr ((if url_hasPort u then w\<lparr>url_host := url_host u, url_hasHost := True, url_port := url_port u,
      url_hasPort := True\<rparr> else w\<lparr>url_host := url_host u, url_hasHost := True\<rparr>))"
    using parse_host_plain [OF host] parse_host_port [OF host, of "url_port u" w] len
    by (cases "url_hasPort u") (simp_all add: rest_def)
  then show ?thesis
    using assms(1,2) unfolding v_def [symmetric] info
    by (auto simp: w_def v_def URL_init_def wf_authority_def)
qed

lemma find_slashes_here: "str_find_slashes (s @ ''//'' @ t) (length s) = length s"
  by (simp add: str_find_slashes_def)

lemma scheme_no_sep: "list_all scheme_char s \<Longrightarrow> c \<in> separators \<Longrightarrow> c \<notin> set s"
  using separator_not_alnum [of c] by (auto simp: list_all_iff scheme_char_def separators_def)

lemma parse_authority_text:
  assumes "wf_authority u" and "url_hasHost u" and "rest \<noteq> []" and "hd rest = CHR ''/''"
    and "length (url_scheme u @ ''://'' @ authority_text u @ rest) < npos"
    and "length (url_scheme u @ ''://'' @ authority_text u) \<le> q" and "length (url_scheme u @ ''://'' @ authority_text u) \<le> h"
  shows "parse_authority (url_scheme u @ ''://'' @ authority_text u @ rest) q h =
    Inr (length (url_scheme u @ ''://'' @ authority_text u),
      u\<lparr>url_path := [], url_fragment := [], url_arguments := [], url_hasQuery := False, url_hasFragment := False,
        url_pathIsStar := False\<rparr>)"
proof -
  define t where "t = url_scheme u @ ''://'' @ authority_text u @ rest"
  define n where "n = length (url_scheme u)"
  have sch: "url_scheme u \<noteq> []" "list_all scheme_char (url_scheme u)"
    using assms(1,2) by (simp_all add: wf_authority_def)
  have colon: "str_find CHR '':'' t 0 = n"
    using str_find_at [of 0 t "url_scheme u" "CHR '':''" "''//'' @ authority_text u @ rest"] scheme_no_sep [OF sch(2)]
    by (simp add: t_def n_def)
  have slashes: "str_find_slashes t (n + 1) = n + 1"
    using find_slashes_here [of "url_scheme u @ '':''" "authority_text u @ rest"] by (simp add: t_def n_def)
  obtain r where r: "rest = CHR ''/'' # r" using assms(3,4) by (cases rest) auto
  have path: "str_find CHR ''/'' t (n + 3) = n + 3 + length (authority_text u)"
    using str_find_at [of "n + 3" t "authority_text u" "CHR ''/''" r] authority_text_no_sep [OF assms(1,2)]
    by (simp add: t_def n_def r)
  have ne: "n \<noteq> npos" "n \<noteq> 0" "n + 1 \<noteq> npos" using assms(5) sch(1) by (simp_all add: n_def)
  have mn: "min (n + 3 + length (authority_text u)) (min q h) = n + 3 + length (authority_text u)"
    using assms(6,7) by (simp add: n_def)
  have parts: "take n t = url_scheme u" "\<not> length t < n + 3" "take (length (authority_text u)) (drop (n + 3) t) = authority_text u"
    by (simp_all add: t_def n_def)
  have len: "length (authority_text u) < npos" using assms(5) by simp
  note info = parse_authority_parts [OF assms(1,2) len]
  then obtain a v where "parse_userinfo (authority_text u) (URL_init\<lparr>url_scheme := url_scheme u, url_hasScheme := True\<rparr>) = Inr (a, v)"
    "parse_host a v = Inr (u\<lparr>url_path := [], url_fragment := [], url_arguments := [], url_hasQuery := False,
      url_hasFragment := False, url_pathIsStar := False\<rparr>)"
    by (auto split: prod.splits)
  note pv = this
  have three: "n + 1 + 2 = n + 3" by simp
  have "parse_authority t q h = Inr (n + 3 + length (authority_text u),
      u\<lparr>url_path := [], url_fragment := [], url_arguments := [], url_hasQuery := False, url_hasFragment := False,
        url_pathIsStar := False\<rparr>)"
    unfolding parse_authority_def Let_def colon slashes three path mn
    using ne sch(2) by (simp add: substr_def parts sz_sub_def pv del: One_nat_def add_Suc_right)
  then show ?thesis
    unfolding t_def n_def by (simp add: numeral_3_eq_3)
qed

lemma print_arguments_no_sep: "c \<in> separators \<Longrightarrow> c \<notin> {CHR ''&'', CHR ''=''} \<Longrightarrow> c \<notin> set (print_arguments args)"
  by (induction args rule: print_arguments.induct) auto

lemma print_arguments_Nil_iff [simp]: "print_arguments args = [] \<longleftrightarrow> args = []"
  by (cases args rule: print_arguments.cases) simp_all

text \<open>The text of a URL in its four parts.\<close>

definition front_text :: "URL \<Rightarrow> string" where
  "front_text u = (if url_hasHost u then url_scheme u @ ''://'' @ authority_text u else [])"

definition query_text :: "URL \<Rightarrow> string" where
  "query_text u = (if url_hasQuery u then CHR ''?'' # print_arguments (url_arguments u) else [])"

definition fragment_text :: "URL \<Rightarrow> string" where
  "fragment_text u = (if url_hasFragment u then CHR ''#'' # url_fragment u else [])"

lemma URL_text_parts:
  "wf_url u \<Longrightarrow> URL_text u = front_text u @ url_path u @ query_text u @ fragment_text u"
  by (auto simp: wf_url_def wf_authority_def URL_text_def front_text_def authority_text_def query_text_def fragment_text_def)

lemma parse_front:
  assumes "wf_url u" and "length (front_text u @ url_path u @ x) < npos"
    and "length (front_text u) \<le> q" and "length (front_text u) \<le> h"
  shows "(if hd (front_text u @ url_path u @ x) = CHR ''/'' then Inr (0, URL_init)
          else parse_authority (front_text u @ url_path u @ x) q h) =
    Inr (length (front_text u), u\<lparr>url_path := [], url_fragment := [], url_arguments := [], url_hasQuery := False,
      url_hasFragment := False, url_pathIsStar := False\<rparr>)"
proof (cases "url_hasHost u")
  case True
  have wf: "wf_authority u" and p: "url_path u @ x \<noteq> []" "hd (url_path u @ x) = CHR ''/''"
    using assms(1) by (simp_all add: wf_url_def)
  have f: "front_text u = url_scheme u @ ''://'' @ authority_text u" by (simp add: front_text_def True)
  have "hd (url_scheme u) \<in> set (url_scheme u)" "list_all scheme_char (url_scheme u)" "url_scheme u \<noteq> []"
    using wf True by (simp_all add: wf_authority_def)
  then have "hd (front_text u @ url_path u @ x) \<noteq> CHR ''/''"
    using scheme_no_sep [of "url_scheme u" "CHR ''/''"] unfolding f by (metis hd_append2 append_is_Nil_conv append.assoc separators_mem(3))
  then show ?thesis
    using parse_authority_text [OF wf True p, of q h] assms(2-4) unfolding f by simp
next
  case False
  then show ?thesis
    using assms(1) by (auto simp: wf_url_def wf_authority_def front_text_def URL_init_def)
qed

lemma front_no_sep:
  assumes "wf_url u" and "c \<in> {CHR ''?'', CHR ''#''}"
  shows "c \<notin> set (front_text u @ url_path u)"
proof -
  have "c \<notin> set (url_path u)" using assms by (auto simp: wf_url_def)
  moreover have "c \<notin> set (front_text u)"
  proof (cases "url_hasHost u")
    case True
    have wf: "wf_authority u" using assms(1) by (simp add: wf_url_def)
    then have "c \<notin> set (url_scheme u)" using scheme_no_sep [of "url_scheme u" c] True assms(2) by (auto simp: wf_authority_def)
    with True assms(2) authority_text_no_sep [OF wf True, of c] show ?thesis by (auto simp: front_text_def)
  qed (simp add: front_text_def)
  ultimately show ?thesis by simp
qed

lemma URL_parse_text:
  assumes "wf_url u" and "length (URL_text u) < npos"
  shows "URL_parse (URL_text u) = Inr u"
proof -
  define a where "a = front_text u @ url_path u"
  define t where "t = a @ query_text u @ fragment_text u"
  define q where "q = str_find CHR ''?'' t 0"
  define h where "h = str_find CHR ''#'' t 0"
  have t: "URL_text u = t" using URL_text_parts [OF assms(1)] by (simp add: t_def a_def)
  have len: "length t < npos" using assms(2) by (simp add: t)
  have nosep: "CHR ''?'' \<notin> set a" "CHR ''#'' \<notin> set a" using front_no_sep [OF assms(1)] by (simp_all add: a_def)
  have q: "q = (if url_hasQuery u then length a else npos)"
    using nosep(1) assms(1) str_find_at [of 0 t a "CHR ''?''"] str_find_none [of "CHR ''?''" t 0]
    by (auto simp: q_def t_def query_text_def fragment_text_def wf_url_def)
  have noq: "CHR ''#'' \<notin> set (query_text u)"
    using print_arguments_no_sep [of "CHR ''#''"] by (simp add: query_text_def)
  have h: "h = (if url_hasFragment u then length (a @ query_text u) else npos)"
    using nosep(2) noq str_find_at [of 0 t "a @ query_text u" "CHR ''#''"] str_find_none [of "CHR ''#''" t 0]
    by (auto simp: h_def t_def fragment_text_def)
  have fl: "length (front_text u) \<le> length a" "length a \<le> length t" by (simp_all add: a_def t_def)
  have mn: "min q h = (if url_hasQuery u \<or> url_hasFragment u then length a else npos)"
    using len fl(2) by (auto simp: q h query_text_def)
  have path: "take (sz_sub (min q h) (length (front_text u))) (drop (length (front_text u)) t) = url_path u"
    using len by (auto simp: mn sz_sub_def t_def a_def query_text_def fragment_text_def)
  have front: "(if hd t = CHR ''/'' then Inr (0, URL_init) else parse_authority t q h) =
    Inr (length (front_text u), u\<lparr>url_path := [], url_fragment := [], url_arguments := [], url_hasQuery := False,
      url_hasFragment := False, url_pathIsStar := False\<rparr>)"
    using parse_front [OF assms(1), of "query_text u @ fragment_text u" q h] len fl unfolding t_def a_def
    by (auto simp: q h a_def)
  have query: "rbind (substr t (q + 1) (sz_sub h (q + 1))) (\<lambda>queryString.
      if queryString = [] then Inl (Runtime_error ''Invalid URL: query not found after question mark'')
      else rbind (parse_query queryString []) (\<lambda>args. Inr (v\<lparr>url_hasQuery := True, url_arguments := args\<rparr>))) =
    Inr (v\<lparr>url_hasQuery := True, url_arguments := url_arguments u\<rparr>)" if "url_hasQuery u" for v
  proof -
    have "take (sz_sub h (q + 1)) (drop (q + 1) t) = print_arguments (url_arguments u)"
      using len that by (auto simp: q h sz_sub_def t_def query_text_def fragment_text_def)
    moreover have "\<not> length t < q + 1" using that by (simp add: q t_def query_text_def)
    moreover have "url_arguments u \<noteq> []" using assms(1) that by (simp add: wf_url_def)
    moreover have "parse_query (print_arguments (url_arguments u)) [] = Inr (url_arguments u)"
      using parse_query_arguments [of "url_arguments u" "[]"] assms(1) len that by (simp add: wf_url_def t_def query_text_def)
    ultimately show ?thesis by (simp add: substr_def del: One_nat_def add_Suc_right)
  qed
  have frag: "substr t (h + 1) npos = Inr (url_fragment u)" if "url_hasFragment u"
    using that len by (simp add: h substr_def t_def fragment_text_def)
  obtain p where "url_path u = CHR ''/'' # p" using assms(1) by (cases "url_path u") (auto simp: wf_url_def)
  then have "CHR ''/'' \<in> set t" by (simp add: t_def a_def)
  then have wf: "t \<noteq> []" "t \<noteq> ''*''" "CHR ''%'' \<notin> set (url_path u)" "\<not> length t < length (front_text u)"
    using assms(1) fl by (auto simp: wf_url_def)
  have np: "length (front_text u) \<noteq> npos" "q \<noteq> npos \<longleftrightarrow> url_hasQuery u" "h \<noteq> npos \<longleftrightarrow> url_hasFragment u"
    using len fl by (auto simp: q h t_def)
  have pathS: "substr t (length (front_text u)) (sz_sub (min q h) (length (front_text u))) = Inr (url_path u)"
    using wf(4) path by (simp add: substr_def)
  have eq: "\<not> url_hasQuery u \<Longrightarrow> url_arguments u = []" "\<not> url_hasFragment u \<Longrightarrow> url_fragment u = []" "\<not> url_pathIsStar u"
    using assms(1) by (simp_all add: wf_url_def)
  show ?thesis
    unfolding t URL_parse_def parse_tail_def Let_def q_def [symmetric] h_def [symmetric] front np(2,3)
    using wf np(1) eq
    by (cases "url_hasQuery u"; cases "url_hasFragment u")
       (simp_all add: query frag pathS del: One_nat_def add_Suc_right)
qed

text \<open>C16: URL round trip: parsing the printed text of a well-formed URL gives the URL back, every component included, and the
  printed line is that text with a line feed.\<close>

theorem url_roundtrip:
  assumes "wf_url u" and "length (printURL u) \<le> npos"
  shows "URL_parse (butlast (printURL u)) = Inr u"
  using assms by (simp add: printURL_def URL_parse_text)

theorem url_roundtrip_witness:
  "URL_parse ''http://me:pw@host:8080/a/b?x=%2F&y=1#top'' = Inr (URL_init\<lparr>url_scheme := ''http'', url_hasScheme := True,
     url_user := ''me'', url_hasUser := True, url_passwd := ''pw'', url_hasPasswd := True, url_host := ''host'', url_hasHost := True,
     url_port := 8080, url_hasPort := True, url_path := ''/a/b'', url_arguments := [(''x'', ''/''), (''y'', ''1'')],
     url_hasQuery := True, url_fragment := ''top'', url_hasFragment := True\<rparr>)"
proof -
  define u where "u = URL_init\<lparr>url_scheme := ''http'', url_hasScheme := True,
     url_user := ''me'', url_hasUser := True, url_passwd := ''pw'', url_hasPasswd := True, url_host := ''host'', url_hasHost := True,
     url_port := 8080, url_hasPort := True, url_path := ''/a/b'', url_arguments := [(''x'', ''/''), (''y'', ''1'')],
     url_hasQuery := True, url_fragment := ''top'', url_hasFragment := True\<rparr>"
  have shown: "URL_text u = ''http://me:pw@host:8080/a/b?x=%2F&y=1#top''"
    by (simp add: u_def URL_text_def URL_init_def percentEncode_def encode_char_def is_alnum_def upper_digit_def dec_string_def
        digits_of.simps digit_char_def char_of_def bit_simps)
  have "wf_url u"
    by (simp add: u_def wf_url_def wf_authority_def URL_init_def separators_def scheme_char_def is_alnum_def)
  then have "URL_parse (butlast (printURL u)) = Inr u"
    by (rule url_roundtrip) (simp add: printURL_def shown npos_def)
  then have "URL_parse ''http://me:pw@host:8080/a/b?x=%2F&y=1#top'' = Inr u" by (simp add: printURL_def shown)
  then show ?thesis unfolding u_def .
qed

section \<open>Errors of the parser\<close>

definition in_range :: "'a result \<Rightarrow> bool" where
  "in_range r \<longleftrightarrow> r \<noteq> Inl Out_of_range"

lemma in_range_simps [simp]: "in_range (Inr x)" "in_range (Inl (Runtime_error m))"
  by (simp_all add: in_range_def)

lemma in_range_rbind: "in_range m \<Longrightarrow> (\<And>x. m = Inr x \<Longrightarrow> in_range (f x)) \<Longrightarrow> in_range (rbind m f)"
  by (cases m) (auto simp: in_range_def)

lemma in_range_charToNumber: "in_range (charToNumber c)"
  by (simp add: charToNumber_def Let_def)

lemma in_range_percentDecode: "in_range (percentDecode s)"
proof (induction s rule: percentDecode.induct)
  case (2 c s)
  show ?case
    by (subst percentDecode.simps)
       (use 2 in \<open>auto simp del: percentDecode.simps split: list.split intro!: in_range_rbind in_range_charToNumber\<close>)
qed simp

lemma in_range_substr: "pos \<le> length s \<Longrightarrow> in_range (substr s pos n)"
  by (simp add: substr_def in_range_def)

lemmas in_range_intros = in_range_rbind in_range_percentDecode in_range_substr

lemma in_range_parse_query: "in_range (parse_query qs args)"
proof (induction qs args rule: parse_query.induct)
  case (1 qs args)
  then show ?case
    by (subst parse_query.simps) (auto simp: Let_def Suc_le_eq dest: str_find_bound intro!: in_range_intros)
qed

lemma in_range_parse_userinfo: "in_range (parse_userinfo a u)"
  by (auto simp: parse_userinfo_def Let_def Suc_le_eq dest: str_rfind_bound split: prod.splits intro!: in_range_intros)

lemma in_range_parse_host: "in_range (parse_host a u)"
proof -
  have "in_range (parse_bracket a u)"
    by (auto simp: parse_bracket_def Let_def intro!: in_range_intros)
  moreover have "in_range (parse_hostport a u)" for a u
    by (auto simp: parse_hostport_def Let_def Suc_le_eq dest: str_rfind_bound intro!: in_range_intros)
  ultimately show ?thesis
    by (auto simp: parse_host_def split: prod.splits intro!: in_range_intros)
qed

lemma find_slashes_bound: "find_slashes s = Some n \<Longrightarrow> n + 2 \<le> length s"
  by (induction s arbitrary: n rule: find_slashes.induct) (auto split: if_splits)

lemma str_find_slashes_bound: "str_find_slashes s k \<noteq> npos \<Longrightarrow> str_find_slashes s k + 2 \<le> length s"
  by (auto simp: str_find_slashes_def dest: find_slashes_bound split: option.splits)

lemma parse_authority_range:
  "in_range (parse_authority s q h)"
  "parse_authority s q h = Inr (pb, u) \<Longrightarrow> pb \<noteq> npos \<Longrightarrow> pb \<le> length s"
proof -
  show "in_range (parse_authority s q h)"
  proof -
    have bound: "Suc (Suc k) \<le> length s" if "k = str_find_slashes s n" "k \<noteq> npos" for k n
      using str_find_slashes_bound that by simp
    show ?thesis
      unfolding parse_authority_def Let_def
      by (auto split: prod.splits intro!: in_range_intros in_range_parse_userinfo in_range_parse_host intro: bound)
  qed
  show "parse_authority s q h = Inr (pb, u) \<Longrightarrow> pb \<noteq> npos \<Longrightarrow> pb \<le> length s"
    by (auto simp: parse_authority_def Let_def split: if_splits prod.splits intro!: less_imp_le str_find_less)
qed

lemma parse_query_extends: "parse_query qs args = Inr r \<Longrightarrow> length args + (if qs = [] then 0 else 1) \<le> length r"
proof (induction "length qs" arbitrary: qs args rule: less_induct)
  case less
  show ?case
  proof (cases "qs = []")
    case True
    with less.prems show ?thesis by (simp add: parse_query.simps)
  next
    case False
    define n where "n = str_find CHR ''&'' qs 0"
    define rest where "rest = (if n = npos then [] else drop (n + 1) qs)"
    obtain one two where rec: "parse_query rest (args @ [(one, two)]) = Inr r"
      using less.prems [unfolded parse_query.simps [of qs args] Let_def, folded n_def, folded rest_def] False
      by (auto split: if_splits)
    have "length rest < length qs" using False by (auto simp: rest_def)
    from less.hyps [OF this rec] show ?thesis by simp
  qed
qed

definition no_query :: "URL \<Rightarrow> bool" where
  "no_query u \<longleftrightarrow> \<not> url_hasQuery u \<and> url_arguments u = []"

lemma no_query_updates:
  "parse_userinfo a u = Inr (b, v) \<Longrightarrow> no_query u \<Longrightarrow> no_query v"
  "parse_host a u = Inr v \<Longrightarrow> no_query u \<Longrightarrow> no_query v"
  by (auto simp: parse_userinfo_def parse_host_def parse_bracket_def parse_hostport_def no_query_def Let_def split: if_splits)

lemma parse_authority_no_query: "parse_authority s q h = Inr (pb, u) \<Longrightarrow> no_query u"
  unfolding parse_authority_def Let_def
  by (auto split: if_splits prod.splits elim!: no_query_updates) (auto simp: no_query_def URL_init_def)

lemma parse_tail_range:
  assumes "pb = npos \<or> pb \<le> length s"
  shows "in_range (parse_tail s (str_find c s 0) (str_find d s 0) pb u)"
  using assms unfolding parse_tail_def Let_def
  by (auto simp: Suc_le_eq intro!: in_range_intros in_range_parse_query)

lemma parse_tail_query:
  assumes "parse_tail s q h pb u = Inr v" and "no_query u"
  shows "url_hasQuery v \<longleftrightarrow> url_arguments v \<noteq> []"
  using assms unfolding parse_tail_def Let_def
  by (auto simp: no_query_def split: if_splits dest!: parse_query_extends)


section \<open>Where the parser goes wrong\<close>

lemmas url_eval = URL_parse_def parse_tail_def parse_authority_def parse_userinfo_def parse_host_def parse_bracket_def
  parse_hostport_def parse_port_def URL_init_def str_find_def str_rfind_def str_find_slashes_def substr_def sz_sub_def npos_def
  scheme_char_def is_alnum_def parse_query.simps

text \<open>A slash in the query is taken for the start of the path when the path is empty; the length of the path wraps around. A
  question mark in the fragment starts a query. The host of an IPv6 address loses its closing bracket.\<close>

lemma url_path_from_query:
  "map_sum id url_path (URL_parse ''http://h?a=/b'') = Inr ''/b''"
  by (simp add: url_eval)

lemma url_query_from_fragment:
  "map_sum id url_arguments (URL_parse ''/p#f?b=c'') = Inr [(''b'', ''c'')]"
  by (simp add: url_eval)

lemma url_ipv6_host:
  "map_sum id url_host (URL_parse ''http://[::1]/'') = Inr ''[::1''"
  by (simp add: url_eval)

end
