(* ===== verification/Http_Message.thy ===== *)
theory Http_Message
  imports Url
begin

text \<open>
  HTTP messages of the sensor server (pcm-sensor-server.cpp): methods, header properties, header parsing, requests as the server
  reads them from a connection and responses as it writes them. The socket stream is modelled like a string stream over all the
  characters the client sends before it closes the connection or times out: \<^verbatim>\<open>getline\<close> and \<^verbatim>\<open>peek\<close> on a stream that is no longer
  good fail and leave their target unchanged, which the reading loops depend on. Loops that end only when such a condition is
  met are partial functions; \<open>None\<close> is a loop that does not end. The table of headers is an association list in the order of
  insertion; the order in which a response lists them is that of an unordered map and is a parameter of the writer.
\<close>

section \<open>Streams and numbers\<close>

definition ss_good :: "istream \<Rightarrow> bool" where
  "ss_good st \<longleftrightarrow> \<not> is_fail st \<and> \<not> is_eof st"

definition ss_getline :: "string \<Rightarrow> istream \<Rightarrow> string \<times> istream" where
  "ss_getline old st =
     (if \<not> ss_good st then (old, st\<lparr>is_fail := True\<rparr>)
      else case dropWhile (\<lambda>c. c \<noteq> CHR 0x0A) (is_buf st) of
          [] \<Rightarrow> (is_buf st, st\<lparr>is_buf := [], is_eof := True, is_fail := (is_buf st = [])\<rparr>)
        | _ # r \<Rightarrow> (takeWhile (\<lambda>c. c \<noteq> CHR 0x0A) (is_buf st), st\<lparr>is_buf := r\<rparr>))"

definition ss_peek :: "istream \<Rightarrow> char option \<times> istream" where
  "ss_peek st =
     (if \<not> ss_good st then (None, st\<lparr>is_fail := True\<rparr>)
      else case is_buf st of [] \<Rightarrow> (None, st\<lparr>is_eof := True\<rparr>) | c # _ \<Rightarrow> (Some c, st))"

text \<open>\<^verbatim>\<open>in.read\<close> into a string of the given length filled with zeros.\<close>

definition ss_read :: "nat \<Rightarrow> istream \<Rightarrow> string \<times> istream" where
  "ss_read n st =
     (if \<not> ss_good st then (replicate n (CHR 0x00), st\<lparr>is_fail := True\<rparr>)
      else let got = take n (is_buf st); st1 = st\<lparr>is_buf := drop n (is_buf st)\<rparr>
           in (got @ replicate (n - length got) (CHR 0x00),
               if length got < n then st1\<lparr>is_eof := True, is_fail := True\<rparr> else st1))"

definition stoll :: "nat \<Rightarrow> string \<Rightarrow> int result" where
  "stoll b s =
     (let (neg, s1) = num_sign (dropWhile is_space s);
          s2 = (if b = 16 \<and> length s1 > 2 \<and> s1 ! 0 = CHR ''0'' \<and> s1 ! 1 \<in> {CHR ''x'', CHR ''X''} \<and> is_digit_of 16 (s1 ! 2)
                then drop 2 s1 else s1);
          ds = takeWhile (is_digit_of b) s2; v = int (digits_value b ds)
      in if ds = [] then Inl (Invalid_argument ''stoll'')
         else if (if neg then 2 ^ 63 < v else 2 ^ 63 - 1 < v) then Inl Out_of_range
         else Inr (if neg then - v else v))"

text \<open>Conversion of a \<^verbatim>\<open>long long\<close> to \<^verbatim>\<open>size_t\<close>, and the limit above which constructing a string throws.\<close>

definition to_size :: "int \<Rightarrow> nat" where
  "to_size i = nat (i mod 2 ^ 64)"

definition string_max_size :: nat where
  "string_max_size = 2 ^ 63 - 1"

section \<open>Methods, protocols and header properties\<close>

datatype HTTPRequestMethod = GET | HEAD | POST | PUT | HTTP_DELETE | CONNECT | OPTIONS | TRACE | PATCH

datatype HTTPProtocol = InvalidProtocol | HTTP_0_9 | HTTP_1_0 | HTTP_1_1 | HTTP_2_0

datatype HTTPRequestHasBody = Body_No | Body_Optional | Body_Required

definition httpMethodProperties :: "(HTTPRequestMethod \<times> string \<times> HTTPRequestHasBody \<times> bool) list" where
  "httpMethodProperties =
    [(GET, ''GET'', Body_No, True), (HEAD, ''HEAD'', Body_No, False), (POST, ''POST'', Body_Required, True),
     (PUT, ''PUT'', Body_Required, True), (HTTP_DELETE, ''DELETE'', Body_No, True), (CONNECT, ''CONNECT'', Body_Required, True),
     (OPTIONS, ''OPTIONS'', Body_Optional, True), (TRACE, ''TRACE'', Body_No, True), (PATCH, ''PATCH'', Body_Required, True)]"

definition getMethodAsEnum :: "string \<Rightarrow> HTTPRequestMethod result" where
  "getMethodAsEnum rms =
     (case find (\<lambda>p. fst (snd p) = rms) httpMethodProperties of
        Some p \<Rightarrow> Inr (fst p)
      | None \<Rightarrow> Inl (Runtime_error ''HTTPRequestMethod as string not found.''))"

definition method_property :: "HTTPRequestMethod \<Rightarrow> (string \<times> HTTPRequestHasBody \<times> bool) result" where
  "method_property rme =
     (case find (\<lambda>p. fst p = rme) httpMethodProperties of
        Some p \<Rightarrow> Inr (snd p)
      | None \<Rightarrow> Inl (Runtime_error ''HTTPRequestMethod as enum not found.''))"

definition getMethodAsString :: "HTTPRequestMethod \<Rightarrow> string result" where
  "getMethodAsString rme = rbind (method_property rme) (\<lambda>(n, b, r). Inr n)"

definition requestHasBody :: "HTTPRequestMethod \<Rightarrow> HTTPRequestHasBody result" where
  "requestHasBody rme = rbind (method_property rme) (\<lambda>(n, b, r). Inr b)"

definition responseHasBody :: "HTTPRequestMethod \<Rightarrow> bool result" where
  "responseHasBody rme = rbind (method_property rme) (\<lambda>(n, b, r). Inr r)"

definition protocol_map :: "(HTTPProtocol \<times> string) list" where
  "protocol_map = [(HTTP_0_9, ''HTTP/0.9''), (HTTP_1_0, ''HTTP/1.0''), (HTTP_1_1, ''HTTP/1.1''), (HTTP_2_0, ''HTTP/2.0'')]"

datatype HeaderType =
    HT_ServerSet | HT_Invalid | HT_Unspecified | HT_String | HT_Integer | HT_Float | HT_Date | HT_Range
  | HT_True | HT_Email | HT_ETag | HT_DateOrETag | HT_Parameters | HT_Url | HT_HostPort | HT_ProtoHostPort
  | HT_DateOrSeconds | HT_NoCache | HT_IP | HT_Character | HT_OnOff | HT_ContainsOtherHeaders | HT_StarOrFQURL | HT_CustomHeader
  | HT_HeaderType_Spare

definition httpHeaderProperties :: "(string \<times> HeaderType \<times> bool \<times> bool \<times> char) list" where
  "httpHeaderProperties =
    [(''Accept'', HT_String, True, True, CHR '',''),
     (''Accept-Charset'', HT_String, True, True, CHR '',''),
     (''Accept-Encoding'', HT_String, True, True, CHR '',''),
     (''Accept-Language'', HT_String, True, True, CHR '',''),
     (''Accept-Ranges'', HT_String, False, False, CHR '',''),
     (''Access-Control-Allow-Credentials'', HT_True, False, False, CHR '',''),
     (''Access-Control-Allow-Headers'', HT_String, False, True, CHR '',''),
     (''Access-Control-Allow-Methods'', HT_String, False, True, CHR '',''),
     (''Access-Control-Allow-Origin'', HT_StarOrFQURL, False, False, CHR '',''),
     (''Access-Control-Expose-Headers'', HT_String, False, True, CHR '',''),
     (''Access-Control-Max-Age'', HT_Integer, False, False, CHR '',''),
     (''Access-Control-Request-Headers'', HT_String, False, True, CHR '',''),
     (''Access-Control-Request-Method'', HT_String, False, False, CHR '',''),
     (''Age'', HT_Integer, False, False, CHR '',''),
     (''Allow'', HT_String, False, True, CHR '',''),
     (''Authorization'', HT_String, False, False, CHR '',''),
     (''Cache-Control'', HT_String, False, True, CHR '',''),
     (''Connection'', HT_String, False, False, CHR '',''),
     (''Content-Disposition'', HT_String, False, False, CHR '',''),
     (''Content-Encoding'', HT_String, False, True, CHR '',''),
     (''Content-Language'', HT_String, False, True, CHR '',''),
     (''Content-Length'', HT_Integer, False, False, CHR '',''),
     (''Content-Location'', HT_Url, False, False, CHR '',''),
     (''Content-Range'', HT_Range, False, True, CHR '',''),
     (''Content-Security-Policy'', HT_String, False, False, CHR '',''),
     (''Content-Security-Policy-Report-Only'', HT_String, False, False, CHR '',''),
     (''Content-Type'', HT_String, False, False, CHR '',''),
     (''Cookie'', HT_Parameters, False, False, CHR '',''),
     (''Cookie2'', HT_String, False, False, CHR '',''),
     (''DNT'', HT_Integer, False, False, CHR '',''),
     (''Date'', HT_Date, False, False, CHR '',''),
     (''ETag'', HT_ETag, False, False, CHR '',''),
     (''Expect'', HT_String, False, False, CHR '',''),
     (''Expires'', HT_Date, False, False, CHR '',''),
     (''Forwarded'', HT_String, False, False, CHR '',''),
     (''From'', HT_Email, False, False, CHR '',''),
     (''Host'', HT_HostPort, False, False, CHR '',''),
     (''If-Match'', HT_ETag, False, True, CHR '',''),
     (''If-Modified-Since'', HT_Date, False, False, CHR '',''),
     (''If-None-Match'', HT_ETag, False, True, CHR '',''),
     (''If-Range'', HT_DateOrETag, False, False, CHR '',''),
     (''If-Unmodified-Since'', HT_Date, False, False, CHR '',''),
     (''Keep-Alive'', HT_Parameters, False, True, CHR '',''),
     (''Large-Allocation'', HT_Integer, False, False, CHR '',''),
     (''Last-Modified'', HT_Date, False, False, CHR '',''),
     (''Location'', HT_Url, False, False, CHR '',''),
     (''Origin'', HT_ProtoHostPort, False, False, CHR '',''),
     (''Pragma'', HT_NoCache, False, False, CHR '',''),
     (''Proxy-Authenticate'', HT_String, False, False, CHR '',''),
     (''Proxy-Authorization'', HT_String, False, False, CHR '',''),
     (''Public-Key-Pins'', HT_Parameters, False, False, CHR '',''),
     (''Public-Key-Pins-Report-Only'', HT_Parameters, False, False, CHR '',''),
     (''Range'', HT_Range, False, True, CHR '',''),
     (''Referer'', HT_Url, False, False, CHR '',''),
     (''Referrer-Policy'', HT_String, False, False, CHR '',''),
     (''Retry-After'', HT_DateOrSeconds, False, False, CHR '',''),
     (''Server'', HT_String, False, False, CHR '',''),
     (''Set-Cookie'', HT_Parameters, False, False, CHR '',''),
     (''Set-Cookie2'', HT_Parameters, False, False, CHR '',''),
     (''SourceMap'', HT_Url, False, False, CHR '',''),
     (''Strict-Transport-Security'', HT_Parameters, False, False, CHR '',''),
     (''TE'', HT_String, True, True, CHR '',''),
     (''Tk'', HT_Character, False, False, CHR '',''),
     (''Trailer'', HT_ContainsOtherHeaders, False, False, CHR '',''),
     (''Transfer-Encoding'', HT_String, False, True, CHR '',''),
     (''Upgrade-Insecure-Requests'', HT_Integer, False, False, CHR '',''),
     (''User-Agent'', HT_String, False, False, CHR '',''),
     (''Vary'', HT_String, False, True, CHR '',''),
     (''Via'', HT_String, False, True, CHR '',''),
     (''WWW-Authenticate'', HT_String, False, False, CHR '',''),
     (''Warning'', HT_String, False, False, CHR '',''),
     (''X-Content-Type-Options'', HT_String, False, False, CHR '',''),
     (''X-DNS-Prefetch-Control'', HT_OnOff, False, False, CHR '',''),
     (''X-Forwarded-For'', HT_IP, False, True, CHR '',''),
     (''X-Forwarded-Host'', HT_String, False, False, CHR '',''),
     (''X-Forwarded-Proto'', HT_String, False, False, CHR '',''),
     (''X-Frame-Options'', HT_String, False, False, CHR '',''),
     (''X-XSS-Protection'', HT_String, False, False, CHR '','')]"

definition headerType :: "string \<Rightarrow> HeaderType" where
  "headerType str = (case find (\<lambda>p. fst p = str) httpHeaderProperties of Some p \<Rightarrow> fst (snd p) | None \<Rightarrow> HT_CustomHeader)"

definition listSeparatorChar :: "string \<Rightarrow> char" where
  "listSeparatorChar headerName =
     (case find (\<lambda>p. fst p = headerName) httpHeaderProperties of Some (n, t, w, l, c) \<Rightarrow> c | None \<Rightarrow> CHR '','')"

definition response_map :: "(nat \<times> string) list" where
  "response_map =
    [(100, ''Continue''),
     (101, ''Switching Protocols''),
     (102, ''Processing''),
     (200, ''OK''),
     (201, ''Created''),
     (202, ''Accepted''),
     (203, ''Non-authorative Information''),
     (204, ''No Content''),
     (205, ''Reset Content''),
     (206, ''Partial Content''),
     (207, ''Multi-Status''),
     (208, ''Already Reported''),
     (226, ''IM Used''),
     (300, ''Multiple Choices''),
     (301, ''Moved Permanently''),
     (302, ''Found''),
     (303, ''See Other''),
     (304, ''Not Modified''),
     (305, ''Use Proxy''),
     (307, ''Temporary Redirect''),
     (308, ''Permanent Redirect''),
     (400, ''Bad Request''),
     (401, ''Unauthorized''),
     (402, ''Payment Required''),
     (403, ''Forbidden''),
     (404, ''Not Found''),
     (405, ''Method Not Allowed''),
     (406, ''Not Acceptable''),
     (407, ''Proxy Authentication Required''),
     (408, ''Request Timeout''),
     (409, ''Conflict''),
     (410, ''Gone''),
     (411, ''Length Required''),
     (412, ''Precondition Failed''),
     (413, ''Payload Too Large''),
     (414, ''Request-URI Too Long''),
     (415, ''Unsupported Media Type''),
     (416, ''Request Range Not Satisfiable''),
     (417, ''Expectation Failed''),
     (418, ''I'' @ [CHR 0x27] @ ''m a teapot''),
     (421, ''Misdirected Request''),
     (422, ''Unprocessable Entity''),
     (423, ''Locked''),
     (424, ''Failed Dependency''),
     (426, ''Upgrade Required''),
     (428, ''Precondition Required''),
     (429, ''Too Many Requests''),
     (431, ''Request Header Fields Too Large''),
     (444, ''Connection Closed Without Response''),
     (451, ''Unavailable For Legal Reasons''),
     (499, ''Client Closed Request''),
     (500, ''Internal Server Error''),
     (501, ''Not Implemented''),
     (502, ''Bad Gateway''),
     (503, ''Service Unavailable''),
     (504, ''Gateway Timeout''),
     (505, ''HTTP Version Not Supported''),
     (506, ''Variant Also Negotiates''),
     (507, ''Insufficient Storage''),
     (508, ''Loop Detected''),
     (510, ''Not Extended''),
     (511, ''Network Authentication Required''),
     (599, ''Network Connect Timeout Error'')]"

section \<open>Headers\<close>

record HTTPHeader =
  hdr_name :: string
  hdr_value :: string
  hdr_type :: HeaderType

definition mk_header :: "string \<Rightarrow> string \<Rightarrow> HTTPHeader" where
  "mk_header n v = \<lparr>hdr_name = n, hdr_value = v, hdr_type = HT_ServerSet\<rparr>"

definition HTTPHeader_parse :: "string \<Rightarrow> HTTPHeader" where
  "HTTPHeader_parse header =
     (if CHR '':'' \<notin> set header then \<lparr>hdr_name = [], hdr_value = [], hdr_type = HT_Invalid\<rparr>
      else let name = filter (\<lambda>c. c \<noteq> CHR '' '') (takeWhile (\<lambda>c. c \<noteq> CHR '':'') header);
               val = tl (dropWhile (\<lambda>c. c \<noteq> CHR '':'') header);
               ty = headerType name
           in \<lparr>hdr_name = name, hdr_value = val,
               hdr_type = (if ty \<noteq> HT_Invalid \<and> odd (count_list val (CHR 0x22)) then HT_Invalid else ty)\<rparr>)"

fun split_fields :: "char \<Rightarrow> string \<Rightarrow> string list" where
  "split_fields d [] = [[]]"
| "split_fields d (c # s) =
     (if c = d then [] # split_fields d s
      else case split_fields d s of f # fs \<Rightarrow> (c # f) # fs | [] \<Rightarrow> [[c]])"

definition trim_blanks :: "string \<Rightarrow> string" where
  "trim_blanks s = rev (dropWhile (\<lambda>c. c = CHR '' '') (rev (dropWhile (\<lambda>c. c = CHR '' '') s)))"

definition headerValueAsList :: "HTTPHeader \<Rightarrow> string list" where
  "headerValueAsList h = map trim_blanks (split_fields (listSeparatorChar (hdr_name h)) (hdr_value h))"

definition headerValueAsNumber :: "HTTPHeader \<Rightarrow> nat result" where
  "headerValueAsNumber h = rbind (stoll 10 (hdr_value h)) (\<lambda>i. Inr (to_size i))"

section \<open>Messages\<close>

record http_message =
  msg_protocol :: HTTPProtocol
  msg_headers :: "(string \<times> HTTPHeader) list"
  msg_body :: string
  msg_initialized :: bool

record http_request = http_message +
  req_method :: HTTPRequestMethod
  req_url :: URL

record http_response = http_message +
  resp_code :: nat

definition HTTPRequest :: http_request where
  "HTTPRequest = \<lparr>msg_protocol = InvalidProtocol, msg_headers = [], msg_body = [], msg_initialized = False, req_method = GET,
     req_url = URL_init\<rparr>"

definition HTTPResponse :: http_response where
  "HTTPResponse = \<lparr>msg_protocol = InvalidProtocol, msg_headers = [], msg_body = [], msg_initialized = False, resp_code = 200\<rparr>"

definition hasHeader :: "string \<Rightarrow> 'a http_message_scheme \<Rightarrow> bool" where
  "hasHeader n m = (map_of (msg_headers m) n \<noteq> None)"

definition getHeader :: "string \<Rightarrow> 'a http_message_scheme \<Rightarrow> HTTPHeader result" where
  "getHeader n m =
     (case map_of (msg_headers m) n of Some h \<Rightarrow> Inr h | None \<Rightarrow> Inl (Runtime_error ''HTTPMessage::getHeader: Header not found.''))"

definition addHeader :: "HTTPHeader \<Rightarrow> 'a http_message_scheme \<Rightarrow> 'a http_message_scheme result" where
  "addHeader hh m =
     (if hasHeader (hdr_name hh) m then Inl (Runtime_error ''Header already exists in the headerlist'')
      else Inr (m\<lparr>msg_headers := msg_headers m @ [(hdr_name hh, hh)]\<rparr>))"

definition setProtocol :: "string \<Rightarrow> 'a http_message_scheme \<Rightarrow> 'a http_message_scheme result" where
  "setProtocol s m =
     (case find (\<lambda>p. snd p = s) protocol_map of
        Some p \<Rightarrow> Inr (m\<lparr>msg_protocol := fst p\<rparr>)
      | None \<Rightarrow> Inl (Runtime_error ''Protocol is not supported''))"

definition setProtocol_enum :: "HTTPProtocol \<Rightarrow> 'a http_message_scheme \<Rightarrow> 'a http_message_scheme result" where
  "setProtocol_enum p m =
     (if p = InvalidProtocol then Inl (Runtime_error ''Protocol enum value out of bounds'') else Inr (m\<lparr>msg_protocol := p\<rparr>))"

definition protocolAsString :: "'a http_message_scheme \<Rightarrow> string result" where
  "protocolAsString m = (case map_of protocol_map (msg_protocol m) of Some s \<Rightarrow> Inr s | None \<Rightarrow> Inl Out_of_range)"

definition responseCodeAsString :: "http_response \<Rightarrow> string result" where
  "responseCodeAsString m = (case map_of response_map (resp_code m) of Some s \<Rightarrow> Inr s | None \<Rightarrow> Inl Out_of_range)"

section \<open>White space\<close>

text \<open>\<^verbatim>\<open>compressLWSAndRemoveCR\<close>, loop by loop: \<open>lws_run\<close> is the inner \<^verbatim>\<open>while\<close>, \<open>lws_loop\<close> the \<^verbatim>\<open>for\<close>.\<close>

function lws_run :: "string \<Rightarrow> nat \<Rightarrow> nat" where
  "lws_run line pos =
     (if pos + 1 < length line then if is_space (line ! (pos + 1)) then lws_run line (pos + 1) else pos + 1 else pos)"
  by pat_completeness auto
termination by (relation "measure (\<lambda>(line, pos). length line - pos)") auto

declare lws_run.simps [simp del]

lemma lws_run_ge: "pos \<le> lws_run line pos"
proof (induction line pos rule: lws_run.induct)
  case (1 line pos)
  then show ?case by (subst lws_run.simps) (auto split: if_splits)
qed

function lws_loop :: "string \<Rightarrow> nat \<Rightarrow> nat \<Rightarrow> string" where
  "lws_loop line pos fin =
     (if pos < fin then
        if is_space (line ! pos) then
          let stop = lws_run line pos in
          if stop - pos > 1 then lws_loop (take (pos + 1) line @ drop stop line) (pos + 2) (fin - (stop - pos - 1))
          else lws_loop line (stop + 1) fin
        else lws_loop line (pos + 1) fin
      else line)"
  by pat_completeness auto
termination
proof (relation "measure (\<lambda>(line, pos, fin). fin - pos)", goal_cases)
  case (3 line pos fin stop)
  then show ?case using lws_run_ge [of pos line] by auto
qed auto

declare lws_loop.simps [simp del]

definition compressLWSAndRemoveCR :: "string \<Rightarrow> string" where
  "compressLWSAndRemoveCR line =
     (let l = lws_loop line 0 (length line) in if l \<noteq> [] \<and> last l = CHR 0x0D then butlast l else l)"

section \<open>Reading a request\<close>

definition remove_first :: "char \<Rightarrow> string \<Rightarrow> string" where
  "remove_first c s = takeWhile (\<lambda>x. x \<noteq> c) s @ tl (dropWhile (\<lambda>x. x \<noteq> c) s)"

text \<open>The request line, split at its two spaces. The fields of the request are set one after the other, so that the protocol
  survives an error in the method or the URL.\<close>

definition split_request_line :: "string \<Rightarrow> (string \<times> string \<times> string) result" where
  "split_request_line l =
     (if count_list l (CHR '' '') = 2 then
        (let meth = takeWhile (\<lambda>c. c \<noteq> CHR '' '') l; r = tl (dropWhile (\<lambda>c. c \<noteq> CHR '' '') l);
             url = takeWhile (\<lambda>c. c \<noteq> CHR '' '') r; protocol = tl (dropWhile (\<lambda>c. c \<noteq> CHR '' '') r)
         in if meth = [] then Inl (Runtime_error ''Not a valid request string: Method is empty'')
            else if url = [] then Inl (Runtime_error ''Not a valid request string: URL is empty'')
            else if protocol = [] then Inl (Runtime_error ''Not a valid request string: Protocol is empty'')
            else Inr (meth, url, protocol))
      else Inl (Runtime_error ''Not a valid request string: Not exactly 3 space separated tokens''))"

definition read_request_line :: "istream \<Rightarrow> http_request \<Rightarrow> http_request \<times> istream \<times> unit result" where
  "read_request_line st m =
     (let (requestLine, st) = ss_getline [] st in
      if is_fail st then (m, st, Inl (Runtime_error ''Could not read from socket''))
      else case split_request_line (remove_first (CHR 0x0D) (remove_first (CHR 0x0A) requestLine)) of
          Inl e \<Rightarrow> (m, st, Inl e)
        | Inr (meth, url, protocol) \<Rightarrow>
            (case setProtocol protocol m of
               Inl e \<Rightarrow> (m, st, Inl e)
             | Inr m1 \<Rightarrow>
                 (case getMethodAsEnum meth of
                    Inl e \<Rightarrow> (m1, st, Inl e)
                  | Inr me \<Rightarrow>
                      (let m2 = m1\<lparr>req_method := me\<rparr> in
                       case URL_parse url of
                         Inl e \<Rightarrow> (m2, st, Inl e)
                       | Inr u \<Rightarrow> (m2\<lparr>req_url := u, msg_initialized := True\<rparr>, st, Inr ())))))"

partial_function (option) read_headers ::
  "string \<Rightarrow> string \<Rightarrow> istream \<Rightarrow> http_request \<Rightarrow> (http_request \<times> istream \<times> unit result) option" where
  "read_headers line concatLine st m =
     (let (line0, st1) = ss_getline line st; line1 = compressLWSAndRemoveCR line0; concatLine1 = concatLine @ line1 in
      if concatLine1 = [] then Some (m, st1, Inr ())
      else let (p1, st2) = ss_peek st1; (p2, st3) = ss_peek st2 in
        if p1 = Some (CHR '' '') then read_headers line1 concatLine1 st2 m
        else if p2 = Some (CHR 0x09) then read_headers line1 concatLine1 st3 m
        else let hh = HTTPHeader_parse concatLine1 in
          if hdr_type hh = HT_Invalid then Some (m, st3, Inl (Runtime_error ''Bad Request received''))
          else case addHeader hh m of
              Inl e \<Rightarrow> Some (m, st3, Inl e)
            | Inr m1 \<Rightarrow> read_headers line1 [] st3 m1)"

text \<open>A body sent in chunks.\<close>

partial_function (option) read_chunks :: "string \<Rightarrow> string \<Rightarrow> istream \<Rightarrow> (string \<times> istream) result option" where
  "read_chunks chunkHeader data st =
     (if chunkHeader \<noteq> [] \<and> hd chunkHeader = CHR ''0'' then Some (Inr (data, st))
      else case stoll 16 chunkHeader of
          Inl e \<Rightarrow> Some (Inl e)
        | Inr n \<Rightarrow>
            if string_max_size < to_size n then Some (Inl Length_error)
            else let (chunk, st1) = ss_read (to_size n) st; (h1, st2) = ss_getline chunkHeader st1;
                     (h2, st3) = ss_getline h1 st2; (h3, st4) = ss_getline h2 st3
                 in read_chunks h3 (data @ chunk) st4)"

definition readChunkedData :: "istream \<Rightarrow> (string \<times> istream) result option" where
  "readChunkedData st = (let (chunkHeader, st1) = ss_getline [] st in read_chunks chunkHeader [] st1)"

partial_function (option) read_trailers :: "string \<Rightarrow> nat \<Rightarrow> http_request \<Rightarrow> (nat \<times> http_request) result option" where
  "read_trailers remainder added m =
     (if remainder \<noteq> [] \<and> hd remainder = CHR 0x0D then Some (Inr (added, m))
      else let hh = HTTPHeader_parse remainder in
        if hdr_type hh = HT_Invalid then Some (Inl (Runtime_error ''Bad Request received''))
        else case addHeader hh m of Inl e \<Rightarrow> Some (Inl e) | Inr m1 \<Rightarrow> read_trailers remainder (Suc added) m1)"

section \<open>Writing a response\<close>

definition HTTP_EOL :: string where
  "HTTP_EOL = [CHR 0x0D, CHR 0x0A]"

definition write_header :: "string \<times> HTTPHeader \<Rightarrow> string" where
  "write_header h =
     fst h @ '': '' @ hdr_value (snd h) @ (if fst h = ''Content-Type'' then ''; charset=UTF-8'' else []) @ HTTP_EOL"

definition write_response ::
  "((string \<times> HTTPHeader) list \<Rightarrow> (string \<times> HTTPHeader) list) \<Rightarrow> http_response \<Rightarrow> string result" where
  "write_response order m =
     rbind (protocolAsString m) (\<lambda>p. rbind (responseCodeAsString m) (\<lambda>c.
       Inr (p @ '' '' @ dec_string (resp_code m) @ '' '' @ c @ HTTP_EOL @ concat (map write_header (order (msg_headers m))) @
            HTTP_EOL @ msg_body m)))"

section \<open>Reading the body\<close>

definition contains :: "string \<Rightarrow> string \<Rightarrow> bool" where
  "contains sub s = list_ex (\<lambda>i. take (length sub) (drop i s) = sub) [0..<Suc (length s)]"

definition header_value :: "string \<Rightarrow> 'a http_message_scheme \<Rightarrow> string" where
  "header_value n m = (case getHeader n m of Inr h \<Rightarrow> hdr_value h | Inl e \<Rightarrow> [])"

definition content_length :: "http_request \<Rightarrow> nat option result" where
  "content_length m =
     (case getHeader ''Content-Length'' m of
        Inl e \<Rightarrow> Inr None
      | Inr h \<Rightarrow> rbind (headerValueAsNumber h) (\<lambda>n. Inr (Some n)))"

definition trailer_length :: "http_request \<Rightarrow> nat" where
  "trailer_length m = (case getHeader ''Trailer'' m of Inl e \<Rightarrow> 0 | Inr h \<Rightarrow> length (headerValueAsList h))"

definition continue_response :: "string result" where
  "continue_response = write_response id (HTTPResponse\<lparr>msg_protocol := HTTP_1_1, resp_code := 100\<rparr>)"

definition send_continue :: "http_request \<Rightarrow> string result" where
  "send_continue m =
     (let expect = header_value ''Expect'' m in
      if expect = ''100-continue'' then continue_response
      else if expect \<noteq> [] then Inl (Runtime_error ''Not a valid Expect header'') else Inr [])"

text \<open>Returns the request, the stream, what was sent to the client meanwhile, and whether an exception was thrown.\<close>

definition read_chunked_body :: "istream \<Rightarrow> http_request \<Rightarrow> (http_request \<times> istream \<times> unit result) option" where
  "read_chunked_body st m =
     (case readChunkedData st of
        None \<Rightarrow> None
      | Some (Inl e) \<Rightarrow> Some (m, st, Inl e)
      | Some (Inr (data, st1)) \<Rightarrow>
          (let m1 = m\<lparr>msg_body := data\<rparr>; (remainder, st2) = ss_getline [] st1 in
           case read_trailers remainder 0 m1 of
             None \<Rightarrow> None
           | Some (Inl e) \<Rightarrow> Some (m1, st2, Inl e)
           | Some (Inr (n, m2)) \<Rightarrow>
               Some (m2, st2, if n \<noteq> trailer_length m
                              then Inl (Runtime_error ''Trailing headers does not match Trailer header content'') else Inr ())))"

definition read_body :: "istream \<Rightarrow> http_request \<Rightarrow> (http_request \<times> istream \<times> string \<times> unit result) option" where
  "read_body st m =
     (case requestHasBody (req_method m) of
        Inl e \<Rightarrow> Some (m, st, [], Inl e)
      | Inr hasBody \<Rightarrow>
          if hasBody = Body_No then Some (m, st, [], Inr ())
          else case content_length m of
              Inl e \<Rightarrow> Some (m, st, [], Inl e)
            | Inr cl \<Rightarrow>
                (let chunkedTE = contains ''chunked'' (header_value ''Transfer-Encoding'' m) in
                 if chunkedTE \<and> cl = None \<or> \<not> chunkedTE \<and> cl \<noteq> None then
                   (case send_continue m of
                        Inl e \<Rightarrow> Some (m, st, [], Inl e)
                      | Inr out \<Rightarrow>
                          (case cl of
                             None \<Rightarrow> map_option (\<lambda>(m1, st1, r). (m1, st1, out, r)) (read_chunked_body st m)
                           | Some n \<Rightarrow>
                               if string_max_size < n then Some (m, st, out, Inl Length_error)
                               else Some (m, snd (ss_read n st), out, Inr ())))
                 else if hasBody = Body_Optional \<and> cl = None \<and> \<not> chunkedTE then Some (m, st, [], Inr ())
                 else Some (m, st, [], Inl (Runtime_error ''Bad Request received''))))"

definition read_request :: "istream \<Rightarrow> (http_request \<times> istream \<times> string \<times> unit result) option" where
  "read_request st =
     (case read_request_line st HTTPRequest of
        (m, st1, Inl e) \<Rightarrow> Some (m, st1, [], Inl e)
      | (m, st1, Inr _) \<Rightarrow>
          (case read_headers [] [] st1 m of
             None \<Rightarrow> None
           | Some (m1, st2, Inl e) \<Rightarrow> Some (m1, st2, [], Inl e)
           | Some (m1, st2, Inr _) \<Rightarrow> read_body st2 m1))"

section \<open>Lines without runs of white space\<close>

definition no_double_space :: "string \<Rightarrow> bool" where
  "no_double_space s \<longleftrightarrow> (\<forall>i. Suc i < length s \<longrightarrow> \<not> (is_space (s ! i) \<and> is_space (s ! Suc i)))"

lemma lws_loop_clean: "no_double_space line \<Longrightarrow> fin \<le> length line \<Longrightarrow> lws_loop line pos fin = line"
proof (induction line pos fin rule: lws_loop.induct)
  case (1 line pos fin)
  have "lws_run line pos - pos \<le> 1" if "is_space (line ! pos)"
    using "1.prems" that by (subst lws_run.simps) (auto simp: no_double_space_def)
  then show ?case
    using 1 by (subst lws_loop.simps) (auto simp: Let_def)
qed

lemma compress_clean:
  "no_double_space (s @ [CHR 0x0D]) \<Longrightarrow> compressLWSAndRemoveCR (s @ [CHR 0x0D]) = s"
  by (simp add: compressLWSAndRemoveCR_def lws_loop_clean)

text \<open>Reading one line of a stream that has it.\<close>

lemma ss_getline_line:
  assumes "ss_good st" and "is_buf st = l @ CHR 0x0A # r" and "CHR 0x0A \<notin> set l"
  shows "ss_getline old st = (l, st\<lparr>is_buf := r\<rparr>)"
  using assms by (simp add: ss_getline_def)

lemma ss_peek_char: "ss_good st \<Longrightarrow> is_buf st = c # r \<Longrightarrow> ss_peek st = (Some c, st)"
  by (simp add: ss_peek_def)

lemma ss_good_buf [simp]: "ss_good (st\<lparr>is_buf := b\<rparr>) = ss_good st"
  by (simp add: ss_good_def)

section \<open>Header lines\<close>

lemma no_invalid_property: "headerType n \<noteq> HT_Invalid"
proof -
  have "list_all (\<lambda>p. fst (snd p) \<noteq> HT_Invalid) httpHeaderProperties" by (simp add: httpHeaderProperties_def)
  moreover have "p \<in> set httpHeaderProperties" if "find (\<lambda>p. fst p = n) httpHeaderProperties = Some p" for p
    using that by (auto simp: find_Some_iff)
  ultimately show ?thesis by (auto simp: headerType_def list_all_iff split: option.split)
qed

definition header_name_ok :: "string \<Rightarrow> bool" where
  "header_name_ok n \<longleftrightarrow> n \<noteq> [] \<and> list_all (\<lambda>c. \<not> is_space c \<and> c \<noteq> CHR '':'') n"

definition header_value_ok :: "string \<Rightarrow> bool" where
  "header_value_ok v \<longleftrightarrow> v \<noteq> [] \<and> \<not> is_space (hd v) \<and> \<not> is_space (last v) \<and> no_double_space v \<and>
     list_all (\<lambda>c. is_space c \<longrightarrow> c = CHR '' '') v \<and> even (count_list v (CHR 0x22))"

definition header_line :: "string \<times> string \<Rightarrow> string" where
  "header_line h = fst h @ '': '' @ snd h @ HTTP_EOL"

definition stored_header :: "string \<times> string \<Rightarrow> string \<times> HTTPHeader" where
  "stored_header h = (fst h, \<lparr>hdr_name = fst h, hdr_value = CHR '' '' # snd h, hdr_type = headerType (fst h)\<rparr>)"

lemma space_chars [simp]: "is_space (CHR 0x0A)" "is_space (CHR 0x0D)" "is_space (CHR '' '')" "is_space (CHR 0x09)" "\<not> is_space (CHR '':'')"
  by (simp_all add: is_space_def)

lemma parse_header_line:
  assumes "header_name_ok n" and "header_value_ok v"
  shows "HTTPHeader_parse (n @ CHR '':'' # CHR '' '' # v) = snd (stored_header (n, v))"
proof -
  have n: "\<not> is_space c" "c \<noteq> CHR '':''" if "c \<in> set n" for c
    using assms(1) that by (simp_all add: header_name_ok_def list_all_iff)
  have "filter (\<lambda>c. c \<noteq> CHR '' '') n = n" by (rule filter_True) (use n(1) space_chars(3) in blast)
  moreover have "CHR '':'' \<notin> set n" using n(2) by blast
  ultimately have name: "filter (\<lambda>c. c \<noteq> CHR '' '') n = n" "CHR '':'' \<notin> set n" by blast+
  have "even (count_list (CHR '' '' # v) (CHR 0x22))" using assms(2) by (simp add: header_value_ok_def)
  moreover have "CHR '':'' \<in> set (n @ CHR '':'' # CHR '' '' # v)" by simp
  ultimately show ?thesis
    unfolding HTTPHeader_parse_def stored_header_def Let_def takeWhile_delim [OF name(2)] dropWhile_delim [OF name(2)] name(1)
    by (simp del: count_list.simps)
qed

lemma no_double_space_append:
  assumes "no_double_space a" and "no_double_space b" and "a = [] \<or> b = [] \<or> \<not> is_space (last a) \<or> \<not> is_space (hd b)"
  shows "no_double_space (a @ b)"
  unfolding no_double_space_def
proof (intro allI impI)
  fix i assume i: "Suc i < length (a @ b)"
  consider "Suc i < length a" | "Suc i = length a" | "length a \<le> i" by linarith
  then show "\<not> (is_space ((a @ b) ! i) \<and> is_space ((a @ b) ! Suc i))"
  proof cases
    case 1
    then show ?thesis using assms(1) by (simp add: no_double_space_def nth_append)
  next
    case 2
    then have ne: "a \<noteq> []" "b \<noteq> []" using i by auto
    moreover from 2 have "i = length a - 1" by simp
    ultimately have "(a @ b) ! i = last a" "(a @ b) ! Suc i = hd b"
      by (auto simp: nth_append last_conv_nth hd_conv_nth)
    with ne show ?thesis using assms(3) by auto
  next
    case 3
    then have "(a @ b) ! i = b ! (i - length a)" "(a @ b) ! Suc i = b ! Suc (i - length a)" "Suc (i - length a) < length b"
      using i by (auto simp: nth_append Suc_diff_le)
    then show ?thesis using assms(2) by (simp add: no_double_space_def)
  qed
qed

lemma header_line_clean:
  assumes "header_name_ok n" and "header_value_ok v"
  shows "no_double_space ((n @ CHR '':'' # CHR '' '' # v) @ [CHR 0x0D])"
proof -
  have "no_double_space (n @ '':'')"
    using assms(1) by (auto simp: no_double_space_def header_name_ok_def list_all_iff nth_append)
  moreover have "no_double_space ([CHR '' ''] @ v)"
    using assms(2) by (intro no_double_space_append) (auto simp: header_value_ok_def no_double_space_def)
  moreover have "no_double_space [CHR 0x0D]" by (simp add: no_double_space_def)
  ultimately have "no_double_space ([CHR '' ''] @ v @ [CHR 0x0D])"
    using no_double_space_append [of "[CHR '' ''] @ v" "[CHR 0x0D]"] assms(2) by (simp add: header_value_ok_def)
  with \<open>no_double_space (n @ '':'')\<close> show ?thesis
    using no_double_space_append [of "n @ '':''" "[CHR '' ''] @ v @ [CHR 0x0D]"] by simp
qed

definition header_ok :: "string \<times> string \<Rightarrow> bool" where
  "header_ok h \<longleftrightarrow> header_name_ok (fst h) \<and> header_value_ok (snd h)"

lemma header_line_no_newline:
  assumes "header_ok (n, v)"
  shows "CHR 0x0A \<notin> set ((n @ CHR '':'' # CHR '' '' # v) @ [CHR 0x0D])"
proof -
  have "\<not> is_space c" if "c \<in> set n" for c
    using assms that by (simp add: header_ok_def header_name_ok_def list_all_iff)
  then have "CHR 0x0A \<notin> set n" using space_chars(1) by blast
  moreover have "is_space c \<longrightarrow> c = CHR '' ''" if "c \<in> set v" for c
    using assms that by (simp add: header_ok_def header_value_ok_def list_all_iff)
  then have "CHR 0x0A \<notin> set v" using space_chars(1) by fastforce
  ultimately show ?thesis by simp
qed

lemma header_block_first:
  assumes "\<forall>h \<in> set hs. header_ok h"
  obtains c r where "concat (map header_line hs) @ HTTP_EOL @ rest = c # r" "c \<noteq> CHR '' ''" "c \<noteq> CHR 0x09"
proof (cases hs)
  case Nil
  then show ?thesis using that by (simp add: HTTP_EOL_def)
next
  case (Cons h hs')
  obtain n v where h: "h = (n, v)" by (cases h)
  have "n \<noteq> []" "list_all (\<lambda>c. \<not> is_space c \<and> c \<noteq> CHR '':'') n"
    using assms Cons h by (simp_all add: header_ok_def header_name_ok_def)
  then obtain c n' where n: "n = c # n'" "\<not> is_space c" by (cases n) auto
  then have "c \<noteq> CHR '' ''" "c \<noteq> CHR 0x09" using space_chars by blast+
  then show ?thesis using that Cons h n by (simp add: header_line_def)
qed

lemma read_headers_lines:
  assumes "\<forall>h \<in> set hs. header_ok h" and "distinct (map fst hs)" and "fst ` set hs \<inter> fst ` set (msg_headers m) = {}"
    and "ss_good st" and "is_buf st = concat (map header_line hs) @ HTTP_EOL @ rest"
  shows "read_headers line [] st m =
    Some (m\<lparr>msg_headers := msg_headers m @ map stored_header hs\<rparr>, st\<lparr>is_buf := rest\<rparr>, Inr ())"
  using assms
proof (induction hs arbitrary: line st m)
  case Nil
  have "ss_getline line st = ([CHR 0x0D], st\<lparr>is_buf := rest\<rparr>)"
    by (rule ss_getline_line) (use Nil in \<open>simp_all add: HTTP_EOL_def\<close>)
  moreover have "compressLWSAndRemoveCR [CHR 0x0D] = []"
    using compress_clean [of "[]"] by (simp add: no_double_space_def)
  ultimately show ?case
    by (subst read_headers.simps) simp
next
  case (Cons h hs)
  obtain n v where h: "h = (n, v)" by (cases h)
  define X where "X = concat (map header_line hs) @ HTTP_EOL @ rest"
  define l where "l = n @ CHR '':'' # CHR '' '' # v"
  have ok: "header_ok (n, v)" "\<forall>h \<in> set hs. header_ok h" using Cons.prems(1) h by simp_all
  have okc: "header_name_ok n" "header_value_ok v" using ok(1) by (simp_all add: header_ok_def)
  obtain c r where X: "X = c # r" "c \<noteq> CHR '' ''" "c \<noteq> CHR 0x09" unfolding X_def using header_block_first [OF ok(2)] .
  have buf: "is_buf st = (l @ [CHR 0x0D]) @ CHR 0x0A # X"
    using Cons.prems(5) h header_line_def [of "(n, v)"] by (simp add: X_def HTTP_EOL_def l_def)
  define st1 where "st1 = st\<lparr>is_buf := X\<rparr>"
  have get: "ss_getline line st = (l @ [CHR 0x0D], st1)"
    unfolding st1_def using Cons.prems(4) buf header_line_no_newline [OF ok(1)] by (intro ss_getline_line) (simp_all add: l_def)
  have comp: "compressLWSAndRemoveCR (l @ [CHR 0x0D]) = l"
    unfolding l_def by (rule compress_clean) (rule header_line_clean [OF okc])
  have peek: "ss_peek st1 = (Some c, st1)"
    by (rule ss_peek_char [of _ _ r]) (use Cons.prems(4) X(1) in \<open>simp_all add: st1_def\<close>)
  have parse: "HTTPHeader_parse l = snd (stored_header (n, v))"
    unfolding l_def by (rule parse_header_line [OF okc])
  have fresh: "\<not> hasHeader n m" using Cons.prems(3) h by (auto simp: hasHeader_def map_of_eq_None_iff)
  define m1 where "m1 = m\<lparr>msg_headers := msg_headers m @ [stored_header (n, v)]\<rparr>"
  have add: "addHeader (snd (stored_header (n, v))) m = Inr m1"
    using fresh by (simp add: addHeader_def stored_header_def m1_def)
  have lne: "l \<noteq> []" by (simp add: l_def)
  have ty: "hdr_type (snd (stored_header (n, v))) \<noteq> HT_Invalid"
    by (simp add: stored_header_def no_invalid_property)
  have step: "read_headers line [] st m = read_headers l [] st1 m1"
    using X(2,3) ty by (subst read_headers.simps) (simp add: get comp peek parse add lne)
  have "read_headers l [] st1 m1 =
      Some (m1\<lparr>msg_headers := msg_headers m1 @ map stored_header hs\<rparr>, st1\<lparr>is_buf := rest\<rparr>, Inr ())"
    by (rule Cons.IH) (use ok(2) Cons.prems(2-4) h in \<open>auto simp: m1_def st1_def X_def stored_header_def\<close>)
  then show ?case by (simp add: step m1_def st1_def h)
qed

section \<open>Reading what a client writes\<close>

definition request_text :: "string \<Rightarrow> URL \<Rightarrow> string \<Rightarrow> (string \<times> string) list \<Rightarrow> string" where
  "request_text meth u protocol hs =
     meth @ '' '' @ URL_text u @ '' '' @ protocol @ HTTP_EOL @ concat (map header_line hs) @ HTTP_EOL"

lemma remove_first_absent: "c \<notin> set s \<Longrightarrow> remove_first c s = s"
  by (simp add: remove_first_def)

lemma remove_first_end: "c \<notin> set s \<Longrightarrow> remove_first c (s @ [c]) = s"
  by (simp add: remove_first_def)

lemma split_request_line_tokens:
  assumes "meth \<noteq> []" "url \<noteq> []" "protocol \<noteq> []"
    and "list_all (\<lambda>c. \<not> is_space c) meth" "list_all (\<lambda>c. \<not> is_space c) url" "list_all (\<lambda>c. \<not> is_space c) protocol"
  shows "split_request_line (meth @ CHR '' '' # url @ CHR '' '' # protocol) = Inr (meth, url, protocol)"
proof -
  have sp: "CHR '' '' \<notin> set s" if "list_all (\<lambda>c. \<not> is_space c) s" for s
    using that space_chars(3) unfolding list_all_iff by blast
  note n = sp [OF assms(4)] sp [OF assms(5)] sp [OF assms(6)]
  have "count_list (meth @ CHR '' '' # url @ CHR '' '' # protocol) (CHR '' '') = 2"
    using n by (simp add: count_list_append count_notin)
  then show ?thesis
    unfolding split_request_line_def Let_def takeWhile_delim [OF n(1)] dropWhile_delim [OF n(1)] list.sel
      takeWhile_delim [OF n(2)] dropWhile_delim [OF n(2)]
    using assms(1-3) by (simp del: count_list_append)
qed

lemma method_names:
  assumes "(me, name, hb, rb) \<in> set httpMethodProperties"
  shows "getMethodAsEnum name = Inr me" "requestHasBody me = Inr hb" "name \<noteq> []" "list_all (\<lambda>c. \<not> is_space c) name"
proof -
  have "list_all (\<lambda>(me, name, hb, rb). getMethodAsEnum name = Inr me \<and> requestHasBody me = Inr hb \<and> name \<noteq> [] \<and>
      list_all (\<lambda>c. \<not> is_space c) name) httpMethodProperties"
    by code_simp
  then show "getMethodAsEnum name = Inr me" "requestHasBody me = Inr hb" "name \<noteq> []" "list_all (\<lambda>c. \<not> is_space c) name"
    using assms unfolding list_all_iff [of _ httpMethodProperties] by blast+
qed

lemma protocol_names:
  assumes "(p, name) \<in> set protocol_map"
  shows "setProtocol name m = Inr (m\<lparr>msg_protocol := p\<rparr>)" "name \<noteq> []" "list_all (\<lambda>c. \<not> is_space c) name"
proof -
  have "list_all (\<lambda>(p, name). find (\<lambda>q. snd q = name) protocol_map = Some (p, name) \<and> name \<noteq> [] \<and>
      list_all (\<lambda>c. \<not> is_space c) name) protocol_map"
    by code_simp
  then have "find (\<lambda>q. snd q = name) protocol_map = Some (p, name) \<and> name \<noteq> [] \<and> list_all (\<lambda>c. \<not> is_space c) name"
    using assms unfolding list_all_iff [of _ protocol_map] by blast
  then show "setProtocol name m = Inr (m\<lparr>msg_protocol := p\<rparr>)" "name \<noteq> []" "list_all (\<lambda>c. \<not> is_space c) name"
    by (simp_all add: setProtocol_def)
qed

lemma read_request_line_text:
  assumes "ss_good st" and "is_buf st = meth @ '' '' @ url @ '' '' @ protocol @ HTTP_EOL @ rest"
    and "(me, meth, hb, rb) \<in> set httpMethodProperties" and "(p, protocol) \<in> set protocol_map"
    and "list_all (\<lambda>c. \<not> is_space c) url" and "url \<noteq> []" and "URL_parse url = Inr u"
  shows "read_request_line st m =
    (m\<lparr>msg_protocol := p, req_method := me, req_url := u, msg_initialized := True\<rparr>, st\<lparr>is_buf := rest\<rparr>, Inr ())"
proof -
  define l where "l = meth @ CHR '' '' # url @ CHR '' '' # protocol"
  note me = method_names [OF assms(3)] and pr = protocol_names [OF assms(4)]
  have sp: "c \<notin> set s" if "list_all (\<lambda>c. \<not> is_space c) s" "is_space c" for s c
    using that unfolding list_all_iff by blast
  have no: "CHR 0x0A \<notin> set l" "CHR 0x0D \<notin> set l"
    unfolding l_def using sp [OF me(4)] sp [OF assms(5)] sp [OF pr(3)] by simp_all
  have get: "ss_getline [] st = (l @ [CHR 0x0D], st\<lparr>is_buf := rest\<rparr>)"
    by (rule ss_getline_line) (use assms(1,2) no in \<open>simp_all add: l_def HTTP_EOL_def\<close>)
  have line: "remove_first (CHR 0x0D) (remove_first (CHR 0x0A) (l @ [CHR 0x0D])) = l"
    using no by (simp add: remove_first_absent remove_first_end)
  have "split_request_line l = Inr (meth, url, protocol)"
    unfolding l_def by (rule split_request_line_tokens [OF me(3) assms(6) pr(2) me(4) assms(5) pr(3)])
  then show ?thesis
    using assms(1,7) by (simp add: read_request_line_def get line pr(1) me(1) ss_good_def)
qed



section \<open>Bodies in chunks\<close>

lemma ss_not_good:
  "\<not> ss_good st \<Longrightarrow> ss_getline old st = (old, st\<lparr>is_fail := True\<rparr>)"
  "\<not> ss_good st \<Longrightarrow> ss_read n st = (replicate n (CHR 0x00), st\<lparr>is_fail := True\<rparr>)"
  "\<not> ss_good (st\<lparr>is_fail := True\<rparr>)"
  by (simp_all add: ss_getline_def ss_read_def ss_good_def)

lemma read_chunks_stuck:
  assumes "read_chunks h data st = Some r" and "\<not> ss_good st" and "stoll 16 h = Inr n" and "to_size n \<le> string_max_size"
    and "\<not> (h \<noteq> [] \<and> hd h = CHR ''0'')"
  shows False
  using assms
proof (induction h data st r rule: read_chunks.raw_induct [rotated, consumes 1, case_names step])
  case (step rec h data st r)
  from step(2) have "rec h (data @ replicate (to_size n) (CHR 0x00)) (st\<lparr>is_fail := True\<rparr>) = Some r"
    using step(3-6) by (simp add: ss_not_good)
  then show ?case using step(1) step(3-6) ss_not_good(3) by blast
qed


definition chunked_post :: http_request where
  "chunked_post = HTTPRequest\<lparr>req_method := POST, msg_headers := [(''Transfer-Encoding'', mk_header ''Transfer-Encoding'' '' chunked'')]\<rparr>"


text \<open>A body in one chunk, encoded as RFC 7230 prescribes, is rejected: the reader expects an empty line after each chunk, takes
  the size line of the final chunk for it and the line after that for the next size.\<close>

lemma standard_chunk_rejected:
  assumes "ss_good st" and "is_buf st = h @ HTTP_EOL @ data @ HTTP_EOL @ ''0'' @ HTTP_EOL @ HTTP_EOL @ rest" and "CHR 0x0A \<notin> set h"
    and "stoll 16 (h @ [CHR 0x0D]) = Inr (int (length data))" and "length data \<le> string_max_size" and "h = [] \<or> hd h \<noteq> CHR ''0''"
  shows "readChunkedData st = Some (Inl (Invalid_argument ''stoll''))"
proof -
  define h' where "h' = h @ [CHR 0x0D]"
  define s1 where "s1 = st\<lparr>is_buf := data @ HTTP_EOL @ CHR ''0'' # HTTP_EOL @ HTTP_EOL @ rest\<rparr>"
  have get: "ss_getline [] st = (h', s1)"
    unfolding s1_def by (rule ss_getline_line) (use assms(1-3) in \<open>simp_all add: h'_def HTTP_EOL_def\<close>)
  have sz: "to_size (int (length data)) = length data"
    using assms(5) by (simp add: to_size_def string_max_size_def nat_mod_distrib)
  have rd: "ss_read (length data) s1 = (data, st\<lparr>is_buf := HTTP_EOL @ CHR ''0'' # HTTP_EOL @ HTTP_EOL @ rest\<rparr>)"
    using assms(1) by (simp add: ss_read_def s1_def Let_def)
  have l1: "ss_getline h' (st\<lparr>is_buf := HTTP_EOL @ CHR ''0'' # HTTP_EOL @ HTTP_EOL @ rest\<rparr>) =
      ([CHR 0x0D], st\<lparr>is_buf := CHR ''0'' # HTTP_EOL @ HTTP_EOL @ rest\<rparr>)"
    using assms(1) by (simp add: ss_getline_def HTTP_EOL_def)
  have l2: "ss_getline x (st\<lparr>is_buf := CHR ''0'' # HTTP_EOL @ HTTP_EOL @ rest\<rparr>) = ([CHR ''0'', CHR 0x0D], st\<lparr>is_buf := HTTP_EOL @ rest\<rparr>)" for x
    using assms(1) by (simp add: ss_getline_def HTTP_EOL_def)
  have l3: "ss_getline x (st\<lparr>is_buf := HTTP_EOL @ rest\<rparr>) = ([CHR 0x0D], st\<lparr>is_buf := rest\<rparr>)" for x
    using assms(1) by (simp add: ss_getline_def HTTP_EOL_def)
  have zero: "\<not> (h' \<noteq> [] \<and> hd h' = CHR ''0'')" using assms(6) by (cases h) (simp_all add: h'_def)
  have "read_chunks h' [] s1 = read_chunks [CHR 0x0D] data (st\<lparr>is_buf := rest\<rparr>)"
    using zero assms(4,5) by (subst read_chunks.simps) (auto simp: h'_def [symmetric] sz rd l1 l2 l3)
  also have "\<dots> = Some (Inl (Invalid_argument ''stoll''))"
    by (subst read_chunks.simps) (simp add: stoll_def num_sign_def)
  finally show ?thesis by (simp add: readChunkedData_def get)
qed

end
