(* ===== verification/Sensor_Server.thy ===== *)
theory Sensor_Server
  imports Http_Message
begin

text \<open>
  The sensor server (pcm-sensor-server.cpp) on top of HTTP messages: the window of counter samples, the routing of GET requests,
  and the loop that serves one connection. The samples, the printers and the static pages are parameters; a callback that does
  not return is \<open>None\<close>.
\<close>

section \<open>The sample window\<close>

definition addAggregator :: "'a \<Rightarrow> 'a list \<Rightarrow> 'a list" where
  "addAggregator agp agVector = (let v = agp # agVector in if length v > 30 then butlast v else v)"

text \<open>\<^verbatim>\<open>getAggregators\<close> as seen at one moment: \<open>None\<close> is another second of sleep.\<close>

definition getAggregators :: "nat \<Rightarrow> nat \<Rightarrow> 'a list \<Rightarrow> ('a \<times> 'a) option result" where
  "getAggregators index index2 agVector =
     (if index = index2 then Inl (Runtime_error ''BUG: getAggregator: both indices are equal. Fix the code!'')
      else Inr (if length agVector < max index index2 + 1 then None else Some (agVector ! index, agVector ! index2)))"

inductive sampled :: "'a list \<Rightarrow> 'a list \<Rightarrow> bool" where
  start: "sampled [] []"
| sample: "sampled taken v \<Longrightarrow> sampled (x # taken) (addAggregator x v)"

section \<open>Formats and routing\<close>

datatype MimeType = CatchAll | TextHTML | TextXML | TextPlain | TextPlainProm_0_0_4 | ApplicationJSON | ImageXIcon

datatype OutputFormat = Prometheus_0_0_4 | JSON | HTML | XML | PlainText | NoFormat

definition mimeTypeMap :: "MimeType \<Rightarrow> string" where
  "mimeTypeMap mt =
     (case mt of CatchAll \<Rightarrow> ''*/*'' | TextHTML \<Rightarrow> ''text/html'' | TextPlain \<Rightarrow> ''text/plain''
      | TextPlainProm_0_0_4 \<Rightarrow> ''text/plain; version=0.0.4'' | ImageXIcon \<Rightarrow> ''image/x-icon''
      | ApplicationJSON \<Rightarrow> ''application/json'' | TextXML \<Rightarrow> [])"

text \<open>A key that is not in the map reads as the value zero, which is no format.\<close>

definition mimeTypeToOutputFormat :: "MimeType \<Rightarrow> OutputFormat" where
  "mimeTypeToOutputFormat mt =
     (case mt of TextHTML \<Rightarrow> HTML | TextXML \<Rightarrow> XML | ApplicationJSON \<Rightarrow> JSON | TextPlainProm_0_0_4 \<Rightarrow> Prometheus_0_0_4
      | CatchAll \<Rightarrow> HTML | _ \<Rightarrow> NoFormat)"

definition supportedOutputMimeTypes :: "(MimeType \<times> string) list" where
  "supportedOutputMimeTypes = [(TextPlainProm_0_0_4, ''text/plain;version=0.0.4''), (ApplicationJSON, ''application/json'')]"

fun find_q :: "string \<Rightarrow> nat option" where
  "find_q (a # b # s) = (if a = CHR ''q'' \<and> b = CHR ''='' then Some 0 else map_option Suc (find_q (b # s)))"
| "find_q _ = None"

definition strip_preference :: "string \<Rightarrow> string" where
  "strip_preference item =
     filter (\<lambda>c. \<not> is_space c)
       (case find_q item of
          None \<Rightarrow> item
        | Some pos \<Rightarrow> (let p = str_rfind CHR '';'' item pos in if p \<noteq> npos then take p item else take pos item))"

definition matchSupportedWithAcceptedMimeTypes :: "HTTPHeader \<Rightarrow> MimeType" where
  "matchSupportedWithAcceptedMimeTypes h =
     (case List.extract (\<lambda>item. find (\<lambda>p. snd p = item) supportedOutputMimeTypes \<noteq> None) (map strip_preference (headerValueAsList h)) of
        None \<Rightarrow> CatchAll
      | Some (_, item, _) \<Rightarrow> (case find (\<lambda>p. snd p = item) supportedOutputMimeTypes of Some p \<Rightarrow> fst p | None \<Rightarrow> CatchAll))"

definition createResponse :: "MimeType \<Rightarrow> string \<Rightarrow> nat \<Rightarrow> http_response \<Rightarrow> http_response result" where
  "createResponse mt body rc m =
     rbind (addHeader (mk_header ''Content-Type'' (mimeTypeMap mt)) m) (\<lambda>m1.
     rbind (addHeader (mk_header ''Content-Length'' (dec_string (length body))) m1) (\<lambda>m2.
     Inr (m2\<lparr>msg_body := body, resp_code := rc\<rparr>)))"

text \<open>What the pages and printers outside this model provide.\<close>

datatype dashboard_kind = InfluxDB | Prometheus | Prometheus_Default

record 'a site =
  favicon :: string
  index_html :: string
  dashboard :: "dashboard_kind \<Rightarrow> string"
  json_text :: "'a \<times> 'a \<Rightarrow> string"
  prom_text :: "'a \<times> 'a \<Rightarrow> string"
  absolute :: "'a \<times> 'a"

text \<open>The sample pair a path asks for, or the answer it gets at once.\<close>

datatype route = Answer MimeType string nat | Absolute | Window nat

definition parse_seconds :: "string \<Rightarrow> nat" where
  "parse_seconds s = (case stoll 10 s of Inr i \<Rightarrow> to_size i | Inl e \<Rightarrow> 0)"

definition route_persecond :: "string \<Rightarrow> route" where
  "route_persecond path =
     (if length path = 10 \<or> length path = 11 \<and> path ! 10 = CHR ''/'' then Window 1
      else let p = drop 10 path in
        if p \<noteq> [] \<and> hd p = CHR ''/'' then
          let q = tl p; r = (if q \<noteq> [] \<and> last q = CHR ''/'' then butlast q else q) in
          if list_all (is_digit_of 10) r then
            let seconds = parse_seconds r in
            if 1 \<le> seconds \<and> seconds \<le> 30 then Window seconds
            else Answer TextPlain ''400 Bad Request. seconds equals 0 or seconds larger than 30 is not allowed'' 400
          else Answer TextPlain ''400 Bad Request Request starts with /persecond/ but is not followed by numbers only.'' 400
        else Answer TextPlain ''404 Bad Request. Request starts with /persecond but contains bad characters.'' 404)"

definition route_path :: "'a site \<Rightarrow> string \<Rightarrow> MimeType \<Rightarrow> route" where
  "route_path site path mt =
     (if path = ''/favicon.ico'' then Answer ImageXIcon (favicon site) 200
      else if path = ''/'' then
        (if mt \<noteq> ApplicationJSON \<and> mt \<noteq> TextPlainProm_0_0_4 then Answer TextHTML (index_html site) 200 else Absolute)
      else if path = ''/dashboard'' \<or> path = ''/dashboard/influxdb'' then Answer ApplicationJSON (dashboard site InfluxDB) 200
      else if path = ''/dashboard/prometheus'' then Answer ApplicationJSON (dashboard site Prometheus) 200
      else if path = ''/dashboard/prometheus/default'' then Answer ApplicationJSON (dashboard site Prometheus_Default) 200
      else if take 10 path = ''/persecond'' then route_persecond path
      else if path = ''/metrics'' then Absolute
      else Answer TextPlain ''404 Unknown path.'' 404)"

text \<open>\<^verbatim>\<open>my_get_callback\<close>; \<open>wait i\<close> is what \<^verbatim>\<open>getAggregators\<close> eventually returns for the indices \<open>i\<close> and 0, if it does.\<close>

definition my_get_callback ::
  "'a site \<Rightarrow> (nat \<Rightarrow> ('a \<times> 'a) option) \<Rightarrow> http_request \<Rightarrow> http_response \<Rightarrow> http_response result option" where
  "my_get_callback site wait req resp =
     (let mt = (case getHeader ''Accept'' req of Inr h \<Rightarrow> matchSupportedWithAcceptedMimeTypes h | Inl e \<Rightarrow> CatchAll);
          path = url_path (req_url req);
          fmt = (if path = ''/metrics'' then Prometheus_0_0_4 else mimeTypeToOutputFormat mt);
          print = (\<lambda>pair. case fmt of
              JSON \<Rightarrow> createResponse ApplicationJSON (json_text site pair) 200 resp
            | Prometheus_0_0_4 \<Rightarrow> createResponse TextPlainProm_0_0_4 (prom_text site pair) 200 resp
            | _ \<Rightarrow> createResponse TextPlain (''406 Not Acceptable. Server can only serve '' @ [CHR 0x22] @ path @ [CHR 0x22] @
                '' as application/json or '' @ [CHR 0x22] @ ''text/plain; version=0.0.4'' @ [CHR 0x22] @ '' (prometheus format).'') 406 resp)
      in case route_path site path mt of
           Answer m b c \<Rightarrow> Some (createResponse m b c resp)
         | Absolute \<Rightarrow> Some (print (absolute site))
         | Window s \<Rightarrow> (case wait s of None \<Rightarrow> None | Some pair \<Rightarrow> Some (print pair)))"

section \<open>One connection\<close>

datatype reply = Interim string | Reply nat string

record server =
  callbackList :: "HTTPRequestMethod \<Rightarrow> (http_request \<Rightarrow> http_response \<Rightarrow> http_response result option) option"
  header_order :: "(string \<times> HTTPHeader) list \<Rightarrow> (string \<times> HTTPHeader) list"
  date_string :: "nat \<Rightarrow> string"

definition write_reply :: "server \<Rightarrow> http_response \<Rightarrow> reply result" where
  "write_reply srv resp = rbind (write_response (header_order srv) resp) (\<lambda>t. Inr (Reply (resp_code resp) t))"

definition bad_request :: "server \<Rightarrow> HTTPProtocol \<Rightarrow> string \<Rightarrow> reply result" where
  "bad_request srv p body =
     rbind (setProtocol_enum p HTTPResponse) (\<lambda>r. rbind (createResponse TextPlain body 400 r) (write_reply srv))"

text \<open>What is added to every answer: \<open>n\<close> is the number of requests read so far, \<open>keep\<close> the flag from the requests before.\<close>

definition finish_response :: "server \<Rightarrow> nat \<Rightarrow> bool \<Rightarrow> http_request \<Rightarrow> http_response \<Rightarrow> (http_response \<times> bool) result" where
  "finish_response srv n keep req resp =
     rbind (addHeader (mk_header ''Server'' ''PCMWebServer 0.1'') resp) (\<lambda>r1.
     rbind (addHeader (mk_header ''Date'' (date_string srv n)) r1) (\<lambda>r2.
     rbind (if n < 100 then
              if header_value ''Connection'' req = ''keep-alive'' then
                rbind (addHeader (mk_header ''Connection'' ''keep-alive'') r2) (\<lambda>r3.
                rbind (addHeader (mk_header ''Keep-Alive'' ''timeout=10, max=100'') r3) (\<lambda>r4. Inr (r4, True)))
              else Inr (r2, keep)
            else rbind (addHeader (mk_header ''Connection'' ''close'') r2) (\<lambda>r3. Inr (r3, False))) (\<lambda>(r5, keep').
     Inr (if req_method req = HEAD then r5\<lparr>msg_body := []\<rparr> else r5, keep'))))"

definition answer_request :: "server \<Rightarrow> nat \<Rightarrow> bool \<Rightarrow> http_request \<Rightarrow> (reply \<times> bool) result option" where
  "answer_request srv n keep req =
     (case rbind (setProtocol_enum (msg_protocol req) HTTPResponse) (\<lambda>r.
              if callbackList srv (req_method req) = None
              then rbind (getMethodAsString (req_method req)) (\<lambda>nm.
                     createResponse TextPlain (''501 Not Implemented. Method '' @ [CHR 0x22] @ nm @ [CHR 0x22] @
                       '' is not implemented (yet).'') 501 r)
              else Inr r) of
        Inl e \<Rightarrow> Some (Inl e)
      | Inr r \<Rightarrow>
          (case (case callbackList srv (req_method req) of None \<Rightarrow> Some (Inr r) | Some cb \<Rightarrow> cb req r) of
             None \<Rightarrow> None
           | Some resp \<Rightarrow>
               Some (rbind resp (\<lambda>resp. rbind (finish_response srv n keep req resp) (\<lambda>(resp, keep').
                     rbind (write_reply srv resp) (\<lambda>rep. Inr (rep, keep')))))))"

text \<open>One turn of the loop: the replies, the stream, the flag, and whether the loop is left by a \<^verbatim>\<open>break\<close>.\<close>

definition interim :: "string \<Rightarrow> reply list" where
  "interim out = (if out = [] then [] else [Interim out])"

definition serve_request :: "server \<Rightarrow> nat \<Rightarrow> bool \<Rightarrow> istream \<Rightarrow> (reply list \<times> istream \<times> bool \<times> bool) result option" where
  "serve_request srv n keep st =
     (case read_request st of
        None \<Rightarrow> None
      | Some (req, st1, out, Inl e) \<Rightarrow>
          Some (rbind (bad_request srv (if msg_initialized req then msg_protocol req else HTTP_1_1) ''400 Bad Request'') (\<lambda>rep.
            Inr (interim out @ [rep], st1, keep, True)))
      | Some (req, st1, out, Inr _) \<Rightarrow>
          if msg_protocol req = HTTP_1_1 \<and> \<not> hasHeader ''Host'' req
          then Some (rbind (bad_request srv HTTP_1_1 ''400 Bad Request. HTTP 1.1: Mandatory Host header is missing.'') (\<lambda>rep.
            Inr (interim out @ [rep], st1, keep, True)))
          else map_option (\<lambda>r. rbind r (\<lambda>(rep, keep'). Inr (interim out @ [rep], st1, keep', False)))
                 (answer_request srv (Suc n) keep req))"

text \<open>The hundredth request clears the flag, so the loop ends.\<close>

lemma finish_response_keep: "finish_response srv n keep req resp = Inr (r, True) \<Longrightarrow> n < 100"
  by (auto simp: finish_response_def split: if_splits)

lemma answer_request_keep: "answer_request srv n keep req = Some (Inr (rep, True)) \<Longrightarrow> n < 100"
  by (auto simp: answer_request_def split: sum.splits option.splits if_splits dest!: finish_response_keep)

lemma serve_request_keep: "serve_request srv n keep st = Some (Inr (reps, st1, True, False)) \<Longrightarrow> Suc n < 100"
  by (auto simp: serve_request_def split: option.splits sum.splits if_splits dest!: answer_request_keep)

function connection :: "server \<Rightarrow> nat \<Rightarrow> bool \<Rightarrow> istream \<Rightarrow> reply list \<Rightarrow> reply list result option" where
  "connection srv n keep st log =
     (case serve_request srv n keep st of
        None \<Rightarrow> None
      | Some (Inl e) \<Rightarrow> Some (Inl e)
      | Some (Inr (reps, st1, keep', broken)) \<Rightarrow>
          if broken \<or> \<not> keep' then Some (Inr (log @ reps)) else connection srv (Suc n) keep' st1 (log @ reps))"
  by pat_completeness auto
termination
proof (relation "measure (\<lambda>(srv, n, keep, st, log). 100 - n)", goal_cases)
  case (2 srv n keep st log)
  then show ?case using serve_request_keep [of srv n keep st] by auto
qed simp

declare connection.simps [simp del]

definition execute_connection :: "server \<Rightarrow> istream \<Rightarrow> reply list result option" where
  "execute_connection srv st = connection srv 0 False st []"

section \<open>The window of samples\<close>

lemma sampled_window: "sampled taken v \<Longrightarrow> v = take 30 taken"
proof (induction rule: sampled.induct)
  case (sample taken v x)
  show ?case
  proof (cases "length taken < 30")
    case True
    with sample.IH show ?thesis by (simp add: addAggregator_def)
  next
    case False
    then have "v \<noteq> []" "length v = 30" "butlast v = take 29 taken"
      using sample.IH by (auto simp: butlast_take)
    then show ?thesis by (simp add: addAggregator_def)
  qed
qed simp

lemma sampled_any: "\<exists>v. sampled taken v"
  by (induction taken) (auto intro: sampled.intros)

text \<open>C33: The sample window: whatever has been sampled, the server holds the last thirty samples, newest first. A request
  for a difference over \<open>s\<close> seconds is served from the right samples once \<open>s + 1\<close> have been taken, for every \<open>s\<close> below 30. For
  30 seconds, which the routing of the request accepts, it is never served, however many samples are taken.\<close>

theorem sample_window:
  assumes "sampled taken v" and "1 \<le> s"
  shows "v = take 30 taken \<and>
    (s < 30 \<longrightarrow> s < length taken \<longrightarrow> getAggregators s 0 v = Inr (Some (taken ! s, taken ! 0))) \<and>
    (s = 30 \<longrightarrow> getAggregators s 0 v = Inr None) \<and>
    route_persecond ''/persecond/30'' = Window 30"
proof -
  have v: "v = take 30 taken" by (rule sampled_window [OF assms(1)])
  have "route_persecond ''/persecond/30'' = Window 30"
    by (simp add: route_persecond_def parse_seconds_def stoll_def num_sign_def is_space_def is_digit_of_def digit_val_def
        digits_value_def to_size_def Let_def)
  then show ?thesis using v assms(2) by (auto simp: getAggregators_def)
qed

theorem sample_window_witness:
  "getAggregators 2 0 [13, 12, 11 :: nat] = Inr (Some (11, 13)) \<and> getAggregators 30 0 [13, 12, 11 :: nat] = Inr None"
proof -
  have s: "sampled [13, 12, 11 :: nat] [13, 12, 11]"
    using sampled.sample [OF sampled.sample [OF sampled.sample [OF sampled.start]], of "13 :: nat" 12 11] by (simp add: addAggregator_def)
  show ?thesis using sample_window [OF s, of 2] sample_window [OF s, of 30] by simp
qed

section \<open>No exception leaves a connection\<close>

text \<open>Once the request line has been read the protocol of a request is a supported one.\<close>

definition protocol_ok :: "http_request \<Rightarrow> bool" where
  "protocol_ok m \<longleftrightarrow> msg_initialized m \<and> msg_protocol m \<noteq> InvalidProtocol"

lemma addHeader_protocol: "addHeader h m = Inr m' \<Longrightarrow> protocol_ok m' = protocol_ok m"
  by (auto simp: addHeader_def protocol_ok_def split: if_splits)

lemma read_request_line_protocol:
  "read_request_line st HTTPRequest = (m, st1, r) \<Longrightarrow> (r = Inr () \<longrightarrow> protocol_ok m) \<and> (r \<noteq> Inr () \<longrightarrow> \<not> msg_initialized m)"
  by (auto simp: read_request_line_def setProtocol_def protocol_ok_def protocol_map_def HTTPRequest_def Let_def
      split: prod.splits sum.splits if_splits option.splits)

lemma read_headers_protocol: "read_headers line cl st m = Some (m', st', r) \<Longrightarrow> protocol_ok m' = protocol_ok m"
proof (induction line cl st m "(m', st', r)" rule: read_headers.raw_induct [rotated, consumes 1, case_names step])
  case (step rec line cl st m)
  from step(2) show ?case
    by (auto simp: Let_def split: prod.splits if_splits sum.splits dest: step(1) addHeader_protocol)
qed

lemma read_trailers_protocol: "read_trailers rem n m = Some (Inr (k, m')) \<Longrightarrow> protocol_ok m' = protocol_ok m"
proof (induction rem n m "Inr (k, m') :: (nat \<times> http_request) result" rule: read_trailers.raw_induct [rotated, consumes 1, case_names step])
  case (step rec rem n m)
  from step(2) show ?case
    by (auto simp: Let_def split: if_splits sum.splits dest: step(1) addHeader_protocol)
qed

lemma read_body_protocol: "read_body st m = Some (m', st', out, r) \<Longrightarrow> protocol_ok m' = protocol_ok m"
  by (auto simp: read_body_def read_chunked_body_def protocol_ok_def Let_def
      split: sum.splits option.splits if_splits prod.splits dest!: read_trailers_protocol)

lemma read_request_protocol:
  assumes "read_request st = Some (m, st1, out, r)"
  shows "(msg_initialized m \<longrightarrow> protocol_ok m) \<and> (r = Inr () \<longrightarrow> protocol_ok m)"
  using assms unfolding read_request_def
  by (auto simp: protocol_ok_def split: prod.splits sum.splits option.splits
      dest!: read_request_line_protocol read_headers_protocol read_body_protocol)

text \<open>Responses: the headers a fresh response gets never collide, its protocol and code can be printed.\<close>

abbreviation header_names :: "'a http_message_scheme \<Rightarrow> string list" where
  "header_names m \<equiv> map fst (msg_headers m)"

lemma addHeader_fresh:
  "hdr_name h \<notin> set (header_names m) \<Longrightarrow> addHeader h m = Inr (m\<lparr>msg_headers := msg_headers m @ [(hdr_name h, h)]\<rparr>)"
  by (auto simp: addHeader_def hasHeader_def map_of_eq_None_iff)

lemma mk_header_name [simp]: "hdr_name (mk_header n v) = n"
  by (simp add: mk_header_def)

definition ready :: "http_response \<Rightarrow> bool" where
  "ready r \<longleftrightarrow> header_names r = [''Content-Type'', ''Content-Length''] \<and> msg_protocol r \<noteq> InvalidProtocol \<and>
     resp_code r \<in> {200, 400, 404, 406, 501}"

definition fresh :: "http_response \<Rightarrow> bool" where
  "fresh r \<longleftrightarrow> msg_headers r = [] \<and> msg_protocol r \<noteq> InvalidProtocol"

lemma createResponse_ready:
  "fresh r \<Longrightarrow> c \<in> {200, 400, 404, 406, 501} \<Longrightarrow> \<exists>r'. createResponse mt b c r = Inr r' \<and> ready r'"
  by (simp add: createResponse_def addHeader_fresh fresh_def ready_def)

lemma finish_response_ok:
  "ready r \<Longrightarrow> \<exists>r' k. finish_response srv n keep req r = Inr (r', k) \<and> msg_protocol r' = msg_protocol r \<and> resp_code r' = resp_code r"
  by (auto simp: finish_response_def addHeader_fresh ready_def)

lemma write_reply_ok:
  assumes "msg_protocol r \<noteq> InvalidProtocol" and "resp_code r \<in> {200, 400, 404, 406, 501}"
  shows "\<exists>t. write_reply srv r = Inr (Reply (resp_code r) t)"
proof -
  have "\<exists>p. protocolAsString r = Inr p"
    using assms(1) by (cases "msg_protocol r") (simp_all add: protocolAsString_def protocol_map_def)
  moreover have "\<exists>c. responseCodeAsString r = Inr c"
    using assms(2) by (auto simp: responseCodeAsString_def response_map_def)
  ultimately show ?thesis by (auto simp: write_reply_def write_response_def)
qed

lemma bad_request_ok: "p \<noteq> InvalidProtocol \<Longrightarrow> \<exists>t. bad_request srv p body = Inr (Reply 400 t)"
proof -
  assume p: "p \<noteq> InvalidProtocol"
  then have "fresh (HTTPResponse\<lparr>msg_protocol := p\<rparr>)" by (simp add: fresh_def HTTPResponse_def)
  then obtain r where r: "createResponse TextPlain body 400 (HTTPResponse\<lparr>msg_protocol := p\<rparr>) = Inr r" "ready r"
    using createResponse_ready by blast
  then have "resp_code r = 400" by (auto simp: createResponse_def)
  with r(2) write_reply_ok [of r srv] obtain t where "write_reply srv r = Inr (Reply 400 t)" by (auto simp: ready_def)
  with p r(1) show ?thesis by (simp add: bad_request_def setProtocol_enum_def)
qed

lemma route_codes: "route_path site path mt = Answer m b c \<Longrightarrow> c \<in> {200, 400, 404}"
  by (auto simp: route_path_def route_persecond_def Let_def split: if_splits)

lemma my_get_callback_ready:
  "fresh r \<Longrightarrow> my_get_callback site wait req r = Some x \<Longrightarrow> \<exists>r'. x = Inr r' \<and> ready r'"
  unfolding my_get_callback_def Let_def
  by (auto split: route.splits option.splits OutputFormat.splits dest!: route_codes intro!: createResponse_ready)

definition sensor_callbacks ::
  "'a site \<Rightarrow> (nat \<Rightarrow> ('a \<times> 'a) option) \<Rightarrow> HTTPRequestMethod \<Rightarrow>
   (http_request \<Rightarrow> http_response \<Rightarrow> http_response result option) option" where
  "sensor_callbacks site wait me = (if me \<in> {GET, HEAD} then Some (my_get_callback site wait) else None)"

lemma answer_request_ok:
  assumes "callbackList srv = sensor_callbacks site wait" and "protocol_ok req" and "answer_request srv n keep req = Some x"
  shows "\<exists>c t k. x = Inr (Reply c t, k)"
proof -
  define r where "r = HTTPResponse\<lparr>msg_protocol := msg_protocol req\<rparr>"
  have p: "msg_protocol req \<noteq> InvalidProtocol" using assms(2) by (simp add: protocol_ok_def)
  then have fr: "fresh r" "setProtocol_enum (msg_protocol req) HTTPResponse = Inr r"
    by (simp_all add: fresh_def r_def HTTPResponse_def setProtocol_enum_def)
  obtain r' where r': "ready r'" "x = rbind (finish_response srv n keep req r') (\<lambda>(resp, keep'). rbind (write_reply srv resp) (\<lambda>rep. Inr (rep, keep')))"
  proof (cases "callbackList srv (req_method req)")
    case None
    obtain nm where nm: "getMethodAsString (req_method req) = Inr nm"
      by (cases "req_method req") (simp_all add: getMethodAsString_def method_property_def httpMethodProperties_def)
    obtain r1 where "createResponse TextPlain (''501 Not Implemented. Method '' @ [CHR 0x22] @ nm @ [CHR 0x22] @
        '' is not implemented (yet).'') 501 r = Inr r1" "ready r1"
      using createResponse_ready [OF fr(1)] by blast
    then show ?thesis using that assms(3) None fr(2) nm by (simp add: answer_request_def)
  next
    case (Some cb)
    then have cb: "cb = my_get_callback site wait" using assms(1) by (auto simp: sensor_callbacks_def split: if_splits)
    obtain y where y: "cb req r = Some y" "x = rbind y (\<lambda>resp. rbind (finish_response srv n keep req resp) (\<lambda>(resp, keep').
        rbind (write_reply srv resp) (\<lambda>rep. Inr (rep, keep'))))"
      using assms(3) Some fr(2) by (auto simp: answer_request_def split: option.splits)
    then obtain r1 where "y = Inr r1" "ready r1" using my_get_callback_ready [OF fr(1)] cb by blast
    with y(2) that show ?thesis by simp
  qed
  obtain r2 k where r2: "finish_response srv n keep req r' = Inr (r2, k)" "msg_protocol r2 = msg_protocol r'" "resp_code r2 = resp_code r'"
    using finish_response_ok [OF r'(1)] by blast
  then have "\<exists>t. write_reply srv r2 = Inr (Reply (resp_code r2) t)"
    using r'(1) by (intro write_reply_ok) (simp_all add: ready_def)
  with r'(2) r2(1) show ?thesis by auto
qed

definition final_replies :: "reply list \<Rightarrow> nat" where
  "final_replies log = length (filter (\<lambda>r. case r of Reply c t \<Rightarrow> True | Interim t \<Rightarrow> False) log)"

lemma serve_request_ok:
  assumes "callbackList srv = sensor_callbacks site wait" and "serve_request srv n keep st = Some x"
  shows "\<exists>reps st1 k b. x = Inr (reps, st1, k, b) \<and> final_replies reps = 1"
proof -
  have one: "final_replies (interim out @ [Reply c t]) = 1" for out c t
    by (simp add: final_replies_def interim_def)
  obtain req st1 out r where rd: "read_request st = Some (req, st1, out, r)"
    using assms(2) by (auto simp: serve_request_def split: option.splits)
  note pr = read_request_protocol [OF rd]
  show ?thesis
  proof (cases "r = Inr ()")
    case False
    then obtain e where r: "r = Inl e" by (cases r) auto
    have "(if msg_initialized req then msg_protocol req else HTTP_1_1) \<noteq> InvalidProtocol" using pr by (auto simp: protocol_ok_def)
    from bad_request_ok [OF this, of srv "''400 Bad Request''"] show ?thesis
      using assms(2) rd r one by (auto simp: serve_request_def)
  next
    case True
    then have ok: "protocol_ok req" using pr by simp
    show ?thesis
    proof (cases "msg_protocol req = HTTP_1_1 \<and> \<not> hasHeader ''Host'' req")
      case True
      then show ?thesis
        using bad_request_ok [of HTTP_1_1 srv "''400 Bad Request. HTTP 1.1: Mandatory Host header is missing.''"] assms(2) rd \<open>r = Inr ()\<close> one
        by (auto simp: serve_request_def)
    next
      case False
      then obtain y where "answer_request srv (Suc n) keep req = Some y"
        "x = rbind y (\<lambda>(rep, keep'). Inr (interim out @ [rep], st1, keep', False))"
        using assms(2) rd \<open>r = Inr ()\<close> by (auto simp: serve_request_def split: if_splits)
      moreover from this obtain c t k where "y = Inr (Reply c t, k)" using answer_request_ok [OF assms(1) ok] by blast
      ultimately have "x = Inr (interim out @ [Reply c t], st1, k, False)" by simp
      with one show ?thesis by blast
    qed
  qed
qed

lemma connection_ok:
  assumes "callbackList srv = sensor_callbacks site wait" and "n < 100"
  shows "case connection srv n keep st log of
      None \<Rightarrow> \<exists>m < 100. \<exists>k s. serve_request srv m k s = None
    | Some (Inl e) \<Rightarrow> False
    | Some (Inr out) \<Rightarrow> final_replies log + 1 \<le> final_replies out \<and> final_replies out \<le> final_replies log + (100 - n)"
  using assms
proof (induction srv n keep st log rule: connection.induct)
  case (1 srv n keep st log)
  show ?case
  proof (cases "serve_request srv n keep st")
    case None
    then show ?thesis using "1.prems"(2) by (subst connection.simps) auto
  next
    case (Some x)
    then obtain reps st1 k b where x: "serve_request srv n keep st = Some (Inr (reps, st1, k, b))" "final_replies reps = 1"
      using serve_request_ok [OF "1.prems"(1) Some] by auto
    have log: "final_replies (log @ reps) = final_replies log + 1" using x(2) by (simp add: final_replies_def)
    show ?thesis
    proof (cases "b \<or> \<not> k")
      case True
      then show ?thesis using x log "1.prems"(2) by (subst connection.simps) simp
    next
      case False
      then have "Suc n < 100" using x(1) serve_request_keep [of srv n keep st reps st1] by simp
      from "1.IH" [OF x(1) refl refl refl refl _ "1.prems"(1) this] False
      have "case connection srv (Suc n) k st1 (log @ reps) of
          None \<Rightarrow> \<exists>m < 100. \<exists>k s. serve_request srv m k s = None
        | Some (Inl e) \<Rightarrow> False
        | Some (Inr out) \<Rightarrow> final_replies (log @ reps) + 1 \<le> final_replies out \<and>
            final_replies out \<le> final_replies (log @ reps) + (100 - Suc n)"
        by simp
      moreover have "connection srv n keep st log = connection srv (Suc n) k st1 (log @ reps)"
        using x(1) False by (subst connection.simps) simp
      ultimately show ?thesis using log "1.prems"(2) by (auto split: option.splits sum.splits)
    qed
  qed
qed


definition demo_server :: server where
  "demo_server = \<lparr>callbackList = sensor_callbacks \<lparr>favicon = [], index_html = ''hello'', dashboard = (\<lambda>_. []), json_text = (\<lambda>_. []),
     prom_text = (\<lambda>_. []), absolute = ((0 :: nat), 0)\<rparr> (\<lambda>_. None), header_order = id, date_string = (\<lambda>_. [])\<rparr>"


text \<open>A client that writes the usual blank after the colon does not get a persistent connection: the value that is compared still
  has the blank.\<close>

lemma keep_alive_with_blank:
  assumes "distinct (map fst hs)" and "(''Connection'', ''keep-alive'') \<in> set hs" and "msg_headers req = map stored_header hs"
  shows "header_value ''Connection'' req \<noteq> ''keep-alive''"
proof -
  have "distinct (map fst (map stored_header hs))" using assms(1) by (simp add: o_def stored_header_def)
  moreover have "stored_header (''Connection'', ''keep-alive'') \<in> set (map stored_header hs)" using assms(2) by force
  ultimately have "map_of (map stored_header hs) ''Connection'' = Some (snd (stored_header (''Connection'', ''keep-alive'')))"
    by (intro map_of_is_SomeI) (simp_all add: stored_header_def)
  then show ?thesis by (simp add: header_value_def getHeader_def assms(3) stored_header_def)
qed

end
