(* ===== verification/Counter_State.thy ===== *)
theory Counter_State
  imports Complex_Main Core_Pmu Width_Extender
begin

text \<open>
  Counter states: what one reading of the hardware contains, how readings of cores are combined into sockets and the
  system, and the differences the tools report (cpucounters.h, cpucounters.cpp; counters accessed through model-specific
  registers, \<^verbatim>\<open>canUsePerf\<close> false). \<open>rd\<close> and \<open>wr\<close> of theory Msr act on the registers of one core. A variable that receives a
  register value is zero before the read, as in the code. Readings of uncore units, of the energy counters and of the resctrl
  file system are parameters. \<^verbatim>\<open>operator+=\<close> has assertions that no slot counter wraps; they are compiled out of release builds
  and are not part of the model. Arrays indexed by a programmable counter have eight elements: processors with more counters
  make the C++ code leave its arrays, and the model says nothing about them.
\<close>

section \<open>Double precision\<close>

text \<open>Non-negative doubles as rationals: every operation rounds its exact result to 53 significant bits, ties to even. The
  values of this program are far from overflow and underflow.\<close>

fun bit_length :: "nat \<Rightarrow> nat" where
  "bit_length n = (if n = 0 then 0 else Suc (bit_length (n div 2)))"

declare bit_length.simps [simp del]

definition pow2 :: "int \<Rightarrow> rat" where
  "pow2 e = (if 0 \<le> e then 2 ^ nat e else 1 / 2 ^ nat (- e))"

definition exponent_of :: "rat \<Rightarrow> int" where
  "exponent_of r =
     (let (p, q) = quotient_of r; e = int (bit_length (nat p)) - int (bit_length (nat q))
      in if r < pow2 e then e - 1 else e)"

definition round_even :: "rat \<Rightarrow> int" where
  "round_even r =
     (let f = \<lfloor>r\<rfloor>; d = r - of_int f
      in if d < 1 / 2 then f else if d > 1 / 2 then f + 1 else if even f then f else f + 1)"

definition to_double :: "rat \<Rightarrow> rat" where
  "to_double r = (if r = 0 then 0 else let u = pow2 (exponent_of r - 52) in of_int (round_even (r / u)) * u)"

definition double :: "u64 \<Rightarrow> rat" where
  "double x = to_double (of_nat (unat x))"

definition from_double :: "rat \<Rightarrow> u64" where
  "from_double r = of_int \<lfloor>r\<rfloor>"

section \<open>States of cores\<close>

record BasicCounterState =
  InstRetiredAny :: checked_uint64
  CpuClkUnhaltedThread :: checked_uint64
  CpuClkUnhaltedRef :: checked_uint64
  Event :: "checked_uint64 list"
  InvariantTSC :: u64
  CStateResidency :: "u64 list"
  ThermalHeadroom :: int
  L3Occupancy :: u64
  MemoryBWLocal :: u64
  MemoryBWTotal :: u64
  SMICount :: u64
  FrontendBoundSlots :: u64
  BadSpeculationSlots :: u64
  BackendBoundSlots :: u64
  RetiringSlots :: u64
  AllSlotsRaw :: u64
  MemBoundSlots :: u64
  FetchLatSlots :: u64
  BrMispredSlots :: u64
  HeavyOpsSlots :: u64
  MSRValues :: "u64 \<rightharpoonup> u64"

definition PERF_MAX_CUSTOM_COUNTERS :: nat where "PERF_MAX_CUSTOM_COUNTERS = 8"
definition MAX_C_STATE :: nat where "MAX_C_STATE = 10"

definition BasicCounterState_init :: BasicCounterState where
  "BasicCounterState_init =
     \<lparr>InstRetiredAny = checked_default, CpuClkUnhaltedThread = checked_default, CpuClkUnhaltedRef = checked_default,
      Event = replicate PERF_MAX_CUSTOM_COUNTERS checked_default, InvariantTSC = 0,
      CStateResidency = replicate (MAX_C_STATE + 1) 0, ThermalHeadroom = PCM_INVALID_THERMAL_HEADROOM,
      L3Occupancy = 0, MemoryBWLocal = 0, MemoryBWTotal = 0, SMICount = 0, FrontendBoundSlots = 0, BadSpeculationSlots = 0,
      BackendBoundSlots = 0, RetiringSlots = 0, AllSlotsRaw = 0, MemBoundSlots = 0, FetchLatSlots = 0, BrMispredSlots = 0,
      HeavyOpsSlots = 0, MSRValues = Map.empty\<rparr>"

text \<open>\<^verbatim>\<open>BasicCounterState::operator+=\<close>; the thermal headroom and the register values of the left state stay.\<close>

definition basic_plus :: "BasicCounterState \<Rightarrow> BasicCounterState \<Rightarrow> BasicCounterState" where
  "basic_plus s o' = s\<lparr>
     InstRetiredAny := checked_add (InstRetiredAny s) (InstRetiredAny o'),
     CpuClkUnhaltedThread := checked_add (CpuClkUnhaltedThread s) (CpuClkUnhaltedThread o'),
     CpuClkUnhaltedRef := checked_add (CpuClkUnhaltedRef s) (CpuClkUnhaltedRef o'),
     Event := map (\<lambda>i. checked_add (Event s ! i) (Event o' ! i)) [0..<PERF_MAX_CUSTOM_COUNTERS],
     InvariantTSC := InvariantTSC s + InvariantTSC o',
     CStateResidency := map (\<lambda>i. CStateResidency s ! i + CStateResidency o' ! i) [0..<MAX_C_STATE + 1],
     L3Occupancy := L3Occupancy s + L3Occupancy o',
     MemoryBWLocal := MemoryBWLocal s + MemoryBWLocal o',
     MemoryBWTotal := MemoryBWTotal s + MemoryBWTotal o',
     SMICount := SMICount s + SMICount o',
     FrontendBoundSlots := FrontendBoundSlots s + FrontendBoundSlots o',
     BadSpeculationSlots := BadSpeculationSlots s + BadSpeculationSlots o',
     BackendBoundSlots := BackendBoundSlots s + BackendBoundSlots o',
     RetiringSlots := RetiringSlots s + RetiringSlots o',
     AllSlotsRaw := AllSlotsRaw s + AllSlotsRaw o',
     MemBoundSlots := MemBoundSlots s + MemBoundSlots o',
     FetchLatSlots := FetchLatSlots s + FetchLatSlots o',
     BrMispredSlots := BrMispredSlots s + BrMispredSlots o',
     HeavyOpsSlots := HeavyOpsSlots s + HeavyOpsSlots o'\<rparr>"

section \<open>Reading a core\<close>

definition IA32_TIME_STAMP_COUNTER :: u64 where "IA32_TIME_STAMP_COUNTER = 0x10"
definition MSR_SMI_COUNT :: u64 where "MSR_SMI_COUNT = 0x34"
definition MSR_IA32_THERM_STATUS :: u64 where "MSR_IA32_THERM_STATUS = 0x19C"
definition MSR_PACKAGE_THERM_STATUS :: u64 where "MSR_PACKAGE_THERM_STATUS = 0x1B1"

text \<open>The top-down slots \<^verbatim>\<open>PCM\<close> accumulates for each core, and the bandwidth counters of the core when there are any.\<close>

record tma_slots =
  tma_frontend :: u64
  tma_badspec :: u64
  tma_backend :: u64
  tma_retiring :: u64
  tma_all :: u64
  tma_mem :: u64
  tma_fetch :: u64
  tma_mispred :: u64
  tma_heavy :: u64

record 'm core_ctx =
  core_msr :: 'm
  core_tma :: tma_slots
  bw_local :: "extender option"
  bw_total :: "extender option"

record 'm host =
  hrd :: "'m msr_rd"
  hwr :: "'m msr_wr"
  rdtscp :: "('m \<Rightarrow> u64) option"
  clock_ticks :: "'m \<Rightarrow> u64"
  getL3OCC :: "nat \<Rightarrow> u64"
  getMBL :: "nat \<Rightarrow> u64"
  getMBT :: "nat \<Rightarrow> u64"

text \<open>What the readers consult. Tables of C-state registers have a zero where there is no register; a null table is all zeros.\<close>

record reader_config =
  rc_counters :: core_counters
  rc_online :: "nat \<Rightarrow> bool"
  rc_global_ctrl :: u64
  rc_programmed :: "u64 list list"
  rc_hwtma_l1 :: bool
  rc_hwtma_l2 :: bool
  rc_l3_occupancy :: bool
  rc_useResctrl :: bool
  rc_local_bw :: bool
  rc_remote_bw :: bool
  rc_L3ScalingFactor :: u64
  rc_coreCStateMsr :: "u64 list"
  rc_pkgCStateMsr :: "u64 list"
  rc_tsc_from_clock :: bool
  rc_package_thermal :: bool

definition msr0 :: "'m host \<Rightarrow> 'm \<Rightarrow> u64 \<Rightarrow> u64" where
  "msr0 h m a = read_into (hrd h) m a 0"

definition getInvariantTSC_Fast :: "'m host \<Rightarrow> 'm \<Rightarrow> u64" where
  "getInvariantTSC_Fast h m = (case rdtscp h of Some t \<Rightarrow> t m | None \<Rightarrow> msr0 h m IA32_TIME_STAMP_COUNTER)"

definition readAndAggregateTSC :: "reader_config \<Rightarrow> 'm host \<Rightarrow> 'm \<Rightarrow> BasicCounterState \<Rightarrow> BasicCounterState" where
  "readAndAggregateTSC cfg h m s =
     (if \<not> rc_tsc_from_clock cfg then
        (let t = getInvariantTSC_Fast h m
         in s\<lparr>MSRValues := (MSRValues s)(IA32_TIME_STAMP_COUNTER \<mapsto> t), InvariantTSC := InvariantTSC s + t\<rparr>)
      else s\<lparr>InvariantTSC := InvariantTSC s + clock_ticks h m\<rparr>)"

definition set_msr :: "('m \<Rightarrow> 'm) \<Rightarrow> 'm core_ctx \<Rightarrow> 'm core_ctx" where
  "set_msr f c = c\<lparr>core_msr := f (core_msr c)\<rparr>"

record raw_counters =
  raw_overflows :: u64
  raw_inst :: u64
  raw_clk :: u64
  raw_ref :: u64
  raw_custom :: "u64 list"

definition gen_counters :: "reader_config \<Rightarrow> nat" where
  "gen_counters cfg = unat (core_gen_counter_num_max (rc_counters cfg))"

definition read_raw_counters :: "reader_config \<Rightarrow> 'm host \<Rightarrow> 'm \<Rightarrow> raw_counters" where
  "read_raw_counters cfg h m =
     \<lparr>raw_overflows = msr0 h m IA32_PERF_GLOBAL_STATUS, raw_inst = msr0 h m INST_RETIRED_ADDR,
      raw_clk = msr0 h m CPU_CLK_UNHALTED_THREAD_ADDR, raw_ref = msr0 h m CPU_CLK_UNHALTED_REF_ADDR,
      raw_custom = map (\<lambda>i. msr0 h m (IA32_PMC0 + of_nat i)) [0..<gen_counters cfg]\<rparr>"

text \<open>The share of the slots that a metric field stands for.\<close>

definition slot_share :: "u64 \<Rightarrow> u64 \<Rightarrow> u64 \<Rightarrow> u64" where
  "slot_share x tot slots =
     (if double tot \<noteq> 0 then from_double (to_double (to_double (double x / double tot) * double slots)) else 0)"

text \<open>Top-down metrics: the fields reported for this reading, and the core with its accumulators advanced and registers reset.\<close>

definition read_top_down :: "reader_config \<Rightarrow> 'm host \<Rightarrow> 'm core_ctx \<Rightarrow> tma_slots \<times> 'm core_ctx" where
  "read_top_down cfg h c =
     (if \<not> rc_hwtma_l1 cfg
      then (\<lparr>tma_frontend = 0, tma_badspec = 0, tma_backend = 0, tma_retiring = 0, tma_all = 0, tma_mem = 0, tma_fetch = 0,
             tma_mispred = 0, tma_heavy = 0\<rparr>, c)
      else let perfMetrics = msr0 h (core_msr c) PERF_METRICS_ADDR; slots = msr0 h (core_msr c) TOPDOWN_SLOTS_ADDR;
               fe = extract_bits perfMetrics 16 23; bs = extract_bits perfMetrics 8 15;
               be = extract_bits perfMetrics 24 31; re = extract_bits perfMetrics 0 7;
               share = (\<lambda>x. slot_share x (fe + bs + be + re) slots); t = core_tma c;
               t1 = t\<lparr>tma_frontend := tma_frontend t + share fe, tma_badspec := tma_badspec t + share bs,
                      tma_backend := tma_backend t + share be, tma_retiring := tma_retiring t + share re\<rparr>;
               t2 = (if rc_hwtma_l2 cfg
                     then t1\<lparr>tma_mem := tma_mem t + share (extract_bits perfMetrics 56 63),
                             tma_fetch := tma_fetch t + share (extract_bits perfMetrics 48 55),
                             tma_mispred := tma_mispred t + share (extract_bits perfMetrics 40 47),
                             tma_heavy := tma_heavy t + share (extract_bits perfMetrics 32 39)\<rparr>
                     else t1);
               t3 = t2\<lparr>tma_all := tma_all t + slots\<rparr>;
               shown = (if rc_hwtma_l2 cfg then t3 else t3\<lparr>tma_mem := 0, tma_fetch := 0, tma_mispred := 0, tma_heavy := 0\<rparr>)
           in (shown, (set_msr (\<lambda>m. hwr h (hwr h m PERF_METRICS_ADDR 0) TOPDOWN_SLOTS_ADDR 0) c)\<lparr>core_tma := t3\<rparr>))"

definition initQOSevent :: "reader_config \<Rightarrow> 'm host \<Rightarrow> u64 \<Rightarrow> nat \<Rightarrow> 'm \<Rightarrow> 'm" where
  "initQOSevent cfg h event core m =
     (if rc_online cfg core then hwr h m IA32_QM_EVTSEL (qm_evtsel_value event (msr0 h m IA32_QM_EVTSEL)) else m)"

definition read_l3_occupancy :: "reader_config \<Rightarrow> 'm host \<Rightarrow> nat \<Rightarrow> 'm core_ctx \<Rightarrow> u64 \<times> 'm core_ctx" where
  "read_l3_occupancy cfg h core c =
     (if rc_l3_occupancy cfg \<and> \<not> rc_useResctrl cfg
      then let c1 = set_msr (initQOSevent cfg h 1 core) c in (msr0 h (core_msr c1) IA32_QM_CTR, c1)
      else (0, c))"

text \<open>A bandwidth counter of a core: its register is sampled, extended and checked.\<close>

definition read_bandwidth ::
  "u64 \<Rightarrow> ('m \<Rightarrow> u64 \<times> 'm) \<Rightarrow> extender option \<Rightarrow> u64 \<Rightarrow> 'm \<Rightarrow> u64 \<times> extender option \<times> 'm" where
  "read_bandwidth factor sample ext acc m =
     (case ext of
        None \<Rightarrow> (acc, None, m)
      | Some e \<Rightarrow>
          (let (raw, m1) = sample m; (v, e1) = ext_read raw e; q = extractQOSMonitoring v
           in (if q = PCM_INVALID_QOS_MONITORING_DATA then PCM_INVALID_QOS_MONITORING_DATA
               else acc + from_double (to_double (double (q * factor) / (1024 * 1024))), Some e1, m1)))"

definition readAndAggregateMemoryBWCounters ::
  "reader_config \<Rightarrow> 'm host \<Rightarrow> nat \<Rightarrow> BasicCounterState \<times> 'm core_ctx \<Rightarrow> BasicCounterState \<times> 'm core_ctx" where
  "readAndAggregateMemoryBWCounters cfg h core = (\<lambda>(s, c).
     if rc_useResctrl cfg then
       (s\<lparr>MemoryBWLocal := MemoryBWLocal s + (if rc_local_bw cfg then getMBL h core div (1024 * 1024) else 0),
          MemoryBWTotal := MemoryBWTotal s + (if rc_remote_bw cfg then getMBT h core div (1024 * 1024) else 0)\<rparr>, c)
     else
       let (loc, e1, m1) = read_bandwidth (rc_L3ScalingFactor cfg) (MBLCounter (msr0 h) (hwr h)) (bw_local c) (MemoryBWLocal s) (core_msr c);
           (tot, e2, m2) = read_bandwidth (rc_L3ScalingFactor cfg) (MBTCounter (msr0 h) (hwr h)) (bw_total c) (MemoryBWTotal s) m1
       in (s\<lparr>MemoryBWLocal := loc, MemoryBWTotal := tot\<rparr>, c\<lparr>core_msr := m2, bw_local := e1, bw_total := e2\<rparr>))"

definition read_cstates :: "'m host \<Rightarrow> u64 list \<Rightarrow> 'm \<Rightarrow> u64 list" where
  "read_cstates h tab m = map (\<lambda>i. if tab ! i \<noteq> 0 then msr0 h m (tab ! i) else 0) [0..<MAX_C_STATE + 1]"

definition record_cstates :: "u64 list \<Rightarrow> u64 list \<Rightarrow> (u64 \<rightharpoonup> u64) \<Rightarrow> u64 \<rightharpoonup> u64" where
  "record_cstates tab vals msrs = fold (\<lambda>i f. if tab ! i \<noteq> 0 then f(tab ! i \<mapsto> vals ! i) else f) [0..<MAX_C_STATE + 1] msrs"

definition l3_value :: "reader_config \<Rightarrow> 'm host \<Rightarrow> nat \<Rightarrow> u64 \<Rightarrow> u64" where
  "l3_value cfg h core raw =
     (if rc_useResctrl cfg then getL3OCC h core div 1024
      else let v = extractQOSMonitoring raw
           in if v = PCM_INVALID_QOS_MONITORING_DATA then PCM_INVALID_QOS_MONITORING_DATA
              else from_double (to_double (double (v * rc_L3ScalingFactor cfg) / 1024)))"

text \<open>The last part of \<^verbatim>\<open>readAndAggregate\<close>: everything that was read is added to the state.\<close>

definition add_readings ::
  "reader_config \<Rightarrow> raw_counters \<Rightarrow> u32 \<Rightarrow> tma_slots \<Rightarrow> u64 \<Rightarrow> u64 list \<Rightarrow> u64 \<Rightarrow> u64 \<Rightarrow> BasicCounterState \<Rightarrow> BasicCounterState" where
  "add_readings cfg raw corrupted td l3 cstates therm smi s =
     (let ovf = (\<lambda>i. extract_bits (raw_overflows raw) i i);
          fixed = (\<lambda>v i. \<lparr>cu_data = extractCoreFixedCounterValue False (rc_counters cfg) v, cu_overflows = ovf i\<rparr>);
          custom = (\<lambda>i. if bit corrupted i then NOT 0 else raw_custom raw ! i);
          event = (\<lambda>i. \<lparr>cu_data = extractCoreGenCounterValue False (rc_counters cfg) (custom i), cu_overflows = ovf (of_nat i)\<rparr>)
      in s\<lparr>InstRetiredAny := checked_add (InstRetiredAny s) (fixed (raw_inst raw) 32),
           CpuClkUnhaltedThread := checked_add (CpuClkUnhaltedThread s) (fixed (raw_clk raw) 33),
           CpuClkUnhaltedRef := checked_add (CpuClkUnhaltedRef s) (fixed (raw_ref raw) 34),
           Event := map (\<lambda>i. if i < gen_counters cfg then checked_add (Event s ! i) (event i) else Event s ! i)
                      [0..<PERF_MAX_CUSTOM_COUNTERS],
           L3Occupancy := l3,
           CStateResidency := map (\<lambda>i. CStateResidency s ! i + cstates ! i) [0..<MAX_C_STATE + 1],
           ThermalHeadroom := extractThermalHeadroom therm,
           SMICount := SMICount s + smi,
           FrontendBoundSlots := FrontendBoundSlots s + tma_frontend td,
           BadSpeculationSlots := BadSpeculationSlots s + tma_badspec td,
           BackendBoundSlots := BackendBoundSlots s + tma_backend td,
           RetiringSlots := RetiringSlots s + tma_retiring td,
           AllSlotsRaw := AllSlotsRaw s + tma_all td,
           MemBoundSlots := MemBoundSlots s + tma_mem td,
           FetchLatSlots := FetchLatSlots s + tma_fetch td,
           BrMispredSlots := BrMispredSlots s + tma_mispred td,
           HeavyOpsSlots := HeavyOpsSlots s + tma_heavy td\<rparr>)"

definition readAndAggregate ::
  "reader_config \<Rightarrow> 'm host \<Rightarrow> nat \<Rightarrow> BasicCounterState \<times> 'm core_ctx \<Rightarrow> BasicCounterState \<times> 'm core_ctx" where
  "readAndAggregate cfg h core = (\<lambda>(s, c).
     let freezeUnfreeze = rc_global_ctrl cfg \<noteq> 0;
         c1 = (if freezeUnfreeze then set_msr (\<lambda>m. hwr h m IA32_CR_PERF_GLOBAL_CTRL 0) c else c);
         corrupted = checkCustomCoreProgramming (hrd h) False (rc_programmed cfg) core (core_msr c1);
         raw = read_raw_counters cfg h (core_msr c1);
         c2 = set_msr (\<lambda>m. hwr h m IA32_PERF_GLOBAL_OVF_CTRL (raw_overflows raw)) c1;
         (td, c3) = read_top_down cfg h c2;
         (cL3Occupancy, c4) = read_l3_occupancy cfg h core c3;
         (s1, c5) = readAndAggregateMemoryBWCounters cfg h core (s, c4);
         s2 = readAndAggregateTSC cfg h (core_msr c5) s1;
         cstates = read_cstates h (rc_coreCStateMsr cfg) (core_msr c5);
         therm = msr0 h (core_msr c5) MSR_IA32_THERM_STATUS;
         smi = msr0 h (core_msr c5) MSR_SMI_COUNT;
         s3 = s2\<lparr>MSRValues := (record_cstates (rc_coreCStateMsr cfg) cstates (MSRValues s2))
                  (MSR_IA32_THERM_STATUS \<mapsto> therm, MSR_SMI_COUNT \<mapsto> smi)\<rparr>;
         s4 = add_readings cfg raw corrupted td (l3_value cfg h core cL3Occupancy) cstates therm smi s3;
         c6 = (if freezeUnfreeze then set_msr (\<lambda>m. hwr h m IA32_CR_PERF_GLOBAL_CTRL (rc_global_ctrl cfg)) c5 else c5)
     in (s4, c6))"

section \<open>States of sockets and the system\<close>

record UncoreCounterState =
  UFSStatus :: "u64 list"
  UncMCFullWrites :: u64
  UncMCNormalReads :: u64
  UncHARequests :: u64
  UncHALocalRequests :: u64
  UncNMMiss :: u64
  UncNMHit :: u64
  UncPMMWrites :: u64
  UncPMMReads :: u64
  UncEDCFullWrites :: u64
  UncEDCNormalReads :: u64
  UncMCGTRequests :: u64
  UncMCIARequests :: u64
  UncMCIORequests :: u64
  PackageEnergyStatus :: u64
  PPEnergyStatus :: "u64 list"
  DRAMEnergyStatus :: u64
  TOROccupancyIAMiss :: u64
  TORInsertsIAMiss :: u64
  UncClocks :: u64
  PkgCStateResidency :: "u64 list"

definition MAX_PP :: nat where "MAX_PP = 1"

definition UncoreCounterState_init :: UncoreCounterState where
  "UncoreCounterState_init =
     \<lparr>UFSStatus = [], UncMCFullWrites = 0, UncMCNormalReads = 0, UncHARequests = 0, UncHALocalRequests = 0, UncNMMiss = 0,
      UncNMHit = 0, UncPMMWrites = 0, UncPMMReads = 0, UncEDCFullWrites = 0, UncEDCNormalReads = 0, UncMCGTRequests = 0,
      UncMCIARequests = 0, UncMCIORequests = 0, PackageEnergyStatus = 0, PPEnergyStatus = replicate (MAX_PP + 1) 0,
      DRAMEnergyStatus = 0, TOROccupancyIAMiss = 0, TORInsertsIAMiss = 0, UncClocks = 0,
      PkgCStateResidency = replicate (MAX_C_STATE + 1) 0\<rparr>"

text \<open>\<^verbatim>\<open>UncoreCounterState::operator+=\<close>: near memory hits and misses, power planes and frequency status are not added.\<close>

definition uncore_plus :: "UncoreCounterState \<Rightarrow> UncoreCounterState \<Rightarrow> UncoreCounterState" where
  "uncore_plus s o' = s\<lparr>
     UncMCFullWrites := UncMCFullWrites s + UncMCFullWrites o',
     UncMCNormalReads := UncMCNormalReads s + UncMCNormalReads o',
     UncHARequests := UncHARequests s + UncHARequests o',
     UncHALocalRequests := UncHALocalRequests s + UncHALocalRequests o',
     UncPMMReads := UncPMMReads s + UncPMMReads o',
     UncPMMWrites := UncPMMWrites s + UncPMMWrites o',
     UncEDCFullWrites := UncEDCFullWrites s + UncEDCFullWrites o',
     UncEDCNormalReads := UncEDCNormalReads s + UncEDCNormalReads o',
     UncMCGTRequests := UncMCGTRequests s + UncMCGTRequests o',
     UncMCIARequests := UncMCIARequests s + UncMCIARequests o',
     UncMCIORequests := UncMCIORequests s + UncMCIORequests o',
     PackageEnergyStatus := PackageEnergyStatus s + PackageEnergyStatus o',
     DRAMEnergyStatus := DRAMEnergyStatus s + DRAMEnergyStatus o',
     TOROccupancyIAMiss := TOROccupancyIAMiss s + TOROccupancyIAMiss o',
     TORInsertsIAMiss := TORInsertsIAMiss s + TORInsertsIAMiss o',
     UncClocks := UncClocks s + UncClocks o',
     PkgCStateResidency := map (\<lambda>i. PkgCStateResidency s ! i + PkgCStateResidency o' ! i) [0..<MAX_C_STATE + 1]\<rparr>"

text \<open>Socket and system states have both parts. The link counters and raw registers of the system (\<^verbatim>\<open>readQPICounters\<close>,
  \<^verbatim>\<open>readPCICFGRegisters\<close>, \<^verbatim>\<open>readMMIORegisters\<close>, \<^verbatim>\<open>readPMTRegisters\<close>, \<^verbatim>\<open>readTPMIRegisters\<close>) are one value of any type.\<close>

record SocketCounterState =
  basic :: BasicCounterState
  uncore :: UncoreCounterState

record 'x SystemCounterState = SocketCounterState +
  systemEnergyStatus :: u64
  system_registers :: "'x option"

definition SocketCounterState_init :: SocketCounterState where
  "SocketCounterState_init = \<lparr>basic = BasicCounterState_init, uncore = UncoreCounterState_init\<rparr>"

definition SystemCounterState_init :: "'x SystemCounterState" where
  "SystemCounterState_init =
     \<lparr>basic = BasicCounterState_init, uncore = UncoreCounterState_init, systemEnergyStatus = 0, system_registers = None\<rparr>"

definition add_core :: "BasicCounterState \<Rightarrow> 'a SocketCounterState_scheme \<Rightarrow> 'a SocketCounterState_scheme" where
  "add_core ccs s = s\<lparr>basic := basic_plus (basic s) ccs\<rparr>"

definition add_socket :: "SocketCounterState \<Rightarrow> 'x SystemCounterState \<Rightarrow> 'x SystemCounterState" where
  "add_socket scs s = s\<lparr>basic := basic_plus (basic s) (basic scs), uncore := uncore_plus (uncore s) (uncore scs)\<rparr>"

section \<open>Reading sockets\<close>

text \<open>What the uncore of a socket delivers when it is read.\<close>

record mc_values =
  mc_reads :: u64
  mc_writes :: u64
  mc_pmm_reads :: u64
  mc_pmm_writes :: u64

record server_pmu = mc_values +
  pmu_nm_hits :: u64
  pmu_nm_misses :: u64
  pmu_ha_requests :: u64
  pmu_ha_local :: u64
  pmu_edc_reads :: u64
  pmu_edc_writes :: u64

datatype legacy_uncore = Nehalem_EP | Nehalem_EX | Other_Uncore

record uncore_source =
  us_llc_latency :: bool
  us_uncore_frequency :: bool
  us_tor_occupancy :: u64
  us_tor_inserts :: u64
  us_requests_all :: u64
  us_requests_local :: u64
  us_clocks :: u64
  us_ufs :: "u64 list option"
  us_serverBW :: "mc_values option"
  us_pmm :: bool
  us_pcicfg :: bool
  us_pmu :: "server_pmu option"
  us_near_memory :: bool
  us_local_ratio :: bool
  us_cha :: bool
  us_hbm :: bool
  us_clientBW :: "(u64 \<times> u64 \<times> u64 \<times> u64 \<times> u64) option"
  us_legacy :: legacy_uncore
  us_counter_width :: u32
  us_package_energy :: "u64 option"
  us_dram_energy :: "u64 option"
  us_pp_energy :: "u64 list"

definition MSR_UNCORE_PMC0 :: u64 where "MSR_UNCORE_PMC0 = 0x3B0"
definition MSR_UNCORE_PMC1 :: u64 where "MSR_UNCORE_PMC1 = 0x3B1"
definition MB0_MSR_PMU_CNT_0 :: u64 where "MB0_MSR_PMU_CNT_0 = 0xcb1"
definition MB1_MSR_PMU_CNT_0 :: u64 where "MB1_MSR_PMU_CNT_0 = 0xcf1"
definition BB0_MSR_PERF_CNT_1 :: u64 where "BB0_MSR_PERF_CNT_1 = 0xc33"
definition BB1_MSR_PERF_CNT_1 :: u64 where "BB1_MSR_PERF_CNT_1 = 0xc73"

definition read_latency_counters :: "uncore_source \<Rightarrow> UncoreCounterState \<Rightarrow> UncoreCounterState" where
  "read_latency_counters u r =
     (let r1 = (if us_llc_latency u
                then r\<lparr>TOROccupancyIAMiss := TOROccupancyIAMiss r + us_tor_occupancy u,
                       TORInsertsIAMiss := TORInsertsIAMiss r + us_tor_inserts u\<rparr> else r);
          r2 = (if us_llc_latency u \<or> us_uncore_frequency u then r1\<lparr>UncClocks := UncClocks r1 + us_clocks u\<rparr> else r1)
      in case us_ufs u of Some vs \<Rightarrow> r2\<lparr>UFSStatus := vs\<rparr> | None \<Rightarrow> r2)"

definition read_imc :: "uncore_source \<Rightarrow> server_pmu \<Rightarrow> UncoreCounterState \<Rightarrow> UncoreCounterState" where
  "read_imc u p r =
     (if us_serverBW u = None
      then r\<lparr>UncMCNormalReads := UncMCNormalReads r + mc_reads p, UncMCFullWrites := UncMCFullWrites r + mc_writes p,
             UncNMHit := UncNMHit r + (if us_near_memory u then pmu_nm_hits p else 0),
             UncNMMiss := UncNMMiss r + (if us_near_memory u then pmu_nm_misses p else 0)\<rparr>
      else r)"

definition read_ha :: "uncore_source \<Rightarrow> server_pmu \<Rightarrow> UncoreCounterState \<Rightarrow> UncoreCounterState" where
  "read_ha u p r =
     (if us_local_ratio u
      then r\<lparr>UncHARequests := UncHARequests r + (if us_cha u then us_requests_all u else pmu_ha_requests p),
             UncHALocalRequests := UncHALocalRequests r + (if us_cha u then us_requests_local u else pmu_ha_local p)\<rparr>
      else r)"

definition read_pmm_edc :: "uncore_source \<Rightarrow> server_pmu \<Rightarrow> UncoreCounterState \<Rightarrow> UncoreCounterState" where
  "read_pmm_edc u p r =
     (let r1 = (if us_pmm u \<and> us_serverBW u = None
                then r\<lparr>UncPMMReads := UncPMMReads r + mc_pmm_reads p, UncPMMWrites := UncPMMWrites r + mc_pmm_writes p\<rparr> else r)
      in if us_hbm u then r1\<lparr>UncEDCNormalReads := UncEDCNormalReads r1 + pmu_edc_reads p,
                             UncEDCFullWrites := UncEDCFullWrites r1 + pmu_edc_writes p\<rparr> else r1)"

definition read_server_pmu :: "uncore_source \<Rightarrow> server_pmu \<Rightarrow> UncoreCounterState \<Rightarrow> UncoreCounterState" where
  "read_server_pmu u p r = read_pmm_edc u p (read_ha u p (read_imc u p r))"

definition read_legacy_uncore :: "uncore_source \<Rightarrow> 'm host \<Rightarrow> 'm \<Rightarrow> UncoreCounterState \<Rightarrow> UncoreCounterState" where
  "read_legacy_uncore u h m r =
     (let v = extractUncoreGenCounterValue (us_counter_width u);
          two = (\<lambda>a b. let x = msr0 h m a; y = read_into (hrd h) m b x in v x + v y)
      in case us_legacy u of
           Nehalem_EP \<Rightarrow> r\<lparr>UncMCFullWrites := UncMCFullWrites r + v (msr0 h m MSR_UNCORE_PMC0),
                           UncMCNormalReads := UncMCNormalReads r + v (msr0 h m MSR_UNCORE_PMC1)\<rparr>
         | Nehalem_EX \<Rightarrow> r\<lparr>UncMCNormalReads := UncMCNormalReads r + two MB0_MSR_PMU_CNT_0 MB1_MSR_PMU_CNT_0,
                           UncMCFullWrites := UncMCFullWrites r + two BB0_MSR_PERF_CNT_1 BB1_MSR_PERF_CNT_1\<rparr>
         | Other_Uncore \<Rightarrow> r)"

definition read_serverBW :: "uncore_source \<Rightarrow> UncoreCounterState \<Rightarrow> UncoreCounterState" where
  "read_serverBW u r =
     (case us_serverBW u of
        Some b \<Rightarrow> (let r1 = r\<lparr>UncMCNormalReads := UncMCNormalReads r + mc_reads b, UncMCFullWrites := UncMCFullWrites r + mc_writes b\<rparr>
                   in if us_pmm u then r1\<lparr>UncPMMReads := UncPMMReads r1 + mc_pmm_reads b,
                                          UncPMMWrites := UncPMMWrites r1 + mc_pmm_writes b\<rparr> else r1)
      | None \<Rightarrow> r)"

definition read_clientBW :: "u64 \<times> u64 \<times> u64 \<times> u64 \<times> u64 \<Rightarrow> UncoreCounterState \<Rightarrow> UncoreCounterState" where
  "read_clientBW = (\<lambda>(reads, writes, gt, ia, io) r.
     r\<lparr>UncMCNormalReads := UncMCNormalReads r + reads, UncMCFullWrites := UncMCFullWrites r + writes,
       UncMCGTRequests := UncMCGTRequests r + gt, UncMCIARequests := UncMCIARequests r + ia,
       UncMCIORequests := UncMCIORequests r + io\<rparr>)"

text \<open>\<open>m\<close> holds the registers of the reference core of the socket.\<close>

definition readAndAggregateUncoreMCCounters ::
  "uncore_source \<Rightarrow> 'm host \<Rightarrow> nat \<Rightarrow> 'm \<Rightarrow> UncoreCounterState \<Rightarrow> UncoreCounterState" where
  "readAndAggregateUncoreMCCounters u h socket m r =
     (let r2 = read_serverBW u (read_latency_counters u r)
      in if us_pcicfg u then (case us_pmu u of Some p \<Rightarrow> read_server_pmu u p r2 | None \<Rightarrow> r2)
         else case us_clientBW u of
                Some b \<Rightarrow> if socket = 0 then read_clientBW b r2 else read_legacy_uncore u h m r2
              | None \<Rightarrow> read_legacy_uncore u h m r2)"

definition readAndAggregateEnergyCounters :: "uncore_source \<Rightarrow> nat \<Rightarrow> UncoreCounterState \<Rightarrow> UncoreCounterState" where
  "readAndAggregateEnergyCounters u socket r =
     (let add = (\<lambda>old v. case v of Some x \<Rightarrow> old + x | None \<Rightarrow> old)
      in r\<lparr>PackageEnergyStatus := add (PackageEnergyStatus r) (us_package_energy u),
           DRAMEnergyStatus := add (DRAMEnergyStatus r) (us_dram_energy u),
           PPEnergyStatus := (if socket = 0 then map (\<lambda>pp. if pp < length (us_pp_energy u) then PPEnergyStatus r ! pp + us_pp_energy u ! pp
                                                        else PPEnergyStatus r ! pp) [0..<MAX_PP + 1]
                              else PPEnergyStatus r)\<rparr>)"

definition readPackageThermalHeadroom :: "reader_config \<Rightarrow> 'm host \<Rightarrow> 'm \<Rightarrow> BasicCounterState \<Rightarrow> BasicCounterState" where
  "readPackageThermalHeadroom cfg h m s =
     (if rc_package_thermal cfg
      then let v = msr0 h m MSR_PACKAGE_THERM_STATUS
           in s\<lparr>MSRValues := (MSRValues s)(MSR_PACKAGE_THERM_STATUS \<mapsto> v), ThermalHeadroom := extractThermalHeadroom v\<rparr>
      else s\<lparr>ThermalHeadroom := PCM_INVALID_THERMAL_HEADROOM\<rparr>)"

definition readMSRs :: "'m host \<Rightarrow> 'm \<Rightarrow> u64 list \<Rightarrow> BasicCounterState \<Rightarrow> BasicCounterState" where
  "readMSRs h m indices s =
     fold (\<lambda>i s. if MSRValues s i = None then s\<lparr>MSRValues := (MSRValues s)(i \<mapsto> msr0 h m i)\<rparr> else s) indices s"

definition readAndAggregatePackageCStateResidencies ::
  "reader_config \<Rightarrow> 'm host \<Rightarrow> 'm \<Rightarrow> UncoreCounterState \<Rightarrow> UncoreCounterState" where
  "readAndAggregatePackageCStateResidencies cfg h m r =
     (let v = read_cstates h (rc_pkgCStateMsr cfg) m
      in r\<lparr>PkgCStateResidency := map (\<lambda>i. if v ! i \<noteq> 0 then PkgCStateResidency r ! i + v ! i else PkgCStateResidency r ! i)
             [0..<MAX_C_STATE + 1]\<rparr>)"

section \<open>Reading everything\<close>

record system_layout =
  num_cores :: nat
  num_sockets :: nat
  socket_of :: "nat \<Rightarrow> nat"
  socketRefCore :: "nat \<Rightarrow> int"

text \<open>\<^verbatim>\<open>getAllCounterStates\<close> gives one task to the queue of every online core and one for each socket to the queue of its
  reference core. The queues run concurrently, each in order; \<open>sched\<close> is the order in which the tasks happen to run. A task
  that addresses one socket state adds to it atomically. For a socket without a reference core the code queues the task on core
  0 and then reads register handle -1, which is undefined; the model reads core 0.\<close>

datatype task = Core_Task nat | Socket_Task nat

definition ref_core :: "system_layout \<Rightarrow> nat \<Rightarrow> nat" where
  "ref_core lay s = (if socketRefCore lay s < 0 then 0 else nat (socketRefCore lay s))"

fun queue :: "system_layout \<Rightarrow> task \<Rightarrow> nat" where
  "queue lay (Core_Task c) = c"
| "queue lay (Socket_Task s) = ref_core lay s"

definition upd :: "nat \<Rightarrow> ('a \<Rightarrow> 'a) \<Rightarrow> 'a list \<Rightarrow> 'a list" where
  "upd i g xs = xs[i := g (xs ! i)]"

record 'm run =
  run_cores :: "BasicCounterState list"
  run_sockets :: "SocketCounterState list"
  run_ctxs :: "'m core_ctx list"

record 'm plan =
  plan_cfg :: reader_config
  plan_host :: "'m host"
  plan_layout :: system_layout
  plan_uncore :: "nat \<Rightarrow> uncore_source"
  threadMSRConfig :: "u64 list"
  packageMSRConfig :: "u64 list"
  plan_sockets :: bool
  plan_energy :: "u64 option"

definition core_task :: "'m plan \<Rightarrow> nat \<Rightarrow> BasicCounterState \<times> 'm core_ctx \<Rightarrow> BasicCounterState \<times> 'm core_ctx" where
  "core_task p c x =
     (let (s, ctx) = readAndAggregate (plan_cfg p) (plan_host p) c x
      in (readMSRs (plan_host p) (core_msr ctx) (threadMSRConfig p) s, ctx))"

definition package_task :: "'m plan \<Rightarrow> 'm \<Rightarrow> SocketCounterState \<Rightarrow> SocketCounterState" where
  "package_task p m k = k\<lparr>uncore := readAndAggregatePackageCStateResidencies (plan_cfg p) (plan_host p) m (uncore k)\<rparr>"

definition socket_task :: "'m plan \<Rightarrow> nat \<Rightarrow> 'm \<Rightarrow> SocketCounterState \<Rightarrow> SocketCounterState" where
  "socket_task p s m k =
     k\<lparr>uncore := readAndAggregateEnergyCounters (plan_uncore p s) s
                  (readAndAggregateUncoreMCCounters (plan_uncore p s) (plan_host p) s m (uncore k)),
       basic := readMSRs (plan_host p) m (packageMSRConfig p) (readPackageThermalHeadroom (plan_cfg p) (plan_host p) m (basic k))\<rparr>"

fun run_task :: "'m plan \<Rightarrow> task \<Rightarrow> 'm run \<Rightarrow> 'm run" where
  "run_task p (Core_Task c) r =
     (let (s, ctx) = core_task p c (run_cores r ! c, run_ctxs r ! c)
      in \<lparr>run_cores = (run_cores r)[c := s],
          run_sockets = (if plan_sockets p then upd (socket_of (plan_layout p) c) (package_task p (core_msr ctx)) (run_sockets r)
                         else run_sockets r),
          run_ctxs = (run_ctxs r)[c := ctx]\<rparr>)"
| "run_task p (Socket_Task s) r =
     r\<lparr>run_sockets := upd s (socket_task p s (core_msr (run_ctxs r ! ref_core (plan_layout p) s))) (run_sockets r)\<rparr>"

definition tasks :: "'m plan \<Rightarrow> task list" where
  "tasks p =
     map Core_Task (filter (rc_online (plan_cfg p)) [0..<num_cores (plan_layout p)]) @
     (if plan_sockets p then map Socket_Task [0..<num_sockets (plan_layout p)] else [])"

definition valid_schedule :: "'m plan \<Rightarrow> task list \<Rightarrow> bool" where
  "valid_schedule p sched \<longleftrightarrow>
     mset sched = mset (tasks p) \<and>
     (\<forall>q \<in> set (map (queue (plan_layout p)) (tasks p)).
        filter (\<lambda>t. queue (plan_layout p) t = q) sched = filter (\<lambda>t. queue (plan_layout p) t = q) (tasks p))"

definition start_run :: "'m plan \<Rightarrow> 'm core_ctx list \<Rightarrow> 'm run" where
  "start_run p ctxs =
     \<lparr>run_cores = replicate (num_cores (plan_layout p)) BasicCounterState_init,
      run_sockets = replicate (num_sockets (plan_layout p)) SocketCounterState_init, run_ctxs = ctxs\<rparr>"

definition aggregate_cores :: "'m plan \<Rightarrow> BasicCounterState list \<Rightarrow> SocketCounterState list \<Rightarrow> SocketCounterState list" where
  "aggregate_cores p cores socks =
     fold (\<lambda>c ks. if rc_online (plan_cfg p) c then upd (socket_of (plan_layout p) c) (add_core (cores ! c)) ks else ks)
       [0..<num_cores (plan_layout p)] socks"

definition readSystemEnergyStatus :: "'m plan \<Rightarrow> 'x SystemCounterState \<Rightarrow> 'x SystemCounterState" where
  "readSystemEnergyStatus p s = (case plan_energy p of Some e \<Rightarrow> s\<lparr>systemEnergyStatus := e\<rparr> | None \<Rightarrow> s)"

definition getAllCounterStates ::
  "'m plan \<Rightarrow> 'x \<Rightarrow> task list \<Rightarrow> 'm core_ctx list \<Rightarrow>
   'x SystemCounterState \<times> SocketCounterState list \<times> BasicCounterState list \<times> 'm core_ctx list" where
  "getAllCounterStates p regs sched ctxs =
     (let r = fold (run_task p) sched (start_run p ctxs);
          socks = aggregate_cores p (run_cores r) (run_sockets r);
          sys0 = (SystemCounterState_init :: 'x SystemCounterState)\<lparr>system_registers := (if plan_sockets p then Some regs else None)\<rparr>;
          sys = readSystemEnergyStatus p (fold add_socket socks sys0)
      in (sys, socks, run_cores r, run_ctxs r))"

text \<open>The readers that accumulate core after core in one state.\<close>

definition getCoreCounterState ::
  "reader_config \<Rightarrow> 'm host \<Rightarrow> nat \<Rightarrow> 'm core_ctx list \<Rightarrow> BasicCounterState \<times> 'm core_ctx list" where
  "getCoreCounterState cfg h core ctxs =
     (let (s, c) = readAndAggregate cfg h core (BasicCounterState_init, ctxs ! core) in (s, ctxs[core := c]))"

definition read_into_socket ::
  "'m plan \<Rightarrow> nat \<Rightarrow> 'a SocketCounterState_scheme \<times> 'm core_ctx list \<Rightarrow> 'a SocketCounterState_scheme \<times> 'm core_ctx list" where
  "read_into_socket p core = (\<lambda>(k, ctxs).
     let (s, c) = readAndAggregate (plan_cfg p) (plan_host p) core (basic k, ctxs ! core)
     in (k\<lparr>basic := s, uncore := readAndAggregatePackageCStateResidencies (plan_cfg p) (plan_host p) (core_msr c) (uncore k)\<rparr>,
         ctxs[core := c]))"

definition getSocketCounterState :: "'m plan \<Rightarrow> nat \<Rightarrow> 'm core_ctx list \<Rightarrow> SocketCounterState \<times> 'm core_ctx list" where
  "getSocketCounterState p socket ctxs =
     (let cores = filter (\<lambda>c. rc_online (plan_cfg p) c \<and> socket_of (plan_layout p) c = socket) [0..<num_cores (plan_layout p)];
          (k, ctxs1) = fold (read_into_socket p) cores (SocketCounterState_init, ctxs);
          m = core_msr (ctxs1 ! nat (socketRefCore (plan_layout p) socket))
      in (k\<lparr>uncore := readAndAggregateEnergyCounters (plan_uncore p socket) socket
                       (readAndAggregateUncoreMCCounters (plan_uncore p socket) (plan_host p) socket m (uncore k)),
            basic := readPackageThermalHeadroom (plan_cfg p) (plan_host p) m (basic k)\<rparr>, ctxs1))"

definition read_socket_uncore :: "'m plan \<Rightarrow> 'm core_ctx list \<Rightarrow> nat \<Rightarrow> 'a SocketCounterState_scheme \<Rightarrow> 'a SocketCounterState_scheme" where
  "read_socket_uncore p ctxs s k =
     (let m = core_msr (ctxs ! nat (socketRefCore (plan_layout p) s))
      in if socketRefCore (plan_layout p) s = - 1 then k
         else k\<lparr>uncore := readAndAggregateEnergyCounters (plan_uncore p s) s
                  (readAndAggregateUncoreMCCounters (plan_uncore p s) (plan_host p) s m (uncore k))\<rparr>)"

definition getSystemCounterState ::
  "'m plan \<Rightarrow> 'x \<Rightarrow> 'm core_ctx list \<Rightarrow> 'x SystemCounterState \<times> 'm core_ctx list" where
  "getSystemCounterState p regs ctxs =
     (let (k, ctxs1) = fold (read_into_socket p) (filter (rc_online (plan_cfg p)) [0..<num_cores (plan_layout p)])
                         (SystemCounterState_init, ctxs);
          k1 = fold (read_socket_uncore p ctxs1) [0..<num_sockets (plan_layout p)] k;
          k2 = readSystemEnergyStatus p (k1\<lparr>system_registers := Some regs\<rparr>)
      in (k2\<lparr>basic := (basic k2)\<lparr>ThermalHeadroom := PCM_INVALID_THERMAL_HEADROOM\<rparr>\<rparr>, ctxs1))"

text \<open>\<^verbatim>\<open>getUncoreCounterStates\<close> reads the uncore units of every socket and only the time stamp counter of its reference core, which
  it adds once for each online core of the socket. As in the code every socket needs a reference core.\<close>

definition socket_uncore_state :: "'m plan \<Rightarrow> 'm core_ctx list \<Rightarrow> nat \<Rightarrow> SocketCounterState" where
  "socket_uncore_state p ctxs s =
     (let m = core_msr (ctxs ! nat (socketRefCore (plan_layout p) s)); k = SocketCounterState_init
      in k\<lparr>uncore := readAndAggregateEnergyCounters (plan_uncore p s) s
                      (readAndAggregateUncoreMCCounters (plan_uncore p s) (plan_host p) s m (uncore k)),
           basic := readPackageThermalHeadroom (plan_cfg p) (plan_host p) m (basic k)\<rparr>)"

definition add_reference_tsc :: "'m plan \<Rightarrow> 'm core_ctx list \<Rightarrow> nat \<Rightarrow> SocketCounterState \<Rightarrow> SocketCounterState" where
  "add_reference_tsc p ctxs s k =
     (let refCore = nat (socketRefCore (plan_layout p) s);
          refState = readAndAggregateTSC (plan_cfg p) (plan_host p) (core_msr (ctxs ! refCore)) BasicCounterState_init
      in if rc_online (plan_cfg p) refCore
         then fold (\<lambda>core. if socket_of (plan_layout p) core = s \<and> rc_online (plan_cfg p) core then add_core refState else id)
                [0..<num_cores (plan_layout p)] k
         else k)"

definition getUncoreCounterStates ::
  "'m plan \<Rightarrow> 'x \<Rightarrow> 'm core_ctx list \<Rightarrow> 'x SystemCounterState \<times> SocketCounterState list" where
  "getUncoreCounterStates p regs ctxs =
     (let socks = map (socket_uncore_state p ctxs) [0..<num_sockets (plan_layout p)];
          sys = readSystemEnergyStatus p ((SystemCounterState_init :: 'x SystemCounterState)\<lparr>system_registers := Some regs\<rparr>);
          socks1 = map (\<lambda>s. add_reference_tsc p ctxs s (socks ! s)) [0..<num_sockets (plan_layout p)]
      in (fold add_socket socks1 sys, socks1))"

section \<open>Differences\<close>

definition getInstructionsRetired :: "BasicCounterState \<Rightarrow> BasicCounterState \<Rightarrow> u64" where
  "getInstructionsRetired before after = checked_minus (InstRetiredAny after) (InstRetiredAny before)"

definition getCycles :: "BasicCounterState \<Rightarrow> BasicCounterState \<Rightarrow> u64" where
  "getCycles before after = checked_minus (CpuClkUnhaltedThread after) (CpuClkUnhaltedThread before)"

definition getRefCycles :: "BasicCounterState \<Rightarrow> BasicCounterState \<Rightarrow> u64" where
  "getRefCycles before after = checked_minus (CpuClkUnhaltedRef after) (CpuClkUnhaltedRef before)"

definition getNumberOfCustomEvents :: "nat \<Rightarrow> BasicCounterState \<Rightarrow> BasicCounterState \<Rightarrow> u64" where
  "getNumberOfCustomEvents eventCounterNr before after =
     checked_minus (Event after ! eventCounterNr) (Event before ! eventCounterNr)"

definition getInvariantTSC :: "BasicCounterState \<Rightarrow> BasicCounterState \<Rightarrow> u64" where
  "getInvariantTSC before after = InvariantTSC after - InvariantTSC before"

definition getSMICount :: "BasicCounterState \<Rightarrow> BasicCounterState \<Rightarrow> u64" where
  "getSMICount before after = SMICount after - SMICount before"

definition getAllSlotsRaw :: "BasicCounterState \<Rightarrow> BasicCounterState \<Rightarrow> u64" where
  "getAllSlotsRaw before after = AllSlotsRaw after - AllSlotsRaw before"

end
