(* ===== verification/Counter_Schedule.thy ===== *)
theory Counter_Schedule
  imports Counter_State
begin

text \<open>
  The tasks of one call of \<^verbatim>\<open>getAllCounterStates\<close> (cpucounters.cpp): tasks of different queues commute, so each interleaving
  that keeps the order of every queue gives the same states; and the fields of a core state that \<^verbatim>\<open>operator+=\<close> adds up
  (locale \<open>additive_field\<close>, interpreted in theory Counter_Snapshots for each of them) are summed without loss over the cores of
  a socket and of the system.
\<close>

section \<open>Order of the tasks\<close>

lemma fold_commute_apply_list:
  assumes "\<And>a. a \<in> set as \<Longrightarrow> f x \<circ> f a = f a \<circ> f x"
  shows "fold f as (f x s) = f x (fold f as s)"
  using assms
proof (induction as arbitrary: s)
  case (Cons a as)
  have "f a (f x s) = f x (f a s)" using Cons.prems [of a] by (simp add: fun_eq_iff)
  with Cons show ?case by simp
qed simp

lemma fold_queues:
  assumes "\<And>q. filter (\<lambda>t. k t = q) xs = filter (\<lambda>t. k t = q) ys"
    and "\<And>a b. a \<in> set xs \<Longrightarrow> b \<in> set xs \<Longrightarrow> k a \<noteq> k b \<Longrightarrow> f a \<circ> f b = f b \<circ> f a"
  shows "fold f xs s = fold f ys s"
  using assms
proof (induction xs arbitrary: ys s)
  case Nil
  then have "filter (\<lambda>t. k t = k (hd ys)) ys = []" by simp
  then have "ys = []" by (cases ys) simp_all
  then show ?case by simp
next
  case (Cons x xs)
  have "filter (\<lambda>t. k t = k x) ys = x # filter (\<lambda>t. k t = k x) xs"
    using Cons.prems(1) [of "k x"] by simp
  then obtain as bs where ys: "ys = as @ x # bs" and as: "\<forall>a \<in> set as. k a \<noteq> k x"
    and bs: "filter (\<lambda>t. k t = k x) xs = filter (\<lambda>t. k t = k x) bs"
    by (auto simp: filter_eq_Cons_iff)
  have sub: "set as \<subseteq> set (x # xs)"
  proof
    fix a assume "a \<in> set as"
    then have "a \<in> set (filter (\<lambda>t. k t = k a) ys)" using ys by simp
    then show "a \<in> set (x # xs)" using Cons.prems(1) [of "k a"] by (metis filter_is_subset subsetD)
  qed
  have "fold f xs (f x s) = fold f (as @ bs) (f x s)"
  proof (rule Cons.IH)
    fix q
    show "filter (\<lambda>t. k t = q) xs = filter (\<lambda>t. k t = q) (as @ bs)"
    proof (cases "q = k x")
      case True
      with as bs show ?thesis by simp
    next
      case False
      then show ?thesis using Cons.prems(1) [of q] ys by simp
    qed
  qed (use Cons.prems(2) in simp_all)
  also have "\<dots> = fold f bs (f x (fold f as s))"
  proof -
    have "fold f as (f x s) = f x (fold f as s)"
      using as sub Cons.prems(2) by (intro fold_commute_apply_list) (metis list.set_intros(1) subsetD)
    then show ?thesis by simp
  qed
  finally show ?case using ys by simp
qed


lemma upd_swap: "i \<noteq> j \<Longrightarrow> upd i g (upd j k xs) = upd j k (upd i g xs)"
  by (simp add: upd_def list_update_swap)

lemma upd_commute: "(\<And>x. g (k x) = k (g x)) \<Longrightarrow> upd i g (upd i k xs) = upd i k (upd i g xs)"
  by (cases "i < length xs") (simp_all add: upd_def list_update_beyond)

lemma upd_comm:
  assumes "\<And>x. g (k x) = k (g x)"
  shows "upd i g (upd j k xs) = upd j k (upd i g xs)"
  using assms by (cases "i = j") (auto intro: upd_swap upd_commute)

text \<open>Adding package residencies touches one field only, which no other reader of a socket uses.\<close>

definition on_pkg :: "(u64 list \<Rightarrow> u64 list) \<Rightarrow> UncoreCounterState \<Rightarrow> UncoreCounterState" where
  "on_pkg g r = r\<lparr>PkgCStateResidency := g (PkgCStateResidency r)\<rparr>"

lemma package_on_pkg:
  "readAndAggregatePackageCStateResidencies cfg h m = on_pkg (\<lambda>v. map (\<lambda>i. if read_cstates h (rc_pkgCStateMsr cfg) m ! i \<noteq> 0
      then v ! i + read_cstates h (rc_pkgCStateMsr cfg) m ! i else v ! i) [0..<MAX_C_STATE + 1])"
  by (simp add: fun_eq_iff on_pkg_def readAndAggregatePackageCStateResidencies_def Let_def)

lemma package_package: "package_task p m (package_task p m' k) = package_task p m' (package_task p m k)"
  by (simp add: package_task_def package_on_pkg on_pkg_def del: upt_Suc)

lemma on_pkg_readers:
  "on_pkg g (read_latency_counters u r) = read_latency_counters u (on_pkg g r)"
  "on_pkg g (read_serverBW u r) = read_serverBW u (on_pkg g r)"
  "on_pkg g (read_imc u q r) = read_imc u q (on_pkg g r)"
  "on_pkg g (read_ha u q r) = read_ha u q (on_pkg g r)"
  "on_pkg g (read_pmm_edc u q r) = read_pmm_edc u q (on_pkg g r)"
  "on_pkg g (read_clientBW b r) = read_clientBW b (on_pkg g r)"
  "on_pkg g (read_legacy_uncore u h m r) = read_legacy_uncore u h m (on_pkg g r)"
  "on_pkg g (readAndAggregateEnergyCounters u s r) = readAndAggregateEnergyCounters u s (on_pkg g r)"
proof -
  show "on_pkg g (read_latency_counters u r) = read_latency_counters u (on_pkg g r)"
    by (simp add: on_pkg_def read_latency_counters_def Let_def split: option.split)
  show "on_pkg g (read_serverBW u r) = read_serverBW u (on_pkg g r)"
    by (simp add: on_pkg_def read_serverBW_def Let_def split: option.split)
  show "on_pkg g (read_imc u q r) = read_imc u q (on_pkg g r)" by (simp add: on_pkg_def read_imc_def)
  show "on_pkg g (read_ha u q r) = read_ha u q (on_pkg g r)" by (simp add: on_pkg_def read_ha_def)
  show "on_pkg g (read_pmm_edc u q r) = read_pmm_edc u q (on_pkg g r)" by (simp add: on_pkg_def read_pmm_edc_def Let_def)
  show "on_pkg g (read_clientBW b r) = read_clientBW b (on_pkg g r)" by (simp add: on_pkg_def read_clientBW_def case_prod_beta)
  show "on_pkg g (read_legacy_uncore u h m r) = read_legacy_uncore u h m (on_pkg g r)"
    by (simp add: on_pkg_def read_legacy_uncore_def Let_def split: legacy_uncore.split)
  show "on_pkg g (readAndAggregateEnergyCounters u s r) = readAndAggregateEnergyCounters u s (on_pkg g r)"
    by (simp add: on_pkg_def readAndAggregateEnergyCounters_def Let_def)
qed

lemma on_pkg_mc:
  "on_pkg g (readAndAggregateUncoreMCCounters u h s m r) = readAndAggregateUncoreMCCounters u h s m (on_pkg g r)"
  by (simp add: readAndAggregateUncoreMCCounters_def read_server_pmu_def Let_def on_pkg_readers split: option.split)

lemma package_socket: "package_task p m (socket_task p' s m' k) = socket_task p' s m' (package_task p m k)"
  by (simp add: package_task_def socket_task_def package_on_pkg on_pkg_mc on_pkg_readers)

lemma core_core:
  assumes "c \<noteq> d"
  shows "run_task p (Core_Task c) (run_task p (Core_Task d) r) = run_task p (Core_Task d) (run_task p (Core_Task c) r)"
  using assms by (auto simp: case_prod_beta Let_def list_update_swap intro: upd_comm package_package)

lemma core_socket:
  assumes "c \<noteq> ref_core (plan_layout p) s"
  shows "run_task p (Core_Task c) (run_task p (Socket_Task s) r) = run_task p (Socket_Task s) (run_task p (Core_Task c) r)"
  using assms by (auto simp: case_prod_beta Let_def intro: upd_comm package_socket)

lemma socket_socket:
  assumes "s \<noteq> t"
  shows "run_task p (Socket_Task s) (run_task p (Socket_Task t) r) = run_task p (Socket_Task t) (run_task p (Socket_Task s) r)"
  by (simp add: upd_swap [OF assms])

lemma run_task_commute:
  assumes "queue (plan_layout p) a \<noteq> queue (plan_layout p) b"
  shows "run_task p a \<circ> run_task p b = run_task p b \<circ> run_task p a"
proof (rule ext)
  fix r
  show "(run_task p a \<circ> run_task p b) r = (run_task p b \<circ> run_task p a) r"
    using assms by (cases a; cases b) (auto simp del: run_task.simps intro: core_core core_socket core_socket [symmetric] socket_socket)
qed

lemma schedule_independent:
  assumes "valid_schedule p sched"
  shows "fold (run_task p) sched r = fold (run_task p) (tasks p) r"
proof (rule fold_queues [where k = "queue (plan_layout p)"])
  have set_eq: "set sched = set (tasks p)" using assms unfolding valid_schedule_def by (metis set_mset_mset)
  show "filter (\<lambda>t. queue (plan_layout p) t = q) sched = filter (\<lambda>t. queue (plan_layout p) t = q) (tasks p)" for q
  proof (cases "q \<in> set (map (queue (plan_layout p)) (tasks p))")
    case True
    with assms show ?thesis unfolding valid_schedule_def by blast
  next
    case False
    then have "\<forall>t \<in> set (tasks p). queue (plan_layout p) t \<noteq> q" by auto
    then show ?thesis using set_eq by (simp add: filter_False)
  qed
qed (rule run_task_commute)

section \<open>Fields that add up\<close>

lemma sum_list_upd:
  fixes y :: "'a :: ab_group_add"
  shows "i < length xs \<Longrightarrow> sum_list (xs[i := y]) = sum_list xs + (y - xs ! i)"
  by (induction xs arbitrary: i) (auto split: nat.splits)

locale additive_field =
  fixes f :: "BasicCounterState \<Rightarrow> u64"
  assumes f_plus: "f (basic_plus a b) = f a + f b"
    and f_init: "f BasicCounterState_init = 0"
    and f_thermal: "f (s\<lparr>ThermalHeadroom := t\<rparr>) = f s"
    and f_msrs: "f (s\<lparr>MSRValues := v\<rparr>) = f s"
begin

lemma f_readMSRs: "f (readMSRs h m is s) = f s"
  by (induction "is" arbitrary: s) (simp_all add: readMSRs_def f_msrs)

lemma f_socket_task: "f (basic (socket_task p s m k)) = f (basic k)"
proof -
  have "f (readPackageThermalHeadroom cfg h m b) = f b" for cfg h b
    by (auto simp: readPackageThermalHeadroom_def Let_def f_thermal f_msrs)
  then show ?thesis by (simp add: socket_task_def f_readMSRs)
qed

lemma f_package_task: "f (basic (package_task p m k)) = f (basic k)"
  by (simp add: package_task_def)

lemma f_run_task:
  "(\<forall>k \<in> set (run_sockets r). f (basic k) = 0) \<Longrightarrow> \<forall>k \<in> set (run_sockets (run_task p t r)). f (basic k) = 0"
proof -
  assume z: "\<forall>k \<in> set (run_sockets r). f (basic k) = 0"
  have u: "\<forall>k \<in> set (upd i g (run_sockets r)). f (basic k) = 0" if "\<And>k. f (basic (g k)) = f (basic k)" for i g
  proof (cases "i < length (run_sockets r)")
    case True
    then have "f (basic (g (run_sockets r ! i))) = 0" using z that by simp
    with z show ?thesis by (auto simp: upd_def dest!: set_list_updateD)
  qed (use z in \<open>simp add: upd_def list_update_beyond\<close>)
  show ?thesis
  proof (cases t)
    case (Core_Task c)
    then have "run_sockets (run_task p t r) = run_sockets r \<or>
        (\<exists>i m. run_sockets (run_task p t r) = upd i (package_task p m) (run_sockets r))"
      by (auto simp: case_prod_beta Let_def)
    then show ?thesis using z u [OF f_package_task] by (elim disjE exE) (simp_all only:)
  next
    case (Socket_Task s)
    show ?thesis unfolding Socket_Task using u [OF f_socket_task] by simp
  qed
qed

lemma f_run_tasks:
  "(\<forall>k \<in> set (run_sockets r). f (basic k) = 0) \<Longrightarrow> \<forall>k \<in> set (run_sockets (fold (run_task p) ts r)). f (basic k) = 0"
proof (induction ts arbitrary: r)
  case (Cons t ts)
  show ?case using Cons.IH [OF f_run_task [OF Cons.prems]] by (simp del: run_task.simps)
qed simp

lemma f_add_core: "f (basic (add_core b k)) = f (basic k) + f b"
  by (simp add: add_core_def f_plus)

lemma f_aggregate_socket:
  assumes "s < length socks"
  shows "f (basic (fold (\<lambda>c ks. if on c then upd (so c) (add_core (cores ! c)) ks else ks) cs socks ! s)) =
    f (basic (socks ! s)) + (\<Sum>c \<leftarrow> filter (\<lambda>c. on c \<and> so c = s) cs. f (cores ! c))"
  using assms
proof (induction cs arbitrary: socks)
  case (Cons c cs)
  have "f (basic (upd (so c) (add_core (cores ! c)) socks ! s)) =
      f (basic (socks ! s)) + (if so c = s then f (cores ! c) else 0)"
    using Cons.prems by (simp add: upd_def f_add_core)
  then show ?case using Cons by (simp add: upd_def f_add_core ac_simps)
qed simp

lemma f_aggregate_system:
  assumes "\<forall>c \<in> set cs. on c \<longrightarrow> so c < length socks"
  shows "(\<Sum>k \<leftarrow> fold (\<lambda>c ks. if on c then upd (so c) (add_core (cores ! c)) ks else ks) cs socks. f (basic k)) =
    (\<Sum>k \<leftarrow> socks. f (basic k)) + (\<Sum>c \<leftarrow> filter on cs. f (cores ! c))"
  using assms
proof (induction cs arbitrary: socks)
  case (Cons c cs)
  have step: "(\<Sum>k \<leftarrow> upd (so c) (add_core (cores ! c)) socks. f (basic k)) = (\<Sum>k \<leftarrow> socks. f (basic k)) + f (cores ! c)" if "on c"
    using Cons.prems that
    by (simp add: upd_def map_update sum_list_upd f_add_core)
  show ?case using Cons step by (simp add: upd_def ac_simps)
qed simp

lemma f_sockets: "f (basic (fold add_socket socks sys)) = f (basic sys) + (\<Sum>k \<leftarrow> socks. f (basic k))"
  by (induction socks arbitrary: sys) (simp_all add: add_socket_def f_plus ac_simps)

end

lemma length_run_sockets [simp]: "length (run_sockets (run_task p t r)) = length (run_sockets r)"
  by (cases t) (simp_all add: case_prod_beta Let_def upd_def)

lemma length_run_sockets_fold [simp]: "length (run_sockets (fold (run_task p) ts r)) = length (run_sockets r)"
  by (induction ts arbitrary: r) (simp_all del: run_task.simps)

context additive_field
begin

lemma f_getAll:
  assumes "getAllCounterStates p regs sched ctxs = (sys, socks, cores, ctxs')"
    and "\<forall>c < num_cores (plan_layout p). rc_online (plan_cfg p) c \<longrightarrow> socket_of (plan_layout p) c < num_sockets (plan_layout p)"
  shows "f (basic sys) = (\<Sum>c \<leftarrow> filter (rc_online (plan_cfg p)) [0..<num_cores (plan_layout p)]. f (cores ! c))"
    and "s < num_sockets (plan_layout p) \<Longrightarrow>
      f (basic (socks ! s)) = (\<Sum>c \<leftarrow> filter (\<lambda>c. rc_online (plan_cfg p) c \<and> socket_of (plan_layout p) c = s) [0..<num_cores (plan_layout p)]. f (cores ! c))"
proof -
  define r where "r = fold (run_task p) sched (start_run p ctxs)"
  have e: "cores = run_cores r" "socks = aggregate_cores p (run_cores r) (run_sockets r)"
    "f (basic sys) = (\<Sum>k \<leftarrow> socks. f (basic k))"
    using assms(1)
    by (auto simp: getAllCounterStates_def Let_def r_def readSystemEnergyStatus_def f_sockets SystemCounterState_init_def f_init
        split: option.splits)
  have z: "\<forall>k \<in> set (run_sockets r). f (basic k) = 0"
    unfolding r_def by (rule f_run_tasks) (simp add: start_run_def SocketCounterState_init_def f_init)
  have len: "length (run_sockets r) = num_sockets (plan_layout p)" by (simp add: r_def start_run_def)
  have "map (\<lambda>k. f (basic k)) (run_sockets r) = map (\<lambda>_. 0) (run_sockets r)" using z by simp
  then have zs: "(\<Sum>k \<leftarrow> run_sockets r. f (basic k)) = 0" by (simp only: sum_list_0)
  show "f (basic sys) = (\<Sum>c \<leftarrow> filter (rc_online (plan_cfg p)) [0..<num_cores (plan_layout p)]. f (cores ! c))"
    using assms(2) len
    by (simp add: e aggregate_cores_def f_aggregate_system zs)
  show "f (basic (socks ! s)) = (\<Sum>c \<leftarrow> filter (\<lambda>c. rc_online (plan_cfg p) c \<and> socket_of (plan_layout p) c = s) [0..<num_cores (plan_layout p)]. f (cores ! c))"
    if "s < num_sockets (plan_layout p)"
    using that len z by (simp add: e aggregate_cores_def f_aggregate_socket)
qed

end

end
