(* ===== verification/Counter_Reading.thy ===== *)
theory Counter_Reading
  imports Counter_State
begin

text \<open>
  One reading of a core. Locale \<open>counting_core\<close> states what the processor manuals promise of the counters and of the overflow
  status register of a core; on any such core \<^verbatim>\<open>readAndAggregate\<close> returns the number of events, with at most one wrap-around
  between two readings, and leaves the overflow bits clear. \<open>core_device\<close> is a processor core for which these promises are
  proved.
\<close>

section \<open>What the hardware promises\<close>

text \<open>Counter \<open>i\<close> is the one whose overflow bit in the global status register is bit \<open>i\<close>: 0 to 7 are the programmable counters,
  32 to 34 the fixed ones. \<open>events m i\<close> is how often its event happened since power-on and \<open>epoch m i\<close> the value of that number
  when the overflow bit was last cleared.\<close>

definition monitored :: "nat \<Rightarrow> bool" where
  "monitored i \<longleftrightarrow> i < 8 \<or> i \<in> {32, 33, 34}"

locale counting_core =
  fixes h :: "'m host" and events epoch :: "'m \<Rightarrow> nat \<Rightarrow> nat"
  assumes rd_inst: "msr0 h m INST_RETIRED_ADDR = of_nat (events m 32 mod 2 ^ 48)"
    and rd_clk: "msr0 h m CPU_CLK_UNHALTED_THREAD_ADDR = of_nat (events m 33 mod 2 ^ 48)"
    and rd_ref: "msr0 h m CPU_CLK_UNHALTED_REF_ADDR = of_nat (events m 34 mod 2 ^ 48)"
    and rd_pmc: "i < 8 \<Longrightarrow> msr0 h m (IA32_PMC0 + of_nat i) = of_nat (events m i mod 2 ^ 48)"
    and rd_status: "monitored i \<Longrightarrow> bit (msr0 h m IA32_PERF_GLOBAL_STATUS) i \<longleftrightarrow> epoch m i div 2 ^ 48 < events m i div 2 ^ 48"
    and wr_events: "a \<in> {IA32_CR_PERF_GLOBAL_CTRL, IA32_PERF_GLOBAL_OVF_CTRL, PERF_METRICS_ADDR, TOPDOWN_SLOTS_ADDR, IA32_QM_EVTSEL} \<Longrightarrow>
      events (hwr h m a v) = events m"
    and wr_epoch: "a \<in> {IA32_CR_PERF_GLOBAL_CTRL, PERF_METRICS_ADDR, TOPDOWN_SLOTS_ADDR, IA32_QM_EVTSEL} \<Longrightarrow>
      epoch (hwr h m a v) = epoch m"
    and wr_ovf: "epoch (hwr h m IA32_PERF_GLOBAL_OVF_CTRL v) i = (if bit v i then events m i else epoch m i)"
    and epoch_le: "epoch m i \<le> events m i"
begin

definition same_counts :: "'m \<Rightarrow> 'm \<Rightarrow> bool" where
  "same_counts m m' \<longleftrightarrow> events m' = events m \<and> epoch m' = epoch m"

lemma same_trans: "same_counts a b \<Longrightarrow> same_counts b c \<Longrightarrow> same_counts a c"
  by (simp add: same_counts_def)

lemma same_refl [simp]: "same_counts m m"
  by (simp add: same_counts_def)

lemma same_write:
  "a \<in> {IA32_CR_PERF_GLOBAL_CTRL, PERF_METRICS_ADDR, TOPDOWN_SLOTS_ADDR, IA32_QM_EVTSEL} \<Longrightarrow> same_counts m (hwr h m a v)"
  unfolding same_counts_def using wr_events [of a m v] wr_epoch [of a m v] by blast

lemma same_top_down: "same_counts (core_msr c) (core_msr (snd (read_top_down cfg h c)))"
  by (auto simp: read_top_down_def Let_def set_msr_def intro!: same_trans [OF same_write same_write])

lemma same_l3: "same_counts (core_msr c) (core_msr (snd (read_l3_occupancy cfg h core c)))"
  by (auto simp: read_l3_occupancy_def initQOSevent_def Let_def set_msr_def intro!: same_write)

lemma same_bandwidth:
  assumes "\<And>m. same_counts m (snd (sample m))"
  shows "same_counts m (snd (snd (read_bandwidth factor sample ext acc m)))"
  using assms by (auto simp: read_bandwidth_def Let_def case_prod_beta split: option.split)

lemma same_memory:
  "same_counts (core_msr c) (core_msr (snd (readAndAggregateMemoryBWCounters cfg h core (s, c))))"
proof -
  have "same_counts m (snd (MBLCounter (msr0 h) (hwr h) m))" "same_counts m (snd (MBTCounter (msr0 h) (hwr h) m))" for m
    by (auto simp: MBLCounter_def MBTCounter_def Let_def intro!: same_write)
  then show ?thesis
    by (auto simp: readAndAggregateMemoryBWCounters_def Let_def case_prod_beta intro: same_trans [OF same_bandwidth same_bandwidth])
qed

end

lemma extract_bit:
  assumes "unat i \<le> 63"
  shows "extract_bits v i i = of_bool (bit v (unat i))"
  using assms by (simp add: extract_bits_ordered take_bit_Suc bit_iff_odd drop_bit_eq_div mod_2_eq_odd)


lemma unread_fields [simp]:
  "InstRetiredAny (fst (readAndAggregateMemoryBWCounters cfg h core x)) = InstRetiredAny (fst x)"
  "CpuClkUnhaltedThread (fst (readAndAggregateMemoryBWCounters cfg h core x)) = CpuClkUnhaltedThread (fst x)"
  "CpuClkUnhaltedRef (fst (readAndAggregateMemoryBWCounters cfg h core x)) = CpuClkUnhaltedRef (fst x)"
  "Event (fst (readAndAggregateMemoryBWCounters cfg h core x)) = Event (fst x)"
  "InstRetiredAny (readAndAggregateTSC cfg h m s) = InstRetiredAny s"
  "CpuClkUnhaltedThread (readAndAggregateTSC cfg h m s) = CpuClkUnhaltedThread s"
  "CpuClkUnhaltedRef (readAndAggregateTSC cfg h m s) = CpuClkUnhaltedRef s"
  "Event (readAndAggregateTSC cfg h m s) = Event s"
  by (simp_all add: readAndAggregateMemoryBWCounters_def readAndAggregateTSC_def case_prod_beta Let_def)

definition frozen :: "reader_config \<Rightarrow> 'm host \<Rightarrow> 'm \<Rightarrow> 'm" where
  "frozen cfg h m = (if rc_global_ctrl cfg \<noteq> 0 then hwr h m IA32_CR_PERF_GLOBAL_CTRL 0 else m)"

text \<open>What a reading adds to the counters.\<close>

lemma readAndAggregate_counters:
  fixes s c cfg core and h :: "'m host"
  defines "m \<equiv> frozen cfg h (core_msr c)"
  defines "x \<equiv> readAndAggregate cfg h core (s, c)"
  defines "fixed \<equiv> \<lambda>a i. \<lparr>cu_data = extractCoreFixedCounterValue False (rc_counters cfg) (msr0 h m a),
     cu_overflows = extract_bits (msr0 h m IA32_PERF_GLOBAL_STATUS) i i\<rparr>"
  shows "InstRetiredAny (fst x) = checked_add (InstRetiredAny s) (fixed INST_RETIRED_ADDR 32)"
    and "CpuClkUnhaltedThread (fst x) = checked_add (CpuClkUnhaltedThread s) (fixed CPU_CLK_UNHALTED_THREAD_ADDR 33)"
    and "CpuClkUnhaltedRef (fst x) = checked_add (CpuClkUnhaltedRef s) (fixed CPU_CLK_UNHALTED_REF_ADDR 34)"
    and "i < gen_counters cfg \<Longrightarrow> i < PERF_MAX_CUSTOM_COUNTERS \<Longrightarrow>
      Event (fst x) ! i = checked_add (Event s ! i)
        \<lparr>cu_data = extractCoreGenCounterValue False (rc_counters cfg)
           (if bit (checkCustomCoreProgramming (hrd h) False (rc_programmed cfg) core m) i then NOT 0
            else msr0 h m (IA32_PMC0 + of_nat i)),
         cu_overflows = extract_bits (msr0 h m IA32_PERF_GLOBAL_STATUS) (of_nat i) (of_nat i)\<rparr>"
  by (auto simp: x_def m_def fixed_def frozen_def readAndAggregate_def add_readings_def read_raw_counters_def set_msr_def
      Let_def case_prod_beta)

context counting_core
begin

definition reading :: "'m \<Rightarrow> nat \<Rightarrow> checked_uint64" where
  "reading m i = \<lparr>cu_data = of_nat (events m i mod 2 ^ 48), cu_overflows = of_bool (epoch m i div 2 ^ 48 < events m i div 2 ^ 48)\<rparr>"

lemma same_frozen: "same_counts m (frozen cfg h m)"
  by (auto simp: frozen_def intro!: same_write)

lemma reading_same: "same_counts m m' \<Longrightarrow> reading m' = reading m"
  by (simp add: fun_eq_iff reading_def same_counts_def)

lemma extract_48: "w = 48 \<Longrightarrow> extract_width w (of_nat (n mod 2 ^ 48)) = of_nat (n mod 2 ^ 48)"
proof -
  assume w: "w = 48"
  have u: "unat (of_nat (n mod 2 ^ 48) :: u64) = n mod 2 ^ 48"
  proof -
    have "n mod 2 ^ 48 < 2 ^ 64" using mod_less_divisor [of "2 ^ 48" n] by simp
    then show ?thesis by (simp add: unat_of_nat take_bit_eq_mod)
  qed
  have "unat (extract_bits (of_nat (n mod 2 ^ 48)) 0 47) = n mod 2 ^ 48"
    using u by (simp add: extract_bits_value_aux)
  then show ?thesis using w u by (simp add: extract_width_def) (metis of_nat_unat ucast_id)
qed

lemma read_counts:
  assumes "core_fixed_counter_width (rc_counters cfg) = 48"
  shows "InstRetiredAny (fst (readAndAggregate cfg h core (s, c))) = checked_add (InstRetiredAny s) (reading (core_msr c) 32)"
    and "CpuClkUnhaltedThread (fst (readAndAggregate cfg h core (s, c))) = checked_add (CpuClkUnhaltedThread s) (reading (core_msr c) 33)"
    and "CpuClkUnhaltedRef (fst (readAndAggregate cfg h core (s, c))) = checked_add (CpuClkUnhaltedRef s) (reading (core_msr c) 34)"
  using assms reading_same [OF same_frozen, of cfg "core_msr c"]
  by (simp_all add: readAndAggregate_counters extractCoreFixedCounterValue_def rd_inst rd_clk rd_ref extract_48 [OF refl, simplified] extract_bit rd_status
      monitored_def reading_def fun_eq_iff [of "reading _"])

lemma read_events:
  assumes "core_gen_counter_width (rc_counters cfg) = 48" and "i < gen_counters cfg" and "i < 8"
    and "checkCustomCoreProgramming (hrd h) False (rc_programmed cfg) core (frozen cfg h (core_msr c)) = 0"
  shows "Event (fst (readAndAggregate cfg h core (s, c))) ! i = checked_add (Event s ! i) (reading (core_msr c) i)"
proof -
  have "unat (of_nat i :: u32) = i" using assms(3) by (simp add: unat_of_nat take_bit_eq_mod)
  then show ?thesis
    using assms reading_same [OF same_frozen, of cfg "core_msr c"]
    by (simp add: readAndAggregate_counters PERF_MAX_CUSTOM_COUNTERS_def extractCoreGenCounterValue_def rd_pmc extract_48 [OF refl, simplified] extract_bit
        rd_status monitored_def reading_def fun_eq_iff [of "reading _"])
qed

end

text \<open>The core went on from \<open>m\<close> to \<open>m'\<close>, nobody else cleared overflow bits, and no counter wrapped more than once.\<close>

definition ran :: "('m \<Rightarrow> nat \<Rightarrow> nat) \<Rightarrow> ('m \<Rightarrow> nat \<Rightarrow> nat) \<Rightarrow> 'm \<Rightarrow> 'm \<Rightarrow> bool" where
  "ran events epoch m m' \<longleftrightarrow> (\<forall>i. monitored i \<longrightarrow> epoch m' i = epoch m i \<and> events m i \<le> events m' i \<and>
     events m' i div 2 ^ 48 \<le> Suc (events m i div 2 ^ 48))"

context counting_core
begin

text \<open>A reading leaves the counts alone and every overflow bit clear.\<close>

lemma read_leaves:
  fixes c core s cfg
  defines "m' \<equiv> core_msr (snd (readAndAggregate cfg h core (s, c)))"
  shows "events m' = events (core_msr c) \<and> (\<forall>i. monitored i \<longrightarrow> epoch m' i div 2 ^ 48 = events (core_msr c) i div 2 ^ 48)"
proof -
  define m1 where "m1 = frozen cfg h (core_msr c)"
  define v where "v = msr0 h m1 IA32_PERF_GLOBAL_STATUS"
  define m2 where "m2 = hwr h m1 IA32_PERF_GLOBAL_OVF_CTRL v"
  have 1: "same_counts (core_msr c) m1" unfolding m1_def by (rule same_frozen)
  have e2: "events m2 = events (core_msr c)" using 1 wr_events [of IA32_PERF_GLOBAL_OVF_CTRL m1 v] by (simp add: m2_def same_counts_def)
  have p2: "epoch m2 i div 2 ^ 48 = events (core_msr c) i div 2 ^ 48" if "monitored i" for i
  proof -
    have "epoch m1 i div 2 ^ 48 \<le> events m1 i div 2 ^ 48" by (rule div_le_mono [OF epoch_le])
    then show ?thesis
      using rd_status [OF that, of m1] wr_ovf [of m1 v i] 1 by (auto simp: m2_def v_def same_counts_def)
  qed
  define c2 where "c2 = c\<lparr>core_msr := m2\<rparr>"
  define c3 where "c3 = snd (read_top_down cfg h c2)"
  define c4 where "c4 = snd (read_l3_occupancy cfg h core c3)"
  define c5 where "c5 = snd (readAndAggregateMemoryBWCounters cfg h core (s, c4))"
  have "m' = (if rc_global_ctrl cfg \<noteq> 0 then hwr h (core_msr c5) IA32_CR_PERF_GLOBAL_CTRL (rc_global_ctrl cfg) else core_msr c5)"
    by (simp add: m'_def readAndAggregate_def Let_def case_prod_beta set_msr_def c5_def c4_def c3_def c2_def m2_def v_def m1_def
        frozen_def read_raw_counters_def)
  moreover have "same_counts m2 (core_msr c5)"
    unfolding c5_def c4_def c3_def
    using same_top_down [of c2 cfg] same_l3 same_memory by (metis c2_def core_ctx.select_convs(1) core_ctx.surjective core_ctx.update_convs(1) same_trans)
  ultimately have "same_counts m2 m'"
    by (auto intro: same_trans same_write)
  with e2 p2 show ?thesis by (simp add: same_counts_def)
qed

lemma reading_difference:
  assumes "monitored i" and "ran events epoch m m'" and "epoch m i div 2 ^ 48 = events m i div 2 ^ 48" and "events m i = events m0 i"
  shows "checked_minus (checked_add checked_default (reading m' i)) (checked_add checked_default (reading m0 i)) = of_nat (events m' i - events m0 i)"
proof -
  have a: "events m i \<le> events m' i" "epoch m' i = epoch m i" "events m' i div 2 ^ 48 \<le> Suc (events m i div 2 ^ 48)"
    using assms(1,2) by (auto simp: ran_def)
  have "events m i div 2 ^ 48 \<le> events m' i div 2 ^ 48" by (rule div_le_mono [OF a(1)])
  then have "(of_bool (epoch m' i div 2 ^ 48 < events m' i div 2 ^ 48) :: u64) = of_nat (events m' i div 2 ^ 48 - events m i div 2 ^ 48)"
    using a assms(3) by (auto simp: le_Suc_eq)
  then have "reading m' i = \<lparr>cu_data = of_nat (events m' i mod 2 ^ 48), cu_overflows = of_nat (events m' i div 2 ^ 48 - events m i div 2 ^ 48)\<rparr>"
    by (simp add: reading_def)
  then show ?thesis
    using checked_minus_exact [OF a(1)] assms(4) by (simp add: checked_add_def checked_default_def reading_def)
qed

end

section \<open>A core that counts\<close>

record core_device =
  dev_regs :: "u64 \<Rightarrow> u64 option"
  dev_events :: "nat \<Rightarrow> nat"
  dev_cleared :: "nat \<Rightarrow> nat"

definition dev_epoch :: "core_device \<Rightarrow> nat \<Rightarrow> nat" where
  "dev_epoch d i = min (dev_cleared d i) (dev_events d i)"

definition dev_status :: "core_device \<Rightarrow> u64" where
  "dev_status d = fold (\<lambda>i v. if dev_epoch d i div 2 ^ 48 < dev_events d i div 2 ^ 48 then v OR push_bit i 1 else v)
     ([0..<8] @ [32, 33, 34]) 0"

definition dev_counter :: "u64 \<Rightarrow> nat option" where
  "dev_counter a =
     (if a = INST_RETIRED_ADDR then Some 32 else if a = CPU_CLK_UNHALTED_THREAD_ADDR then Some 33
      else if a = CPU_CLK_UNHALTED_REF_ADDR then Some 34
      else if IA32_PMC0 \<le> a \<and> a < IA32_PMC0 + 8 then Some (unat (a - IA32_PMC0)) else None)"

definition dev_read :: "core_device msr_rd" where
  "dev_read d a =
     (case dev_counter a of
        Some i \<Rightarrow> Some (of_nat (dev_events d i mod 2 ^ 48))
      | None \<Rightarrow> if a = IA32_PERF_GLOBAL_STATUS then Some (dev_status d) else dev_regs d a)"

definition dev_write :: "core_device msr_wr" where
  "dev_write d a v =
     (if a = IA32_PERF_GLOBAL_OVF_CTRL then d\<lparr>dev_cleared := \<lambda>i. if bit v i then dev_events d i else dev_epoch d i\<rparr>
      else d\<lparr>dev_regs := (dev_regs d)(a \<mapsto> v)\<rparr>)"

definition dev_host :: "core_device host" where
  "dev_host = \<lparr>hrd = dev_read, hwr = dev_write, rdtscp = None, clock_ticks = (\<lambda>_. 0), getL3OCC = (\<lambda>_. 0), getMBL = (\<lambda>_. 0),
     getMBT = (\<lambda>_. 0)\<rparr>"

lemma dev_status_bit:
  assumes "monitored i"
  shows "bit (dev_status d) i \<longleftrightarrow> dev_epoch d i div 2 ^ 48 < dev_events d i div 2 ^ 48"
proof -
  have aux: "bit (fold (\<lambda>i v. if P i then v OR push_bit i 1 else v) is w) j \<longleftrightarrow> bit w j \<or> j \<in> set is \<and> P j"
    if "\<forall>i \<in> set is. i < 64" for P "is" j and w :: u64
    using that by (induction "is" arbitrary: w) (auto simp: bit_simps)
  have "i \<in> set ([0..<8] @ [32, 33, 34])" using assms by (auto simp: monitored_def)
  then show ?thesis unfolding dev_status_def by (subst aux) auto
qed

lemma dev_counter_simps:
  "dev_counter INST_RETIRED_ADDR = Some 32" "dev_counter CPU_CLK_UNHALTED_THREAD_ADDR = Some 33"
  "dev_counter CPU_CLK_UNHALTED_REF_ADDR = Some 34" "dev_counter IA32_PERF_GLOBAL_STATUS = None"
  by (simp_all add: dev_counter_def msr_addrs)

lemma dev_counter_pmc: "i < 8 \<Longrightarrow> dev_counter (IA32_PMC0 + of_nat i) = Some i"
proof -
  assume i: "i < 8"
  have u: "unat (pmc i) = 0xC1 + i" using i by (simp add: unat_pmc)
  have "pmc i - IA32_PMC0 = of_nat i" by simp
  moreover have "unat (of_nat i :: u64) = i" using i by (simp add: unat_of_nat take_bit_eq_mod)
  moreover have "IA32_PMC0 \<le> pmc i" "pmc i < IA32_PMC0 + 8" using u i by (simp_all add: word_le_nat_alt word_less_nat_alt IA32_PMC0_def)
  moreover have "pmc i \<noteq> INST_RETIRED_ADDR" "pmc i \<noteq> CPU_CLK_UNHALTED_THREAD_ADDR" "pmc i \<noteq> CPU_CLK_UNHALTED_REF_ADDR"
    using i by (auto intro!: pmc_neq simp: ctrl_unat)
  ultimately show ?thesis by (simp add: dev_counter_def)
qed

interpretation dev: counting_core dev_host dev_events dev_epoch
proof unfold_locales
  fix m a v i
  show "msr0 dev_host m INST_RETIRED_ADDR = of_nat (dev_events m 32 mod 2 ^ 48)"
    "msr0 dev_host m CPU_CLK_UNHALTED_THREAD_ADDR = of_nat (dev_events m 33 mod 2 ^ 48)"
    "msr0 dev_host m CPU_CLK_UNHALTED_REF_ADDR = of_nat (dev_events m 34 mod 2 ^ 48)"
    by (simp_all add: msr0_def dev_host_def read_into_def dev_read_def dev_counter_simps)
  show "i < 8 \<Longrightarrow> msr0 dev_host m (IA32_PMC0 + of_nat i) = of_nat (dev_events m i mod 2 ^ 48)"
    by (simp add: msr0_def dev_host_def read_into_def dev_read_def dev_counter_pmc)
  show "monitored i \<Longrightarrow> bit (msr0 dev_host m IA32_PERF_GLOBAL_STATUS) i \<longleftrightarrow> dev_epoch m i div 2 ^ 48 < dev_events m i div 2 ^ 48"
    by (simp add: msr0_def dev_host_def read_into_def dev_read_def dev_counter_simps dev_status_bit)
  show "dev_events (hwr dev_host m a v) = dev_events m" by (simp add: dev_host_def dev_write_def)
  show "a \<in> {IA32_CR_PERF_GLOBAL_CTRL, PERF_METRICS_ADDR, TOPDOWN_SLOTS_ADDR, IA32_QM_EVTSEL} \<Longrightarrow> dev_epoch (hwr dev_host m a v) = dev_epoch m"
    by (auto simp: fun_eq_iff dev_host_def dev_write_def dev_epoch_def msr_addrs IA32_QM_EVTSEL_def)
  show "dev_epoch (hwr dev_host m IA32_PERF_GLOBAL_OVF_CTRL v) i = (if bit v i then dev_events m i else dev_epoch m i)"
    by (simp add: dev_host_def dev_write_def dev_epoch_def)
  show "dev_epoch m i \<le> dev_events m i" by (simp add: dev_epoch_def)
qed

definition dev_work :: "nat \<Rightarrow> core_device core_ctx \<Rightarrow> core_device core_ctx" where
  "dev_work n = set_msr (\<lambda>d. d\<lparr>dev_events := (\<lambda>i. dev_events d i + n), dev_cleared := dev_epoch d\<rparr>)"

lemma dev_work_ran:
  assumes "n \<le> 2 ^ 48"
  shows "ran dev_events dev_epoch (core_msr c) (core_msr (dev_work n c))"
proof -
  have "(k + n) div 2 ^ 48 \<le> Suc (k div 2 ^ 48)" for k
  proof -
    have "(k + n) div 2 ^ 48 \<le> (k + 2 ^ 48) div 2 ^ 48" using assms by (intro div_le_mono) simp
    then show ?thesis by simp
  qed
  then show ?thesis by (simp add: ran_def dev_work_def set_msr_def dev_epoch_def)
qed

end
