(* ===== verification/Counter_Snapshots.thy ===== *)
theory Counter_Snapshots
  imports Counter_Schedule Counter_Reading
begin

text \<open>
  Two snapshots of the whole machine: the properties of the states that \<^verbatim>\<open>getAllCounterStates\<close> and \<^verbatim>\<open>getSystemCounterState\<close>
  return and of the differences between them.
\<close>

section \<open>The states of the cores\<close>

lemma core_tasks:
  assumes "distinct cs" and "\<forall>c \<in> set cs. c < length (run_cores r) \<and> c < length (run_ctxs r)"
  shows "run_cores (fold (run_task p) (map Core_Task cs) r) ! c =
      (if c \<in> set cs then fst (core_task p c (run_cores r ! c, run_ctxs r ! c)) else run_cores r ! c) \<and>
    run_ctxs (fold (run_task p) (map Core_Task cs) r) ! c =
      (if c \<in> set cs then snd (core_task p c (run_cores r ! c, run_ctxs r ! c)) else run_ctxs r ! c)"
  using assms
proof (induction cs arbitrary: r)
  case (Cons d cs)
  let ?r = "run_task p (Core_Task d) r"
  have "run_cores ?r = (run_cores r)[d := fst (core_task p d (run_cores r ! d, run_ctxs r ! d))]"
    "run_ctxs ?r = (run_ctxs r)[d := snd (core_task p d (run_cores r ! d, run_ctxs r ! d))]"
    by (simp_all add: case_prod_beta Let_def)
  with Cons.prems Cons.IH [of ?r] show ?case by (cases "c = d") (auto simp del: run_task.simps)
qed simp

lemma socket_tasks:
  "run_cores (fold (run_task p) (map Socket_Task ss) r) = run_cores r \<and> run_ctxs (fold (run_task p) (map Socket_Task ss) r) = run_ctxs r"
  by (induction ss arbitrary: r) simp_all

lemma getAll_cores:
  assumes "getAllCounterStates p regs sched ctxs = (sys, socks, cores, ctxs')" and "valid_schedule p sched"
    and "length ctxs = num_cores (plan_layout p)" and "c < num_cores (plan_layout p)" and "rc_online (plan_cfg p) c"
  shows "(cores ! c, ctxs' ! c) = core_task p c (BasicCounterState_init, ctxs ! c)"
proof -
  define r where "r = fold (run_task p) (tasks p) (start_run p ctxs)"
  have "cores = run_cores r" "ctxs' = run_ctxs r"
    using assms(1) by (auto simp: getAllCounterStates_def Let_def r_def schedule_independent [OF assms(2)])
  moreover have "run_cores r ! c = fst (core_task p c (BasicCounterState_init, ctxs ! c)) \<and>
      run_ctxs r ! c = snd (core_task p c (BasicCounterState_init, ctxs ! c))"
    using core_tasks [of "filter (rc_online (plan_cfg p)) [0..<num_cores (plan_layout p)]" "start_run p ctxs" p c] assms(3-5)
    by (auto simp: r_def tasks_def start_run_def socket_tasks)
  ultimately show ?thesis by simp
qed

lemma readMSRs_counters [simp]:
  "InstRetiredAny (readMSRs h m is s) = InstRetiredAny s"
  "CpuClkUnhaltedThread (readMSRs h m is s) = CpuClkUnhaltedThread s"
  "CpuClkUnhaltedRef (readMSRs h m is s) = CpuClkUnhaltedRef s"
  "Event (readMSRs h m is s) = Event s"
  unfolding readMSRs_def by (induction "is" arbitrary: s; simp)+

lemmas difference_defs = getInstructionsRetired_def getCycles_def getRefCycles_def getNumberOfCustomEvents_def getInvariantTSC_def
  getSMICount_def getAllSlotsRaw_def

context counting_core
begin

lemma snapshots_exact:
  assumes "core_fixed_counter_width (rc_counters cfg) = 48"
    and "readAndAggregate cfg h core (BasicCounterState_init, c) = (before, c1)"
    and "ran events epoch (core_msr c1) (core_msr c2)"
    and "readAndAggregate cfg h core (BasicCounterState_init, c2) = (after, c3)"
  shows "getInstructionsRetired before after = of_nat (events (core_msr c2) 32 - events (core_msr c) 32)"
    and "getCycles before after = of_nat (events (core_msr c2) 33 - events (core_msr c) 33)"
    and "getRefCycles before after = of_nat (events (core_msr c2) 34 - events (core_msr c) 34)"
proof -
  have e: "events (core_msr c1) = events (core_msr c)"
    "\<And>i. monitored i \<Longrightarrow> epoch (core_msr c1) i div 2 ^ 48 = events (core_msr c1) i div 2 ^ 48"
    using read_leaves [of cfg core BasicCounterState_init c] assms(2) by auto
  have d: "checked_minus (checked_add checked_default (reading (core_msr c2) i)) (checked_add checked_default (reading (core_msr c) i)) =
      of_nat (events (core_msr c2) i - events (core_msr c) i)" if "monitored i" for i
    by (rule reading_difference [OF that assms(3) e(2) [OF that]]) (simp add: e(1))
  have b: "before = fst (readAndAggregate cfg h core (BasicCounterState_init, c))"
    "after = fst (readAndAggregate cfg h core (BasicCounterState_init, c2))" using assms(2,4) by simp_all
  show "getInstructionsRetired before after = of_nat (events (core_msr c2) 32 - events (core_msr c) 32)"
    "getCycles before after = of_nat (events (core_msr c2) 33 - events (core_msr c) 33)"
    "getRefCycles before after = of_nat (events (core_msr c2) 34 - events (core_msr c) 34)"
    unfolding b difference_defs read_counts [OF assms(1)]
    by (simp_all add: BasicCounterState_init_def d monitored_def)
qed

lemma snapshots_exact_events:
  assumes "core_gen_counter_width (rc_counters cfg) = 48" and "i < gen_counters cfg" and "i < 8"
    and "readAndAggregate cfg h core (BasicCounterState_init, c) = (before, c1)"
    and "ran events epoch (core_msr c1) (core_msr c2)"
    and "readAndAggregate cfg h core (BasicCounterState_init, c2) = (after, c3)"
    and "checkCustomCoreProgramming (hrd h) False (rc_programmed cfg) core (frozen cfg h (core_msr c)) = 0"
    and "checkCustomCoreProgramming (hrd h) False (rc_programmed cfg) core (frozen cfg h (core_msr c2)) = 0"
  shows "getNumberOfCustomEvents i before after = of_nat (events (core_msr c2) i - events (core_msr c) i)"
proof -
  have e: "events (core_msr c1) = events (core_msr c)"
    "\<And>i. monitored i \<Longrightarrow> epoch (core_msr c1) i div 2 ^ 48 = events (core_msr c1) i div 2 ^ 48"
    using read_leaves [of cfg core BasicCounterState_init c] assms(4) by auto
  have ci: "monitored i" using assms(3) by (simp add: monitored_def)
  have b: "before = fst (readAndAggregate cfg h core (BasicCounterState_init, c))"
    "after = fst (readAndAggregate cfg h core (BasicCounterState_init, c2))" using assms(4,6) by simp_all
  have "Event BasicCounterState_init ! i = checked_default" using assms(3) by (simp add: BasicCounterState_init_def PERF_MAX_CUSTOM_COUNTERS_def)
  then show ?thesis
    unfolding b difference_defs read_events [OF assms(1-3) assms(7)] read_events [OF assms(1-3) assms(8)]
    using reading_difference [OF ci assms(5) e(2) [OF ci]] e(1) by simp
qed

end

definition checked_total :: "checked_uint64 \<Rightarrow> u64" where
  "checked_total x = cu_data x + cu_overflows x * push_bit 48 1"

lemma additive_checked:
  assumes "\<And>a b. g (basic_plus a b) = checked_add (g a) (g b)" and "g BasicCounterState_init = checked_default"
    and "\<And>s t. g (s\<lparr>ThermalHeadroom := t\<rparr>) = g s" and "\<And>s v. g (s\<lparr>MSRValues := v\<rparr>) = g s"
  shows "additive_field (\<lambda>s. checked_total (g s))" and "additive_field (\<lambda>s. cu_data (g s))"
  by (unfold_locales, simp_all add: assms checked_total_def checked_add_def checked_default_def algebra_simps)

interpretation tsc_field: additive_field InvariantTSC
  by unfold_locales (simp_all add: basic_plus_def BasicCounterState_init_def)

interpretation smi_field: additive_field SMICount
  by unfold_locales (simp_all add: basic_plus_def BasicCounterState_init_def)

interpretation slots_field: additive_field AllSlotsRaw
  by unfold_locales (simp_all add: basic_plus_def BasicCounterState_init_def)

interpretation inst_total: additive_field "\<lambda>s. checked_total (InstRetiredAny s)"
  by (rule additive_checked) (simp_all add: basic_plus_def BasicCounterState_init_def)

interpretation inst_data: additive_field "\<lambda>s. cu_data (InstRetiredAny s)"
  by (rule additive_checked) (simp_all add: basic_plus_def BasicCounterState_init_def)

interpretation clk_total: additive_field "\<lambda>s. checked_total (CpuClkUnhaltedThread s)"
  by (rule additive_checked) (simp_all add: basic_plus_def BasicCounterState_init_def)

interpretation clk_data: additive_field "\<lambda>s. cu_data (CpuClkUnhaltedThread s)"
  by (rule additive_checked) (simp_all add: basic_plus_def BasicCounterState_init_def)

interpretation ref_total: additive_field "\<lambda>s. checked_total (CpuClkUnhaltedRef s)"
  by (rule additive_checked) (simp_all add: basic_plus_def BasicCounterState_init_def)

interpretation ref_data: additive_field "\<lambda>s. cu_data (CpuClkUnhaltedRef s)"
  by (rule additive_checked) (simp_all add: basic_plus_def BasicCounterState_init_def)

lemma event_fields:
  assumes "i < PERF_MAX_CUSTOM_COUNTERS"
  shows "additive_field (\<lambda>s. checked_total (Event s ! i))" and "additive_field (\<lambda>s. cu_data (Event s ! i))"
  by (rule additive_checked, use assms in \<open>simp_all add: basic_plus_def BasicCounterState_init_def\<close>)+

text \<open>The differences the tools report; \<open>additive_metrics\<close> are those that can be summed over cores.\<close>

definition additive_metrics :: "(BasicCounterState \<Rightarrow> BasicCounterState \<Rightarrow> u64) set" where
  "additive_metrics =
     {getInstructionsRetired, getCycles, getRefCycles, getInvariantTSC, getSMICount, getAllSlotsRaw} \<union>
     getNumberOfCustomEvents ` {..<PERF_MAX_CUSTOM_COUNTERS}"

lemma metric_fields:
  assumes "metric \<in> additive_metrics"
  obtains g k where "additive_field g" "additive_field k" "\<And>before after. metric before after = g after - k before"
proof -
  have checked: "checked_minus (g a) (g b) = checked_total (g a) - cu_data (g b)" for g :: "BasicCounterState \<Rightarrow> checked_uint64" and a b
    by (simp add: checked_minus_def checked_total_def)
  consider "metric = getInstructionsRetired" | "metric = getCycles" | "metric = getRefCycles" | "metric = getInvariantTSC"
    | "metric = getSMICount" | "metric = getAllSlotsRaw" | i where "metric = getNumberOfCustomEvents i" "i < PERF_MAX_CUSTOM_COUNTERS"
    using assms by (auto simp: additive_metrics_def)
  then show ?thesis
  proof cases
    case 1
    show ?thesis by (rule that [OF inst_total.additive_field_axioms inst_data.additive_field_axioms]) (simp add: 1 difference_defs checked)
  next
    case 2
    show ?thesis by (rule that [OF clk_total.additive_field_axioms clk_data.additive_field_axioms]) (simp add: 2 difference_defs checked)
  next
    case 3
    show ?thesis by (rule that [OF ref_total.additive_field_axioms ref_data.additive_field_axioms]) (simp add: 3 difference_defs checked)
  next
    case 4
    show ?thesis by (rule that [OF tsc_field.additive_field_axioms tsc_field.additive_field_axioms]) (simp add: 4 difference_defs)
  next
    case 5
    show ?thesis by (rule that [OF smi_field.additive_field_axioms smi_field.additive_field_axioms]) (simp add: 5 difference_defs)
  next
    case 6
    show ?thesis by (rule that [OF slots_field.additive_field_axioms slots_field.additive_field_axioms]) (simp add: 6 difference_defs)
  next
    case 7
    show ?thesis
      by (rule that [OF event_fields [OF 7(2)]]) (simp add: 7(1) difference_defs checked_minus_def checked_total_def)
  qed
qed

abbreviation online_cores :: "'m plan \<Rightarrow> nat list" where
  "online_cores p \<equiv> filter (rc_online (plan_cfg p)) [0..<num_cores (plan_layout p)]"

abbreviation cores_of :: "'m plan \<Rightarrow> nat \<Rightarrow> nat list" where
  "cores_of p s \<equiv> filter (\<lambda>c. rc_online (plan_cfg p) c \<and> socket_of (plan_layout p) c = s) [0..<num_cores (plan_layout p)]"

definition sockets_known :: "'m plan \<Rightarrow> bool" where
  "sockets_known p = list_all (\<lambda>c. socket_of (plan_layout p) c < num_sockets (plan_layout p)) (online_cores p)"

lemma sum_list_minus:
  fixes g k :: "'a \<Rightarrow> 'b :: ab_group_add"
  shows "(\<Sum>x \<leftarrow> xs. g x - k x) = (\<Sum>x \<leftarrow> xs. g x) - (\<Sum>x \<leftarrow> xs. k x)"
  by (induction xs) simp_all

lemma snapshot_sums_aux:
  assumes "sockets_known p" and "metric \<in> additive_metrics"
    and "getAllCounterStates p regs sched ctxs = (sys, socks, cores, ctxs1)"
    and "getAllCounterStates p regs' sched' ctxs' = (sys', socks', cores', ctxs1')"
  shows "metric (basic sys) (basic sys') = (\<Sum>c \<leftarrow> online_cores p. metric (cores ! c) (cores' ! c))"
    and "s < num_sockets (plan_layout p) \<Longrightarrow>
      metric (basic (socks ! s)) (basic (socks' ! s)) = (\<Sum>c \<leftarrow> cores_of p s. metric (cores ! c) (cores' ! c))"
proof -
  obtain g k where g: "additive_field g" and k: "additive_field k" and m: "\<And>before after. metric before after = g after - k before"
    using metric_fields [OF assms(2)] by blast
  have known: "\<forall>c < num_cores (plan_layout p). rc_online (plan_cfg p) c \<longrightarrow> socket_of (plan_layout p) c < num_sockets (plan_layout p)"
    using assms(1) by (simp add: sockets_known_def list_all_iff)
  note G = additive_field.f_getAll [OF g assms(4) known]
  note K = additive_field.f_getAll [OF k assms(3) known]
  show "metric (basic sys) (basic sys') = (\<Sum>c \<leftarrow> online_cores p. metric (cores ! c) (cores' ! c))"
    unfolding m sum_list_minus G(1) K(1) ..
  show "metric (basic (socks ! s)) (basic (socks' ! s)) = (\<Sum>c \<leftarrow> cores_of p s. metric (cores ! c) (cores' ! c))"
    if "s < num_sockets (plan_layout p)"
    unfolding m sum_list_minus G(2) [OF that] K(2) [OF that] ..
qed

section \<open>Accumulating readers\<close>

text \<open>A reading adds the same amounts to every state and does not depend on the state it adds to.\<close>

definition bw_ctx :: "reader_config \<Rightarrow> 'm host \<Rightarrow> nat \<Rightarrow> 'm core_ctx \<Rightarrow> 'm core_ctx" where
  "bw_ctx cfg h core c = snd (readAndAggregateMemoryBWCounters cfg h core (BasicCounterState_init, c))"

lemma bandwidth_ctx: "snd (readAndAggregateMemoryBWCounters cfg h core (s, c)) = bw_ctx cfg h core c"
  by (auto simp: bw_ctx_def readAndAggregateMemoryBWCounters_def read_bandwidth_def Let_def case_prod_beta split: option.split)

lemma unread_fields_2 [simp]:
  "InvariantTSC (fst (readAndAggregateMemoryBWCounters cfg h core x)) = InvariantTSC (fst x)"
  "SMICount (fst (readAndAggregateMemoryBWCounters cfg h core x)) = SMICount (fst x)"
  "AllSlotsRaw (fst (readAndAggregateMemoryBWCounters cfg h core x)) = AllSlotsRaw (fst x)"
  "SMICount (readAndAggregateTSC cfg h m s) = SMICount s"
  "AllSlotsRaw (readAndAggregateTSC cfg h m s) = AllSlotsRaw s"
  by (simp_all add: readAndAggregateMemoryBWCounters_def readAndAggregateTSC_def case_prod_beta Let_def)

lemma read_ctx: "snd (readAndAggregate cfg h core (s, c)) = snd (readAndAggregate cfg h core (BasicCounterState_init, c))"
  by (simp add: readAndAggregate_def Let_def case_prod_beta bandwidth_ctx)

lemma read_accumulates:
  fixes cfg and h :: "'m host" and core s c
  defines "x \<equiv> fst (readAndAggregate cfg h core (s, c))"
  defines "x0 \<equiv> fst (readAndAggregate cfg h core (BasicCounterState_init, c))"
  shows "InstRetiredAny x = checked_add (InstRetiredAny s) (InstRetiredAny x0)"
    and "CpuClkUnhaltedThread x = checked_add (CpuClkUnhaltedThread s) (CpuClkUnhaltedThread x0)"
    and "CpuClkUnhaltedRef x = checked_add (CpuClkUnhaltedRef s) (CpuClkUnhaltedRef x0)"
    and "InvariantTSC x = InvariantTSC s + InvariantTSC x0"
    and "SMICount x = SMICount s + SMICount x0"
    and "AllSlotsRaw x = AllSlotsRaw s + AllSlotsRaw x0"
proof -
  have d: "checked_add checked_default v = v" for v by (simp add: checked_add_def checked_default_def)
  show "InstRetiredAny x = checked_add (InstRetiredAny s) (InstRetiredAny x0)"
    "CpuClkUnhaltedThread x = checked_add (CpuClkUnhaltedThread s) (CpuClkUnhaltedThread x0)"
    "CpuClkUnhaltedRef x = checked_add (CpuClkUnhaltedRef s) (CpuClkUnhaltedRef x0)"
    unfolding x_def x0_def readAndAggregate_counters by (simp_all add: BasicCounterState_init_def d)
  show "InvariantTSC x = InvariantTSC s + InvariantTSC x0" "SMICount x = SMICount s + SMICount x0" "AllSlotsRaw x = AllSlotsRaw s + AllSlotsRaw x0"
    unfolding x_def x0_def
    by (simp_all add: readAndAggregate_def add_readings_def Let_def case_prod_beta bandwidth_ctx readAndAggregateTSC_def)
      (simp_all add: BasicCounterState_init_def)
qed

lemma read_accumulates_event:
  assumes "i < PERF_MAX_CUSTOM_COUNTERS"
  shows "Event (fst (readAndAggregate cfg h core (s, c))) ! i =
    checked_add (Event s ! i) (Event (fst (readAndAggregate cfg h core (BasicCounterState_init, c))) ! i)"
proof (cases "i < gen_counters cfg")
  case True
  then show ?thesis using assms
    by (simp add: readAndAggregate_counters) (simp add: BasicCounterState_init_def checked_add_def checked_default_def)
next
  case False
  then show ?thesis using assms
    by (simp add: readAndAggregate_def add_readings_def Let_def case_prod_beta)
      (simp add: BasicCounterState_init_def checked_add_def checked_default_def)
qed

lemma checked_accumulates:
  "x = checked_add a b \<Longrightarrow> checked_total x = checked_total a + checked_total b"
  "x = checked_add a b \<Longrightarrow> cu_data x = cu_data a + cu_data b"
  by (simp_all add: checked_total_def checked_add_def algebra_simps)

lemma metric_fields_read:
  assumes "metric \<in> additive_metrics"
  obtains g k where "additive_field g" "additive_field k" "\<And>before after. metric before after = g after - k before"
    "\<And>f cfg (h :: 'm host) core s c. f \<in> {g, k} \<Longrightarrow>
       f (fst (readAndAggregate cfg h core (s, c))) = f s + f (fst (readAndAggregate cfg h core (BasicCounterState_init, c)))"
proof -
  note checked = difference_defs checked_minus_def checked_total_def
  note acc = read_accumulates(1-3) [THEN checked_accumulates(1)] read_accumulates(1-3) [THEN checked_accumulates(2)] read_accumulates(4-6)
  consider "metric = getInstructionsRetired" | "metric = getCycles" | "metric = getRefCycles" | "metric = getInvariantTSC"
    | "metric = getSMICount" | "metric = getAllSlotsRaw" | i where "metric = getNumberOfCustomEvents i" "i < PERF_MAX_CUSTOM_COUNTERS"
    using assms by (auto simp: additive_metrics_def)
  then show ?thesis
  proof cases
    case 1
    show ?thesis by (rule that [OF inst_total.additive_field_axioms inst_data.additive_field_axioms])
        (simp add: 1 checked, (elim insertE emptyE; hypsubst; rule acc))
  next
    case 2
    show ?thesis by (rule that [OF clk_total.additive_field_axioms clk_data.additive_field_axioms])
        (simp add: 2 checked, (elim insertE emptyE; hypsubst; rule acc))
  next
    case 3
    show ?thesis by (rule that [OF ref_total.additive_field_axioms ref_data.additive_field_axioms])
        (simp add: 3 checked, (elim insertE emptyE; hypsubst; rule acc))
  next
    case 4
    show ?thesis by (rule that [OF tsc_field.additive_field_axioms tsc_field.additive_field_axioms])
        (simp add: 4 checked, (elim insertE emptyE; hypsubst; rule acc))
  next
    case 5
    show ?thesis by (rule that [OF smi_field.additive_field_axioms smi_field.additive_field_axioms])
        (simp add: 5 checked, (elim insertE emptyE; hypsubst; rule acc))
  next
    case 6
    show ?thesis by (rule that [OF slots_field.additive_field_axioms slots_field.additive_field_axioms])
        (simp add: 6 checked, (elim insertE emptyE; hypsubst; rule acc))
  next
    case 7
    note ev = read_accumulates_event [OF 7(2)]
    show ?thesis by (rule that [OF event_fields [OF 7(2)]])
        (simp add: 7(1) checked, (elim insertE emptyE; hypsubst; rule checked_accumulates(1) [OF ev] checked_accumulates(2) [OF ev]))
  qed
qed

lemma accumulate_cores:
  fixes p :: "'m plan" and k :: "'a SocketCounterState_scheme"
  assumes "\<And>core s c. f (fst (readAndAggregate (plan_cfg p) (plan_host p) core (s, c))) =
      f s + f (fst (readAndAggregate (plan_cfg p) (plan_host p) core (BasicCounterState_init, c)))"
    and "distinct cs"
  shows "f (basic (fst (fold (read_into_socket p) cs (k, ctxs)))) =
    f (basic k) + (\<Sum>c \<leftarrow> cs. f (fst (readAndAggregate (plan_cfg p) (plan_host p) c (BasicCounterState_init, ctxs ! c))) :: u64)"
  using assms(2)
proof (induction cs arbitrary: k ctxs)
  case (Cons d cs)
  let ?x = "readAndAggregate (plan_cfg p) (plan_host p) d (basic k, ctxs ! d)"
  obtain k1 where s: "read_into_socket p d (k, ctxs) = (k1, ctxs[d := snd ?x])" and k1: "basic k1 = fst ?x"
    by (simp add: read_into_socket_def Let_def case_prod_beta)
  have eq: "(\<Sum>c \<leftarrow> cs. f (fst (readAndAggregate (plan_cfg p) (plan_host p) c (BasicCounterState_init, ctxs[d := snd ?x] ! c)))) =
      (\<Sum>c \<leftarrow> cs. f (fst (readAndAggregate (plan_cfg p) (plan_host p) c (BasicCounterState_init, ctxs ! c))))"
    using Cons.prems by (intro arg_cong [where f = sum_list] map_cong refl) (metis distinct.simps(2) nth_list_update_neq)
  show ?case using Cons.IH [of k1 "ctxs[d := snd ?x]"] Cons.prems assms(1) [of d "basic k" "ctxs ! d"]
    by (simp add: s k1 eq ac_simps)
qed simp

lemma read_socket_uncore_basic: "basic (fold (read_socket_uncore p ctxs) ss k) = basic k"
  by (induction ss arbitrary: k) (simp_all add: read_socket_uncore_def Let_def)

lemma readers_agree_field:
  fixes p :: "'m plan" and regs :: 'x
  assumes f: "additive_field f"
    and acc: "\<And>cfg (h :: 'm host) core s c. f (fst (readAndAggregate cfg h core (s, c))) =
      f s + f (fst (readAndAggregate cfg h core (BasicCounterState_init, c)))"
    and "valid_schedule p sched" and "sockets_known p" and "length ctxs = num_cores (plan_layout p)"
  shows "f (basic (fst (getSystemCounterState p regs ctxs))) = f (basic (fst (getAllCounterStates p regs sched ctxs)))"
proof -
  obtain sys socks cores ctxs1 where g: "getAllCounterStates p regs sched ctxs = (sys, socks, cores, ctxs1)"
    by (rule prod_cases4)
  have known: "\<forall>c < num_cores (plan_layout p). rc_online (plan_cfg p) c \<longrightarrow> socket_of (plan_layout p) c < num_sockets (plan_layout p)"
    using assms(4) by (simp add: sockets_known_def list_all_iff)
  let ?r = "\<lambda>c. f (fst (readAndAggregate (plan_cfg p) (plan_host p) c (BasicCounterState_init, ctxs ! c)))"
  have "f (cores ! c) = ?r c" if "c < num_cores (plan_layout p)" "rc_online (plan_cfg p) c" for c
  proof -
    have "cores ! c = fst (core_task p c (BasicCounterState_init, ctxs ! c))"
      using getAll_cores [OF g assms(3,5) that] by (metis fst_conv)
    then show ?thesis by (simp add: core_task_def case_prod_beta Let_def additive_field.f_readMSRs [OF f])
  qed
  then have "(\<Sum>c \<leftarrow> online_cores p. f (cores ! c)) = (\<Sum>c \<leftarrow> online_cores p. ?r c)"
    by (intro arg_cong [where f = sum_list] map_cong) auto
  then have "f (basic sys) = (\<Sum>c \<leftarrow> online_cores p. ?r c)" using additive_field.f_getAll(1) [OF f g known] by (rule trans [rotated])
  moreover have "f (basic (fst (getSystemCounterState p regs ctxs))) = (\<Sum>c \<leftarrow> online_cores p. ?r c)"
    using accumulate_cores [OF acc, of "online_cores p" p "SystemCounterState_init :: 'x SystemCounterState" ctxs]
    by (simp add: getSystemCounterState_def Let_def case_prod_beta readSystemEnergyStatus_def read_socket_uncore_basic
        additive_field.f_thermal [OF f] SystemCounterState_init_def additive_field.f_init [OF f] split: option.split)
  ultimately show ?thesis using g by simp
qed

section \<open>Properties\<close>

lemma length_run_ctxs [simp]: "length (run_ctxs (fold (run_task p) ts r)) = length (run_ctxs r)"
proof (induction ts arbitrary: r)
  case (Cons t ts)
  then show ?case by (cases t) (simp_all add: case_prod_beta Let_def)
qed simp

lemma length_getAll:
  "getAllCounterStates p regs sched ctxs = (sys, socks, cores, ctxs1) \<Longrightarrow> length ctxs1 = length ctxs"
  by (auto simp: getAllCounterStates_def Let_def start_run_def)

definition demo_plan :: "core_device plan" where
  "demo_plan =
     \<lparr>plan_cfg = \<lparr>rc_counters = \<lparr>perfmon_version = 4, core_gen_counter_num_max = 4, core_gen_counter_width = 48,
                                core_fixed_counter_num_max = 3, core_fixed_counter_width = 48\<rparr>,
         rc_online = (\<lambda>c. c \<noteq> 1), rc_global_ctrl = 0x70000000F, rc_programmed = [], rc_hwtma_l1 = True, rc_hwtma_l2 = False,
         rc_l3_occupancy = True, rc_useResctrl = False, rc_local_bw = False, rc_remote_bw = False, rc_L3ScalingFactor = 1,
         rc_coreCStateMsr = replicate 11 0, rc_pkgCStateMsr = replicate 11 0, rc_tsc_from_clock = False, rc_package_thermal = True\<rparr>,
      plan_host = dev_host,
      plan_layout = \<lparr>num_cores = 4, num_sockets = 2, socket_of = (\<lambda>c. c div 2), socketRefCore = (\<lambda>s. if s = 0 then 0 else 2)\<rparr>,
      plan_uncore = (\<lambda>_. \<lparr>us_llc_latency = False, us_uncore_frequency = False, us_tor_occupancy = 0, us_tor_inserts = 0,
         us_requests_all = 0, us_requests_local = 0, us_clocks = 0, us_ufs = None, us_serverBW = None, us_pmm = False,
         us_pcicfg = False, us_pmu = None, us_near_memory = False, us_local_ratio = False, us_cha = False, us_hbm = False,
         us_clientBW = None, us_legacy = Other_Uncore, us_counter_width = 48, us_package_energy = Some 7, us_dram_energy = None,
         us_pp_energy = []\<rparr>),
      threadMSRConfig = [0xE7], packageMSRConfig = [], plan_sockets = True, plan_energy = None\<rparr>"

definition demo_core :: "nat \<Rightarrow> core_device core_ctx" where
  "demo_core n =
     \<lparr>core_msr = \<lparr>dev_regs = (\<lambda>_. None), dev_events = (\<lambda>_. n), dev_cleared = (\<lambda>_. 0)\<rparr>,
      core_tma = \<lparr>tma_frontend = 0, tma_badspec = 0, tma_backend = 0, tma_retiring = 0, tma_all = 0, tma_mem = 0, tma_fetch = 0,
                 tma_mispred = 0, tma_heavy = 0\<rparr>, bw_local = None, bw_total = None\<rparr>"

definition demo_schedule :: "task list" where
  "demo_schedule = [Core_Task 2, Socket_Task 1, Core_Task 3, Core_Task 0, Socket_Task 0]"

lemma demo_simps:
  "tasks demo_plan = [Core_Task 0, Core_Task 2, Core_Task 3, Socket_Task 0, Socket_Task 1]"
  "num_cores (plan_layout demo_plan) = 4" "num_sockets (plan_layout demo_plan) = 2"
  by (simp_all add: demo_plan_def tasks_def upt_rec)

lemma demo_valid: "valid_schedule demo_plan demo_schedule"
  by (simp add: valid_schedule_def demo_simps) (simp add: demo_schedule_def demo_plan_def ref_core_def add_mset_commute)

text \<open>C9: The order in which the worker threads run does not matter. Whatever the interleaving of the tasks of one call of
  \<^verbatim>\<open>getAllCounterStates\<close>, as long as the queue of each core runs its tasks in order, all states and the registers of the cores
  end up the same, and the state of each online core is exactly what reading that core alone gives.\<close>

theorem snapshot_schedule_independent:
  assumes "valid_schedule p sched" and "length ctxs = num_cores (plan_layout p)"
    and "getAllCounterStates p regs sched ctxs = (sys, socks, cores, ctxs1)"
  shows "getAllCounterStates p regs (tasks p) ctxs = (sys, socks, cores, ctxs1) \<and>
    (\<forall>c < num_cores (plan_layout p). rc_online (plan_cfg p) c \<longrightarrow>
       (cores ! c, ctxs1 ! c) = core_task p c (BasicCounterState_init, ctxs ! c))"
proof
  show "getAllCounterStates p regs (tasks p) ctxs = (sys, socks, cores, ctxs1)"
    using assms(3) by (simp add: getAllCounterStates_def schedule_independent [OF assms(1)])
  show "\<forall>c < num_cores (plan_layout p). rc_online (plan_cfg p) c \<longrightarrow>
       (cores ! c, ctxs1 ! c) = core_task p c (BasicCounterState_init, ctxs ! c)"
    using getAll_cores [OF assms(3) assms(1) assms(2)] by blast
qed

lemma demo_length [simp]: "length (map demo_core ns) = length ns"
  by simp

theorem snapshot_schedule_independent_witness:
  "getAllCounterStates demo_plan () (tasks demo_plan) (map demo_core [1, 2, 3, 4]) =
   getAllCounterStates demo_plan () demo_schedule (map demo_core [1, 2, 3, 4])"
proof -
  obtain sys socks cores ctxs1 where
    g: "getAllCounterStates demo_plan () demo_schedule (map demo_core [1, 2, 3, 4]) = (sys, socks, cores, ctxs1)"
    by (rule prod_cases4)
  show ?thesis unfolding g
    by (rule snapshot_schedule_independent [OF demo_valid _ g, THEN conjunct1]) (simp add: demo_simps)
qed

text \<open>C22: Aggregation loses nothing. For each difference that can be summed (instructions, cycles, reference cycles, time stamps,
  interrupts, slots and the eight programmable events) the value between two calls of \<^verbatim>\<open>getAllCounterStates\<close> is, for the
  system, the sum over all online cores of the differences of the cores, and for a socket the sum over its online cores.\<close>

theorem snapshot_sums:
  assumes "sockets_known p" and "metric \<in> additive_metrics"
    and "getAllCounterStates p regs sched ctxs = (sys, socks, cores, ctxs1)"
    and "getAllCounterStates p regs' sched' ctxs' = (sys', socks', cores', ctxs1')"
  shows "metric (basic sys) (basic sys') = (\<Sum>c \<leftarrow> online_cores p. metric (cores ! c) (cores' ! c)) \<and>
    (\<forall>s < num_sockets (plan_layout p).
       metric (basic (socks ! s)) (basic (socks' ! s)) = (\<Sum>c \<leftarrow> cores_of p s. metric (cores ! c) (cores' ! c)))"
  using snapshot_sums_aux [OF assms] by blast

lemma demo_known: "sockets_known demo_plan"
  by (simp add: sockets_known_def demo_plan_def upt_rec)

theorem snapshot_sums_witness:
  "\<exists>sys socks cores ctxs1.
     getAllCounterStates demo_plan () demo_schedule (map demo_core [1, 2, 3, 4]) = (sys, socks, cores, ctxs1) \<and>
     getCycles (basic sys) (basic sys) = (\<Sum>c \<leftarrow> [0, 2, 3]. getCycles (cores ! c) (cores ! c))"
proof -
  obtain sys socks cores ctxs1 where
    g: "getAllCounterStates demo_plan () demo_schedule (map demo_core [1, 2, 3, 4]) = (sys, socks, cores, ctxs1)"
    by (rule prod_cases4)
  have "online_cores demo_plan = [0, 2, 3]" by (simp add: demo_plan_def upt_rec)
  moreover have "getCycles \<in> additive_metrics" by (simp add: additive_metrics_def)
  ultimately show ?thesis using snapshot_sums [OF demo_known _ g g, of getCycles] g by auto
qed

definition fixed_metrics :: "((BasicCounterState \<Rightarrow> BasicCounterState \<Rightarrow> u64) \<times> nat) list" where
  "fixed_metrics = [(getInstructionsRetired, 32), (getCycles, 33), (getRefCycles, 34)]"

text \<open>C1: What is reported for the system and for each socket is what happened. Let the cores count as the hardware promises, let
  their counters be 48 bits wide, and let no counter wrap more than once between two calls of \<^verbatim>\<open>getAllCounterStates\<close>. Then the
  instructions, cycles and reference cycles reported between the calls are the numbers of events that happened on the online
  cores of the system, and on those of each socket, between the two readings of each core (modulo the 64 bits of the result),
  for every interleaving of the worker threads.\<close>

theorem system_counts_exact:
  assumes hw: "counting_core (plan_host p) events epoch"
    and width: "core_fixed_counter_width (rc_counters (plan_cfg p)) = 48"
    and "sockets_known p" and "valid_schedule p sched" and "valid_schedule p sched'"
    and len: "length ctxs = num_cores (plan_layout p)" "length ctxs' = num_cores (plan_layout p)"
    and first: "getAllCounterStates p regs sched ctxs = (sys, socks, cores, ctxs1)"
    and run: "\<forall>c \<in> set (online_cores p). ran events epoch (core_msr (ctxs1 ! c)) (core_msr (ctxs' ! c))"
    and second: "getAllCounterStates p regs' sched' ctxs' = (sys', socks', cores', ctxs1')"
  shows "\<forall>(metric, i) \<in> set fixed_metrics.
    metric (basic sys) (basic sys') =
      of_nat (\<Sum>c \<leftarrow> online_cores p. events (core_msr (ctxs' ! c)) i - events (core_msr (ctxs ! c)) i) \<and>
    (\<forall>s < num_sockets (plan_layout p). metric (basic (socks ! s)) (basic (socks' ! s)) =
      of_nat (\<Sum>c \<leftarrow> cores_of p s. events (core_msr (ctxs' ! c)) i - events (core_msr (ctxs ! c)) i))"
proof -
  have core: "metric (cores ! c) (cores' ! c) = of_nat (events (core_msr (ctxs' ! c)) i - events (core_msr (ctxs ! c)) i)"
    if "(metric, i) \<in> set fixed_metrics" "c < num_cores (plan_layout p)" "rc_online (plan_cfg p) c" for metric i c
  proof -
    obtain b c1 where b: "readAndAggregate (plan_cfg p) (plan_host p) c (BasicCounterState_init, ctxs ! c) = (b, c1)"
      by (cases "readAndAggregate (plan_cfg p) (plan_host p) c (BasicCounterState_init, ctxs ! c)")
    obtain a c3 where a: "readAndAggregate (plan_cfg p) (plan_host p) c (BasicCounterState_init, ctxs' ! c) = (a, c3)"
      by (cases "readAndAggregate (plan_cfg p) (plan_host p) c (BasicCounterState_init, ctxs' ! c)")
    have t: "cores ! c = readMSRs (plan_host p) (core_msr c1) (threadMSRConfig p) b" "ctxs1 ! c = c1"
      "cores' ! c = readMSRs (plan_host p) (core_msr c3) (threadMSRConfig p) a"
      using getAll_cores [OF first assms(4) len(1) that(2,3)] getAll_cores [OF second assms(5) len(2) that(2,3)] a b
      by (simp_all add: core_task_def)
    have "ran events epoch (core_msr c1) (core_msr (ctxs' ! c))" using run that(2,3) t(2) by auto
    note e = counting_core.snapshots_exact [OF hw width b this a]
    show ?thesis using that(1) e by (auto simp: fixed_metrics_def t difference_defs)
  qed
  have sums: "(\<Sum>c \<leftarrow> cs. metric (cores ! c) (cores' ! c)) =
      of_nat (\<Sum>c \<leftarrow> cs. events (core_msr (ctxs' ! c)) i - events (core_msr (ctxs ! c)) i)"
    if "(metric, i) \<in> set fixed_metrics" "\<forall>c \<in> set cs. c < num_cores (plan_layout p) \<and> rc_online (plan_cfg p) c" for metric i cs
    using that(2) by (induction cs) (simp_all add: core [OF that(1)])
  have m: "metric \<in> additive_metrics" if "(metric, i) \<in> set fixed_metrics" for metric i
    using that by (auto simp: fixed_metrics_def additive_metrics_def)
  show ?thesis
  proof clarify
    fix metric i assume f: "(metric, i) \<in> set fixed_metrics"
    note S = snapshot_sums_aux [OF assms(3) m [OF f] first second]
    show "metric (basic sys) (basic sys') =
        of_nat (\<Sum>c \<leftarrow> online_cores p. events (core_msr (ctxs' ! c)) i - events (core_msr (ctxs ! c)) i) \<and>
      (\<forall>s < num_sockets (plan_layout p). metric (basic (socks ! s)) (basic (socks' ! s)) =
        of_nat (\<Sum>c \<leftarrow> cores_of p s. events (core_msr (ctxs' ! c)) i - events (core_msr (ctxs ! c)) i))"
      unfolding S(1) by (auto simp: S(2) sums [OF f])
  qed
qed

lemma demo_events:
  assumes "getAllCounterStates demo_plan () demo_schedule (map demo_core ns) = (sys, socks, cores, ctxs1)"
    and "length ns = 4" and "c \<in> set (online_cores demo_plan)"
  shows "dev_events (core_msr (ctxs1 ! c)) = (\<lambda>_. ns ! c)"
proof -
  have c: "c < 4" "rc_online (plan_cfg demo_plan) c" using assms(3) by (auto simp: demo_simps)
  have "ctxs1 ! c = snd (core_task demo_plan c (BasicCounterState_init, map demo_core ns ! c))"
    using getAll_cores [OF assms(1) demo_valid _ _ c(2)] c assms(2) by (simp add: demo_simps) (metis snd_conv)
  then have "ctxs1 ! c = snd (readAndAggregate (plan_cfg demo_plan) dev_host c (BasicCounterState_init, demo_core (ns ! c)))"
    using c assms(2) by (simp add: core_task_def case_prod_beta Let_def demo_plan_def)
  then show ?thesis using dev.read_leaves by (simp add: demo_core_def fun_eq_iff)
qed

text \<open>One core wraps around in between.\<close>

theorem system_counts_exact_witness:
  "\<exists>sys socks cores ctxs1 sys' socks' cores' ctxs2.
     getAllCounterStates demo_plan () demo_schedule (map demo_core [281474976710650, 1, 2, 3]) = (sys, socks, cores, ctxs1) \<and>
     getAllCounterStates demo_plan () (tasks demo_plan) (map (dev_work 10) ctxs1) = (sys', socks', cores', ctxs2) \<and>
     getInstructionsRetired (basic sys) (basic sys') = 30 \<and>
     getInstructionsRetired (basic (socks ! 0)) (basic (socks' ! 0)) = 10"
proof -
  let ?ns = "[281474976710650, 1, 2, 3] :: nat list"
  obtain sys socks cores ctxs1 where
    g: "getAllCounterStates demo_plan () demo_schedule (map demo_core ?ns) = (sys, socks, cores, ctxs1)"
    by (rule prod_cases4)
  obtain sys' socks' cores' ctxs2 where
    g': "getAllCounterStates demo_plan () (tasks demo_plan) (map (dev_work 10) ctxs1) = (sys', socks', cores', ctxs2)"
    by (rule prod_cases4)
  have len: "length ctxs1 = 4" using length_getAll [OF g] by simp
  have on: "online_cores demo_plan = [0, 2, 3]" "cores_of demo_plan 0 = [0]" by (simp_all add: demo_plan_def upt_rec)
  have hw: "counting_core (plan_host demo_plan) dev_events dev_epoch"
    using dev.counting_core_axioms by (simp add: demo_plan_def)
  have w: "core_fixed_counter_width (rc_counters (plan_cfg demo_plan)) = 48" by (simp add: demo_plan_def)
  have v: "valid_schedule demo_plan (tasks demo_plan)" by (simp add: valid_schedule_def)
  have run: "\<forall>c \<in> set (online_cores demo_plan). ran dev_events dev_epoch (core_msr (ctxs1 ! c)) (core_msr (map (dev_work 10) ctxs1 ! c))"
    using len by (auto simp: on intro!: dev_work_ran)
  have e: "dev_events (core_msr (map (dev_work 10) ctxs1 ! c)) i - dev_events (core_msr (map demo_core ?ns ! c)) i = 10"
    if "c \<in> {0, 2, 3}" for c i
    using that len demo_events [OF g, of c]
    by (auto simp: on dev_work_def set_msr_def demo_core_def)
  have l: "length (map demo_core ?ns) = num_cores (plan_layout demo_plan)"
    "length (map (dev_work 10) ctxs1) = num_cores (plan_layout demo_plan)" using len by (simp_all add: demo_simps)
  have i: "(getInstructionsRetired, 32) \<in> set fixed_metrics" by (simp add: fixed_metrics_def)
  have z: "0 < num_sockets (plan_layout demo_plan)" by (simp add: demo_simps)
  note main = bspec [OF system_counts_exact [OF hw w demo_known demo_valid v l g run g'] i, simplified prod.case]
  have "getInstructionsRetired (basic sys) (basic sys') =
      of_nat (\<Sum>c \<leftarrow> [0, 2, 3]. dev_events (core_msr (map (dev_work 10) ctxs1 ! c)) 32 - dev_events (core_msr (map demo_core ?ns ! c)) 32)"
    using conjunct1 [OF main] unfolding on .
  moreover have "getInstructionsRetired (basic (socks ! 0)) (basic (socks' ! 0)) =
      of_nat (\<Sum>c \<leftarrow> [0]. dev_events (core_msr (map (dev_work 10) ctxs1 ! c)) 32 - dev_events (core_msr (map demo_core ?ns ! c)) 32)"
    using conjunct2 [OF main, rule_format, OF z] unfolding on .
  ultimately have "getInstructionsRetired (basic sys) (basic sys') = 30 \<and> getInstructionsRetired (basic (socks ! 0)) (basic (socks' ! 0)) = 10"
    using e [of 0 32] e [of 2 32] e [of 3 32] by simp
  with g g' show ?thesis by blast
qed

text \<open>C24: The two ways of reading the system agree. For each difference that can be summed, the state that \<^verbatim>\<open>getSystemCounterState\<close>
  accumulates core after core and the system state that \<^verbatim>\<open>getAllCounterStates\<close> combines from the states of cores and sockets
  report the same value when they read the same hardware, for every interleaving of the worker threads.\<close>

theorem readers_agree:
  assumes "metric \<in> additive_metrics" and "sockets_known p" and "valid_schedule p sched" and "valid_schedule p sched'"
    and "length ctxs = num_cores (plan_layout p)" and "length ctxs' = num_cores (plan_layout p)"
  shows "metric (basic (fst (getSystemCounterState p regs ctxs))) (basic (fst (getSystemCounterState p regs' ctxs'))) =
    metric (basic (fst (getAllCounterStates p regs sched ctxs))) (basic (fst (getAllCounterStates p regs' sched' ctxs')))"
proof -
  obtain g k where g: "additive_field g" "additive_field k" "\<And>before after. metric before after = g after - k before"
    "\<And>f cfg (h :: 'a host) core s c. f \<in> {g, k} \<Longrightarrow>
       f (fst (readAndAggregate cfg h core (s, c))) = f s + f (fst (readAndAggregate cfg h core (BasicCounterState_init, c)))"
    using metric_fields_read [OF assms(1)] by blast
  have "g (basic (fst (getSystemCounterState p regs' ctxs'))) = g (basic (fst (getAllCounterStates p regs' sched' ctxs')))"
    by (rule readers_agree_field [OF g(1) g(4) assms(4,2,6)]) simp
  moreover have "k (basic (fst (getSystemCounterState p regs ctxs))) = k (basic (fst (getAllCounterStates p regs sched ctxs)))"
    by (rule readers_agree_field [OF g(2) g(4) assms(3,2,5)]) simp
  ultimately show ?thesis by (simp add: g(3))
qed

theorem readers_agree_witness:
  "getCycles (basic (fst (getSystemCounterState demo_plan () (map demo_core [1, 2, 3, 4]))))
     (basic (fst (getSystemCounterState demo_plan () (map demo_core [11, 12, 13, 14])))) =
   getCycles (basic (fst (getAllCounterStates demo_plan () demo_schedule (map demo_core [1, 2, 3, 4]))))
     (basic (fst (getAllCounterStates demo_plan () demo_schedule (map demo_core [11, 12, 13, 14]))))"
proof (rule readers_agree [OF _ demo_known demo_valid demo_valid])
  show "getCycles \<in> additive_metrics" by (simp add: additive_metrics_def)
qed (simp_all add: demo_simps)

text \<open>The occupancy of the last-level cache is not of that kind: a reading replaces it, so the accumulating reader reports the
  last core only.\<close>

lemma occupancy_replaced:
  "L3Occupancy (fst (readAndAggregate cfg h core (s, c))) = L3Occupancy (fst (readAndAggregate cfg h core (s', c)))"
  by (simp add: readAndAggregate_def add_readings_def Let_def case_prod_beta)

text \<open>Near memory hits and the energy of the power planes get lost on the way from the sockets to the system.\<close>

lemma uncore_plus_drops:
  "UncNMHit (uncore_plus a b) = UncNMHit a" "UncNMMiss (uncore_plus a b) = UncNMMiss a" "PPEnergyStatus (uncore_plus a b) = PPEnergyStatus a"
  by (simp_all add: uncore_plus_def)

section \<open>Shapes\<close>

definition wf_basic :: "BasicCounterState \<Rightarrow> bool" where
  "wf_basic s \<longleftrightarrow> length (Event s) = PERF_MAX_CUSTOM_COUNTERS \<and> length (CStateResidency s) = MAX_C_STATE + 1"

definition wf_uncore :: "UncoreCounterState \<Rightarrow> bool" where
  "wf_uncore r \<longleftrightarrow> length (PPEnergyStatus r) = MAX_PP + 1 \<and> length (PkgCStateResidency r) = MAX_C_STATE + 1"

definition wf_socket :: "'a SocketCounterState_scheme \<Rightarrow> bool" where
  "wf_socket k \<longleftrightarrow> wf_basic (basic k) \<and> wf_uncore (uncore k)"

lemma wf_init [simp]: "wf_basic BasicCounterState_init" "wf_uncore UncoreCounterState_init"
  by (simp_all add: wf_basic_def wf_uncore_def BasicCounterState_init_def UncoreCounterState_init_def)

lemma wf_read: "wf_basic s \<Longrightarrow> wf_basic (fst (readAndAggregate cfg h core (s, c)))"
  by (simp add: wf_basic_def readAndAggregate_def add_readings_def Let_def case_prod_beta)

lemma wf_readMSRs [simp]: "wf_basic (readMSRs h m is s) = wf_basic s"
  unfolding readMSRs_def by (induction "is" arbitrary: s) (simp_all add: wf_basic_def)

lemma wf_thermal [simp]: "wf_basic (readPackageThermalHeadroom cfg h m s) = wf_basic s"
  by (simp add: readPackageThermalHeadroom_def wf_basic_def Let_def)

definition same_shape :: "UncoreCounterState \<Rightarrow> UncoreCounterState \<Rightarrow> bool" where
  "same_shape a b \<longleftrightarrow> PPEnergyStatus a = PPEnergyStatus b \<and> PkgCStateResidency a = PkgCStateResidency b"

lemma same_shape_trans: "same_shape a b \<Longrightarrow> same_shape b c \<Longrightarrow> same_shape a c"
  by (simp add: same_shape_def)

lemma shape_latency: "same_shape (read_latency_counters u r) r"
  by (simp add: same_shape_def read_latency_counters_def Let_def split: option.split)

lemma shape_bw: "same_shape (read_serverBW u r) r"
  by (simp add: same_shape_def read_serverBW_def Let_def split: option.split)

lemma shape_imc: "same_shape (read_imc u p r) r"
  by (simp add: same_shape_def read_imc_def Let_def)

lemma shape_ha: "same_shape (read_ha u p r) r"
  by (simp add: same_shape_def read_ha_def Let_def)

lemma shape_edc: "same_shape (read_pmm_edc u p r) r"
  by (simp add: same_shape_def read_pmm_edc_def Let_def)

lemma shape_client: "same_shape (read_clientBW b r) r"
  by (simp add: same_shape_def read_clientBW_def Let_def case_prod_beta)

lemma shape_legacy: "same_shape (read_legacy_uncore u h m r) r"
  by (simp add: same_shape_def read_legacy_uncore_def Let_def split: legacy_uncore.split)

lemma uncore_shape: "same_shape (readAndAggregateUncoreMCCounters u h s m r) r"
proof -
  have b: "same_shape (read_serverBW u (read_latency_counters u r)) r" by (rule same_shape_trans [OF shape_bw shape_latency])
  have "same_shape (read_server_pmu u p x) x" for p x
    unfolding read_server_pmu_def by (rule same_shape_trans [OF shape_edc same_shape_trans [OF shape_ha shape_imc]])
  from this [THEN same_shape_trans, OF b] show ?thesis
    unfolding readAndAggregateUncoreMCCounters_def Let_def
    by (auto split: option.split intro: b same_shape_trans [OF shape_client b] same_shape_trans [OF shape_legacy b])
qed

lemma wf_socket_task: "wf_socket k \<Longrightarrow> wf_socket (socket_task p s m k)"
  by (simp add: wf_socket_def socket_task_def wf_uncore_def readAndAggregateEnergyCounters_def Let_def uncore_shape [unfolded same_shape_def])

lemma wf_package_task: "wf_socket k \<Longrightarrow> wf_socket (package_task p m k)"
  by (simp add: wf_socket_def package_task_def wf_uncore_def readAndAggregatePackageCStateResidencies_def Let_def)

lemma wf_upd: "\<forall>k \<in> set ks. P k \<Longrightarrow> (\<And>k. P k \<Longrightarrow> P (g k)) \<Longrightarrow> \<forall>k \<in> set (upd i g ks). P k"
  by (cases "i < length ks") (auto simp: upd_def list_update_beyond dest!: set_list_updateD)

lemma wf_run_task:
  assumes "\<forall>s \<in> set (run_cores r). wf_basic s" and "\<forall>k \<in> set (run_sockets r). wf_socket k"
  shows "(\<forall>s \<in> set (run_cores (run_task p t r)). wf_basic s) \<and> (\<forall>k \<in> set (run_sockets (run_task p t r)). wf_socket k) \<and>
    length (run_cores (run_task p t r)) = length (run_cores r)"
proof (cases t)
  case (Core_Task c)
  let ?s = "fst (core_task p c (run_cores r ! c, run_ctxs r ! c))"
  have "\<forall>s \<in> set ((run_cores r)[c := ?s]). wf_basic s"
  proof (cases "c < length (run_cores r)")
    case True
    then have "wf_basic ?s" using assms(1) by (simp add: core_task_def case_prod_beta Let_def wf_read)
    with assms(1) show ?thesis by (auto dest!: set_list_updateD)
  qed (use assms(1) in \<open>simp add: list_update_beyond\<close>)
  moreover have "\<forall>k \<in> set (upd (socket_of (plan_layout p) c) (package_task p m) (run_sockets r)). wf_socket k" for m
    by (rule wf_upd [OF assms(2) wf_package_task])
  ultimately show ?thesis using assms(2) by (simp add: Core_Task case_prod_beta Let_def)
next
  case (Socket_Task s)
  then show ?thesis using assms(1) wf_upd [OF assms(2) wf_socket_task] by simp
qed

lemma wf_run:
  assumes "\<forall>s \<in> set (run_cores r). wf_basic s" and "\<forall>k \<in> set (run_sockets r). wf_socket k"
  shows "(\<forall>s \<in> set (run_cores (fold (run_task p) ts r)). wf_basic s) \<and> (\<forall>k \<in> set (run_sockets (fold (run_task p) ts r)). wf_socket k) \<and>
    length (run_cores (fold (run_task p) ts r)) = length (run_cores r)"
  using assms
proof (induction ts arbitrary: r)
  case (Cons t ts)
  note w = wf_run_task [OF Cons.prems, of p t]
  show ?case using Cons.IH [of "run_task p t r"] w by simp
qed simp

lemma wf_plus: "wf_basic (basic_plus a b)" "wf_uncore a' \<Longrightarrow> wf_uncore (uncore_plus a' b')"
  by (simp_all add: wf_basic_def wf_uncore_def basic_plus_def uncore_plus_def)

lemma wf_aggregate:
  assumes "\<forall>k \<in> set socks. wf_socket k"
  shows "(\<forall>k \<in> set (fold (\<lambda>c ks. if on c then upd (so c) (add_core (cores ! c)) ks else ks) cs socks). wf_socket k) \<and>
    length (fold (\<lambda>c ks. if on c then upd (so c) (add_core (cores ! c)) ks else ks) cs socks) = length socks"
  using assms
proof (induction cs arbitrary: socks)
  case (Cons c cs)
  have "\<forall>k \<in> set (upd (so c) (add_core (cores ! c)) socks). wf_socket k"
    by (rule wf_upd [OF Cons.prems]) (simp add: wf_socket_def add_core_def wf_plus)
  then show ?case using Cons.IH [of "upd (so c) (add_core (cores ! c)) socks"] Cons.IH [OF Cons.prems] by (simp add: upd_def)
qed simp



text \<open>The reader of the uncore units alone reports the ticks of the reference core once for each online core of the socket.\<close>

lemma add_reference_ticks:
  fixes p :: "'m plan"
  assumes "rc_online (plan_cfg p) (nat (socketRefCore (plan_layout p) s))"
  shows "InvariantTSC (basic (add_reference_tsc p ctxs s k)) =
    InvariantTSC (basic k) + of_nat (length (cores_of p s)) *
      InvariantTSC (readAndAggregateTSC (plan_cfg p) (plan_host p) (core_msr (ctxs ! nat (socketRefCore (plan_layout p) s))) BasicCounterState_init)"
proof -
  have "InvariantTSC (basic (fold (\<lambda>core. if socket_of (plan_layout p) core = s \<and> rc_online (plan_cfg p) core then add_core r else id) cs k)) =
      InvariantTSC (basic k) + of_nat (length (filter (\<lambda>c. rc_online (plan_cfg p) c \<and> socket_of (plan_layout p) c = s) cs)) * InvariantTSC r" for r cs
    by (induction cs arbitrary: k) (auto simp: tsc_field.f_add_core algebra_simps)
  then show ?thesis using assms by (simp add: add_reference_tsc_def)
qed

lemma uncore_reader_ticks:
  fixes p :: "'m plan"
  assumes "\<forall>s < num_sockets (plan_layout p). rc_online (plan_cfg p) (nat (socketRefCore (plan_layout p) s))"
  shows "InvariantTSC (basic (fst (getUncoreCounterStates p regs ctxs))) =
    (\<Sum>s \<leftarrow> [0..<num_sockets (plan_layout p)]. of_nat (length (cores_of p s)) *
      InvariantTSC (readAndAggregateTSC (plan_cfg p) (plan_host p) (core_msr (ctxs ! nat (socketRefCore (plan_layout p) s))) BasicCounterState_init))"
proof -
  have z: "InvariantTSC (basic (socket_uncore_state p ctxs s)) = 0" for s
    by (simp add: socket_uncore_state_def Let_def readPackageThermalHeadroom_def SocketCounterState_init_def BasicCounterState_init_def)
  have y: "InvariantTSC (basic (readSystemEnergyStatus p (SystemCounterState_init\<lparr>system_registers := x\<rparr>))) = 0" for x :: "'x option"
    by (simp add: readSystemEnergyStatus_def SystemCounterState_init_def BasicCounterState_init_def split: option.split)
  show ?thesis
    by (simp add: getUncoreCounterStates_def Let_def tsc_field.f_sockets y o_def)
      (rule arg_cong [where f = sum_list], rule map_cong [OF refl], use assms in \<open>simp add: add_reference_ticks z\<close>)
qed

end
