(* ===== verification/Uncore_Pmu.thy ===== *)
theory Uncore_Pmu
  imports Msr Width_Extender
begin

text \<open>
  Performance monitoring units outside the cores (cpucounters.h, cpucounters.cpp, types.h): hardware registers behind one
  interface, a unit with its control, counter and filter registers, and the operations that freeze, reset, program and clean
  a unit. Using a register through an empty pointer is undefined in C++ and an error here; so is an index past the end of a vector.
  Frequency scaling of the threads that access the registers and debug output are left out.
\<close>

section \<open>Processor models\<close>

type_synonym cpu_model = nat

definition PCM_CPU_FAMILY_MODEL :: "nat \<Rightarrow> nat \<Rightarrow> cpu_model" where
  "PCM_CPU_FAMILY_MODEL family model = family * 2 ^ 8 + model"

definition JAKETOWN :: cpu_model where "JAKETOWN = PCM_CPU_FAMILY_MODEL 6 45"
definition IVYTOWN :: cpu_model where "IVYTOWN = PCM_CPU_FAMILY_MODEL 6 62"
definition HASWELLX :: cpu_model where "HASWELLX = PCM_CPU_FAMILY_MODEL 6 63"
definition BDX_DE :: cpu_model where "BDX_DE = PCM_CPU_FAMILY_MODEL 6 86"
definition BDX :: cpu_model where "BDX = PCM_CPU_FAMILY_MODEL 6 79"
definition KNL :: cpu_model where "KNL = PCM_CPU_FAMILY_MODEL 6 87"
definition SKX :: cpu_model where "SKX = PCM_CPU_FAMILY_MODEL 6 85"
definition ICX :: cpu_model where "ICX = PCM_CPU_FAMILY_MODEL 6 106"
definition SNOWRIDGE :: cpu_model where "SNOWRIDGE = PCM_CPU_FAMILY_MODEL 6 134"
definition SPR :: cpu_model where "SPR = PCM_CPU_FAMILY_MODEL 6 143"
definition EMR :: cpu_model where "EMR = PCM_CPU_FAMILY_MODEL 6 207"
definition GNR :: cpu_model where "GNR = PCM_CPU_FAMILY_MODEL 6 173"
definition SRF :: cpu_model where "SRF = PCM_CPU_FAMILY_MODEL 6 175"
definition GNR_D :: cpu_model where "GNR_D = PCM_CPU_FAMILY_MODEL 6 174"
definition GRR :: cpu_model where "GRR = PCM_CPU_FAMILY_MODEL 6 182"

lemmas cpu_models = JAKETOWN_def IVYTOWN_def HASWELLX_def BDX_DE_def BDX_def KNL_def SKX_def ICX_def SNOWRIDGE_def SPR_def EMR_def
  GNR_def SRF_def GNR_D_def GRR_def PCM_CPU_FAMILY_MODEL_def

text \<open>The models whose units have the newer layout of the unit control register.\<close>

definition new_units :: "cpu_model \<Rightarrow> bool" where
  "new_units model \<longleftrightarrow> model \<in> {SPR, EMR, GNR, GNR_D, GRR, SRF}"

section \<open>Register constants\<close>

definition UNC_PMON_UNIT_CTL_RST_CONTROL :: u32 where "UNC_PMON_UNIT_CTL_RST_CONTROL = push_bit 0 1"
definition UNC_PMON_UNIT_CTL_RST_COUNTERS :: u32 where "UNC_PMON_UNIT_CTL_RST_COUNTERS = push_bit 1 1"
definition UNC_PMON_UNIT_CTL_FRZ :: u32 where "UNC_PMON_UNIT_CTL_FRZ = push_bit 8 1"
definition UNC_PMON_UNIT_CTL_FRZ_EN :: u32 where "UNC_PMON_UNIT_CTL_FRZ_EN = push_bit 16 1"
definition UNC_PMON_UNIT_CTL_RSV :: u32 where "UNC_PMON_UNIT_CTL_RSV = push_bit 16 1 + push_bit 17 1"
definition SPR_UNC_PMON_UNIT_CTL_FRZ :: u32 where "SPR_UNC_PMON_UNIT_CTL_FRZ = push_bit 0 1"
definition SPR_UNC_PMON_UNIT_CTL_RST_CONTROL :: u32 where "SPR_UNC_PMON_UNIT_CTL_RST_CONTROL = push_bit 8 1"
definition SPR_UNC_PMON_UNIT_CTL_RST_COUNTERS :: u32 where "SPR_UNC_PMON_UNIT_CTL_RST_COUNTERS = push_bit 9 1"
definition UNC_PMON_UNIT_CTL_VALID_BITS_MASK :: u32 where "UNC_PMON_UNIT_CTL_VALID_BITS_MASK = push_bit 17 1 - 1"
definition MC_CH_PCI_PMON_CTL_EN :: u32 where "MC_CH_PCI_PMON_CTL_EN = push_bit 22 1"

lemmas unit_ctl_bits = UNC_PMON_UNIT_CTL_RST_CONTROL_def UNC_PMON_UNIT_CTL_RST_COUNTERS_def UNC_PMON_UNIT_CTL_FRZ_def
  UNC_PMON_UNIT_CTL_FRZ_EN_def UNC_PMON_UNIT_CTL_RSV_def SPR_UNC_PMON_UNIT_CTL_FRZ_def SPR_UNC_PMON_UNIT_CTL_RST_CONTROL_def
  SPR_UNC_PMON_UNIT_CTL_RST_COUNTERS_def UNC_PMON_UNIT_CTL_VALID_BITS_MASK_def MC_CH_PCI_PMON_CTL_EN_def

section \<open>Registers\<close>

text \<open>\<^verbatim>\<open>class HWRegister\<close>: assignment and conversion to a number. \<open>'r\<close> are the objects, \<open>'m\<close> the hardware they act on.\<close>

record ('r, 'm) HWRegister =
  hw_write :: "'r \<Rightarrow> u64 \<Rightarrow> 'm \<Rightarrow> 'm result"
  hw_read :: "'r \<Rightarrow> 'm \<Rightarrow> u64 \<times> 'm"

definition assign :: "('r, 'm) HWRegister \<Rightarrow> 'r option \<Rightarrow> u64 \<Rightarrow> 'm \<Rightarrow> 'm result" where
  "assign H p v m = (case p of Some r \<Rightarrow> hw_write H r v m | None \<Rightarrow> Inl Std_exception)"

definition assign_if :: "('r, 'm) HWRegister \<Rightarrow> 'r option \<Rightarrow> u64 \<Rightarrow> 'm \<Rightarrow> 'm result" where
  "assign_if H p v m = (case p of Some r \<Rightarrow> hw_write H r v m | None \<Rightarrow> Inr m)"

definition fetch :: "('r, 'm) HWRegister \<Rightarrow> 'r option \<Rightarrow> 'm \<Rightarrow> (u64 \<times> 'm) result" where
  "fetch H p m = (case p of Some r \<Rightarrow> Inr (hw_read H r m) | None \<Rightarrow> Inl Std_exception)"

text \<open>The classes derived from it. Handles are the numbers of devices, memory ranges, cores and width extenders. A failed read
  leaves the zero the code starts with.\<close>

datatype hw_register =
    PCICFGRegister64 nat u64
  | PCICFGRegister32 nat u64
  | MMIORegister64 nat u64
  | MMIORegister32 nat u64
  | MSRRegister nat u64
  | CounterWidthExtenderRegister nat

record 'b bus =
  pci_write32 :: "nat \<Rightarrow> u64 \<Rightarrow> u32 \<Rightarrow> 'b \<Rightarrow> 'b"
  pci_read32 :: "nat \<Rightarrow> u64 \<Rightarrow> 'b \<Rightarrow> u32"
  pci_read64 :: "nat \<Rightarrow> u64 \<Rightarrow> 'b \<Rightarrow> u64"
  mmio_write32 :: "nat \<Rightarrow> u64 \<Rightarrow> u32 \<Rightarrow> 'b \<Rightarrow> 'b result"
  mmio_write64 :: "nat \<Rightarrow> u64 \<Rightarrow> u64 \<Rightarrow> 'b \<Rightarrow> 'b result"
  mmio_read32 :: "nat \<Rightarrow> u64 \<Rightarrow> 'b \<Rightarrow> u32"
  mmio_read64 :: "nat \<Rightarrow> u64 \<Rightarrow> 'b \<Rightarrow> u64"
  msr_write :: "nat \<Rightarrow> u64 \<Rightarrow> u64 \<Rightarrow> 'b \<Rightarrow> 'b"
  msr_read :: "nat \<Rightarrow> u64 \<Rightarrow> 'b \<Rightarrow> u64"
  raw_counter :: "nat \<Rightarrow> 'b \<Rightarrow> u64"

record 'b hw_state =
  hw_bus :: 'b
  hw_extenders :: "nat \<Rightarrow> extender"

fun register_write :: "'b bus \<Rightarrow> hw_register \<Rightarrow> u64 \<Rightarrow> 'b hw_state \<Rightarrow> 'b hw_state result" where
  "register_write B (PCICFGRegister64 h offset) val m =
     Inr (m\<lparr>hw_bus := pci_write32 B h (offset + 4) (cvt_ds_high val) (pci_write32 B h offset (cvt_ds_low val) (hw_bus m))\<rparr>)"
| "register_write B (PCICFGRegister32 h offset) val m = Inr (m\<lparr>hw_bus := pci_write32 B h offset (ucast val) (hw_bus m)\<rparr>)"
| "register_write B (MMIORegister64 h offset) val m =
     rbind (mmio_write64 B h offset val (hw_bus m)) (\<lambda>b. Inr (m\<lparr>hw_bus := b\<rparr>))"
| "register_write B (MMIORegister32 h offset) val m =
     rbind (mmio_write32 B h offset (ucast val) (hw_bus m)) (\<lambda>b. Inr (m\<lparr>hw_bus := b\<rparr>))"
| "register_write B (MSRRegister h offset) val m = Inr (m\<lparr>hw_bus := msr_write B h offset val (hw_bus m)\<rparr>)"
| "register_write B (CounterWidthExtenderRegister e) val m =
     (if val = 0
      then Inr (m\<lparr>hw_extenders := (hw_extenders m)(e := ext_reset (raw_counter B e (hw_bus m)) (hw_extenders m e))\<rparr>)
      else Inl Std_exception)"

fun register_read :: "'b bus \<Rightarrow> hw_register \<Rightarrow> 'b hw_state \<Rightarrow> u64 \<times> 'b hw_state" where
  "register_read B (PCICFGRegister64 h offset) m = (pci_read64 B h offset (hw_bus m), m)"
| "register_read B (PCICFGRegister32 h offset) m = (ucast (pci_read32 B h offset (hw_bus m)), m)"
| "register_read B (MMIORegister64 h offset) m = (mmio_read64 B h offset (hw_bus m), m)"
| "register_read B (MMIORegister32 h offset) m = (ucast (mmio_read32 B h offset (hw_bus m)), m)"
| "register_read B (MSRRegister h offset) m = (msr_read B h offset (hw_bus m), m)"
| "register_read B (CounterWidthExtenderRegister e) m =
     (let (v, x) = ext_read (raw_counter B e (hw_bus m)) (hw_extenders m e)
      in (v, m\<lparr>hw_extenders := (hw_extenders m)(e := x)\<rparr>))"

definition registers :: "'b bus \<Rightarrow> (hw_register, 'b hw_state) HWRegister" where
  "registers B = \<lparr>hw_write = register_write B, hw_read = register_read B\<rparr>"

section \<open>A unit\<close>

record 'r UncorePMU =
  unitControl :: "'r option"
  counterControl :: "'r option list"
  counterValue :: "'r option list"
  fixedCounterControl :: "'r option"
  fixedCounterValue :: "'r option"
  filter0 :: "'r option"
  filter1 :: "'r option"

text \<open>The constructor with four counters, and the one with vectors and its assertion.\<close>

definition UncorePMU4 ::
  "'r option \<Rightarrow> 'r option list \<Rightarrow> 'r option list \<Rightarrow> 'r option \<Rightarrow> 'r option \<Rightarrow> 'r option \<Rightarrow> 'r option \<Rightarrow> 'r UncorePMU" where
  "UncorePMU4 unit ctls ctrs fctl fctr f0 f1 =
     \<lparr>unitControl = unit, counterControl = ctls, counterValue = ctrs, fixedCounterControl = fctl, fixedCounterValue = fctr,
      filter0 = f0, filter1 = f1\<rparr>"

definition UncorePMU_vectors ::
  "'r option \<Rightarrow> 'r option list \<Rightarrow> 'r option list \<Rightarrow> 'r option \<Rightarrow> 'r option \<Rightarrow> 'r option \<Rightarrow> 'r option \<Rightarrow> 'r UncorePMU result" where
  "UncorePMU_vectors unit ctls ctrs fctl fctr f0 f1 =
     (if length ctls = length ctrs then Inr (UncorePMU4 unit ctls ctrs fctl fctr f0 f1) else Inl Assert_failed)"

definition valid :: "'r UncorePMU \<Rightarrow> bool" where
  "valid pmu \<longleftrightarrow> unitControl pmu \<noteq> None"

definition cleanup :: "('r, 'm) HWRegister \<Rightarrow> 'r UncorePMU \<Rightarrow> 'm \<Rightarrow> 'm result" where
  "cleanup H pmu m =
     rbind (rfold (\<lambda>cc. assign_if H cc 0) (counterControl pmu) m)
       (\<lambda>m1. rbind (assign_if H (unitControl pmu) 0 m1) (assign_if H (fixedCounterControl pmu) 0))"

definition freeze :: "('r, 'm) HWRegister \<Rightarrow> cpu_model \<Rightarrow> u32 \<Rightarrow> 'r UncorePMU \<Rightarrow> 'm \<Rightarrow> 'm result" where
  "freeze H model extra pmu m =
     (if new_units model then assign H (unitControl pmu) (ucast SPR_UNC_PMON_UNIT_CTL_FRZ) m
      else assign H (unitControl pmu) (ucast (extra + UNC_PMON_UNIT_CTL_FRZ)) m)"

definition unfreeze :: "('r, 'm) HWRegister \<Rightarrow> cpu_model \<Rightarrow> u32 \<Rightarrow> 'r UncorePMU \<Rightarrow> 'm \<Rightarrow> 'm result" where
  "unfreeze H model extra pmu m =
     (if new_units model then assign H (unitControl pmu) 0 m else assign H (unitControl pmu) (ucast extra) m)"

text \<open>\<open>check\<close> is whether a message for unavailable links is given. The result says whether the unit works.\<close>

definition initFreeze ::
  "('r, 'm) HWRegister \<Rightarrow> cpu_model \<Rightarrow> u32 \<Rightarrow> bool \<Rightarrow> 'r UncorePMU \<Rightarrow> 'm \<Rightarrow> (bool \<times> 'r UncorePMU \<times> 'm) result" where
  "initFreeze H model extra check pmu m =
     (case unitControl pmu of
        None \<Rightarrow> Inr (True, pmu, m)
      | Some u \<Rightarrow>
          if new_units model then
            rbind (hw_write H u (ucast SPR_UNC_PMON_UNIT_CTL_FRZ) m)
              (\<lambda>m1. rbind (hw_write H u (ucast (SPR_UNC_PMON_UNIT_CTL_FRZ + SPR_UNC_PMON_UNIT_CTL_RST_CONTROL)) m1)
                (\<lambda>m2. Inr (True, pmu, m2)))
          else
            rbind (hw_write H u (ucast extra) m)
              (\<lambda>m1. let (works, m2) =
                      (if check
                       then let (v, m2) = hw_read H u m1
                            in (ucast (extra AND UNC_PMON_UNIT_CTL_VALID_BITS_MASK) = v AND ucast UNC_PMON_UNIT_CTL_VALID_BITS_MASK, m2)
                       else (True, m1))
                    in if works then rbind (hw_write H u (ucast (extra + UNC_PMON_UNIT_CTL_FRZ)) m2) (\<lambda>m3. Inr (True, pmu, m3))
                       else Inr (False, pmu\<lparr>unitControl := None\<rparr>, m2)))"

definition resetUnfreeze :: "('r, 'm) HWRegister \<Rightarrow> cpu_model \<Rightarrow> u32 \<Rightarrow> 'r UncorePMU \<Rightarrow> 'm \<Rightarrow> 'm result" where
  "resetUnfreeze H model extra pmu m =
     (if new_units model then
        rbind (assign H (unitControl pmu) (ucast (SPR_UNC_PMON_UNIT_CTL_FRZ + SPR_UNC_PMON_UNIT_CTL_RST_COUNTERS)) m)
          (assign H (unitControl pmu) 0)
      else
        rbind (assign H (unitControl pmu) (ucast (extra + UNC_PMON_UNIT_CTL_FRZ + UNC_PMON_UNIT_CTL_RST_COUNTERS)) m)
          (assign H (unitControl pmu) (ucast extra)))"

text \<open>\<^verbatim>\<open>PCM::program\<close> for one unit: events are paired with counters until one of them runs out.\<close>

definition program_counter_control :: "('r, 'm) HWRegister \<Rightarrow> cpu_model \<Rightarrow> 'r option \<times> u64 \<Rightarrow> 'm \<Rightarrow> 'm result" where
  "program_counter_control H model = (\<lambda>(ctrl, event) m.
     case ctrl of
       None \<Rightarrow> Inr m
     | Some r \<Rightarrow>
         if new_units model then hw_write H r event m
         else rbind (hw_write H r (ucast MC_CH_PCI_PMON_CTL_EN) m) (hw_write H r (ucast MC_CH_PCI_PMON_CTL_EN OR event)))"

definition program_pmu :: "('r, 'm) HWRegister \<Rightarrow> cpu_model \<Rightarrow> 'r UncorePMU \<Rightarrow> u64 list option \<Rightarrow> u32 \<Rightarrow> 'm \<Rightarrow> 'm result" where
  "program_pmu H model pmu events extra m =
     (case events of
        None \<Rightarrow> Inr m
      | Some es \<Rightarrow>
          rbind (rfold (program_counter_control H model) (zip (counterControl pmu) es) m)
            (\<lambda>m1. if extra \<noteq> 0 then resetUnfreeze H model extra pmu m1 else Inr m1))"

end
