(* ===== verification/Server_Uncore.thy ===== *)
theory Server_Uncore
  imports Uncore_Pmu
begin

text \<open>
  The memory and link units of one socket (class \<^verbatim>\<open>ServerUncorePMUs\<close>, cpucounters.h and cpucounters.cpp): which events are
  programmed on which processor, freezing and cleaning, and the counts read from them. The flags \<open>pmm\<close> and \<open>hbm\<close> stand for
  \<^verbatim>\<open>PMMTrafficMetricsAvailable\<close> and \<^verbatim>\<open>HBMmemoryTrafficMetricsAvailable\<close>.
\<close>

section \<open>Events\<close>

definition MC_CH_PCI_PMON_CTL_EVENT :: "u32 \<Rightarrow> u32" where "MC_CH_PCI_PMON_CTL_EVENT x = push_bit 0 x"
definition MC_CH_PCI_PMON_CTL_UMASK :: "u32 \<Rightarrow> u32" where "MC_CH_PCI_PMON_CTL_UMASK x = push_bit 8 x"
definition MC_CH_PCI_PMON_CTL_EDGE_DET :: u32 where "MC_CH_PCI_PMON_CTL_EDGE_DET = push_bit 18 1"
definition MC_CH_PCI_PMON_CTL_INVERT :: u32 where "MC_CH_PCI_PMON_CTL_INVERT = push_bit 23 1"
definition MC_CH_PCI_PMON_CTL_THRESH :: "u32 \<Rightarrow> u32" where "MC_CH_PCI_PMON_CTL_THRESH x = push_bit 24 x"
definition MC_CH_PCI_PMON_FIXED_CTL_RST :: u32 where "MC_CH_PCI_PMON_FIXED_CTL_RST = push_bit 19 1"
definition MC_CH_PCI_PMON_FIXED_CTL_EN :: u32 where "MC_CH_PCI_PMON_FIXED_CTL_EN = push_bit 22 1"
definition EDC_CH_PCI_PMON_FIXED_CTL_EN :: u32 where "EDC_CH_PCI_PMON_FIXED_CTL_EN = push_bit 0 1"
definition Q_P_PCI_PMON_CTL_EVENT :: "u32 \<Rightarrow> u32" where "Q_P_PCI_PMON_CTL_EVENT x = push_bit 0 x"
definition Q_P_PCI_PMON_CTL_UMASK :: "u32 \<Rightarrow> u32" where "Q_P_PCI_PMON_CTL_UMASK x = push_bit 8 x"
definition Q_P_PCI_PMON_CTL_EVENT_EXT :: u32 where "Q_P_PCI_PMON_CTL_EVENT_EXT = push_bit 21 1"
definition M2M_PCI_PMON_CTL_EVENT :: "u64 \<Rightarrow> u64" where "M2M_PCI_PMON_CTL_EVENT x = push_bit 0 x"
definition M2M_PCI_PMON_CTL_UMASK :: "u64 \<Rightarrow> u64" where "M2M_PCI_PMON_CTL_UMASK x = push_bit 8 x"
definition UNC_PMON_CTL_UMASK_EXT :: "u64 \<Rightarrow> u64" where "UNC_PMON_CTL_UMASK_EXT x = push_bit 32 x"
definition HA_PCI_PMON_CTL_EVENT :: "u32 \<Rightarrow> u32" where "HA_PCI_PMON_CTL_EVENT x = push_bit 0 x"
definition HA_PCI_PMON_CTL_UMASK :: "u32 \<Rightarrow> u32" where "HA_PCI_PMON_CTL_UMASK x = push_bit 8 x"

text \<open>\<^verbatim>\<open>ServerUncorePMUs::EventPosition\<close>, \<^verbatim>\<open>PCM::EventPosition\<close> and \<^verbatim>\<open>ServerUncoreCounterState::EventPosition\<close>\<close>

abbreviation (input) READ :: nat where "READ \<equiv> 0"
abbreviation (input) WRITE :: nat where "WRITE \<equiv> 1"
abbreviation (input) READ2 :: nat where "READ2 \<equiv> 2"
abbreviation (input) WRITE2 :: nat where "WRITE2 \<equiv> 3"
abbreviation (input) READ_RANK_A :: nat where "READ_RANK_A \<equiv> 0"
abbreviation (input) WRITE_RANK_A :: nat where "WRITE_RANK_A \<equiv> 1"
abbreviation (input) READ_RANK_B :: nat where "READ_RANK_B \<equiv> 2"
abbreviation (input) WRITE_RANK_B :: nat where "WRITE_RANK_B \<equiv> 3"
abbreviation (input) PARTIAL :: nat where "PARTIAL \<equiv> 2"
abbreviation (input) PMM_READ :: nat where "PMM_READ \<equiv> 2"
abbreviation (input) PMM_WRITE :: nat where "PMM_WRITE \<equiv> 3"
abbreviation (input) MM_MISS_CLEAN :: nat where "MM_MISS_CLEAN \<equiv> 2"
abbreviation (input) MM_MISS_DIRTY :: nat where "MM_MISS_DIRTY \<equiv> 3"
abbreviation (input) NM_HIT :: nat where "NM_HIT \<equiv> 0"
abbreviation (input) M2M_CLOCKTICKS :: nat where "M2M_CLOCKTICKS \<equiv> 1"
abbreviation (input) REQUESTS_ALL :: nat where "REQUESTS_ALL \<equiv> 2"
abbreviation (input) REQUESTS_LOCAL :: nat where "REQUESTS_LOCAL \<equiv> 3"
abbreviation (input) xPI_TxL0P_POWER_CYCLES :: nat where "xPI_TxL0P_POWER_CYCLES \<equiv> 0"
abbreviation (input) xPI_L1_POWER_CYCLES :: nat where "xPI_L1_POWER_CYCLES \<equiv> 2"
abbreviation (input) xPI_CLOCKTICKS :: nat where "xPI_CLOCKTICKS \<equiv> 3"

definition hasUPI :: "cpu_model \<Rightarrow> bool" where
  "hasUPI model \<longleftrightarrow> model \<in> {SKX, ICX, SPR, EMR, GNR, SRF}"

section \<open>State\<close>

record 'r ServerUncorePMUs =
  su_model :: cpu_model
  imcPMUs :: "'r UncorePMU list"
  edcPMUs :: "'r UncorePMU list"
  xpiPMUs :: "'r UncorePMU list"
  m3upiPMUs :: "'r UncorePMU list"
  m2mPMUs :: "'r UncorePMU list"
  haPMUs :: "'r UncorePMU list"
  hbm_m2mPMUs :: "'r UncorePMU list"
  num_imc_channels :: "u32 list"

definition allPMUs :: "'r ServerUncorePMUs \<Rightarrow> 'r UncorePMU list" where
  "allPMUs s = imcPMUs s @ edcPMUs s @ xpiPMUs s @ m3upiPMUs s @ m2mPMUs s @ haPMUs s @ hbm_m2mPMUs s"

definition getNumMCChannels :: "'r ServerUncorePMUs \<Rightarrow> u32 \<Rightarrow> u32" where
  "getNumMCChannels s controller =
     (if unat controller < length (num_imc_channels s) then num_imc_channels s ! unat controller else 0)"

section \<open>Units found by direct access\<close>

text \<open>The registers of the units that \<^verbatim>\<open>initDirect\<close> builds on a PCI device or, for memory controllers of newer processors, on a mapped
  page. \<open>r\<close> maps an address at which the page is mapped to its handle.\<close>

definition pci32 :: "nat \<Rightarrow> u64 list \<Rightarrow> hw_register option list" where
  "pci32 h = map (\<lambda>a. Some (PCICFGRegister32 h a))"

definition pci64 :: "nat \<Rightarrow> u64 list \<Rightarrow> hw_register option list" where
  "pci64 h = map (\<lambda>a. Some (PCICFGRegister64 h a))"

definition imc_pmu :: "cpu_model \<Rightarrow> nat \<Rightarrow> hw_register UncorePMU" where
  "imc_pmu model h =
     (if model = KNL then
        UncorePMU4 (Some (PCICFGRegister32 h 0xB30)) (pci32 h [0xB20, 0xB24, 0xB28, 0xB2C]) (pci64 h [0xB00, 0xB08, 0xB10, 0xB18])
          (Some (PCICFGRegister32 h 0xB44)) (Some (PCICFGRegister64 h 0xB3C)) None None
      else
        UncorePMU4 (Some (PCICFGRegister32 h 0x0F4)) (pci32 h [0x0D8, 0x0DC, 0x0E0, 0x0E4]) (pci64 h [0x0A0, 0x0A8, 0x0B0, 0x0B8])
          (Some (PCICFGRegister32 h 0x0F0)) (Some (PCICFGRegister64 h 0x0D0)) None None)"

definition edc_pmu :: "nat \<Rightarrow> hw_register UncorePMU" where
  "edc_pmu h =
     UncorePMU4 (Some (PCICFGRegister32 h 0xA30)) (pci32 h [0xA20, 0xA24, 0xA28, 0xA2C]) (pci64 h [0xA00, 0xA08, 0xA10, 0xA18])
       (Some (PCICFGRegister32 h 0xA44)) (Some (PCICFGRegister64 h 0xA3C)) None None"

definition m2m_pmu :: "cpu_model \<Rightarrow> nat \<Rightarrow> hw_register UncorePMU" where
  "m2m_pmu model h =
     (if model \<in> {ICX, SNOWRIDGE, SPR, EMR, GNR, GNR_D, SRF} then
        UncorePMU4 (Some (PCICFGRegister32 h 0x438)) (pci64 h [0x468, 0x470, 0x478, 0x480]) (pci64 h [0x440, 0x448, 0x450, 0x458])
          None None None None
      else
        UncorePMU4 (Some (PCICFGRegister32 h 0x258)) (pci64 h [0x228, 0x230, 0x238, 0x240]) (pci64 h [0x200, 0x208, 0x210, 0x218])
          None None None None)"

definition m3upi_pmu :: "cpu_model \<Rightarrow> nat \<Rightarrow> hw_register UncorePMU" where
  "m3upi_pmu model h =
     (if model \<in> {ICX, SPR, EMR} then
        UncorePMU4 (Some (PCICFGRegister32 h 0xA0)) (pci32 h [0xD8, 0xDC, 0xE0, 0xE4]) (pci64 h [0xA8, 0xB0, 0xB8, 0xC0]) None None None None
      else if model \<in> {GNR, SRF} then
        UncorePMU4 (Some (PCICFGRegister64 h 0x408)) (pci64 h [0x430, 0x438, 0x440, 0x448]) (pci64 h [0x410, 0x418, 0x420, 0x428])
          None None None None
      else
        UncorePMU4 (Some (PCICFGRegister32 h 0xF4)) (pci32 h [0xD8, 0xDC, 0xE0] @ [None]) (pci64 h [0xA0, 0xA8, 0xB0] @ [None])
          None None None None)"

definition ha_pmu :: "nat \<Rightarrow> hw_register UncorePMU" where
  "ha_pmu h =
     UncorePMU4 (Some (PCICFGRegister32 h 0xF4)) (pci32 h [0xD8, 0xDC, 0xE0, 0xE4]) (pci64 h [0xA0, 0xA8, 0xB0, 0xB8]) None None None None"

definition xpi_pmu :: "cpu_model \<Rightarrow> nat \<Rightarrow> hw_register UncorePMU" where
  "xpi_pmu model h =
     (if model = SKX then
        UncorePMU4 (Some (PCICFGRegister32 h 0x378)) (pci32 h [0x350, 0x358, 0x360, 0x368]) (pci64 h [0x318, 0x320, 0x328, 0x330])
          None None None None
      else if model = ICX \<or> model \<in> {SPR, EMR, GNR, SRF} then
        UncorePMU4 (Some (PCICFGRegister32 h 0x318)) (pci32 h [0x350, 0x358, 0x360, 0x368]) (pci64 h [0x320, 0x328, 0x330, 0x338])
          None None None None
      else
        UncorePMU4 (Some (PCICFGRegister32 h 0x0F4)) (pci32 h [0x0D8, 0x0DC, 0x0E0, 0x0E4]) (pci64 h [0x0A0, 0x0A8, 0x0B0, 0x0B8])
          None None None None)"

definition createIMCPMU :: "(u64 \<Rightarrow> nat) \<Rightarrow> u64 \<Rightarrow> hw_register UncorePMU" where
  "createIMCPMU r addr =
     (let h = r (addr AND NOT 4095); alignDelta = addr AND 4095
      in UncorePMU4 (Some (MMIORegister32 h (0x00 + alignDelta)))
           (map (\<lambda>a. Some (MMIORegister32 h (a + alignDelta))) [0x40, 0x44, 0x48, 0x4C])
           (map (\<lambda>a. Some (MMIORegister64 h (a + alignDelta))) [0x08, 0x10, 0x18, 0x20])
           (Some (MMIORegister32 h (0x54 + alignDelta))) (Some (MMIORegister64 h (0x38 + alignDelta))) None None)"

section \<open>Programming the units\<close>

text \<open>Freezing a unit for programming never gives up unless the check for links is asked for.\<close>

definition init_and_program ::
  "('r, 'm) HWRegister \<Rightarrow> cpu_model \<Rightarrow> u32 \<Rightarrow> u64 list \<Rightarrow> 'r UncorePMU \<Rightarrow> 'm \<Rightarrow> 'm result" where
  "init_and_program H model extra events pmu m =
     rbind (initFreeze H model extra False pmu m) (\<lambda>(works, pmu1, m1). program_pmu H model pmu1 (Some events) extra m1)"

definition enableAndResetMCFixedCounter :: "('r, 'm) HWRegister \<Rightarrow> 'r UncorePMU \<Rightarrow> 'm \<Rightarrow> 'm result" where
  "enableAndResetMCFixedCounter H pmu m =
     rbind (assign H (fixedCounterControl pmu) (ucast MC_CH_PCI_PMON_FIXED_CTL_EN) m)
       (assign H (fixedCounterControl pmu) (ucast (MC_CH_PCI_PMON_FIXED_CTL_EN + MC_CH_PCI_PMON_FIXED_CTL_RST)))"

definition programIMC_unit ::
  "('r, 'm) HWRegister \<Rightarrow> cpu_model \<Rightarrow> u32 list \<Rightarrow> 'r UncorePMU \<Rightarrow> 'm \<Rightarrow> 'm result" where
  "programIMC_unit H model cfg pmu m =
     (let extraIMC = (if model = SKX then UNC_PMON_UNIT_CTL_RSV else UNC_PMON_UNIT_CTL_FRZ_EN)
      in rbind (initFreeze H model extraIMC False pmu m)
           (\<lambda>(works, pmu1, m1). rbind (enableAndResetMCFixedCounter H pmu1 m1)
              (program_pmu H model pmu1 (Some (map ucast cfg)) extraIMC)))"

definition programIMC :: "('r, 'm) HWRegister \<Rightarrow> u32 list \<Rightarrow> 'r ServerUncorePMUs \<Rightarrow> 'm \<Rightarrow> 'm result" where
  "programIMC H cfg s = rfold (programIMC_unit H (su_model s) cfg) (imcPMUs s)"

definition programEDC_unit ::
  "('r, 'm) HWRegister \<Rightarrow> cpu_model \<Rightarrow> u32 list \<Rightarrow> 'r UncorePMU \<Rightarrow> 'm \<Rightarrow> 'm result" where
  "programEDC_unit H model cfg pmu m =
     rbind (initFreeze H model UNC_PMON_UNIT_CTL_FRZ_EN False pmu m)
       (\<lambda>(works, pmu1, m1).
          rbind (if model = KNL then assign H (fixedCounterControl pmu1) (ucast EDC_CH_PCI_PMON_FIXED_CTL_EN) m1
                 else enableAndResetMCFixedCounter H pmu1 m1)
            (program_pmu H model pmu1 (Some (map ucast cfg)) UNC_PMON_UNIT_CTL_FRZ_EN))"

definition programEDC :: "('r, 'm) HWRegister \<Rightarrow> u32 list \<Rightarrow> 'r ServerUncorePMUs \<Rightarrow> 'm \<Rightarrow> 'm result" where
  "programEDC H cfg s = rfold (programEDC_unit H (su_model s) cfg) (edcPMUs s)"

definition M2M_config :: "cpu_model \<Rightarrow> u64 list" where
  "M2M_config model =
     (let cfg = [0, 0, 0, 0]
      in if model \<in> {SPR, EMR} then
           cfg[M2M_CLOCKTICKS := M2M_PCI_PMON_CTL_EVENT 0x01,
               PMM_READ := M2M_PCI_PMON_CTL_EVENT 0x24 + M2M_PCI_PMON_CTL_UMASK 0x20 + UNC_PMON_CTL_UMASK_EXT 0x03,
               PMM_WRITE := M2M_PCI_PMON_CTL_EVENT 0x25 + M2M_PCI_PMON_CTL_UMASK 0x80 + UNC_PMON_CTL_UMASK_EXT 0x18]
         else if model = ICX then
           cfg[NM_HIT := M2M_PCI_PMON_CTL_EVENT 0x2c + M2M_PCI_PMON_CTL_UMASK 3,
               M2M_CLOCKTICKS := 0,
               PMM_READ := M2M_PCI_PMON_CTL_EVENT 0x37 + M2M_PCI_PMON_CTL_UMASK 0x20 + UNC_PMON_CTL_UMASK_EXT 0x07,
               PMM_WRITE := M2M_PCI_PMON_CTL_EVENT 0x38 + M2M_PCI_PMON_CTL_UMASK 0x80 + UNC_PMON_CTL_UMASK_EXT 0x1C]
         else if model \<in> {GNR, GNR_D, SRF} then
           cfg[NM_HIT := M2M_PCI_PMON_CTL_EVENT 0x1F + M2M_PCI_PMON_CTL_UMASK 0x0F,
               M2M_CLOCKTICKS := 0,
               MM_MISS_CLEAN := M2M_PCI_PMON_CTL_EVENT 0x4B + M2M_PCI_PMON_CTL_UMASK 0x05,
               MM_MISS_DIRTY := M2M_PCI_PMON_CTL_EVENT 0x4B + M2M_PCI_PMON_CTL_UMASK 0x0A]
         else
           cfg[NM_HIT := M2M_PCI_PMON_CTL_EVENT 0x2c + M2M_PCI_PMON_CTL_UMASK 3,
               M2M_CLOCKTICKS := 0,
               PMM_READ := M2M_PCI_PMON_CTL_EVENT 0x37 + M2M_PCI_PMON_CTL_UMASK 0x8,
               PMM_WRITE := M2M_PCI_PMON_CTL_EVENT 0x38 + M2M_PCI_PMON_CTL_UMASK 0x20])"

definition programM2M_events :: "('r, 'm) HWRegister \<Rightarrow> u64 list \<Rightarrow> 'r ServerUncorePMUs \<Rightarrow> 'm \<Rightarrow> 'm result" where
  "programM2M_events H cfg s = rfold (init_and_program H (su_model s) UNC_PMON_UNIT_CTL_RSV cfg) (m2mPMUs s)"

definition programM2M :: "('r, 'm) HWRegister \<Rightarrow> 'r ServerUncorePMUs \<Rightarrow> 'm \<Rightarrow> 'm result" where
  "programM2M H s = programM2M_events H (M2M_config (su_model s)) s"

definition programM3UPI :: "('r, 'm) HWRegister \<Rightarrow> u32 list \<Rightarrow> 'r ServerUncorePMUs \<Rightarrow> 'm \<Rightarrow> 'm result" where
  "programM3UPI H cfg s = rfold (init_and_program H (su_model s) UNC_PMON_UNIT_CTL_RSV (map ucast cfg)) (m3upiPMUs s)"

definition programHA_events :: "('r, 'm) HWRegister \<Rightarrow> u32 list \<Rightarrow> 'r ServerUncorePMUs \<Rightarrow> 'm \<Rightarrow> 'm result" where
  "programHA_events H cfg s = rfold (init_and_program H (su_model s) UNC_PMON_UNIT_CTL_RSV (map ucast cfg)) (haPMUs s)"

definition HA_config :: "u32 list" where
  "HA_config =
     [0, 0, 0, 0][REQUESTS_ALL := HA_PCI_PMON_CTL_EVENT 0x01 + HA_PCI_PMON_CTL_UMASK (1 + 2 + 4 + 8),
                  REQUESTS_LOCAL := HA_PCI_PMON_CTL_EVENT 0x01 + HA_PCI_PMON_CTL_UMASK (1 + 4)]"

definition programHA :: "('r, 'm) HWRegister \<Rightarrow> 'r ServerUncorePMUs \<Rightarrow> 'm \<Rightarrow> 'm result" where
  "programHA H s = programHA_events H HA_config s"

text \<open>Links that do not answer lose their unit control register and are then removed.\<close>

fun cleanupQPIHandles_loop :: "'r UncorePMU list \<Rightarrow> 'r UncorePMU list option" where
  "cleanupQPIHandles_loop [] = None"
| "cleanupQPIHandles_loop (p # ps) =
     (if \<not> valid p then Some ps else map_option ((#) p) (cleanupQPIHandles_loop ps))"

lemma cleanupQPIHandles_loop_shorter: "cleanupQPIHandles_loop ps = Some qs \<Longrightarrow> length qs < length ps"
  by (induction ps arbitrary: qs) (auto split: if_splits)

function cleanupQPIHandles :: "'r UncorePMU list \<Rightarrow> 'r UncorePMU list" where
  "cleanupQPIHandles ps = (case cleanupQPIHandles_loop ps of None \<Rightarrow> ps | Some qs \<Rightarrow> cleanupQPIHandles qs)"
  by auto
termination by (relation "measure length") (auto simp: cleanupQPIHandles_loop_shorter)

declare cleanupQPIHandles.simps [simp del]

definition programXPI_unit ::
  "('r, 'm) HWRegister \<Rightarrow> cpu_model \<Rightarrow> u32 \<Rightarrow> u32 list \<Rightarrow> 'r UncorePMU \<Rightarrow> 'm \<Rightarrow> ('r UncorePMU \<times> 'm) result" where
  "programXPI_unit H model extra event pmu m =
     rbind (initFreeze H model extra True pmu m)
       (\<lambda>(works, pmu1, m1).
          if works then rbind (program_pmu H model pmu1 (Some (map ucast event)) extra m1) (\<lambda>m2. Inr (pmu1, m2))
          else Inr (pmu1, m1))"

fun programXPI_units ::
  "('r, 'm) HWRegister \<Rightarrow> cpu_model \<Rightarrow> u32 \<Rightarrow> u32 list \<Rightarrow> 'r UncorePMU list \<Rightarrow> 'm \<Rightarrow> ('r UncorePMU list \<times> 'm) result" where
  "programXPI_units H model extra event [] m = Inr ([], m)"
| "programXPI_units H model extra event (p # ps) m =
     rbind (programXPI_unit H model extra event p m)
       (\<lambda>(p1, m1). rbind (programXPI_units H model extra event ps m1) (\<lambda>(ps1, m2). Inr (p1 # ps1, m2)))"

definition programXPI ::
  "('r, 'm) HWRegister \<Rightarrow> u32 list \<Rightarrow> 'r ServerUncorePMUs \<Rightarrow> 'm \<Rightarrow> ('r ServerUncorePMUs \<times> 'm) result" where
  "programXPI H event s m =
     (let extra = (if hasUPI (su_model s) then UNC_PMON_UNIT_CTL_RSV else UNC_PMON_UNIT_CTL_FRZ_EN)
      in rbind (programXPI_units H (su_model s) extra event (xpiPMUs s) m)
           (\<lambda>(ps, m1). Inr (s\<lparr>xpiPMUs := cleanupQPIHandles ps\<rparr>, m1)))"

section \<open>Standard programming\<close>

definition memory_events :: "cpu_model \<Rightarrow> bool \<Rightarrow> u32 list \<times> u32 list" where
  "memory_events model pmm =
     (let MCCntConfig = [0, 0, 0, 0]; EDCCntConfig = [0, 0, 0, 0];
          ev = (\<lambda>e u. MC_CH_PCI_PMON_CTL_EVENT e + MC_CH_PCI_PMON_CTL_UMASK u);
          (mc, edc) =
            (if model = KNL then
               (MCCntConfig[READ := ev 0x03 1, WRITE := ev 0x03 2], EDCCntConfig[READ := ev 0x01 1, WRITE := ev 0x02 1])
             else if model \<in> {SNOWRIDGE, ICX} then (MCCntConfig[READ := ev 0x04 0x0f, WRITE := ev 0x04 0x30], EDCCntConfig)
             else if model \<in> {SPR, EMR} then
               (MCCntConfig[READ := ev 0x05 0xcf, WRITE := ev 0x05 0xf0], EDCCntConfig[READ := ev 0x05 0xcf, WRITE := ev 0x05 0xf0])
             else if model \<in> {GNR, GNR_D, GRR, SRF} then
               (MCCntConfig[READ := ev 0x05 0xcf, WRITE := ev 0x05 0xf0, READ2 := ev 0x06 0xcf, WRITE2 := ev 0x06 0xf0], EDCCntConfig)
             else (MCCntConfig[READ := ev 0x04 3, WRITE := ev 0x04 12], EDCCntConfig))
      in (if pmm then mc[PMM_READ := MC_CH_PCI_PMON_CTL_EVENT 0xe3, PMM_WRITE := MC_CH_PCI_PMON_CTL_EVENT 0xe7] else mc, edc))"

definition link_events :: "cpu_model \<Rightarrow> u32 list" where
  "link_events model =
     (if hasUPI model
      then [Q_P_PCI_PMON_CTL_EVENT 0x26,
            Q_P_PCI_PMON_CTL_EVENT 0x03 + Q_P_PCI_PMON_CTL_UMASK 0xF,
            Q_P_PCI_PMON_CTL_EVENT 0x02 + Q_P_PCI_PMON_CTL_UMASK (0x97 OR 0x0F),
            Q_P_PCI_PMON_CTL_EVENT 0x01]
      else [Q_P_PCI_PMON_CTL_EVENT 0x02 + Q_P_PCI_PMON_CTL_EVENT_EXT + Q_P_PCI_PMON_CTL_UMASK 8,
            Q_P_PCI_PMON_CTL_EVENT 0x03 + Q_P_PCI_PMON_CTL_EVENT_EXT + Q_P_PCI_PMON_CTL_UMASK 4,
            Q_P_PCI_PMON_CTL_EVENT 0x00 + Q_P_PCI_PMON_CTL_UMASK 6,
            Q_P_PCI_PMON_CTL_EVENT 0x14])"

definition program_server ::
  "('r, 'm) HWRegister \<Rightarrow> bool \<Rightarrow> bool \<Rightarrow> 'r ServerUncorePMUs \<Rightarrow> 'm \<Rightarrow> ('r ServerUncorePMUs \<times> 'm) result" where
  "program_server H pmm hbm s m =
     (let (mc, edc) = memory_events (su_model s) pmm
      in rbind (programIMC H mc s m)
           (\<lambda>m1. rbind (if hbm then programEDC H edc s m1 else Inr m1)
             (\<lambda>m2. rbind (programM2M H s m2)
               (\<lambda>m3. rbind (programXPI H (link_events (su_model s)) s m3)
                 (\<lambda>(s1, m4). rbind (programHA H s1 m4) (\<lambda>m5. Inr (s1, m5)))))))"

text \<open>\<^verbatim>\<open>programServerUncoreMemoryMetrics\<close>: \<open>None\<close> where the code reports an error and returns. Ranks are \<^verbatim>\<open>int\<close>; a negative one means
  that no rank is selected.\<close>

datatype ServerUncoreMemoryMetrics = PartialWrites | Pmem | PmemMemoryMode | PmemMixedMode

definition setEvents2_3 :: "ServerUncoreMemoryMetrics \<Rightarrow> bool \<Rightarrow> u32 \<Rightarrow> u32 list \<Rightarrow> u32 list option" where
  "setEvents2_3 metrics pmm partial_write_event cfg =
     (case metrics of
        PartialWrites \<Rightarrow> Some (cfg[PARTIAL := partial_write_event])
      | Pmem \<Rightarrow>
          if \<not> pmm then None
          else Some (cfg[PMM_READ := MC_CH_PCI_PMON_CTL_EVENT 0xe3, PMM_WRITE := MC_CH_PCI_PMON_CTL_EVENT 0xe7])
      | _ \<Rightarrow>
          if \<not> pmm then None
          else Some (cfg[MM_MISS_CLEAN := MC_CH_PCI_PMON_CTL_EVENT 0xd3 + MC_CH_PCI_PMON_CTL_UMASK 2,
                         MM_MISS_DIRTY := MC_CH_PCI_PMON_CTL_EVENT 0xd3 + MC_CH_PCI_PMON_CTL_UMASK 4]))"

definition memory_metric_events ::
  "cpu_model \<Rightarrow> ServerUncoreMemoryMetrics \<Rightarrow> bool \<Rightarrow> (u32 list \<times> u32 list) option" where
  "memory_metric_events model metrics pmm =
     (let z = [0, 0, 0, 0]; ev = (\<lambda>e u. MC_CH_PCI_PMON_CTL_EVENT e + MC_CH_PCI_PMON_CTL_UMASK u);
          with_edc = (\<lambda>edc. map_option (\<lambda>mc. (mc, edc)))
      in if model = KNL then Some (z[READ := ev 0x03 1, WRITE := ev 0x03 2], z[READ := ev 0x01 1, WRITE := ev 0x02 1])
         else if model \<in> {SNOWRIDGE, ICX} then
           with_edc z (setEvents2_3 metrics pmm (ev 0x04 0x0c)
             (if metrics = PmemMemoryMode then z[NM_HIT := ev 0xd3 1] else z[READ := ev 0x04 0x0f, WRITE := ev 0x04 0x30]))
         else if model \<in> {SPR, EMR} then
           with_edc (z[READ := ev 0x05 0xcf, WRITE := ev 0x05 0xf0])
             (setEvents2_3 metrics pmm (ev 0x05 0xcc) (z[READ := ev 0x05 0xcf, WRITE := ev 0x05 0xf0]))
         else if model \<in> {GNR, GNR_D, GRR, SRF} then
           (if metrics = PmemMemoryMode then None
            else Some (z[READ := ev 0x05 0xcf, WRITE := ev 0x05 0xf0, READ2 := ev 0x06 0xcf, WRITE2 := ev 0x06 0xf0], z))
         else with_edc z (setEvents2_3 metrics pmm (ev 0x04 2) (z[READ := ev 0x04 3, WRITE := ev 0x04 12])))"

definition rank_events :: "cpu_model \<Rightarrow> int \<Rightarrow> int \<Rightarrow> (u32 list \<times> u32 list) option" where
  "rank_events model rankA rankB =
     (let z = [0, 0, 0, 0]; ev = (\<lambda>e u. MC_CH_PCI_PMON_CTL_EVENT e + MC_CH_PCI_PMON_CTL_UMASK u);
          ranks = (\<lambda>u. let a = z[READ_RANK_A := ev (0xb0 + of_int rankA) u, WRITE_RANK_A := ev (0xb8 + of_int rankA) u]
                       in if 0 \<le> rankB \<and> rankB \<le> 7
                          then a[READ_RANK_B := ev (0xb0 + of_int rankB) u, WRITE_RANK_B := ev (0xb8 + of_int rankB) u] else a)
      in if rankA < 0 \<or> 7 < rankA then None
         else if model = IVYTOWN then Some (ranks 0xff, z)
         else if model \<in> {HASWELLX, BDX_DE, BDX, SKX} then Some (ranks 16, z)
         else if model = KNL then Some (z[READ := ev 0x03 1, WRITE := ev 0x03 2], z[READ := ev 0x01 1, WRITE := ev 0x02 1])
         else None)"

definition programServerUncoreMemoryMetrics ::
  "('r, 'm) HWRegister \<Rightarrow> bool \<Rightarrow> bool \<Rightarrow> ServerUncoreMemoryMetrics \<Rightarrow> int \<Rightarrow> int \<Rightarrow> 'r ServerUncorePMUs \<Rightarrow> 'm \<Rightarrow>
   ('r ServerUncorePMUs \<times> 'm) result" where
  "programServerUncoreMemoryMetrics H pmm hbm metrics rankA rankB s m =
     (case (if rankA < 0 \<and> rankB < 0 then memory_metric_events (su_model s) metrics pmm else rank_events (su_model s) rankA rankB) of
        None \<Rightarrow> Inr (s, m)
      | Some (mc, edc) \<Rightarrow>
          rbind (programIMC H mc s m)
            (\<lambda>m1. rbind (if hbm then programEDC H edc s m1 else Inr m1)
              (\<lambda>m2. rbind (programM2M H s m2) (\<lambda>m3. Inr (s\<lparr>xpiPMUs := []\<rparr>, m3)))))"

definition power_link_events :: "cpu_model \<Rightarrow> u32 list" where
  "power_link_events model =
     [0, 0, 0, 0][xPI_TxL0P_POWER_CYCLES := Q_P_PCI_PMON_CTL_EVENT (if hasUPI model then 0x27 else 0x0D),
                  xPI_L1_POWER_CYCLES := Q_P_PCI_PMON_CTL_EVENT (if hasUPI model then 0x21 else 0x12),
                  xPI_CLOCKTICKS := Q_P_PCI_PMON_CTL_EVENT (if hasUPI model then 0x01 else 0x14)]"

definition power_memory_events :: "cpu_model \<Rightarrow> int \<Rightarrow> u32 list" where
  "power_memory_events model mc_profile =
     (let UNC_M_POWER_CKE_CYCLES = (if model \<in> {ICX, SNOWRIDGE, SPR, EMR, SRF, GNR, GNR_D} then 0x47 else 0x83);
          UNC_M_POWER_CHANNEL_PPD_CYCLES = (if model \<in> {SRF, GNR, GNR_D} then 0x88 else 0x85);
          UNC_M_SELF_REFRESH_ENTER_SUCCESS_CYCLES_UMASK = (if model \<in> {SRF, GNR, GNR_D} then 0x01 else 0);
          cycles = (\<lambda>u. MC_CH_PCI_PMON_CTL_EVENT UNC_M_POWER_CKE_CYCLES + MC_CH_PCI_PMON_CTL_UMASK u + MC_CH_PCI_PMON_CTL_INVERT +
                        MC_CH_PCI_PMON_CTL_THRESH 1);
          edges = (\<lambda>u. MC_CH_PCI_PMON_CTL_EVENT UNC_M_POWER_CKE_CYCLES + MC_CH_PCI_PMON_CTL_UMASK u + MC_CH_PCI_PMON_CTL_THRESH 1 +
                       MC_CH_PCI_PMON_CTL_EDGE_DET);
          self = MC_CH_PCI_PMON_CTL_EVENT 0x43 + MC_CH_PCI_PMON_CTL_UMASK UNC_M_SELF_REFRESH_ENTER_SUCCESS_CYCLES_UMASK
      in if mc_profile = 0 then [cycles 1, edges 1, cycles 2, edges 2]
         else if mc_profile = 1 then [cycles 4, edges 4, cycles 8, edges 8]
         else if mc_profile = 2 then [cycles 0x10, edges 0x10, cycles 0x20, edges 0x20]
         else if mc_profile = 3 then [cycles 0x40, edges 0x40, cycles 0x80, edges 0x80]
         else if mc_profile = 4 then
           [self, self + MC_CH_PCI_PMON_CTL_THRESH 1 + MC_CH_PCI_PMON_CTL_EDGE_DET,
            MC_CH_PCI_PMON_CTL_EVENT UNC_M_POWER_CHANNEL_PPD_CYCLES, 0]
         else [0, 0, 0, 0])"

definition program_power_metrics ::
  "('r, 'm) HWRegister \<Rightarrow> int \<Rightarrow> 'r ServerUncorePMUs \<Rightarrow> 'm \<Rightarrow> ('r ServerUncorePMUs \<times> 'm) result" where
  "program_power_metrics H mc_profile s m =
     rbind (programXPI H (power_link_events (su_model s)) s m)
       (\<lambda>(s1, m1). rbind (programIMC H (power_memory_events (su_model s) mc_profile) s1 m1) (\<lambda>m2. Inr (s1, m2)))"

section \<open>Freezing and cleaning\<close>

definition cleanupPMUs :: "('r, 'm) HWRegister \<Rightarrow> 'r ServerUncorePMUs \<Rightarrow> 'm \<Rightarrow> 'm result" where
  "cleanupPMUs H s = rfold (cleanup H) (xpiPMUs s @ imcPMUs s @ edcPMUs s @ m2mPMUs s @ haPMUs s)"

definition freeze_extra :: "cpu_model \<Rightarrow> u32" where
  "freeze_extra model = (if model = SKX then UNC_PMON_UNIT_CTL_RSV else UNC_PMON_UNIT_CTL_FRZ_EN)"

definition freezeCounters :: "('r, 'm) HWRegister \<Rightarrow> 'r ServerUncorePMUs \<Rightarrow> 'm \<Rightarrow> 'm result" where
  "freezeCounters H s = rfold (freeze H (su_model s) (freeze_extra (su_model s))) (allPMUs s)"

definition unfreezeCounters :: "('r, 'm) HWRegister \<Rightarrow> 'r ServerUncorePMUs \<Rightarrow> 'm \<Rightarrow> 'm result" where
  "unfreezeCounters H s = rfold (unfreeze H (su_model s) (freeze_extra (su_model s))) (allPMUs s)"

section \<open>Reading\<close>

text \<open>The code looks at the vector element before it knows that it exists; an unknown counter of a known unit is an error.\<close>

definition getPMUCounter :: "('r, 'm) HWRegister \<Rightarrow> 'r UncorePMU list \<Rightarrow> nat \<Rightarrow> nat \<Rightarrow> 'm \<Rightarrow> (u64 \<times> 'm) result" where
  "getPMUCounter H pmus unit counter m =
     (if unit < length pmus \<and> counter < 4
      then if counter < length (counterValue (pmus ! unit))
           then case counterValue (pmus ! unit) ! counter of Some r \<Rightarrow> Inr (hw_read H r m) | None \<Rightarrow> Inr (0, m)
           else Inl Out_of_range
      else Inr (0, m))"

text \<open>The loops that add up what they read.\<close>

definition sum_read :: "('x \<Rightarrow> 'm \<Rightarrow> (u64 \<times> 'm) result) \<Rightarrow> 'x list \<Rightarrow> 'm \<Rightarrow> (u64 \<times> 'm) result" where
  "sum_read f xs m = rfold (\<lambda>x (acc, m). rbind (f x m) (\<lambda>(v, m1). Inr (acc + v, m1))) xs (0, m)"

definition read_value :: "('r, 'm) HWRegister \<Rightarrow> nat \<Rightarrow> 'r UncorePMU \<Rightarrow> 'm \<Rightarrow> (u64 \<times> 'm) result" where
  "read_value H counter pmu m =
     (if counter < length (counterValue pmu) then fetch H (counterValue pmu ! counter) m else Inl Out_of_range)"

definition getMCCounter :: "('r, 'm) HWRegister \<Rightarrow> 'r ServerUncorePMUs \<Rightarrow> nat \<Rightarrow> nat \<Rightarrow> 'm \<Rightarrow> (u64 \<times> 'm) result" where
  "getMCCounter H s channel counter = getPMUCounter H (imcPMUs s) channel counter"

definition getEDCCounter :: "('r, 'm) HWRegister \<Rightarrow> 'r ServerUncorePMUs \<Rightarrow> nat \<Rightarrow> nat \<Rightarrow> 'm \<Rightarrow> (u64 \<times> 'm) result" where
  "getEDCCounter H s channel counter = getPMUCounter H (edcPMUs s) channel counter"

definition getM2MCounter :: "('r, 'm) HWRegister \<Rightarrow> 'r ServerUncorePMUs \<Rightarrow> nat \<Rightarrow> nat \<Rightarrow> 'm \<Rightarrow> (u64 \<times> 'm) result" where
  "getM2MCounter H s box counter = getPMUCounter H (m2mPMUs s) box counter"

definition getHACounter :: "('r, 'm) HWRegister \<Rightarrow> 'r ServerUncorePMUs \<Rightarrow> nat \<Rightarrow> nat \<Rightarrow> 'm \<Rightarrow> (u64 \<times> 'm) result" where
  "getHACounter H s unit counter = getPMUCounter H (haPMUs s) unit counter"

definition getQPILLCounter :: "('r, 'm) HWRegister \<Rightarrow> 'r ServerUncorePMUs \<Rightarrow> nat \<Rightarrow> nat \<Rightarrow> 'm \<Rightarrow> (u64 \<times> 'm) result" where
  "getQPILLCounter H s port counter = getPMUCounter H (xpiPMUs s) port counter"

definition getM3UPICounter :: "('r, 'm) HWRegister \<Rightarrow> 'r ServerUncorePMUs \<Rightarrow> nat \<Rightarrow> nat \<Rightarrow> 'm \<Rightarrow> (u64 \<times> 'm) result" where
  "getM3UPICounter H s port counter = getPMUCounter H (m3upiPMUs s) port counter"

definition two_schedulers :: "cpu_model \<Rightarrow> bool" where
  "two_schedulers model \<longleftrightarrow> model \<in> {GNR, GNR_D, GRR, SRF}"

definition channel_count ::
  "('r, 'm) HWRegister \<Rightarrow> 'r ServerUncorePMUs \<Rightarrow> nat \<Rightarrow> nat \<Rightarrow> nat \<Rightarrow> 'm \<Rightarrow> (u64 \<times> 'm) result" where
  "channel_count H s ctr ctr2 channel m =
     rbind (getMCCounter H s channel ctr m)
       (\<lambda>(v, m1). if two_schedulers (su_model s)
                   then rbind (getMCCounter H s channel ctr2 m1) (\<lambda>(w, m2). Inr (v + w, m2)) else Inr (v, m1))"

definition getImcReadsForChannels ::
  "('r, 'm) HWRegister \<Rightarrow> 'r ServerUncorePMUs \<Rightarrow> u32 \<Rightarrow> u32 \<Rightarrow> 'm \<Rightarrow> (u64 \<times> 'm) result" where
  "getImcReadsForChannels H s beginChannel endChannel =
     sum_read (channel_count H s READ READ2) [unat beginChannel..<min (unat endChannel) (length (imcPMUs s))]"

definition getImcReads :: "('r, 'm) HWRegister \<Rightarrow> 'r ServerUncorePMUs \<Rightarrow> 'm \<Rightarrow> (u64 \<times> 'm) result" where
  "getImcReads H s = getImcReadsForChannels H s 0 (of_nat (length (imcPMUs s)))"

definition getImcReadsForController :: "('r, 'm) HWRegister \<Rightarrow> 'r ServerUncorePMUs \<Rightarrow> u32 \<Rightarrow> 'm \<Rightarrow> (u64 \<times> 'm) result" where
  "getImcReadsForController H s controller m =
     (if unat controller < length (num_imc_channels s)
      then let beginChannel = sum_list (take (unat controller) (num_imc_channels s));
               endChannel = beginChannel + num_imc_channels s ! unat controller
           in getImcReadsForChannels H s beginChannel endChannel m
      else Inl Assert_failed)"

definition getImcWrites :: "('r, 'm) HWRegister \<Rightarrow> 'r ServerUncorePMUs \<Rightarrow> 'm \<Rightarrow> (u64 \<times> 'm) result" where
  "getImcWrites H s = sum_read (channel_count H s WRITE WRITE2) [0..<length (imcPMUs s)]"

definition getNMHits :: "('r, 'm) HWRegister \<Rightarrow> 'r ServerUncorePMUs \<Rightarrow> 'm \<Rightarrow> (u64 \<times> 'm) result" where
  "getNMHits H s = sum_read (\<lambda>i. getM2MCounter H s i NM_HIT) [0..<length (m2mPMUs s)]"

definition getNMMisses :: "('r, 'm) HWRegister \<Rightarrow> 'r ServerUncorePMUs \<Rightarrow> 'm \<Rightarrow> (u64 \<times> 'm) result" where
  "getNMMisses H s = sum_read (\<lambda>i m.
     rbind (getM2MCounter H s i MM_MISS_CLEAN m)
       (\<lambda>(v, m1). rbind (getM2MCounter H s i MM_MISS_DIRTY m1) (\<lambda>(w, m2). Inr (v + w, m2)))) [0..<length (m2mPMUs s)]"

definition getPMMReads :: "('r, 'm) HWRegister \<Rightarrow> 'r ServerUncorePMUs \<Rightarrow> 'm \<Rightarrow> (u64 \<times> 'm) result" where
  "getPMMReads H s = sum_read (\<lambda>i. getM2MCounter H s i PMM_READ) [0..<length (m2mPMUs s)]"

definition getPMMWrites :: "('r, 'm) HWRegister \<Rightarrow> 'r ServerUncorePMUs \<Rightarrow> 'm \<Rightarrow> (u64 \<times> 'm) result" where
  "getPMMWrites H s = sum_read (\<lambda>i. getM2MCounter H s i PMM_WRITE) [0..<length (m2mPMUs s)]"

definition getEdcReads :: "('r, 'm) HWRegister \<Rightarrow> 'r ServerUncorePMUs \<Rightarrow> 'm \<Rightarrow> (u64 \<times> 'm) result" where
  "getEdcReads H s = sum_read (read_value H READ) (edcPMUs s)"

definition getEdcWrites :: "('r, 'm) HWRegister \<Rightarrow> 'r ServerUncorePMUs \<Rightarrow> 'm \<Rightarrow> (u64 \<times> 'm) result" where
  "getEdcWrites H s = sum_read (read_value H WRITE) (edcPMUs s)"

definition getHARequests :: "('r, 'm) HWRegister \<Rightarrow> 'r ServerUncorePMUs \<Rightarrow> 'm \<Rightarrow> (u64 \<times> 'm) result" where
  "getHARequests H s = sum_read (read_value H REQUESTS_ALL) (haPMUs s)"

definition getHALocalRequests :: "('r, 'm) HWRegister \<Rightarrow> 'r ServerUncorePMUs \<Rightarrow> 'm \<Rightarrow> (u64 \<times> 'm) result" where
  "getHALocalRequests H s = sum_read (read_value H REQUESTS_LOCAL) (haPMUs s)"

definition getIncomingDataFlits :: "('r, 'm) HWRegister \<Rightarrow> 'r ServerUncorePMUs \<Rightarrow> nat \<Rightarrow> 'm \<Rightarrow> (u64 \<times> 'm) result" where
  "getIncomingDataFlits H s port m =
     (if length (xpiPMUs s) \<le> port then Inr (0, m)
      else rbind (if \<not> hasUPI (su_model s) then read_value H 0 (xpiPMUs s ! port) m else Inr (0, m))
             (\<lambda>(drs, m1). rbind (read_value H 1 (xpiPMUs s ! port) m1) (\<lambda>(ncb, m2). Inr (drs + ncb, m2))))"

definition getOutgoingFlits :: "('r, 'm) HWRegister \<Rightarrow> 'r ServerUncorePMUs \<Rightarrow> nat \<Rightarrow> 'm \<Rightarrow> (u64 \<times> 'm) result" where
  "getOutgoingFlits H s port = getQPILLCounter H s port 2"

definition getUPIL0TxCycles :: "('r, 'm) HWRegister \<Rightarrow> 'r ServerUncorePMUs \<Rightarrow> nat \<Rightarrow> 'm \<Rightarrow> (u64 \<times> 'm) result" where
  "getUPIL0TxCycles H s port m = (if hasUPI (su_model s) then getQPILLCounter H s port 0 m else Inr (0, m))"

definition getQPIClocks :: "('r, 'm) HWRegister \<Rightarrow> 'r ServerUncorePMUs \<Rightarrow> nat \<Rightarrow> 'm \<Rightarrow> (u64 \<times> 'm) result" where
  "getQPIClocks H s port = getQPILLCounter H s port xPI_CLOCKTICKS"

definition getQPIL0pTxCycles :: "('r, 'm) HWRegister \<Rightarrow> 'r ServerUncorePMUs \<Rightarrow> nat \<Rightarrow> 'm \<Rightarrow> (u64 \<times> 'm) result" where
  "getQPIL0pTxCycles H s port = getQPILLCounter H s port xPI_TxL0P_POWER_CYCLES"

definition getQPIL1Cycles :: "('r, 'm) HWRegister \<Rightarrow> 'r ServerUncorePMUs \<Rightarrow> nat \<Rightarrow> 'm \<Rightarrow> (u64 \<times> 'm) result" where
  "getQPIL1Cycles H s port = getQPILLCounter H s port xPI_L1_POWER_CYCLES"

definition fixed_count :: "('r, 'm) HWRegister \<Rightarrow> 'r UncorePMU list \<Rightarrow> nat \<Rightarrow> 'm \<Rightarrow> (u64 \<times> 'm) result" where
  "fixed_count H pmus channel m = (if channel < length pmus then fetch H (fixedCounterValue (pmus ! channel)) m else Inr (0, m))"

definition getDRAMClocks :: "('r, 'm) HWRegister \<Rightarrow> 'r ServerUncorePMUs \<Rightarrow> nat \<Rightarrow> 'm \<Rightarrow> (u64 \<times> 'm) result" where
  "getDRAMClocks H s = fixed_count H (imcPMUs s)"

definition getHBMClocks :: "('r, 'm) HWRegister \<Rightarrow> 'r ServerUncorePMUs \<Rightarrow> nat \<Rightarrow> 'm \<Rightarrow> (u64 \<times> 'm) result" where
  "getHBMClocks H s = fixed_count H (edcPMUs s)"

end
