(* ===== verification/Uncore_Counting.thy ===== *)
theory Uncore_Counting
  imports Server_Uncore
begin

text \<open>
  What the hardware promises about the monitoring units of a socket, as locale \<open>pmon_units\<close>, and what the operations of
  theories Uncore_Pmu and Server_Uncore do to such units: freezing stops them, resetting clears them, programming makes them
  count the given events from zero, and no operation on one unit touches another.
\<close>

section \<open>What a unit promises\<close>

definition regs_of :: "'r option list \<Rightarrow> 'r set" where
  "regs_of rs = {r. Some r \<in> set rs}"

text \<open>Bits of the unit control register, in the older and the newer layout.\<close>

definition freezes :: "cpu_model \<Rightarrow> u64 \<Rightarrow> bool" where
  "freezes model v \<longleftrightarrow> bit v (if new_units model then 0 else 8)"

definition resets_controls :: "cpu_model \<Rightarrow> u64 \<Rightarrow> bool" where
  "resets_controls model v \<longleftrightarrow> bit v (if new_units model then 8 else 0)"

definition resets_counters :: "cpu_model \<Rightarrow> u64 \<Rightarrow> bool" where
  "resets_counters model v \<longleftrightarrow> bit v (if new_units model then 9 else 1)"

definition control_word :: "cpu_model \<Rightarrow> u64 \<Rightarrow> u64" where
  "control_word model event = (if new_units model then event else ucast MC_CH_PCI_PMON_CTL_EN OR event)"

text \<open>\<open>ctl m r\<close> is the content of a counter control register and \<open>impl r\<close> the bits it implements, \<open>cnt m r\<close> the value of a counter,
  \<open>running m u\<close> whether the unit with control register \<open>u\<close> counts, \<open>answers u\<close> whether its control register can be read back.\<close>

locale pmon_units =
  fixes H :: "('r, 'm) HWRegister" and model :: cpu_model and units :: "'r UncorePMU set"
    and ctl cnt :: "'m \<Rightarrow> 'r \<Rightarrow> u64" and running :: "'m \<Rightarrow> 'r \<Rightarrow> bool" and impl :: "'r \<Rightarrow> u64" and answers :: "'r \<Rightarrow> bool"
  assumes write_unit: "p \<in> units \<Longrightarrow> unitControl p = Some u \<Longrightarrow> \<exists>m'. hw_write H u v m = Inr m' \<and>
      ctl m' = (\<lambda>r. if resets_controls model v \<and> r \<in> regs_of (counterControl p) then 0 else ctl m r) \<and>
      cnt m' = (\<lambda>r. if resets_counters model v \<and> r \<in> regs_of (counterValue p) then 0 else cnt m r) \<and>
      running m' = (running m)(u := \<not> freezes model v)"
    and write_control: "p \<in> units \<Longrightarrow> r \<in> regs_of (counterControl p) \<Longrightarrow> \<exists>m'. hw_write H r v m = Inr m' \<and>
      ctl m' = (ctl m)(r := v AND impl r) \<and> cnt m' = cnt m \<and> running m' = running m"
    and write_fixed: "p \<in> units \<Longrightarrow> fixedCounterControl p = Some r \<Longrightarrow> \<exists>m'. hw_write H r v m = Inr m' \<and>
      ctl m' = ctl m \<and> cnt m' = cnt m \<and> running m' = running m"
    and read_unit: "p \<in> units \<Longrightarrow> unitControl p = Some u \<Longrightarrow> x = UNC_PMON_UNIT_CTL_FRZ_EN \<or> x = UNC_PMON_UNIT_CTL_RSV \<Longrightarrow>
      hw_write H u (ucast x) m = Inr m' \<Longrightarrow> \<exists>w. hw_read H u m' = (w, m') \<and>
      (ucast (x AND UNC_PMON_UNIT_CTL_VALID_BITS_MASK) = w AND ucast UNC_PMON_UNIT_CTL_VALID_BITS_MASK \<longleftrightarrow> answers u)"
    and has_unit: "p \<in> units \<Longrightarrow> unitControl p \<noteq> None"
    and distinct_controls: "p \<in> units \<Longrightarrow> distinct (filter (\<lambda>c. c \<noteq> None) (counterControl p))"
    and separate: "p \<in> units \<Longrightarrow> q \<in> units \<Longrightarrow> p \<noteq> q \<Longrightarrow> unitControl p \<noteq> unitControl q \<and>
      regs_of (counterControl p) \<inter> regs_of (counterControl q) = {} \<and> regs_of (counterValue p) \<inter> regs_of (counterValue q) = {}"
begin

text \<open>Nothing about unit \<open>p\<close> differs.\<close>

definition same_unit :: "'r UncorePMU \<Rightarrow> 'm \<Rightarrow> 'm \<Rightarrow> bool" where
  "same_unit p m m' \<longleftrightarrow> (\<forall>r \<in> regs_of (counterControl p). ctl m' r = ctl m r) \<and> (\<forall>r \<in> regs_of (counterValue p). cnt m' r = cnt m r) \<and>
     running m' (the (unitControl p)) = running m (the (unitControl p))"

definition only :: "'r UncorePMU set \<Rightarrow> 'm \<Rightarrow> 'm \<Rightarrow> bool" where
  "only ps m m' \<longleftrightarrow> (\<forall>q \<in> units - ps. same_unit q m m')"

lemma same_unit_refl [simp]: "same_unit p m m"
  by (simp add: same_unit_def)

lemma same_unit_trans: "same_unit p a b \<Longrightarrow> same_unit p b c \<Longrightarrow> same_unit p a c"
  by (simp add: same_unit_def)

lemma only_refl [simp]: "only ps m m"
  by (simp add: only_def)

lemma only_trans: "only ps a b \<Longrightarrow> only ps b c \<Longrightarrow> only ps a c"
  unfolding only_def using same_unit_trans by blast

lemma only_mono: "only ps a b \<Longrightarrow> ps \<subseteq> qs \<Longrightarrow> only qs a b"
  by (auto simp: only_def)

text \<open>Steps: what writing the unit control register does to the unit and to the others.\<close>

lemma write_unit_step:
  assumes "p \<in> units" and "unitControl p = Some u"
  obtains m' where "hw_write H u v m = Inr m'" and "only {p} m m'" and "running m' u = (\<not> freezes model v)"
    and "\<And>r. r \<in> regs_of (counterControl p) \<Longrightarrow> ctl m' r = (if resets_controls model v then 0 else ctl m r)"
    and "\<And>r. r \<in> regs_of (counterValue p) \<Longrightarrow> cnt m' r = (if resets_counters model v then 0 else cnt m r)"
proof -
  obtain m' where m': "hw_write H u v m = Inr m'"
      "ctl m' = (\<lambda>r. if resets_controls model v \<and> r \<in> regs_of (counterControl p) then 0 else ctl m r)"
      "cnt m' = (\<lambda>r. if resets_counters model v \<and> r \<in> regs_of (counterValue p) then 0 else cnt m r)"
      "running m' = (running m)(u := \<not> freezes model v)"
    using write_unit [OF assms] by blast
  have "same_unit q m m'" if "q \<in> units" "q \<noteq> p" for q
  proof -
    have "unitControl q \<noteq> Some u" "regs_of (counterControl p) \<inter> regs_of (counterControl q) = {}"
      "regs_of (counterValue p) \<inter> regs_of (counterValue q) = {}" using separate [OF assms(1) that(1)] that(2) assms(2) by auto
    moreover have "unitControl q \<noteq> None" by (rule has_unit [OF that(1)])
    ultimately show ?thesis unfolding same_unit_def by (auto simp: m')
  qed
  then have "only {p} m m'" by (auto simp: only_def)
  with m' that [of m'] show thesis by simp
qed

lemma write_control_step:
  assumes "p \<in> units" and "r \<in> regs_of (counterControl p)"
  obtains m' where "hw_write H r v m = Inr m'" and "only {p} m m'" and "ctl m' = (ctl m)(r := v AND impl r)"
    and "cnt m' = cnt m" and "running m' = running m"
proof -
  obtain m' where m': "hw_write H r v m = Inr m'" "ctl m' = (ctl m)(r := v AND impl r)" "cnt m' = cnt m" "running m' = running m"
    using write_control [OF assms] by blast
  have "same_unit q m m'" if "q \<in> units" "q \<noteq> p" for q
    using separate [OF assms(1) that(1)] that(2) assms(2) unfolding same_unit_def by (auto simp: m')
  then have "only {p} m m'" by (auto simp: only_def)
  with m' that show thesis by blast
qed

end

lemma unit_values:
  assumes "extra = UNC_PMON_UNIT_CTL_FRZ_EN \<or> extra = UNC_PMON_UNIT_CTL_RSV"
  shows "\<not> new_units model \<Longrightarrow> \<not> freezes model (ucast extra) \<and> \<not> resets_controls model (ucast extra) \<and> \<not> resets_counters model (ucast extra)"
    and "\<not> new_units model \<Longrightarrow> freezes model (ucast (extra + UNC_PMON_UNIT_CTL_FRZ)) \<and>
      \<not> resets_controls model (ucast (extra + UNC_PMON_UNIT_CTL_FRZ)) \<and> \<not> resets_counters model (ucast (extra + UNC_PMON_UNIT_CTL_FRZ))"
    and "\<not> new_units model \<Longrightarrow> freezes model (ucast (extra + UNC_PMON_UNIT_CTL_FRZ + UNC_PMON_UNIT_CTL_RST_COUNTERS)) \<and>
      \<not> resets_controls model (ucast (extra + UNC_PMON_UNIT_CTL_FRZ + UNC_PMON_UNIT_CTL_RST_COUNTERS)) \<and>
      resets_counters model (ucast (extra + UNC_PMON_UNIT_CTL_FRZ + UNC_PMON_UNIT_CTL_RST_COUNTERS))"
    and "new_units model \<Longrightarrow> \<not> freezes model 0 \<and> \<not> resets_controls model 0 \<and> \<not> resets_counters model 0"
    and "new_units model \<Longrightarrow> freezes model (ucast SPR_UNC_PMON_UNIT_CTL_FRZ) \<and>
      \<not> resets_controls model (ucast SPR_UNC_PMON_UNIT_CTL_FRZ) \<and> \<not> resets_counters model (ucast SPR_UNC_PMON_UNIT_CTL_FRZ)"
    and "new_units model \<Longrightarrow> freezes model (ucast (SPR_UNC_PMON_UNIT_CTL_FRZ + SPR_UNC_PMON_UNIT_CTL_RST_COUNTERS)) \<and>
      \<not> resets_controls model (ucast (SPR_UNC_PMON_UNIT_CTL_FRZ + SPR_UNC_PMON_UNIT_CTL_RST_COUNTERS)) \<and>
      resets_counters model (ucast (SPR_UNC_PMON_UNIT_CTL_FRZ + SPR_UNC_PMON_UNIT_CTL_RST_COUNTERS))"
  using assms by (auto simp: freezes_def resets_controls_def resets_counters_def unit_ctl_bits bit_ucast_iff)

context pmon_units
begin

abbreviation extra_ok :: "u32 \<Rightarrow> bool" where
  "extra_ok extra \<equiv> extra = UNC_PMON_UNIT_CTL_FRZ_EN \<or> extra = UNC_PMON_UNIT_CTL_RSV"

lemma freeze_step:
  assumes "p \<in> units" and "extra_ok extra"
  obtains m' where "freeze H model extra p m = Inr m'" and "only {p} m m'" and "\<not> running m' (the (unitControl p))"
    and "\<And>r. r \<in> regs_of (counterControl p) \<Longrightarrow> ctl m' r = ctl m r" and "\<And>r. r \<in> regs_of (counterValue p) \<Longrightarrow> cnt m' r = cnt m r"
proof -
  obtain u where u: "unitControl p = Some u" using has_unit [OF assms(1)] by blast
  let ?v = "if new_units model then ucast SPR_UNC_PMON_UNIT_CTL_FRZ else ucast (extra + UNC_PMON_UNIT_CTL_FRZ) :: u64"
  obtain m' where m': "hw_write H u ?v m = Inr m'" "only {p} m m'" "running m' u = (\<not> freezes model ?v)"
    "\<And>r. r \<in> regs_of (counterControl p) \<Longrightarrow> ctl m' r = (if resets_controls model ?v then 0 else ctl m r)"
    "\<And>r. r \<in> regs_of (counterValue p) \<Longrightarrow> cnt m' r = (if resets_counters model ?v then 0 else cnt m r)"
    by (rule write_unit_step [OF assms(1) u]) blast
  moreover have "freezes model ?v" "\<not> resets_controls model ?v" "\<not> resets_counters model ?v"
    using unit_values(2,5) [OF assms(2)] by auto
  moreover have "freeze H model extra p m = Inr m'" using m'(1) u by (cases "new_units model") (simp_all add: freeze_def assign_def)
  ultimately show thesis using that [of m'] u by auto
qed

lemma unfreeze_step:
  assumes "p \<in> units" and "extra_ok extra"
  obtains m' where "unfreeze H model extra p m = Inr m'" and "only {p} m m'" and "running m' (the (unitControl p))"
    and "\<And>r. r \<in> regs_of (counterControl p) \<Longrightarrow> ctl m' r = ctl m r" and "\<And>r. r \<in> regs_of (counterValue p) \<Longrightarrow> cnt m' r = cnt m r"
proof -
  obtain u where u: "unitControl p = Some u" using has_unit [OF assms(1)] by blast
  let ?v = "if new_units model then 0 else ucast extra :: u64"
  obtain m' where m': "hw_write H u ?v m = Inr m'" "only {p} m m'" "running m' u = (\<not> freezes model ?v)"
    "\<And>r. r \<in> regs_of (counterControl p) \<Longrightarrow> ctl m' r = (if resets_controls model ?v then 0 else ctl m r)"
    "\<And>r. r \<in> regs_of (counterValue p) \<Longrightarrow> cnt m' r = (if resets_counters model ?v then 0 else cnt m r)"
    by (rule write_unit_step [OF assms(1) u]) blast
  moreover have "\<not> freezes model ?v" "\<not> resets_controls model ?v" "\<not> resets_counters model ?v"
    using unit_values(1,4) [OF assms(2)] by auto
  moreover have "unfreeze H model extra p m = Inr m'" using m'(1) u by (cases "new_units model") (simp_all add: unfreeze_def assign_def)
  ultimately show thesis using that [of m'] u by auto
qed

lemma resetUnfreeze_step:
  assumes "p \<in> units" and "extra_ok extra"
  obtains m' where "resetUnfreeze H model extra p m = Inr m'" and "only {p} m m'" and "running m' (the (unitControl p))"
    and "\<And>r. r \<in> regs_of (counterControl p) \<Longrightarrow> ctl m' r = ctl m r" and "\<And>r. r \<in> regs_of (counterValue p) \<Longrightarrow> cnt m' r = 0"
proof -
  obtain u where u: "unitControl p = Some u" using has_unit [OF assms(1)] by blast
  let ?v = "if new_units model then ucast (SPR_UNC_PMON_UNIT_CTL_FRZ + SPR_UNC_PMON_UNIT_CTL_RST_COUNTERS)
    else ucast (extra + UNC_PMON_UNIT_CTL_FRZ + UNC_PMON_UNIT_CTL_RST_COUNTERS) :: u64"
  let ?w = "if new_units model then 0 else ucast extra :: u64"
  obtain m1 where m1: "hw_write H u ?v m = Inr m1" "only {p} m m1"
    "\<And>r. r \<in> regs_of (counterControl p) \<Longrightarrow> ctl m1 r = (if resets_controls model ?v then 0 else ctl m r)"
    "\<And>r. r \<in> regs_of (counterValue p) \<Longrightarrow> cnt m1 r = (if resets_counters model ?v then 0 else cnt m r)"
    by (rule write_unit_step [OF assms(1) u]) blast
  obtain m' where m': "hw_write H u ?w m1 = Inr m'" "only {p} m1 m'" "running m' u = (\<not> freezes model ?w)"
    "\<And>r. r \<in> regs_of (counterControl p) \<Longrightarrow> ctl m' r = (if resets_controls model ?w then 0 else ctl m1 r)"
    "\<And>r. r \<in> regs_of (counterValue p) \<Longrightarrow> cnt m' r = (if resets_counters model ?w then 0 else cnt m1 r)"
    by (rule write_unit_step [OF assms(1) u]) blast
  have "\<not> resets_controls model ?v" "resets_counters model ?v" "\<not> freezes model ?w" "\<not> resets_controls model ?w" "\<not> resets_counters model ?w"
    using unit_values [OF assms(2)] by auto
  moreover have "resetUnfreeze H model extra p m = Inr m'"
    using m1(1) m'(1) u by (cases "new_units model") (simp_all add: resetUnfreeze_def assign_def)
  ultimately show thesis using that [of m'] m1 m' u only_trans [OF m1(2) m'(2)] by auto
qed

lemma initFreeze_step:
  assumes "p \<in> units" and "extra_ok extra"
  obtains m' where "initFreeze H model extra False p m = Inr (True, p, m')" and "only {p} m m'"
proof -
  obtain u where u: "unitControl p = Some u" using has_unit [OF assms(1)] by blast
  let ?v = "if new_units model then ucast SPR_UNC_PMON_UNIT_CTL_FRZ else ucast extra :: u64"
  let ?w = "if new_units model then ucast (SPR_UNC_PMON_UNIT_CTL_FRZ + SPR_UNC_PMON_UNIT_CTL_RST_CONTROL)
    else ucast (extra + UNC_PMON_UNIT_CTL_FRZ) :: u64"
  obtain m1 where m1: "hw_write H u ?v m = Inr m1" "only {p} m m1" by (rule write_unit_step [OF assms(1) u]) blast
  obtain m' where m': "hw_write H u ?w m1 = Inr m'" "only {p} m1 m'" by (rule write_unit_step [OF assms(1) u]) blast
  have "initFreeze H model extra False p m = Inr (True, p, m')"
    using m1(1) m'(1) u by (cases "new_units model") (simp_all add: initFreeze_def)
  then show thesis using that only_trans [OF m1(2) m'(2)] by blast
qed

text \<open>With the check for links: a link that does not answer is taken out, unless the unit has the newer layout.\<close>

lemma initFreeze_check_step:
  assumes "p \<in> units" and "extra_ok extra"
  obtains m' where "initFreeze H model extra True p m =
      (if new_units model \<or> answers (the (unitControl p)) then Inr (True, p, m') else Inr (False, p\<lparr>unitControl := None\<rparr>, m'))"
    and "only {p} m m'"
proof (cases "new_units model")
  case True
  obtain m' where m': "initFreeze H model extra False p m = Inr (True, p, m')" "only {p} m m'" by (rule initFreeze_step [OF assms]) blast
  obtain u where u: "unitControl p = Some u" using has_unit [OF assms(1)] by blast
  have "initFreeze H model extra True p m = Inr (True, p, m')" using m'(1) True u by (simp add: initFreeze_def)
  with True m'(2) that show thesis by simp
next
  case False
  obtain u where u: "unitControl p = Some u" using has_unit [OF assms(1)] by blast
  obtain m1 where m1: "hw_write H u (ucast extra) m = Inr m1" "only {p} m m1" by (rule write_unit_step [OF assms(1) u]) blast
  obtain w where w: "hw_read H u m1 = (w, m1)"
    "ucast (extra AND UNC_PMON_UNIT_CTL_VALID_BITS_MASK) = w AND ucast UNC_PMON_UNIT_CTL_VALID_BITS_MASK \<longleftrightarrow> answers u"
    using read_unit [OF assms(1) u assms(2) m1(1)] by blast
  obtain m' where m': "hw_write H u (ucast (extra + UNC_PMON_UNIT_CTL_FRZ)) m1 = Inr m'" "only {p} m1 m'"
    by (rule write_unit_step [OF assms(1) u]) blast
  show thesis
  proof (cases "answers u")
    case True
    then have "initFreeze H model extra True p m = Inr (True, p, m')"
      using False u m1(1) w m'(1) by (simp add: initFreeze_def)
    with True u that only_trans [OF m1(2) m'(2)] show thesis by simp
  next
    case no: False
    then have "initFreeze H model extra True p m = Inr (False, p\<lparr>unitControl := None\<rparr>, m1)"
      using False u m1(1) w by (simp add: initFreeze_def)
    with no False u that m1(2) show thesis by simp
  qed
qed

lemma fixed_step:
  assumes "p \<in> units" and "fixedCounterControl p = Some r"
  obtains m' where "assign H (fixedCounterControl p) v m = Inr m'" and "only {p} m m'"
proof -
  obtain m' where m': "hw_write H r v m = Inr m'" "ctl m' = ctl m" "cnt m' = cnt m" "running m' = running m"
    using write_fixed [OF assms] by blast
  then have "only {p} m m'" by (simp add: only_def same_unit_def)
  with m'(1) assms(2) that show thesis by (simp add: assign_def)
qed


lemma program_control_step:
  assumes "p \<in> units" and "r \<in> regs_of (counterControl p)"
  obtains m' where "program_counter_control H model (Some r, e) m = Inr m'" and "only {p} m m'"
    and "\<And>x. ctl m' x = (if x = r then control_word model e AND impl r else ctl m x)" and "cnt m' = cnt m" and "running m' = running m"
proof (cases "new_units model")
  case True
  obtain m' where "hw_write H r e m = Inr m'" "only {p} m m'" "ctl m' = (ctl m)(r := e AND impl r)" "cnt m' = cnt m" "running m' = running m"
    by (rule write_control_step [OF assms]) blast
  with True that show thesis by (auto simp: program_counter_control_def control_word_def)
next
  case False
  obtain m1 where m1: "hw_write H r (ucast MC_CH_PCI_PMON_CTL_EN) m = Inr m1" "only {p} m m1"
    "ctl m1 = (ctl m)(r := ucast MC_CH_PCI_PMON_CTL_EN AND impl r)" "cnt m1 = cnt m" "running m1 = running m"
    by (rule write_control_step [OF assms]) blast
  obtain m' where m': "hw_write H r (ucast MC_CH_PCI_PMON_CTL_EN OR e) m1 = Inr m'" "only {p} m1 m'"
    "ctl m' = (ctl m1)(r := (ucast MC_CH_PCI_PMON_CTL_EN OR e) AND impl r)" "cnt m' = cnt m1" "running m' = running m1"
    by (rule write_control_step [OF assms]) blast
  show thesis
    by (rule that [of m'], insert False m1 m' only_trans [OF m1(2) m'(2)]) (simp_all add: program_counter_control_def control_word_def)
qed

definition controls_set :: "'r option list \<Rightarrow> u64 list \<Rightarrow> 'm \<Rightarrow> bool" where
  "controls_set cs es m \<longleftrightarrow> (\<forall>(c, e) \<in> set (zip cs es). \<forall>r. c = Some r \<longrightarrow> ctl m r = control_word model e AND impl r)"

lemma program_controls_step:
  assumes "p \<in> units" and "regs_of cs \<subseteq> regs_of (counterControl p)" and "distinct (filter (\<lambda>c. c \<noteq> None) cs)"
  shows "\<exists>m'. rfold (program_counter_control H model) (zip cs es) m = Inr m' \<and> only {p} m m' \<and> cnt m' = cnt m \<and> running m' = running m \<and>
    (\<forall>x. x \<notin> regs_of cs \<longrightarrow> ctl m' x = ctl m x) \<and> controls_set cs es m'"
  using assms(2,3)
proof (induction cs arbitrary: es m)
  case (Cons c cs)
  show ?case
  proof (cases es)
    case (Cons e es')
    note es = this
    show ?thesis
    proof (cases c)
    case None
    then show ?thesis using Cons.IH [of es' m] Cons.prems es by (simp add: regs_of_def controls_set_def program_counter_control_def)
    next
    case c: (Some r)
    have a: "regs_of cs \<subseteq> regs_of (counterControl p)" using Cons.prems(1) by (auto simp: regs_of_def)
    have b: "distinct (filter (\<lambda>c. c \<noteq> None) cs)" using Cons.prems(2) c by simp
    have r: "r \<in> regs_of (counterControl p)" using Cons.prems(1) c by (auto simp: regs_of_def)
    obtain m1 where m1: "program_counter_control H model (Some r, e) m = Inr m1" "only {p} m m1"
      "\<And>x. ctl m1 x = (if x = r then control_word model e AND impl r else ctl m x)" "cnt m1 = cnt m" "running m1 = running m"
      by (rule program_control_step [OF assms(1) r]) blast
    obtain m' where m': "rfold (program_counter_control H model) (zip cs es') m1 = Inr m'" "only {p} m1 m'" "cnt m' = cnt m1"
      "running m' = running m1" "\<forall>x. x \<notin> regs_of cs \<longrightarrow> ctl m' x = ctl m1 x" "controls_set cs es' m'"
      using Cons.IH [OF a b, of es' m1] by blast
    have "r \<notin> regs_of cs" using Cons.prems(2) c by (simp add: regs_of_def)
    then have "ctl m' r = control_word model e AND impl r" using m1(3) m'(5) by simp
    then have "controls_set (c # cs) es m'" using m'(6) c es by (simp add: controls_set_def)
    moreover have "\<forall>x. x \<notin> regs_of (c # cs) \<longrightarrow> ctl m' x = ctl m x" using m'(5) m1(3) c by (simp add: regs_of_def)
    ultimately show ?thesis using m1 m' c es only_trans [OF m1(2) m'(2)] by auto
    qed
  qed (simp add: controls_set_def)
qed (simp add: controls_set_def)

text \<open>A unit that counts the given events from zero.\<close>

definition programmed :: "'r UncorePMU \<Rightarrow> u64 list \<Rightarrow> 'm \<Rightarrow> bool" where
  "programmed p es m \<longleftrightarrow>
     controls_set (counterControl p) es m \<and> (\<forall>r \<in> regs_of (counterValue p). cnt m r = 0) \<and> running m (the (unitControl p))"

lemma controls_set_cong:
  assumes "p \<in> units" and "\<And>r. r \<in> regs_of (counterControl p) \<Longrightarrow> ctl m' r = ctl m r" and "controls_set (counterControl p) es m"
  shows "controls_set (counterControl p) es m'"
  unfolding controls_set_def
proof clarify
  fix r e assume z: "(Some r, e) \<in> set (zip (counterControl p) es)"
  then have "r \<in> regs_of (counterControl p)" by (auto simp: regs_of_def dest: set_zip_leftD)
  then show "ctl m' r = control_word model e AND impl r" using assms(2,3) z by (auto simp: controls_set_def)
qed

lemma programmed_same: "same_unit p m m' \<Longrightarrow> p \<in> units \<Longrightarrow> programmed p es m \<Longrightarrow> programmed p es m'"
  using controls_set_cong [of p m' m es] by (simp add: programmed_def same_unit_def)

lemma program_pmu_step:
  assumes "p \<in> units" and "extra_ok extra"
  obtains m' where "program_pmu H model p (Some es) extra m = Inr m'" and "only {p} m m'" and "programmed p es m'"
proof -
  obtain m1 where m1: "rfold (program_counter_control H model) (zip (counterControl p) es) m = Inr m1" "only {p} m m1"
    "controls_set (counterControl p) es m1"
    using program_controls_step [OF assms(1) order_refl, of es m] distinct_controls [OF assms(1)] by blast
  obtain m' where m': "resetUnfreeze H model extra p m1 = Inr m'" "only {p} m1 m'" "running m' (the (unitControl p))"
    "\<And>r. r \<in> regs_of (counterControl p) \<Longrightarrow> ctl m' r = ctl m1 r" "\<And>r. r \<in> regs_of (counterValue p) \<Longrightarrow> cnt m' r = 0"
    by (rule resetUnfreeze_step [OF assms]) blast
  have "controls_set (counterControl p) es m'"
    by (rule controls_set_cong [OF assms(1) m'(4) m1(3)])
  then have "programmed p es m'" using m'(3,5) by (simp add: programmed_def)
  moreover have "extra \<noteq> 0" using assms(2) by (auto simp: unit_ctl_bits)
  ultimately show thesis using that only_trans [OF m1(2) m'(2)] m1(1) m'(1) by (simp add: program_pmu_def)
qed

lemma init_and_program_step:
  assumes "p \<in> units" and "extra_ok extra"
  obtains m' where "init_and_program H model extra es p m = Inr m'" and "only {p} m m'" and "programmed p es m'"
proof -
  obtain m1 where m1: "initFreeze H model extra False p m = Inr (True, p, m1)" "only {p} m m1" by (rule initFreeze_step [OF assms]) blast
  obtain m' where m': "program_pmu H model p (Some es) extra m1 = Inr m'" "only {p} m1 m'" "programmed p es m'"
    by (rule program_pmu_step [OF assms]) blast
  show thesis using that [of m'] m1 m' only_trans [OF m1(2) m'(2)] by (simp add: init_and_program_def)
qed

lemma fixed_counter_step:
  assumes "p \<in> units" and "fixedCounterControl p \<noteq> None"
  obtains m' where "enableAndResetMCFixedCounter H p m = Inr m'" and "only {p} m m'"
proof -
  obtain r where r: "fixedCounterControl p = Some r" using assms(2) by blast
  obtain m1 where m1: "assign H (fixedCounterControl p) (ucast MC_CH_PCI_PMON_FIXED_CTL_EN) m = Inr m1" "only {p} m m1"
    by (rule fixed_step [OF assms(1) r]) blast
  obtain m' where m': "assign H (fixedCounterControl p) (ucast (MC_CH_PCI_PMON_FIXED_CTL_EN + MC_CH_PCI_PMON_FIXED_CTL_RST)) m1 = Inr m'"
    "only {p} m1 m'" by (rule fixed_step [OF assms(1) r]) blast
  show thesis using that [of m'] m1 m' only_trans [OF m1(2) m'(2)] by (simp add: enableAndResetMCFixedCounter_def)
qed

lemma programIMC_unit_step:
  assumes "p \<in> units" and "fixedCounterControl p \<noteq> None"
  obtains m' where "programIMC_unit H model cfg p m = Inr m'" and "only {p} m m'" and "programmed p (map ucast cfg) m'"
proof -
  let ?extra = "if model = SKX then UNC_PMON_UNIT_CTL_RSV else UNC_PMON_UNIT_CTL_FRZ_EN"
  have e: "extra_ok ?extra" by simp
  obtain m1 where m1: "initFreeze H model ?extra False p m = Inr (True, p, m1)" "only {p} m m1" by (rule initFreeze_step [OF assms(1) e]) blast
  obtain m2 where m2: "enableAndResetMCFixedCounter H p m1 = Inr m2" "only {p} m1 m2" by (rule fixed_counter_step [OF assms]) blast
  obtain m' where m': "program_pmu H model p (Some (map ucast cfg)) ?extra m2 = Inr m'" "only {p} m2 m'" "programmed p (map ucast cfg) m'"
    by (rule program_pmu_step [OF assms(1) e]) blast
  show thesis using that [of m'] m1 m2 m' only_trans [OF only_trans [OF m1(2) m2(2)] m'(2)] by (simp add: programIMC_unit_def Let_def)
qed

lemma programEDC_unit_step:
  assumes "p \<in> units" and "fixedCounterControl p \<noteq> None"
  obtains m' where "programEDC_unit H model cfg p m = Inr m'" and "only {p} m m'" and "programmed p (map ucast cfg) m'"
proof -
  have e: "extra_ok UNC_PMON_UNIT_CTL_FRZ_EN" by simp
  obtain r where r: "fixedCounterControl p = Some r" using assms(2) by blast
  obtain m1 where m1: "initFreeze H model UNC_PMON_UNIT_CTL_FRZ_EN False p m = Inr (True, p, m1)" "only {p} m m1"
    by (rule initFreeze_step [OF assms(1) e]) blast
  obtain m2 where m2: "(if model = KNL then assign H (fixedCounterControl p) (ucast EDC_CH_PCI_PMON_FIXED_CTL_EN) m1
      else enableAndResetMCFixedCounter H p m1) = Inr m2" "only {p} m1 m2"
    by (cases "model = KNL", (rule fixed_step [OF assms(1) r, of "ucast EDC_CH_PCI_PMON_FIXED_CTL_EN" m1]; auto),
        (rule fixed_counter_step [OF assms, of m1]; auto))
  obtain m' where m': "program_pmu H model p (Some (map ucast cfg)) UNC_PMON_UNIT_CTL_FRZ_EN m2 = Inr m'" "only {p} m2 m'"
    "programmed p (map ucast cfg) m'" by (rule program_pmu_step [OF assms(1) e]) blast
  show thesis using that [of m'] m1 m2 m' only_trans [OF only_trans [OF m1(2) m2(2)] m'(2)] by (simp add: programEDC_unit_def)
qed


text \<open>Steps that treat one unit each treat a list of units.\<close>

lemma units_step:
  assumes "\<And>p m. p \<in> set ps \<Longrightarrow> \<exists>m'. f p m = Inr m' \<and> only {p} m m' \<and> Q p m m'" and "distinct ps" and "set ps \<subseteq> units"
    and "\<And>p a b c. p \<in> units \<Longrightarrow> same_unit p b c \<Longrightarrow> Q p a b \<Longrightarrow> Q p a c"
    and "\<And>p a b c. p \<in> units \<Longrightarrow> same_unit p a b \<Longrightarrow> Q p b c \<Longrightarrow> Q p a c"
  shows "\<exists>m'. rfold f ps m = Inr m' \<and> only (set ps) m m' \<and> (\<forall>p \<in> set ps. Q p m m')"
  using assms(1-3)
proof (induction ps arbitrary: m)
  case (Cons p ps)
  obtain m1 where m1: "f p m = Inr m1" "only {p} m m1" "Q p m m1" using Cons.prems(1) [of p m] by auto
  obtain m' where m': "rfold f ps m1 = Inr m'" "only (set ps) m1 m'" "\<forall>q \<in> set ps. Q q m1 m'"
    using Cons.IH [of m1] Cons.prems by auto
  have "same_unit p m1 m'" using m'(2) Cons.prems(2,3) by (auto simp: only_def)
  then have "Q p m m'" using assms(4) m1(3) Cons.prems(3) by auto
  moreover have "Q q m m'" if "q \<in> set ps" for q
  proof -
    have "same_unit q m m1" using m1(2) Cons.prems(2,3) that by (auto simp: only_def)
    then show ?thesis using assms(5) m'(3) that Cons.prems(3) by auto
  qed
  moreover have "only (set (p # ps)) m m'"
    by (rule only_trans [OF only_mono [OF m1(2)] only_mono [OF m'(2)]]) auto
  ultimately show ?case using m1 m' by auto
qed simp

lemma programIMC_step:
  assumes "su_model s = model" and "distinct (imcPMUs s)" and "set (imcPMUs s) \<subseteq> units" and "\<forall>p \<in> set (imcPMUs s). fixedCounterControl p \<noteq> None"
  shows "\<exists>m'. programIMC H cfg s m = Inr m' \<and> only (set (imcPMUs s)) m m' \<and> (\<forall>p \<in> set (imcPMUs s). programmed p (map ucast cfg) m')"
  unfolding programIMC_def assms(1)
proof (rule units_step [where Q = "\<lambda>p _. programmed p (map ucast cfg)", OF _ assms(2,3) programmed_same])
  fix p m assume "p \<in> set (imcPMUs s)"
  then show "\<exists>m'. programIMC_unit H model cfg p m = Inr m' \<and> only {p} m m' \<and> programmed p (map ucast cfg) m'"
    using programIMC_unit_step [of p cfg m] assms(3,4) by (metis subsetD)
qed

lemma programEDC_step:
  assumes "su_model s = model" and "distinct (edcPMUs s)" and "set (edcPMUs s) \<subseteq> units" and "\<forall>p \<in> set (edcPMUs s). fixedCounterControl p \<noteq> None"
  shows "\<exists>m'. programEDC H cfg s m = Inr m' \<and> only (set (edcPMUs s)) m m' \<and> (\<forall>p \<in> set (edcPMUs s). programmed p (map ucast cfg) m')"
  unfolding programEDC_def assms(1)
proof (rule units_step [where Q = "\<lambda>p _. programmed p (map ucast cfg)", OF _ assms(2,3) programmed_same])
  fix p m assume "p \<in> set (edcPMUs s)"
  then show "\<exists>m'. programEDC_unit H model cfg p m = Inr m' \<and> only {p} m m' \<and> programmed p (map ucast cfg) m'"
    using programEDC_unit_step [of p cfg m] assms(3,4) by (metis subsetD)
qed

lemma init_and_program_units:
  assumes "distinct ps" and "set ps \<subseteq> units" and "extra_ok extra"
  shows "\<exists>m'. rfold (init_and_program H model extra es) ps m = Inr m' \<and> only (set ps) m m' \<and> (\<forall>p \<in> set ps. programmed p es m')"
proof (rule units_step [where Q = "\<lambda>p _. programmed p es", OF _ assms(1,2) programmed_same])
  fix p m assume "p \<in> set ps"
  then show "\<exists>m'. init_and_program H model extra es p m = Inr m' \<and> only {p} m m' \<and> programmed p es m'"
    using init_and_program_step [of p extra es m] assms(2,3) by (metis subsetD)
qed

text \<open>Links\<close>

definition works :: "'r UncorePMU \<Rightarrow> bool" where
  "works p \<longleftrightarrow> new_units model \<or> answers (the (unitControl p))"

lemma programXPI_unit_step:
  assumes "p \<in> units" and "extra_ok extra"
  obtains m' where "programXPI_unit H model extra event p m = Inr (if works p then p else p\<lparr>unitControl := None\<rparr>, m')" and "only {p} m m'"
    and "works p \<Longrightarrow> programmed p (map ucast event) m'"
proof -
  obtain m1 where m1: "initFreeze H model extra True p m =
      (if works p then Inr (True, p, m1) else Inr (False, p\<lparr>unitControl := None\<rparr>, m1))" "only {p} m m1"
    using initFreeze_check_step [OF assms, of m] unfolding works_def by metis
  obtain m' where m': "program_pmu H model p (Some (map ucast event)) extra m1 = Inr m'" "only {p} m1 m'" "programmed p (map ucast event) m'"
    by (rule program_pmu_step [OF assms]) blast
  show thesis
    by (cases "works p") (use that [of m'] that [of m1] m1 m' only_trans [OF m1(2) m'(2)] in \<open>simp_all add: programXPI_unit_def\<close>)
qed

lemma programXPI_units_step:
  assumes "distinct ps" and "set ps \<subseteq> units" and "extra_ok extra"
  shows "\<exists>m'. programXPI_units H model extra event ps m = Inr (map (\<lambda>p. if works p then p else p\<lparr>unitControl := None\<rparr>) ps, m') \<and>
    only (set ps) m m' \<and> (\<forall>p \<in> set ps. works p \<longrightarrow> programmed p (map ucast event) m')"
  using assms(1,2)
proof (induction ps arbitrary: m)
  case (Cons p ps)
  have p: "p \<in> units" using Cons.prems by simp
  obtain m1 where m1: "programXPI_unit H model extra event p m = Inr (if works p then p else p\<lparr>unitControl := None\<rparr>, m1)" "only {p} m m1"
    "works p \<Longrightarrow> programmed p (map ucast event) m1" by (rule programXPI_unit_step [OF p assms(3)]) blast
  obtain m' where m': "programXPI_units H model extra event ps m1 = Inr (map (\<lambda>p. if works p then p else p\<lparr>unitControl := None\<rparr>) ps, m')"
    "only (set ps) m1 m'" "\<forall>q \<in> set ps. works q \<longrightarrow> programmed q (map ucast event) m'"
    using Cons.IH [of m1] Cons.prems by auto
  have "same_unit p m1 m'" using m'(2) Cons.prems by (auto simp: only_def)
  then have "works p \<longrightarrow> programmed p (map ucast event) m'" using programmed_same p m1(3) by blast
  moreover have "only (set (p # ps)) m m'" by (rule only_trans [OF only_mono [OF m1(2)] only_mono [OF m'(2)]]) auto
  ultimately show ?case using m1 m' by (auto simp: o_def)
qed simp

end

lemma cleanupQPIHandles_loop_None: "cleanupQPIHandles_loop ps = None \<longleftrightarrow> (\<forall>p \<in> set ps. valid p)"
  by (induction ps) auto

lemma cleanupQPIHandles_loop_Some: "cleanupQPIHandles_loop ps = Some qs \<Longrightarrow> filter valid qs = filter valid ps"
  by (induction ps arbitrary: qs) (auto split: if_splits)

lemma cleanupQPIHandles_filter: "cleanupQPIHandles ps = filter valid ps"
proof (induction ps rule: cleanupQPIHandles.induct)
  case (1 ps)
  show ?case
  proof (cases "cleanupQPIHandles_loop ps")
    case None
    then have "filter valid ps = ps" by (simp add: cleanupQPIHandles_loop_None)
    with None show ?thesis by (simp add: cleanupQPIHandles.simps [of ps])
  next
    case (Some qs)
    then show ?thesis using 1 by (simp add: cleanupQPIHandles.simps [of ps] cleanupQPIHandles_loop_Some)
  qed
qed

context pmon_units
begin

lemma valid_links:
  assumes "set ps \<subseteq> units"
  shows "filter valid (map (\<lambda>p. if works p then p else p\<lparr>unitControl := None\<rparr>) ps) = filter works ps"
  using assms by (induction ps) (auto simp: valid_def dest: has_unit)

lemma programXPI_step:
  assumes "su_model s = model" and "distinct (xpiPMUs s)" and "set (xpiPMUs s) \<subseteq> units"
  shows "\<exists>m'. programXPI H event s m = Inr (s\<lparr>xpiPMUs := filter works (xpiPMUs s)\<rparr>, m') \<and> only (set (xpiPMUs s)) m m' \<and>
    (\<forall>p \<in> set (xpiPMUs s). works p \<longrightarrow> programmed p (map ucast event) m')"
proof -
  let ?extra = "if hasUPI model then UNC_PMON_UNIT_CTL_RSV else UNC_PMON_UNIT_CTL_FRZ_EN"
  have "extra_ok ?extra" by simp
  from programXPI_units_step [OF assms(2,3) this, of event m] valid_links [OF assms(3)] show ?thesis
    unfolding programXPI_def assms(1) by (auto simp: cleanupQPIHandles_filter Let_def)
qed

end

end
