(* ===== verification/Memory_Traffic.thy ===== *)
theory Memory_Traffic
  imports Uncore_Counting Counter_State
begin

text \<open>
  Reading the memory units of a socket (\<^verbatim>\<open>readAndAggregateUncoreMCCounters\<close>, cpucounters.cpp) and what the readings mean: sessions in which
  events happen between readings, and the locale \<open>counter_units\<close> interpreted on memory channels behind the PCI registers of the code.
\<close>

section \<open>Reading the units of a socket\<close>

text \<open>The part of \<^verbatim>\<open>readAndAggregateUncoreMCCounters\<close> between freezing and unfreezing the units of a socket, as the values that
  theory Counter_State takes as a parameter; values that are not read are zero.\<close>

definition read_if :: "bool \<Rightarrow> ('m \<Rightarrow> (u64 \<times> 'm) result) \<Rightarrow> 'm \<Rightarrow> (u64 \<times> 'm) result" where
  "read_if b f m = (if b then f m else Inr (0, m))"

definition read_server_units ::
  "('r, 'm) HWRegister \<Rightarrow> uncore_source \<Rightarrow> 'r ServerUncorePMUs \<Rightarrow> 'm \<Rightarrow> (server_pmu \<times> 'm) result" where
  "read_server_units H u s m =
     (let bw = (us_serverBW u = None); ha = us_local_ratio u \<and> \<not> us_cha u; pm = us_pmm u \<and> bw
      in rbind (freezeCounters H s m)
        (\<lambda>m. rbind (read_if bw (getImcReads H s) m)
        (\<lambda>(reads, m). rbind (read_if bw (getImcWrites H s) m)
        (\<lambda>(writes, m). rbind (read_if (bw \<and> us_near_memory u) (getNMHits H s) m)
        (\<lambda>(hits, m). rbind (read_if (bw \<and> us_near_memory u) (getNMMisses H s) m)
        (\<lambda>(misses, m). rbind (read_if ha (getHARequests H s) m)
        (\<lambda>(ha_all, m). rbind (read_if ha (getHALocalRequests H s) m)
        (\<lambda>(ha_local, m). rbind (read_if pm (getPMMReads H s) m)
        (\<lambda>(pmm_reads, m). rbind (read_if pm (getPMMWrites H s) m)
        (\<lambda>(pmm_writes, m). rbind (read_if (us_hbm u) (getEdcReads H s) m)
        (\<lambda>(edc_reads, m). rbind (read_if (us_hbm u) (getEdcWrites H s) m)
        (\<lambda>(edc_writes, m). rbind (unfreezeCounters H s m)
        (\<lambda>m. Inr (\<lparr>mc_reads = reads, mc_writes = writes, mc_pmm_reads = pmm_reads, mc_pmm_writes = pmm_writes,
                  pmu_nm_hits = hits, pmu_nm_misses = misses, pmu_ha_requests = ha_all, pmu_ha_local = ha_local,
                  pmu_edc_reads = edc_reads, pmu_edc_writes = edc_writes\<rparr>, m))))))))))))))"

definition four_counters :: "'r UncorePMU \<Rightarrow> bool" where
  "four_counters p \<longleftrightarrow> length (counterValue p) = 4 \<and> None \<notin> set (counterValue p)"

definition value_reg :: "nat \<Rightarrow> 'r UncorePMU \<Rightarrow> 'r" where
  "value_reg i p = the (counterValue p ! i)"

lemma value_reg_in: "four_counters p \<Longrightarrow> i < 4 \<Longrightarrow> counterValue p ! i = Some (value_reg i p) \<and> value_reg i p \<in> regs_of (counterValue p)"
  by (cases "counterValue p ! i") (auto simp: four_counters_def value_reg_def regs_of_def in_set_conv_nth)

text \<open>The counters of a channel that count together; newer memory controllers have two schedulers.\<close>

definition channel_reads :: "cpu_model \<Rightarrow> nat \<Rightarrow> nat \<Rightarrow> ('r \<Rightarrow> 'a::comm_monoid_add) \<Rightarrow> 'r UncorePMU \<Rightarrow> 'a" where
  "channel_reads model c c2 f p = f (value_reg c p) + (if two_schedulers model then f (value_reg c2 p) else 0)"

text \<open>A description of the units of a socket that matches the hardware.\<close>

definition sound_server :: "'r UncorePMU set \<Rightarrow> 'r ServerUncorePMUs \<Rightarrow> bool" where
  "sound_server units s \<longleftrightarrow> distinct (allPMUs s) \<and> set (allPMUs s) \<subseteq> units \<and>
     (\<forall>p \<in> set (imcPMUs s @ edcPMUs s @ m2mPMUs s @ haPMUs s). four_counters p) \<and> (\<forall>p \<in> set (imcPMUs s @ edcPMUs s). fixedCounterControl p \<noteq> None) \<and>
     length (imcPMUs s) < 2 ^ 32"

lemma sum_read_values:
  assumes "\<And>x. x \<in> set xs \<Longrightarrow> f x m = Inr (g x, m)"
  shows "sum_read f xs m = Inr (\<Sum>x \<leftarrow> xs. g x, m)"
proof -
  have "rfold (\<lambda>x (acc, m). rbind (f x m) (\<lambda>(v, m1). Inr (acc + v, m1))) xs (acc, m) = Inr (acc + (\<Sum>x \<leftarrow> xs. g x), m)" for acc
    using assms by (induction xs arbitrary: acc) (simp_all add: add.assoc)
  then show ?thesis by (simp add: sum_read_def)
qed

lemma sum_list_index: "(\<Sum>i \<leftarrow> [0..<length ps]. f (ps ! i)) = (\<Sum>p \<leftarrow> ps. f p)"
  by (rule arg_cong [where f = sum_list]) (rule nth_equalityI, simp_all)

text \<open>Units whose counter registers hold the counters themselves.\<close>

locale counter_units = pmon_units H model units ctl cnt running impl answers
  for H :: "('r, 'm) HWRegister" and model :: cpu_model and units :: "'r UncorePMU set"
    and ctl cnt :: "'m \<Rightarrow> 'r \<Rightarrow> u64" and running :: "'m \<Rightarrow> 'r \<Rightarrow> bool" and impl :: "'r \<Rightarrow> u64" and answers :: "'r \<Rightarrow> bool" +
  assumes read_counter: "p \<in> units \<Longrightarrow> r \<in> regs_of (counterValue p) \<Longrightarrow> hw_read H r m = (cnt m r, m)"
begin

lemma getPMUCounter_value:
  assumes "i < length ps" and "set ps \<subseteq> units" and "\<forall>p \<in> set ps. four_counters p" and "c < 4"
  shows "getPMUCounter H ps i c m = Inr (cnt m (value_reg c (ps ! i)), m)"
proof -
  have p: "ps ! i \<in> units" "four_counters (ps ! i)" using assms by auto
  then show ?thesis using assms(1,4) value_reg_in [OF p(2) assms(4)] read_counter [OF p(1)]
    by (simp add: getPMUCounter_def four_counters_def)
qed

lemma read_value_value:
  assumes "p \<in> units" and "four_counters p" and "c < 4"
  shows "read_value H c p m = Inr (cnt m (value_reg c p), m)"
  using assms(2,3) value_reg_in [OF assms(2,3)] read_counter [OF assms(1)] by (simp add: read_value_def fetch_def four_counters_def)

lemma imc_sum:
  assumes "su_model s = model" and "set (imcPMUs s) \<subseteq> units" and "\<forall>p \<in> set (imcPMUs s). four_counters p" and "c < 4" and "c2 < 4"
  shows "sum_read (channel_count H s c c2) [0..<length (imcPMUs s)] m = Inr (\<Sum>p \<leftarrow> imcPMUs s. channel_reads model c c2 (cnt m) p, m)"
proof -
  have "sum_read (channel_count H s c c2) [0..<length (imcPMUs s)] m =
      Inr (\<Sum>i \<leftarrow> [0..<length (imcPMUs s)]. channel_reads model c c2 (cnt m) (imcPMUs s ! i), m)"
    by (rule sum_read_values)
      (use getPMUCounter_value [OF _ assms(2,3)] assms(1,4,5) in \<open>simp add: channel_count_def getMCCounter_def channel_reads_def\<close>)
  then show ?thesis by (simp add: sum_list_index [where f = "channel_reads model c c2 (cnt m)"])
qed

lemma getImc_values:
  assumes "su_model s = model" and "set (imcPMUs s) \<subseteq> units" and "\<forall>p \<in> set (imcPMUs s). four_counters p" and "length (imcPMUs s) < 2 ^ 32"
  shows "getImcReads H s m = Inr (\<Sum>p \<leftarrow> imcPMUs s. channel_reads model READ READ2 (cnt m) p, m)"
    and "getImcWrites H s m = Inr (\<Sum>p \<leftarrow> imcPMUs s. channel_reads model WRITE WRITE2 (cnt m) p, m)"
  using imc_sum [OF assms(1-3)] assms(4)
  by (simp_all add: getImcReads_def getImcWrites_def getImcReadsForChannels_def unat_of_nat)

lemma m2m_value:
  assumes "set (m2mPMUs s) \<subseteq> units" and "\<forall>p \<in> set (m2mPMUs s). four_counters p" and "c < 4"
  shows "sum_read (\<lambda>i. getM2MCounter H s i c) [0..<length (m2mPMUs s)] m = Inr (\<Sum>p \<leftarrow> m2mPMUs s. cnt m (value_reg c p), m)"
proof -
  have "sum_read (\<lambda>i. getM2MCounter H s i c) [0..<length (m2mPMUs s)] m =
      Inr (\<Sum>i \<leftarrow> [0..<length (m2mPMUs s)]. cnt m (value_reg c (m2mPMUs s ! i)), m)"
    by (rule sum_read_values) (use getPMUCounter_value [OF _ assms] in \<open>simp add: getM2MCounter_def\<close>)
  then show ?thesis by (simp add: sum_list_index [where f = "\<lambda>p. cnt m (value_reg c p)"])
qed

lemma misses_value:
  assumes "set (m2mPMUs s) \<subseteq> units" and "\<forall>p \<in> set (m2mPMUs s). four_counters p"
  shows "\<exists>v. getNMMisses H s m = Inr (v, m)"
  unfolding getNMMisses_def
  by (rule exI, rule sum_read_values [where g = "\<lambda>i. cnt m (value_reg MM_MISS_CLEAN (m2mPMUs s ! i)) + cnt m (value_reg MM_MISS_DIRTY (m2mPMUs s ! i))"])
    (use getPMUCounter_value [OF _ assms] in \<open>simp add: getM2MCounter_def\<close>)

lemma read_values:
  assumes "set ps \<subseteq> units" and "\<forall>p \<in> set ps. four_counters p" and "c < 4"
  shows "sum_read (read_value H c) ps m = Inr (\<Sum>p \<leftarrow> ps. cnt m (value_reg c p), m)"
  by (rule sum_read_values) (use assms in \<open>auto intro: read_value_value\<close>)


definition kept :: "bool \<Rightarrow> 'r UncorePMU \<Rightarrow> 'm \<Rightarrow> 'm \<Rightarrow> bool" where
  "kept run p m m' \<longleftrightarrow> running m' (the (unitControl p)) = run \<and> (\<forall>r \<in> regs_of (counterControl p). ctl m' r = ctl m r) \<and>
     (\<forall>r \<in> regs_of (counterValue p). cnt m' r = cnt m r)"

lemma kept_same: "p \<in> units \<Longrightarrow> same_unit p b c \<Longrightarrow> kept run p a b \<Longrightarrow> kept run p a c"
  "p \<in> units \<Longrightarrow> same_unit p a b \<Longrightarrow> kept run p b c \<Longrightarrow> kept run p a c"
  by (simp_all add: kept_def same_unit_def)

lemma freezeCounters_step:
  assumes "sound_server units s" and "su_model s = model"
  shows "\<exists>m'. freezeCounters H s m = Inr m' \<and> only (set (allPMUs s)) m m' \<and> (\<forall>p \<in> set (allPMUs s). kept False p m m')"
proof -
  have s: "su_model s = model" "distinct (allPMUs s)" "set (allPMUs s) \<subseteq> units" using assms by (simp_all add: sound_server_def)
  have e: "extra_ok (freeze_extra model)" by (simp add: freeze_extra_def)
  show ?thesis unfolding freezeCounters_def s(1)
  proof (rule units_step [where Q = "kept False", OF _ s(2,3) kept_same])
    fix p m assume "p \<in> set (allPMUs s)"
    then have "p \<in> units" using s(3) by blast
    then obtain m' where "freeze H model (freeze_extra model) p m = Inr m'" "only {p} m m'" "\<not> running m' (the (unitControl p))"
      "\<And>r. r \<in> regs_of (counterControl p) \<Longrightarrow> ctl m' r = ctl m r" "\<And>r. r \<in> regs_of (counterValue p) \<Longrightarrow> cnt m' r = cnt m r"
      by (rule freeze_step [OF _ e]) blast
    then show "\<exists>m'. freeze H model (freeze_extra model) p m = Inr m' \<and> only {p} m m' \<and> kept False p m m'" by (auto simp: kept_def)
  qed
qed

lemma unfreezeCounters_step:
  assumes "sound_server units s" and "su_model s = model"
  shows "\<exists>m'. unfreezeCounters H s m = Inr m' \<and> only (set (allPMUs s)) m m' \<and> (\<forall>p \<in> set (allPMUs s). kept True p m m')"
proof -
  have s: "su_model s = model" "distinct (allPMUs s)" "set (allPMUs s) \<subseteq> units" using assms by (simp_all add: sound_server_def)
  have e: "extra_ok (freeze_extra model)" by (simp add: freeze_extra_def)
  show ?thesis unfolding unfreezeCounters_def s(1)
  proof (rule units_step [where Q = "kept True", OF _ s(2,3) kept_same])
    fix p m assume "p \<in> set (allPMUs s)"
    then have "p \<in> units" using s(3) by blast
    then obtain m' where "unfreeze H model (freeze_extra model) p m = Inr m'" "only {p} m m'" "running m' (the (unitControl p))"
      "\<And>r. r \<in> regs_of (counterControl p) \<Longrightarrow> ctl m' r = ctl m r" "\<And>r. r \<in> regs_of (counterValue p) \<Longrightarrow> cnt m' r = cnt m r"
      by (rule unfreeze_step [OF _ e]) blast
    then show "\<exists>m'. unfreeze H model (freeze_extra model) p m = Inr m' \<and> only {p} m m' \<and> kept True p m m'" by (auto simp: kept_def)
  qed
qed

lemma read_if_ok: "(b \<Longrightarrow> \<exists>v. f m = Inr (v, m)) \<Longrightarrow> \<exists>v. read_if b f m = Inr (v, m)"
  by (simp add: read_if_def)

text \<open>A reading returns the sums of the channels and leaves every unit of the socket running with its counts.\<close>

lemma read_server_units_step:
  assumes "sound_server units s" and "su_model s = model" and bw: "us_serverBW u = None"
  shows "\<exists>p m'. read_server_units H u s m = Inr (p, m') \<and> (\<forall>q \<in> set (allPMUs s). kept True q m m') \<and>
    mc_reads p = (\<Sum>q \<leftarrow> imcPMUs s. channel_reads model READ READ2 (cnt m) q) \<and> mc_writes p = (\<Sum>q \<leftarrow> imcPMUs s. channel_reads model WRITE WRITE2 (cnt m) q)"
proof -
  have s: "su_model s = model" "set (allPMUs s) \<subseteq> units" "\<forall>p \<in> set (imcPMUs s @ edcPMUs s @ m2mPMUs s @ haPMUs s). four_counters p" "length (imcPMUs s) < 2 ^ 32"
    using assms(1,2) by (simp_all add: sound_server_def)
  have sub: "set (imcPMUs s) \<subseteq> units" "set (m2mPMUs s) \<subseteq> units" "set (edcPMUs s) \<subseteq> units" "set (haPMUs s) \<subseteq> units"
    "\<forall>p \<in> set (imcPMUs s). four_counters p" "\<forall>p \<in> set (m2mPMUs s). four_counters p"
    "\<forall>p \<in> set (edcPMUs s). four_counters p" "\<forall>p \<in> set (haPMUs s). four_counters p" using s(2,3) by (auto simp: allPMUs_def)
  obtain m1 where m1: "freezeCounters H s m = Inr m1" "\<forall>p \<in> set (allPMUs s). kept False p m m1" using freezeCounters_step [OF assms(1,2)] by blast
  obtain m2 where m2: "unfreezeCounters H s m1 = Inr m2" "\<forall>p \<in> set (allPMUs s). kept True p m1 m2" using unfreezeCounters_step [OF assms(1,2)] by blast
  note imc = getImc_values [OF s(1) sub(1,5) s(4)]
  obtain v1 where v1: "read_if (us_near_memory u) (getNMHits H s) m1 = Inr (v1, m1)"
    using read_if_ok [of "us_near_memory u" "getNMHits H s" m1] m2m_value [OF sub(2,6)] by (auto simp: getNMHits_def)
  obtain v2 where v2: "read_if (us_near_memory u) (getNMMisses H s) m1 = Inr (v2, m1)"
    using read_if_ok [of "us_near_memory u" "getNMMisses H s" m1] misses_value [OF sub(2,6), of m1] by blast
  obtain v3 where v3: "read_if (us_local_ratio u \<and> \<not> us_cha u) (getHARequests H s) m1 = Inr (v3, m1)"
    using read_if_ok [of "us_local_ratio u \<and> \<not> us_cha u" "getHARequests H s" m1] read_values [OF sub(4,8)] by (auto simp: getHARequests_def)
  obtain v4 where v4: "read_if (us_local_ratio u \<and> \<not> us_cha u) (getHALocalRequests H s) m1 = Inr (v4, m1)"
    using read_if_ok [of "us_local_ratio u \<and> \<not> us_cha u" "getHALocalRequests H s" m1] read_values [OF sub(4,8)]
    by (auto simp: getHALocalRequests_def)
  obtain v5 where v5: "read_if (us_pmm u) (getPMMReads H s) m1 = Inr (v5, m1)"
    using read_if_ok [of "us_pmm u" "getPMMReads H s" m1] m2m_value [OF sub(2,6)] by (auto simp: getPMMReads_def)
  obtain v6 where v6: "read_if (us_pmm u) (getPMMWrites H s) m1 = Inr (v6, m1)"
    using read_if_ok [of "us_pmm u" "getPMMWrites H s" m1] m2m_value [OF sub(2,6)] by (auto simp: getPMMWrites_def)
  obtain v7 where v7: "read_if (us_hbm u) (getEdcReads H s) m1 = Inr (v7, m1)"
    using read_if_ok [of "us_hbm u" "getEdcReads H s" m1] read_values [OF sub(3,7)] by (auto simp: getEdcReads_def)
  obtain v8 where v8: "read_if (us_hbm u) (getEdcWrites H s) m1 = Inr (v8, m1)"
    using read_if_ok [of "us_hbm u" "getEdcWrites H s" m1] read_values [OF sub(3,7)] by (auto simp: getEdcWrites_def)
  have k: "\<forall>q \<in> set (allPMUs s). kept True q m m2" using m1(2) m2(2) by (simp add: kept_def)
  have c: "channel_reads model a b (cnt m1) q = channel_reads model a b (cnt m) q" if "q \<in> set (imcPMUs s)" "a < 4" "b < 4" for a b q
  proof -
    have "kept False q m m1" "four_counters q" using that(1) m1(2) sub(5) by (auto simp: allPMUs_def)
    then show ?thesis using value_reg_in [of q a] value_reg_in [of q b] that(2,3) by (simp add: kept_def channel_reads_def)
  qed
  have sums: "(\<Sum>q \<leftarrow> imcPMUs s. channel_reads model a b (cnt m1) q) = (\<Sum>q \<leftarrow> imcPMUs s. channel_reads model a b (cnt m) q)" if "a < 4" "b < 4" for a b
    by (rule arg_cong [where f = sum_list], rule map_cong [OF refl]) (rule c [OF _ that])
  have r: "read_server_units H u s m = Inr (\<lparr>mc_reads = \<Sum>q \<leftarrow> imcPMUs s. channel_reads model READ READ2 (cnt m1) q,
      mc_writes = \<Sum>q \<leftarrow> imcPMUs s. channel_reads model WRITE WRITE2 (cnt m1) q, mc_pmm_reads = v5, mc_pmm_writes = v6,
      pmu_nm_hits = v1, pmu_nm_misses = v2, pmu_ha_requests = v3, pmu_ha_local = v4, pmu_edc_reads = v7, pmu_edc_writes = v8\<rparr>, m2)"
    using m1(1) m2(1) v1 v2 v3 v4 v5 v6 v7 v8 bw imc [of m1] by (simp add: read_server_units_def read_if_def [of True] conj_commute)
  show ?thesis unfolding r using k sums by simp
qed

end

section \<open>Time\<close>

text \<open>Between two accesses the units that run count; \<open>ev r\<close> is how often the event of counter \<open>r\<close> happened. Counters have 48 bits.\<close>

definition elapsed ::
  "'r UncorePMU set \<Rightarrow> ('m \<Rightarrow> 'r \<Rightarrow> u64) \<Rightarrow> ('m \<Rightarrow> 'r \<Rightarrow> u64) \<Rightarrow> ('m \<Rightarrow> 'r \<Rightarrow> bool) \<Rightarrow> ('r \<Rightarrow> nat) \<Rightarrow> 'm \<Rightarrow> 'm \<Rightarrow> bool" where
  "elapsed units ctl cnt running ev m m' \<longleftrightarrow> ctl m' = ctl m \<and> running m' = running m \<and>
     (\<forall>p \<in> units. \<forall>r \<in> regs_of (counterValue p).
        cnt m' r = (if running m (the (unitControl p)) then of_nat ((unat (cnt m r) + ev r) mod 2 ^ 48) else cnt m r))"

text \<open>A session of readings: time passes, the units are read, time passes, and so on.\<close>

inductive observed ::
  "('r, 'm) HWRegister \<Rightarrow> uncore_source \<Rightarrow> 'r ServerUncorePMUs \<Rightarrow> (('r \<Rightarrow> nat) \<Rightarrow> 'm \<Rightarrow> 'm \<Rightarrow> bool) \<Rightarrow>
   'm \<Rightarrow> ('r \<Rightarrow> nat) list \<Rightarrow> server_pmu list \<Rightarrow> 'm \<Rightarrow> bool"
  for H u s passes m where
  observed_start: "observed H u s passes m [] [] m"
| observed_read: "observed H u s passes m evs ps m1 \<Longrightarrow> passes ev m1 m2 \<Longrightarrow> read_server_units H u s m2 = Inr (p, m3) \<Longrightarrow>
    observed H u s passes m (evs @ [ev]) (ps @ [p]) m3"

definition total_events :: "('r \<Rightarrow> nat) list \<Rightarrow> 'r \<Rightarrow> nat" where
  "total_events evs r = (\<Sum>ev \<leftarrow> evs. ev r)"

lemma channel_reads_of_nat:
  "channel_reads model c c2 (\<lambda>r. of_nat (f r)) p = (of_nat (channel_reads model c c2 f p) :: u64)"
  by (simp add: channel_reads_def)

lemma channel_reads_add: "channel_reads model c c2 (\<lambda>r. f r + g r) p = channel_reads model c c2 f p + channel_reads model c c2 g p"
  by (simp add: channel_reads_def algebra_simps)

lemma sum_list_of_nat: "(\<Sum>x \<leftarrow> xs. of_nat (f x)) = (of_nat (\<Sum>x \<leftarrow> xs. f x) :: u64)"
  by (induction xs) simp_all

context pmon_units
begin

lemma program_server_step:
  assumes "sound_server units s" and "su_model s = model"
  shows "\<exists>m'. program_server H pmm hbm s m = Inr (s\<lparr>xpiPMUs := filter works (xpiPMUs s)\<rparr>, m') \<and>
    (\<forall>p \<in> set (imcPMUs s). programmed p (map ucast (fst (memory_events model pmm))) m') \<and>
    (hbm \<longrightarrow> (\<forall>p \<in> set (edcPMUs s). programmed p (map ucast (snd (memory_events model pmm))) m')) \<and>
    (\<forall>p \<in> set (m2mPMUs s). programmed p (M2M_config model) m') \<and>
    (\<forall>p \<in> set (xpiPMUs s). works p \<longrightarrow> programmed p (map ucast (link_events model)) m') \<and>
    (\<forall>p \<in> set (haPMUs s). programmed p (map ucast HA_config) m')"
proof -
  have s: "distinct (imcPMUs s)" "distinct (edcPMUs s)" "distinct (m2mPMUs s)" "distinct (xpiPMUs s)" "distinct (haPMUs s)"
    "set (imcPMUs s) \<subseteq> units" "set (edcPMUs s) \<subseteq> units" "set (m2mPMUs s) \<subseteq> units" "set (xpiPMUs s) \<subseteq> units" "set (haPMUs s) \<subseteq> units"
    "\<forall>p \<in> set (imcPMUs s). fixedCounterControl p \<noteq> None" "\<forall>p \<in> set (edcPMUs s). fixedCounterControl p \<noteq> None"
    using assms(1) by (auto simp: sound_server_def allPMUs_def)
  have disj: "set (imcPMUs s) \<inter> set (edcPMUs s) = {}" "set (imcPMUs s) \<inter> set (m2mPMUs s) = {}" "set (imcPMUs s) \<inter> set (xpiPMUs s) = {}"
    "set (imcPMUs s) \<inter> set (haPMUs s) = {}" "set (edcPMUs s) \<inter> set (m2mPMUs s) = {}" "set (edcPMUs s) \<inter> set (xpiPMUs s) = {}"
    "set (edcPMUs s) \<inter> set (haPMUs s) = {}" "set (m2mPMUs s) \<inter> set (xpiPMUs s) = {}" "set (m2mPMUs s) \<inter> set (haPMUs s) = {}"
    "set (xpiPMUs s) \<inter> set (haPMUs s) = {}"
    using assms(1) by (auto simp: sound_server_def allPMUs_def)
  have move: "programmed p es b" if "p \<in> units" "only qs a b" "p \<notin> qs" "programmed p es a" for p es a b qs
    using that programmed_same [of p a b es] by (auto simp: only_def)
  obtain mc edc where ev: "memory_events model pmm = (mc, edc)" by fastforce
  obtain m1 where m1: "programIMC H mc s m = Inr m1" "\<forall>p \<in> set (imcPMUs s). programmed p (map ucast mc) m1"
    using programIMC_step [OF assms(2) s(1,6,11)] by blast
  obtain m2 where m2: "(if hbm then programEDC H edc s m1 else Inr m1) = Inr m2" "only (set (edcPMUs s)) m1 m2"
    "hbm \<longrightarrow> (\<forall>p \<in> set (edcPMUs s). programmed p (map ucast edc) m2)"
    using programEDC_step [OF assms(2) s(2,7,12), of edc m1] by (cases hbm) auto
  obtain m3 where m3: "programM2M H s m2 = Inr m3" "only (set (m2mPMUs s)) m2 m3" "\<forall>p \<in> set (m2mPMUs s). programmed p (M2M_config model) m3"
    using init_and_program_units [OF s(3,8), of UNC_PMON_UNIT_CTL_RSV "M2M_config model" m2] assms(2)
    by (auto simp: programM2M_def programM2M_events_def)
  obtain m4 where m4: "programXPI H (link_events model) s m3 = Inr (s\<lparr>xpiPMUs := filter works (xpiPMUs s)\<rparr>, m4)" "only (set (xpiPMUs s)) m3 m4"
    "\<forall>p \<in> set (xpiPMUs s). works p \<longrightarrow> programmed p (map ucast (link_events model)) m4"
    using programXPI_step [OF assms(2) s(4,9)] by blast
  obtain m5 where m5: "programHA H (s\<lparr>xpiPMUs := filter works (xpiPMUs s)\<rparr>) m4 = Inr m5" "only (set (haPMUs s)) m4 m5"
    "\<forall>p \<in> set (haPMUs s). programmed p (map ucast HA_config) m5"
    using init_and_program_units [OF s(5,10), of UNC_PMON_UNIT_CTL_RSV "map ucast HA_config" m4] assms(2)
    by (auto simp: programHA_def programHA_events_def)
  have run: "program_server H pmm hbm s m = Inr (s\<lparr>xpiPMUs := filter works (xpiPMUs s)\<rparr>, m5)"
    using m1(1) m2(1) m3(1) m4(1) m5(1) assms(2) ev by (simp add: program_server_def)
  have i: "programmed p (map ucast mc) m5" if "p \<in> set (imcPMUs s)" for p
    by (rule move [OF _ m5(2) _ move [OF _ m4(2) _ move [OF _ m3(2) _ move [OF _ m2(2) _ bspec [OF m1(2) that]]]]])
      (use that s(6) disj in auto)
  have e: "programmed p (map ucast edc) m5" if "p \<in> set (edcPMUs s)" "hbm" for p
    by (rule move [OF _ m5(2) _ move [OF _ m4(2) _ move [OF _ m3(2) _ bspec [OF mp [OF m2(3) that(2)] that(1)]]]])
      (use that(1) s(7) disj in auto)
  have q: "programmed p (M2M_config model) m5" if "p \<in> set (m2mPMUs s)" for p
    by (rule move [OF _ m5(2) _ move [OF _ m4(2) _ bspec [OF m3(3) that]]]) (use that s(8) disj in auto)
  have x: "programmed p (map ucast (link_events model)) m5" if "p \<in> set (xpiPMUs s)" "works p" for p
    by (rule move [OF _ m5(2) _ mp [OF bspec [OF m4(3) that(1)] that(2)]]) (use that(1) s(9) disj in auto)
  show ?thesis using run i e q x m5(3) ev by auto
qed

end

context counter_units
begin

definition counting :: "'r ServerUncorePMUs \<Rightarrow> ('r \<Rightarrow> nat) \<Rightarrow> 'm \<Rightarrow> bool" where
  "counting s tot m \<longleftrightarrow> (\<forall>p \<in> set (imcPMUs s). running m (the (unitControl p)) \<and>
     (\<forall>r \<in> regs_of (counterValue p). cnt m r = of_nat (tot r mod 2 ^ 48)))"

lemma counting_elapsed:
  assumes "counting s tot m" and "elapsed units ctl cnt running ev m m'" and "set (imcPMUs s) \<subseteq> units"
  shows "counting s (\<lambda>r. tot r + ev r) m'"
  unfolding counting_def
proof (intro ballI conjI)
  fix p assume p: "p \<in> set (imcPMUs s)"
  show "running m' (the (unitControl p))" using assms(1,2) p by (simp add: counting_def elapsed_def)
  fix r assume r: "r \<in> regs_of (counterValue p)"
  have "tot r mod 2 ^ 48 < 2 ^ 64" by (rule less_trans [of _ "2 ^ 48"]) simp_all
  then have "unat (of_nat (tot r mod 2 ^ 48) :: u64) = tot r mod 2 ^ 48" by (simp add: unat_of_nat)
  then show "cnt m' r = of_nat ((tot r + ev r) mod 2 ^ 48)"
    using assms p r by (auto simp: counting_def elapsed_def mod_simps)
qed

lemma counting_kept:
  assumes "\<forall>p \<in> set (allPMUs s). kept True p m m'" and "counting s tot m"
  shows "counting s tot m'"
  unfolding counting_def
proof
  fix p assume p: "p \<in> set (imcPMUs s)"
  then have "kept True p m m'" using assms(1) by (simp add: allPMUs_def)
  then show "running m' (the (unitControl p)) \<and> (\<forall>r \<in> regs_of (counterValue p). cnt m' r = of_nat (tot r mod 2 ^ 48))"
    using assms(2) p by (simp add: kept_def counting_def)
qed

lemma channel_sum:
  assumes "counting s tot m" and "\<forall>p \<in> set (imcPMUs s). four_counters p \<and> (\<forall>r \<in> regs_of (counterValue p). tot r < 2 ^ 48)"
    and "a < 4" and "b < 4"
  shows "(\<Sum>p \<leftarrow> imcPMUs s. channel_reads model a b (cnt m) p) = of_nat (\<Sum>p \<leftarrow> imcPMUs s. channel_reads model a b tot p)"
proof -
  have "channel_reads model a b (cnt m) p = of_nat (channel_reads model a b tot p)" if "p \<in> set (imcPMUs s)" for p
  proof -
    have "cnt m (value_reg i p) = of_nat (tot (value_reg i p))" if "i < 4" for i
      using \<open>p \<in> set (imcPMUs s)\<close> assms(1,2) value_reg_in [of p i] that by (simp add: counting_def)
    then show ?thesis using assms(3,4) by (simp add: channel_reads_def)
  qed
  then show ?thesis by (simp add: sum_list_of_nat [symmetric] cong: map_cong)
qed

text \<open>The readings of a session.\<close>

lemma observed_values:
  assumes "observed H u s (elapsed units ctl cnt running) m evs ps m'" and "counting s (\<lambda>_. 0) m"
    and "sound_server units s" and "su_model s = model" and "us_serverBW u = None"
    and "\<forall>p \<in> set (imcPMUs s). \<forall>r \<in> regs_of (counterValue p). total_events evs r < 2 ^ 48"
  shows "counting s (total_events evs) m' \<and> length ps = length evs \<and> (\<forall>k < length evs.
    mc_reads (ps ! k) = of_nat (\<Sum>p \<leftarrow> imcPMUs s. channel_reads model READ READ2 (total_events (take (Suc k) evs)) p) \<and>
    mc_writes (ps ! k) = of_nat (\<Sum>p \<leftarrow> imcPMUs s. channel_reads model WRITE WRITE2 (total_events (take (Suc k) evs)) p))"
  using assms(1,6)
proof (induction rule: observed.induct)
  case observed_start
  then show ?case using assms(2) by (simp add: total_events_def)
next
  case (observed_read evs ps m1 ev m2 p m3)
  have less: "total_events evs r \<le> total_events (evs @ [ev]) r" for r by (simp add: total_events_def)
  have IH: "counting s (total_events evs) m1" "length ps = length evs" "\<forall>k < length evs.
    mc_reads (ps ! k) = of_nat (\<Sum>p \<leftarrow> imcPMUs s. channel_reads model READ READ2 (total_events (take (Suc k) evs)) p) \<and>
    mc_writes (ps ! k) = of_nat (\<Sum>p \<leftarrow> imcPMUs s. channel_reads model WRITE WRITE2 (total_events (take (Suc k) evs)) p)"
    using observed_read.IH observed_read.prems le_less_trans [OF less] by blast+
  have s: "set (imcPMUs s) \<subseteq> units" "\<forall>p \<in> set (imcPMUs s). four_counters p" using assms(3) by (auto simp: sound_server_def allPMUs_def)
  have tot_eq: "(\<lambda>r. total_events evs r + ev r) = total_events (evs @ [ev])" by (simp add: total_events_def fun_eq_iff)
  have c2: "counting s (total_events (evs @ [ev])) m2" using counting_elapsed [OF IH(1) observed_read.hyps(2) s(1)] unfolding tot_eq .
  obtain p' m' where r: "read_server_units H u s m2 = Inr (p', m')" "\<forall>q \<in> set (allPMUs s). kept True q m2 m'"
    "mc_reads p' = (\<Sum>q \<leftarrow> imcPMUs s. channel_reads model READ READ2 (cnt m2) q)"
    "mc_writes p' = (\<Sum>q \<leftarrow> imcPMUs s. channel_reads model WRITE WRITE2 (cnt m2) q)"
    using read_server_units_step [OF assms(3,4,5)] by blast
  have eq: "p' = p" "m' = m3" using r(1) observed_read.hyps(3) by simp_all
  have all: "\<forall>p \<in> set (imcPMUs s). four_counters p \<and> (\<forall>r \<in> regs_of (counterValue p). total_events (evs @ [ev]) r < 2 ^ 48)"
    using s(2) observed_read.prems by blast
  have "counting s (total_events (evs @ [ev])) m3" using counting_kept r(2) c2 eq(2) by blast
  moreover have "mc_reads p = of_nat (\<Sum>p \<leftarrow> imcPMUs s. channel_reads model READ READ2 (total_events (evs @ [ev])) p)"
    "mc_writes p = of_nat (\<Sum>p \<leftarrow> imcPMUs s. channel_reads model WRITE WRITE2 (total_events (evs @ [ev])) p)"
    using r(3,4) eq(1) channel_sum [OF c2 all] by simp_all
  ultimately show ?case using IH(2,3) by (auto simp: nth_append less_Suc_eq)
qed

end

section \<open>A bank of memory channels\<close>

text \<open>Memory channels on the PCI bus with the register layout of the older server processors: four counters of 48 bits and their
  controls, a fixed counter, and a unit control register whose reset bits clear themselves.\<close>

record pmon_bank =
  pb_box :: "nat \<Rightarrow> u32"
  pb_ctl :: "nat \<Rightarrow> u64 \<Rightarrow> u32"
  pb_cnt :: "nat \<Rightarrow> u64 \<Rightarrow> u64"
  pb_fixed :: "nat \<Rightarrow> u32"

definition bank_write32 :: "nat \<Rightarrow> u64 \<Rightarrow> u32 \<Rightarrow> pmon_bank \<Rightarrow> pmon_bank" where
  "bank_write32 h a v b =
     (if a = 0xF4 then
        b\<lparr>pb_box := (pb_box b)(h := v AND NOT 3),
          pb_ctl := (if bit v 0 then (pb_ctl b)(h := \<lambda>_. 0) else pb_ctl b),
          pb_cnt := (if bit v 1 then (pb_cnt b)(h := \<lambda>_. 0) else pb_cnt b)\<rparr>
      else if a \<in> {0xD8, 0xDC, 0xE0, 0xE4} then b\<lparr>pb_ctl := (pb_ctl b)(h := (pb_ctl b h)(a := v))\<rparr>
      else if a = 0xF0 then b\<lparr>pb_fixed := (pb_fixed b)(h := v)\<rparr>
      else b)"

definition bank_bus :: "pmon_bank bus" where
  "bank_bus =
     \<lparr>pci_write32 = bank_write32,
      pci_read32 = (\<lambda>h a b. if a = 0xF4 then pb_box b h else if a \<in> {0xD8, 0xDC, 0xE0, 0xE4} then pb_ctl b h a else 0),
      pci_read64 = (\<lambda>h a b. if a \<in> {0xA0, 0xA8, 0xB0, 0xB8} then pb_cnt b h a else 0),
      mmio_write32 = (\<lambda>_ _ _ b. Inr b), mmio_write64 = (\<lambda>_ _ _ b. Inr b), mmio_read32 = (\<lambda>_ _ _. 0), mmio_read64 = (\<lambda>_ _ _. 0),
      msr_write = (\<lambda>_ _ _ b. b), msr_read = (\<lambda>_ _ _. 0), raw_counter = (\<lambda>_ _. 0)\<rparr>"

fun bank_ctl :: "pmon_bank hw_state \<Rightarrow> hw_register \<Rightarrow> u64" where
  "bank_ctl m (PCICFGRegister32 h a) = (if a \<in> {0xD8, 0xDC, 0xE0, 0xE4} then ucast (pb_ctl (hw_bus m) h a) else 0)"
| "bank_ctl m _ = 0"

fun bank_cnt :: "pmon_bank hw_state \<Rightarrow> hw_register \<Rightarrow> u64" where
  "bank_cnt m (PCICFGRegister64 h a) = (if a \<in> {0xA0, 0xA8, 0xB0, 0xB8} then pb_cnt (hw_bus m) h a else 0)"
| "bank_cnt m _ = 0"

fun bank_running :: "pmon_bank hw_state \<Rightarrow> hw_register \<Rightarrow> bool" where
  "bank_running m (PCICFGRegister32 h a) = (a = 0xF4 \<and> \<not> bit (pb_box (hw_bus m) h) 8)"
| "bank_running m _ = False"

abbreviation bank :: "(hw_register, pmon_bank hw_state) HWRegister" where
  "bank \<equiv> registers bank_bus"

lemma imc_pmu_fields:
  "unitControl (imc_pmu BDX h) = Some (PCICFGRegister32 h 0xF4)"
  "counterControl (imc_pmu BDX h) = map (\<lambda>a. Some (PCICFGRegister32 h a)) [0xD8, 0xDC, 0xE0, 0xE4]"
  "counterValue (imc_pmu BDX h) = map (\<lambda>a. Some (PCICFGRegister64 h a)) [0xA0, 0xA8, 0xB0, 0xB8]"
  "fixedCounterControl (imc_pmu BDX h) = Some (PCICFGRegister32 h 0xF0)"
  by (simp_all add: imc_pmu_def UncorePMU4_def pci32_def pci64_def cpu_models)

lemma bank_ctl_update:
  "bank_ctl m' = (\<lambda>r. case r of PCICFGRegister32 h a \<Rightarrow> (if a \<in> {0xD8, 0xDC, 0xE0, 0xE4} then ucast (pb_ctl (hw_bus m') h a) else 0) | _ \<Rightarrow> 0)"
  by (rule ext) (auto split: hw_register.split)

lemma bank_cnt_update:
  "bank_cnt m' = (\<lambda>r. case r of PCICFGRegister64 h a \<Rightarrow> (if a \<in> {0xA0, 0xA8, 0xB0, 0xB8} then pb_cnt (hw_bus m') h a else 0) | _ \<Rightarrow> 0)"
  by (rule ext) (auto split: hw_register.split)

lemma bank_running_update:
  "bank_running m' = (\<lambda>r. case r of PCICFGRegister32 h a \<Rightarrow> a = 0xF4 \<and> \<not> bit (pb_box (hw_bus m') h) 8 | _ \<Rightarrow> False)"
  by (rule ext) (auto split: hw_register.split)

lemma not_new_BDX: "\<not> new_units BDX"
  by (simp add: new_units_def cpu_models)

lemma bank_write_unit:
  "hw_write bank (PCICFGRegister32 h 0xF4) v m = Inr (m\<lparr>hw_bus := bank_write32 h 0xF4 (ucast v) (hw_bus m)\<rparr>)"
  by (simp add: registers_def bank_bus_def)

lemma ucast_and_mask32: "ucast (ucast (v :: u64) :: u32) = v AND mask 32"
  by (rule bit_word_eqI) (auto simp: bit_simps simp del: mask_numeral)

interpretation channels: counter_units bank BDX "range (imc_pmu BDX)" bank_ctl bank_cnt bank_running "\<lambda>_. mask 32" "\<lambda>_. True"
proof
  fix p :: "hw_register UncorePMU" and u and v :: u64 and m :: "pmon_bank hw_state" assume p: "p \<in> range (imc_pmu BDX)" and u: "unitControl p = Some u"
  then obtain h where h: "p = imc_pmu BDX h" "u = PCICFGRegister32 h 0xF4" by (auto simp: imc_pmu_fields)
  let ?m = "m\<lparr>hw_bus := bank_write32 h 0xF4 (ucast v) (hw_bus m)\<rparr>"
  have "bank_ctl ?m = (\<lambda>r. if resets_controls BDX v \<and> r \<in> regs_of (counterControl p) then 0 else bank_ctl m r)"
    by (rule ext) (auto simp: bank_ctl_update h regs_of_def imc_pmu_fields bank_write32_def resets_controls_def not_new_BDX bit_ucast_iff
        split: hw_register.split)
  moreover have "bank_cnt ?m = (\<lambda>r. if resets_counters BDX v \<and> r \<in> regs_of (counterValue p) then 0 else bank_cnt m r)"
    by (rule ext) (auto simp: bank_cnt_update h regs_of_def imc_pmu_fields bank_write32_def resets_counters_def not_new_BDX bit_ucast_iff
        split: hw_register.split)
  moreover have "bank_running ?m = (bank_running m)(u := \<not> freezes BDX v)"
    by (rule ext) (auto simp: bank_running_update h bank_write32_def freezes_def not_new_BDX bit_simps split: hw_register.split)
  ultimately show "\<exists>m'. hw_write bank u v m = Inr m' \<and>
      bank_ctl m' = (\<lambda>r. if resets_controls BDX v \<and> r \<in> regs_of (counterControl p) then 0 else bank_ctl m r) \<and>
      bank_cnt m' = (\<lambda>r. if resets_counters BDX v \<and> r \<in> regs_of (counterValue p) then 0 else bank_cnt m r) \<and>
      bank_running m' = (bank_running m)(u := \<not> freezes BDX v)"
    unfolding h(2) bank_write_unit by blast
next
  fix p :: "hw_register UncorePMU" and r and v :: u64 and m :: "pmon_bank hw_state" assume "p \<in> range (imc_pmu BDX)" and "r \<in> regs_of (counterControl p)"
  then obtain h a where h: "r = PCICFGRegister32 h a" "a \<in> {0xD8, 0xDC, 0xE0, 0xE4}" by (auto simp: imc_pmu_fields regs_of_def)
  let ?m = "m\<lparr>hw_bus := bank_write32 h a (ucast v) (hw_bus m)\<rparr>"
  have "hw_write bank r v m = Inr ?m" using h by (simp add: registers_def bank_bus_def)
  moreover have "bank_ctl ?m = (bank_ctl m)(r := v AND mask 32)"
    using h by (auto simp: fun_eq_iff bank_ctl_update bank_write32_def ucast_and_mask32 simp del: mask_numeral split: hw_register.split)
  moreover have "bank_cnt ?m = bank_cnt m" "bank_running ?m = bank_running m"
    using h by (auto simp: fun_eq_iff bank_cnt_update bank_running_update bank_write32_def split: hw_register.split)
  ultimately show "\<exists>m'. hw_write bank r v m = Inr m' \<and> bank_ctl m' = (bank_ctl m)(r := v AND mask 32) \<and> bank_cnt m' = bank_cnt m \<and>
      bank_running m' = bank_running m" by blast
next
  fix p :: "hw_register UncorePMU" and r and v :: u64 and m :: "pmon_bank hw_state" assume "p \<in> range (imc_pmu BDX)" and "fixedCounterControl p = Some r"
  then obtain h where h: "r = PCICFGRegister32 h 0xF0" by (auto simp: imc_pmu_fields)
  let ?m = "m\<lparr>hw_bus := bank_write32 h 0xF0 (ucast v) (hw_bus m)\<rparr>"
  have "hw_write bank r v m = Inr ?m" using h by (simp add: registers_def bank_bus_def)
  moreover have "bank_ctl ?m = bank_ctl m" "bank_cnt ?m = bank_cnt m" "bank_running ?m = bank_running m"
    by (auto simp: fun_eq_iff bank_ctl_update bank_cnt_update bank_running_update bank_write32_def split: hw_register.split)
  ultimately show "\<exists>m'. hw_write bank r v m = Inr m' \<and> bank_ctl m' = bank_ctl m \<and> bank_cnt m' = bank_cnt m \<and> bank_running m' = bank_running m"
    by blast
next
  fix p :: "hw_register UncorePMU" and r and m :: "pmon_bank hw_state" assume "p \<in> range (imc_pmu BDX)" and "r \<in> regs_of (counterValue p)"
  then show "hw_read bank r m = (bank_cnt m r, m)" by (auto simp: imc_pmu_fields regs_of_def registers_def bank_bus_def)
next
  fix p :: "hw_register UncorePMU" and u and x :: u32 and m m' :: "pmon_bank hw_state"
  assume "p \<in> range (imc_pmu BDX)" and "unitControl p = Some u" and x: "x = UNC_PMON_UNIT_CTL_FRZ_EN \<or> x = UNC_PMON_UNIT_CTL_RSV"
    and w: "hw_write bank u (ucast x) m = Inr m'"
  then obtain h where h: "u = PCICFGRegister32 h 0xF4" by (auto simp: imc_pmu_fields)
  have "(ucast (ucast x :: u64) :: u32) = x" by (rule bit_word_eqI) (simp add: bit_simps)
  then have "hw_read bank u m' = (ucast (x AND NOT 3), m')"
    using w h by (auto simp: registers_def bank_bus_def bank_write32_def)
  moreover have "ucast (x AND UNC_PMON_UNIT_CTL_VALID_BITS_MASK) = (ucast (x AND NOT 3) :: u64) AND ucast UNC_PMON_UNIT_CTL_VALID_BITS_MASK"
    using x by (auto simp: unit_ctl_bits)
  ultimately show "\<exists>w. hw_read bank u m' = (w, m') \<and>
      (ucast (x AND UNC_PMON_UNIT_CTL_VALID_BITS_MASK) = w AND ucast UNC_PMON_UNIT_CTL_VALID_BITS_MASK \<longleftrightarrow> True)" by blast
next
  fix p :: "hw_register UncorePMU" assume "p \<in> range (imc_pmu BDX)"
  then show "unitControl p \<noteq> None" "distinct (filter (\<lambda>c. c \<noteq> None) (counterControl p))" by (auto simp: imc_pmu_fields)
next
  fix p q :: "hw_register UncorePMU" assume "p \<in> range (imc_pmu BDX)" "q \<in> range (imc_pmu BDX)" "p \<noteq> q"
  then show "unitControl p \<noteq> unitControl q \<and> regs_of (counterControl p) \<inter> regs_of (counterControl q) = {} \<and>
      regs_of (counterValue p) \<inter> regs_of (counterValue q) = {}" by (auto simp: imc_pmu_fields regs_of_def)
qed

section \<open>Properties\<close>

text \<open>A unit whose controls hold the given events, whose counters are zero, and which counts.\<close>

definition counts_from_zero ::
  "cpu_model \<Rightarrow> ('m \<Rightarrow> 'r \<Rightarrow> u64) \<Rightarrow> ('m \<Rightarrow> 'r \<Rightarrow> u64) \<Rightarrow> ('m \<Rightarrow> 'r \<Rightarrow> bool) \<Rightarrow> ('r \<Rightarrow> u64) \<Rightarrow> u64 list \<Rightarrow> 'm \<Rightarrow> 'r UncorePMU \<Rightarrow> bool" where
  "counts_from_zero model ctl cnt running impl events m p \<longleftrightarrow>
     (\<forall>(c, e) \<in> set (zip (counterControl p) events). \<forall>r. c = Some r \<longrightarrow> ctl m r = control_word model e AND impl r) \<and>
     (\<forall>r \<in> regs_of (counterValue p). cnt m r = 0) \<and> running m (the (unitControl p))"

context pmon_units
begin

lemma programmed_counts: "programmed p es m = counts_from_zero model ctl cnt running impl es m p"
  by (simp add: programmed_def controls_set_def counts_from_zero_def)

end

context counter_units
begin

lemma counting_start:
  assumes "\<forall>p \<in> set (imcPMUs s). programmed p es m"
  shows "counting s (\<lambda>_. 0) m"
  using assms by (simp add: counting_def programmed_def)

lemma observed_exists:
  assumes "sound_server units s" and "su_model s = model" and "us_serverBW u = None"
    and "\<And>ev m. \<exists>m'. elapsed units ctl cnt running ev m m'"
  shows "\<exists>ps m'. observed H u s (elapsed units ctl cnt running) m evs ps m'"
proof (induction evs rule: rev_induct)
  case Nil
  show ?case by (intro exI) (rule observed_start)
next
  case (snoc ev evs)
  then obtain ps m1 where o: "observed H u s (elapsed units ctl cnt running) m evs ps m1" by blast
  obtain m2 where p: "elapsed units ctl cnt running ev m1 m2" using assms(4) by blast
  obtain p m3 where "read_server_units H u s m2 = Inr (p, m3)" using read_server_units_step [OF assms(1-3)] by blast
  then show ?case using observed_read [OF o p] by blast
qed

lemma traffic_after_program:
  assumes "sound_server units s" and "su_model s = model" and "program_server H pmm hbm s m = Inr (s1, m1)"
    and "observed H u s1 (elapsed units ctl cnt running) m1 evs ps m2" and "us_serverBW u = None"
    and "\<forall>p \<in> set (imcPMUs s). \<forall>r \<in> regs_of (counterValue p). total_events evs r < 2 ^ 48"
  shows "length ps = length evs \<and> (\<forall>k < length evs.
    mc_reads (ps ! k) = of_nat (\<Sum>p \<leftarrow> imcPMUs s. channel_reads model READ READ2 (total_events (take (Suc k) evs)) p) \<and>
    mc_writes (ps ! k) = of_nat (\<Sum>p \<leftarrow> imcPMUs s. channel_reads model WRITE WRITE2 (total_events (take (Suc k) evs)) p))"
proof -
  obtain m' where m': "program_server H pmm hbm s m = Inr (s\<lparr>xpiPMUs := filter works (xpiPMUs s)\<rparr>, m')"
    "\<forall>p \<in> set (imcPMUs s). programmed p (map ucast (fst (memory_events model pmm))) m'"
    using program_server_step [OF assms(1,2), of pmm hbm m] by blast
  have s1: "s1 = s\<lparr>xpiPMUs := filter works (xpiPMUs s)\<rparr>" "m1 = m'" using assms(3) m'(1) by simp_all
  have sound: "sound_server units s1" using assms(1) by (auto simp: s1 sound_server_def allPMUs_def)
  have start: "counting s1 (\<lambda>_. 0) m1" by (rule counting_start) (use m'(2) in \<open>simp add: s1\<close>)
  show ?thesis using observed_values [OF assms(4) start sound] assms(2,5,6) by (simp add: s1)
qed

end

lemma total_events_Suc: "k < length evs \<Longrightarrow> total_events (take (Suc k) evs) = (\<lambda>r. total_events (take k evs) r + (evs ! k) r)"
  by (simp add: total_events_def take_Suc_conv_app_nth fun_eq_iff)

lemma traffic_difference:
  fixes v :: "nat \<Rightarrow> u64"
  assumes "\<forall>k < n. v k = of_nat (\<Sum>p \<leftarrow> ps. channel_reads model c c2 (total_events (take (Suc k) evs)) p)"
    and "n = length evs" and "Suc k < n"
  shows "v (Suc k) - v k = of_nat (\<Sum>p \<leftarrow> ps. channel_reads model c c2 (evs ! Suc k) p)"
  using assms by (simp add: total_events_Suc [of "Suc k"] channel_reads_add sum_list_addf)

text \<open>C3: \<^verbatim>\<open>ServerUncorePMUs::program\<close> on units that behave as documented: it succeeds; the links that stay are the ones whose control
  register answers; and every memory channel, HBM channel, mesh-to-memory unit, link and home agent that is programmed holds
  the events of its processor, starts from zero and counts. \<open>ctl\<close>, \<open>cnt\<close> and \<open>running\<close> read the hardware's state, \<open>impl\<close> is which bits of a
  control register exist and \<open>answers\<close> which unit control registers read back.\<close>

theorem server_programmed:
  assumes "pmon_units H (su_model s) units ctl cnt running impl answers" and "sound_server units s"
  shows "\<exists>m'. program_server H pmm hbm s m =
      Inr (s\<lparr>xpiPMUs := filter (\<lambda>p. new_units (su_model s) \<or> answers (the (unitControl p))) (xpiPMUs s)\<rparr>, m') \<and>
    (\<forall>p \<in> set (imcPMUs s). counts_from_zero (su_model s) ctl cnt running impl (map ucast (fst (memory_events (su_model s) pmm))) m' p) \<and>
    (hbm \<longrightarrow> (\<forall>p \<in> set (edcPMUs s). counts_from_zero (su_model s) ctl cnt running impl (map ucast (snd (memory_events (su_model s) pmm))) m' p)) \<and>
    (\<forall>p \<in> set (m2mPMUs s). counts_from_zero (su_model s) ctl cnt running impl (M2M_config (su_model s)) m' p) \<and>
    (\<forall>p \<in> set (xpiPMUs s). new_units (su_model s) \<or> answers (the (unitControl p)) \<longrightarrow>
      counts_from_zero (su_model s) ctl cnt running impl (map ucast (link_events (su_model s))) m' p) \<and>
    (\<forall>p \<in> set (haPMUs s). counts_from_zero (su_model s) ctl cnt running impl (map ucast HA_config) m' p)"
  using pmon_units.program_server_step [OF assms(1,2) refl, of pmm hbm m]
  unfolding pmon_units.works_def [OF assms(1)] pmon_units.programmed_counts [OF assms(1)] .

text \<open>C2: The memory traffic of a socket. Its units are programmed and then read again and again, each time with all units frozen,
  while the channels see events in between. The difference of two readings, in the machine's 64-bit arithmetic, is exactly the number of
  read (write) events that all channels saw between them, on processors with one and with two schedulers per channel: no event is
  lost to freezing and none is counted twice, as long as no 48-bit counter overflows in the session.\<close>

theorem memory_traffic_exact:
  assumes "counter_units H (su_model s) units ctl cnt running impl answers" and "sound_server units s"
    and "program_server H pmm hbm s m = Inr (s1, m1)"
    and "observed H u s1 (elapsed units ctl cnt running) m1 evs ps m2" and "us_serverBW u = None"
    and "\<forall>p \<in> set (imcPMUs s). \<forall>r \<in> regs_of (counterValue p). total_events evs r < 2 ^ 48"
    and "Suc k < length evs"
  shows "length ps = length evs \<and>
    mc_reads (ps ! Suc k) - mc_reads (ps ! k) = of_nat (\<Sum>p \<leftarrow> imcPMUs s. channel_reads (su_model s) READ READ2 (evs ! Suc k) p) \<and>
    mc_writes (ps ! Suc k) - mc_writes (ps ! k) = of_nat (\<Sum>p \<leftarrow> imcPMUs s. channel_reads (su_model s) WRITE WRITE2 (evs ! Suc k) p)"
  using counter_units.traffic_after_program [OF assms(1,2) refl assms(3-6)] traffic_difference [OF _ refl assms(7), of "\<lambda>k. mc_reads (ps ! k)"]
    traffic_difference [OF _ refl assms(7), of "\<lambda>k. mc_writes (ps ! k)"] by simp

section \<open>Two channels\<close>

definition two_channels :: "hw_register ServerUncorePMUs" where
  "two_channels = \<lparr>su_model = BDX, imcPMUs = [imc_pmu BDX 0, imc_pmu BDX 1], edcPMUs = [], xpiPMUs = [], m3upiPMUs = [], m2mPMUs = [],
     haPMUs = [], hbm_m2mPMUs = [], num_imc_channels = [2]\<rparr>"

definition idle_bank :: "pmon_bank hw_state" where
  "idle_bank = \<lparr>hw_bus = \<lparr>pb_box = \<lambda>_. 0, pb_ctl = \<lambda>_ _. 0, pb_cnt = \<lambda>_ _. 77, pb_fixed = \<lambda>_. 0\<rparr>, hw_extenders = \<lambda>_. CounterWidthExtender 0 48 1000\<rparr>"

definition bank_pass :: "(hw_register \<Rightarrow> nat) \<Rightarrow> pmon_bank hw_state \<Rightarrow> pmon_bank hw_state" where
  "bank_pass ev m = m\<lparr>hw_bus := (hw_bus m)\<lparr>pb_cnt := \<lambda>h a.
     if bit (pb_box (hw_bus m) h) 8 then pb_cnt (hw_bus m) h a
     else of_nat ((unat (pb_cnt (hw_bus m) h a) + ev (PCICFGRegister64 h a)) mod 2 ^ 48)\<rparr>\<rparr>"

lemma bank_pass_elapsed: "elapsed (range (imc_pmu BDX)) bank_ctl bank_cnt bank_running ev m (bank_pass ev m)"
  by (auto simp: elapsed_def bank_pass_def bank_ctl_update bank_cnt_update bank_running_update imc_pmu_fields regs_of_def
      split: hw_register.split)

lemma imc_pmu_inj [simp]: "imc_pmu BDX h = imc_pmu BDX k \<longleftrightarrow> h = k"
  by (rule iffI, drule arg_cong [where f = unitControl]) (simp_all add: imc_pmu_fields)

lemma sound_two_channels: "sound_server (range (imc_pmu BDX)) two_channels"
  by (auto simp: sound_server_def two_channels_def allPMUs_def four_counters_def imc_pmu_fields)

definition some_traffic :: "hw_register \<Rightarrow> nat" where
  "some_traffic r = (if r = PCICFGRegister64 0 0xA0 then 5 else if r = PCICFGRegister64 1 0xA0 then 2 else if r = PCICFGRegister64 1 0xA8 then 9 else 0)"

definition plain_source :: uncore_source where
  "plain_source = \<lparr>us_llc_latency = False, us_uncore_frequency = False, us_tor_occupancy = 0, us_tor_inserts = 0,
     us_requests_all = 0, us_requests_local = 0, us_clocks = 0, us_ufs = None, us_serverBW = None, us_pmm = False, us_pcicfg = True,
     us_pmu = None, us_near_memory = False, us_local_ratio = False, us_cha = False, us_hbm = False, us_clientBW = None,
     us_legacy = Other_Uncore, us_counter_width = 48, us_package_energy = None, us_dram_energy = None, us_pp_energy = []\<rparr>"

lemma value_reg_imc: "value_reg READ (imc_pmu BDX h) = PCICFGRegister64 h 0xA0" "value_reg WRITE (imc_pmu BDX h) = PCICFGRegister64 h 0xA8"
  by (simp_all add: value_reg_def imc_pmu_fields)

lemma one_scheduler_BDX: "\<not> two_schedulers BDX"
  by (simp add: two_schedulers_def cpu_models)

lemma BDX_memory_events: "fst (memory_events BDX False) = [0x304, 0xC04, 0, 0]"
  by (simp add: memory_events_def cpu_models MC_CH_PCI_PMON_CTL_EVENT_def MC_CH_PCI_PMON_CTL_UMASK_def)

lemma two_channels_session:
  obtains s1 m1 ps m2 where "program_server bank False False two_channels idle_bank = Inr (s1, m1)"
    and "observed bank plain_source s1 (elapsed (range (imc_pmu BDX)) bank_ctl bank_cnt bank_running) m1 [\<lambda>_. 3, some_traffic] ps m2"
proof -
  have model: "su_model two_channels = BDX" by (simp add: two_channels_def)
  obtain m1 where m1: "program_server bank False False two_channels idle_bank =
      Inr (two_channels\<lparr>xpiPMUs := filter channels.works (xpiPMUs two_channels)\<rparr>, m1)"
    using channels.program_server_step [OF sound_two_channels model] by blast
  have s: "two_channels\<lparr>xpiPMUs := filter channels.works (xpiPMUs two_channels)\<rparr> = two_channels" by (simp add: two_channels_def)
  have "us_serverBW plain_source = None" by (simp add: plain_source_def)
  then obtain ps m2 where "observed bank plain_source two_channels (elapsed (range (imc_pmu BDX)) bank_ctl bank_cnt bank_running) m1
      [\<lambda>_. 3, some_traffic] ps m2"
    using channels.observed_exists [OF sound_two_channels model] bank_pass_elapsed by blast
  with that m1 s show thesis by simp
qed

theorem server_programmed_witness:
  "\<exists>m'. program_server bank False False two_channels idle_bank = Inr (two_channels, m') \<and>
     (\<forall>h < 2. bank_ctl m' (PCICFGRegister32 h 0xD8) = 0x400304 \<and> bank_ctl m' (PCICFGRegister32 h 0xDC) = 0x400C04 \<and>
        bank_cnt m' (PCICFGRegister64 h 0xA0) = 0 \<and> bank_running m' (PCICFGRegister32 h 0xF4))"
proof -
  have model: "su_model two_channels = BDX" by (simp add: two_channels_def)
  obtain m' where m': "program_server bank False False two_channels idle_bank = Inr (two_channels, m')"
    "\<forall>p \<in> set (imcPMUs two_channels). counts_from_zero BDX bank_ctl bank_cnt bank_running (\<lambda>_. mask 32)
       (map ucast (fst (memory_events BDX False))) m' p"
    using server_programmed [OF _ sound_two_channels, of bank bank_ctl bank_cnt bank_running "\<lambda>_. mask 32" "\<lambda>_. True" False False idle_bank]
      channels.pmon_units_axioms by (auto simp: two_channels_def)
  have "counts_from_zero BDX bank_ctl bank_cnt bank_running (\<lambda>_. mask 32) (map ucast (fst (memory_events BDX False))) m' (imc_pmu BDX h)"
    if "h < 2" for h using m'(2) that by (auto simp: two_channels_def less_2_cases_iff)
  then have "bank_ctl m' (PCICFGRegister32 h 0xD8) = 0x400304 \<and> bank_ctl m' (PCICFGRegister32 h 0xDC) = 0x400C04 \<and>
      bank_cnt m' (PCICFGRegister64 h 0xA0) = 0 \<and> bank_running m' (PCICFGRegister32 h 0xF4)" if "h < 2" for h
    using that by (simp add: counts_from_zero_def imc_pmu_fields regs_of_def BDX_memory_events control_word_def not_new_BDX unit_ctl_bits mask_eq_exp_minus_1
        del: bank_ctl.simps bank_cnt.simps bank_running.simps)
  with m'(1) show ?thesis by blast
qed

theorem memory_traffic_exact_witness:
  "\<exists>s1 m1 ps m2. program_server bank False False two_channels idle_bank = Inr (s1, m1) \<and>
     observed bank plain_source s1 (elapsed (range (imc_pmu BDX)) bank_ctl bank_cnt bank_running) m1 [\<lambda>_. 3, some_traffic] ps m2 \<and>
     mc_reads (ps ! 1) - mc_reads (ps ! 0) = 7 \<and> mc_writes (ps ! 1) - mc_writes (ps ! 0) = 9"
proof -
  have model: "su_model two_channels = BDX" by (simp add: two_channels_def)
  obtain s1 m1 ps m2 where r: "program_server bank False False two_channels idle_bank = Inr (s1, m1)"
    "observed bank plain_source s1 (elapsed (range (imc_pmu BDX)) bank_ctl bank_cnt bank_running) m1 [\<lambda>_. 3, some_traffic] ps m2"
    by (rule two_channels_session) blast
  have u: "us_serverBW plain_source = None" by (simp add: plain_source_def)
  have t: "\<forall>p \<in> set (imcPMUs two_channels). \<forall>r \<in> regs_of (counterValue p). total_events [\<lambda>_. 3, some_traffic] r < 2 ^ 48"
    by (simp add: total_events_def some_traffic_def)
  have "mc_reads (ps ! 1) - mc_reads (ps ! 0) = 7 \<and> mc_writes (ps ! 1) - mc_writes (ps ! 0) = 9"
    using memory_traffic_exact [OF _ sound_two_channels r u t, unfolded model, OF channels.counter_units_axioms, of 0]
    by (simp add: channel_reads_def one_scheduler_BDX value_reg_imc [simplified] two_channels_def some_traffic_def)
  with r show ?thesis by blast
qed

end
