(* ===== verification/Uncore_Boxes.thy ===== *)
theory Uncore_Boxes
  imports Server_Uncore Uncore_Discovery
begin

text \<open>
  The units of a socket that are reached through model-specific registers (cpucounters.h, cpucounters.cpp): cache boxes (CBO, CHA),
  power control unit, system configuration controller (UBOX), I/O stacks (IIO, IRP) and the mesh fabric, where their registers are,
  how they are found and programmed, and the counts read from them. Reading a table of addresses past its end is undefined in
  C++ and an error here. \<open>clx\<close> stands for \<^verbatim>\<open>isCLX() || isCPX()\<close>.
\<close>

section \<open>Processor models\<close>

definition NEHALEM_EP :: cpu_model where "NEHALEM_EP = PCM_CPU_FAMILY_MODEL 6 26"
definition NEHALEM_EX :: cpu_model where "NEHALEM_EX = PCM_CPU_FAMILY_MODEL 6 46"
definition WESTMERE_EP :: cpu_model where "WESTMERE_EP = PCM_CPU_FAMILY_MODEL 6 44"
definition WESTMERE_EX :: cpu_model where "WESTMERE_EX = PCM_CPU_FAMILY_MODEL 6 47"

definition isServerCPU :: "cpu_model \<Rightarrow> bool" where
  "isServerCPU model \<longleftrightarrow> model \<in> {NEHALEM_EP, NEHALEM_EX, WESTMERE_EP, WESTMERE_EX, JAKETOWN, IVYTOWN, HASWELLX, BDX, BDX_DE, SKX, ICX,
     SNOWRIDGE, SPR, EMR, GNR, GNR_D, GRR, SRF, KNL}"

definition hasPCICFGUncore :: "cpu_model \<Rightarrow> bool" where
  "hasPCICFGUncore model \<longleftrightarrow> model \<in> {JAKETOWN, SNOWRIDGE, IVYTOWN, HASWELLX, BDX_DE, SKX, ICX, SPR, EMR, GNR, GNR_D, SRF, GRR, BDX, KNL}"

definition localMemoryRequestRatioMetricAvailable :: "cpu_model \<Rightarrow> bool" where
  "localMemoryRequestRatioMetricAvailable model \<longleftrightarrow> model \<in> {HASWELLX, BDX, SKX, ICX, SPR, EMR, SRF, GNR}"

definition IIOEventsAvailable :: "cpu_model \<Rightarrow> bool" where
  "IIOEventsAvailable model \<longleftrightarrow> model \<in> {SKX, ICX, SNOWRIDGE, SPR, EMR, GRR, SRF, GNR, GNR_D}"

definition DDRLatencyMetricsAvailable :: "cpu_model \<Rightarrow> bool" where
  "DDRLatencyMetricsAvailable model \<longleftrightarrow> model \<in> {SKX, ICX, SPR, EMR}"

definition LLCReadMissLatencyMetricsAvailable :: "cpu_model \<Rightarrow> bool \<Rightarrow> nat \<Rightarrow> bool" where
  "LLCReadMissLatencyMetricsAvailable model clx num_sockets \<longleftrightarrow>
     model \<in> {HASWELLX, BDX_DE, BDX} \<or> clx \<or> (model = SKX \<and> num_sockets = 1) \<or> model \<in> {ICX, SPR, SNOWRIDGE}"

definition hasCHA :: "cpu_model \<Rightarrow> bool" where
  "hasCHA model \<longleftrightarrow> model \<in> {SKX, ICX, SPR, EMR, GNR, GNR_D, SRF, GRR}"

section \<open>Addresses of the cache boxes\<close>

definition JKT_C0_MSR_PMON_CTR0 :: u32 where "JKT_C0_MSR_PMON_CTR0 = 0x0D16"
definition JKT_C0_MSR_PMON_BOX_FILTER :: u32 where "JKT_C0_MSR_PMON_BOX_FILTER = 0x0D14"
definition JKT_C0_MSR_PMON_CTL0 :: u32 where "JKT_C0_MSR_PMON_CTL0 = 0x0D10"
definition JKT_C0_MSR_PMON_BOX_CTL :: u32 where "JKT_C0_MSR_PMON_BOX_CTL = 0x0D04"
definition JKTIVT_CBO_MSR_STEP :: u32 where "JKTIVT_CBO_MSR_STEP = 0x0020"
definition IVT_C0_MSR_PMON_BOX_FILTER1 :: u32 where "IVT_C0_MSR_PMON_BOX_FILTER1 = 0x0D1A"
definition HSX_C0_MSR_PMON_CTR0 :: u32 where "HSX_C0_MSR_PMON_CTR0 = 0x0E08"
definition HSX_C0_MSR_PMON_BOX_FILTER1 :: u32 where "HSX_C0_MSR_PMON_BOX_FILTER1 = 0x0E06"
definition HSX_C0_MSR_PMON_BOX_FILTER :: u32 where "HSX_C0_MSR_PMON_BOX_FILTER = 0x0E05"
definition HSX_C0_MSR_PMON_CTL0 :: u32 where "HSX_C0_MSR_PMON_CTL0 = 0x0E01"
definition HSX_C0_MSR_PMON_BOX_CTL :: u32 where "HSX_C0_MSR_PMON_BOX_CTL = 0x0E00"
definition HSX_CBO_MSR_STEP :: u32 where "HSX_CBO_MSR_STEP = 0x0010"
definition KNL_CHA_MSR_STEP :: u32 where "KNL_CHA_MSR_STEP = 0x000C"
definition KNL_CHA0_MSR_PMON_BOX_CTRL :: u32 where "KNL_CHA0_MSR_PMON_BOX_CTRL = 0x0E00"
definition KNL_CHA0_MSR_PMON_BOX_CTL :: u32 where "KNL_CHA0_MSR_PMON_BOX_CTL = 0x0E05"
definition SERVER_CHA_MSR_PMON_CTL0_OFFSET :: u64 where "SERVER_CHA_MSR_PMON_CTL0_OFFSET = 1"
definition SERVER_CHA_MSR_PMON_BOX_FILTER_OFFSET :: u64 where "SERVER_CHA_MSR_PMON_BOX_FILTER_OFFSET = 5"
definition SERVER_CHA_MSR_PMON_CTR0_OFFSET :: u64 where "SERVER_CHA_MSR_PMON_CTR0_OFFSET = 8"
definition SPR_CHA0_MSR_PMON_BOX_CTRL :: u32 where "SPR_CHA0_MSR_PMON_BOX_CTRL = 0x2000"
definition SPR_CHA0_MSR_PMON_CTL0 :: u32 where "SPR_CHA0_MSR_PMON_CTL0 = 0x2002"
definition SPR_CHA0_MSR_PMON_CTR0 :: u32 where "SPR_CHA0_MSR_PMON_CTR0 = 0x2008"
definition SPR_CHA0_MSR_PMON_BOX_FILTER :: u32 where "SPR_CHA0_MSR_PMON_BOX_FILTER = 0x200E"
definition SPR_CHA_MSR_STEP :: u32 where "SPR_CHA_MSR_STEP = 0x10"

definition ICX_CHA_MSR_PMON_BOX_CTL :: "u64 list" where
  "ICX_CHA_MSR_PMON_BOX_CTL =
    [0x0E00, 0x0E0E, 0x0E1C, 0x0E2A, 0x0E38, 0x0E46, 0x0E54, 0x0E62, 0x0E70, 0x0E7E, 0x0E8C, 0x0E9A,
     0x0EA8, 0x0EB6, 0x0EC4, 0x0ED2, 0x0EE0, 0x0EEE, 0x0F0A, 0x0F18, 0x0F26, 0x0F34, 0x0F42, 0x0F50,
     0x0F5E, 0x0F6C, 0x0F7A, 0x0F88, 0x0F96, 0x0FA4, 0x0FB2, 0x0FC0, 0x0FCE, 0x0FDC, 0x0B60, 0x0B6E,
     0x0B7C, 0x0B8A, 0x0B98, 0x0BA6, 0x0BB4, 0x0BC2]"

definition SNR_CHA_MSR_PMON_BOX_CTL :: "u64 list" where
  "SNR_CHA_MSR_PMON_BOX_CTL = [0x1C00, 0x1C10, 0x1C20, 0x1C30, 0x1C40, 0x1C50]"

definition table_at :: "u64 list \<Rightarrow> u32 \<Rightarrow> u64 result" where
  "table_at t i = (if unat i < length t then Inr (t ! unat i) else Inl Out_of_range)"

lemmas cbo_addresses = JKT_C0_MSR_PMON_CTR0_def JKT_C0_MSR_PMON_BOX_FILTER_def JKT_C0_MSR_PMON_CTL0_def JKT_C0_MSR_PMON_BOX_CTL_def
  JKTIVT_CBO_MSR_STEP_def IVT_C0_MSR_PMON_BOX_FILTER1_def HSX_C0_MSR_PMON_CTR0_def HSX_C0_MSR_PMON_BOX_FILTER1_def
  HSX_C0_MSR_PMON_BOX_FILTER_def HSX_C0_MSR_PMON_CTL0_def HSX_C0_MSR_PMON_BOX_CTL_def HSX_CBO_MSR_STEP_def KNL_CHA_MSR_STEP_def
  KNL_CHA0_MSR_PMON_BOX_CTRL_def KNL_CHA0_MSR_PMON_BOX_CTL_def SERVER_CHA_MSR_PMON_CTL0_OFFSET_def
  SERVER_CHA_MSR_PMON_BOX_FILTER_OFFSET_def SERVER_CHA_MSR_PMON_CTR0_OFFSET_def SPR_CHA0_MSR_PMON_BOX_CTRL_def
  SPR_CHA0_MSR_PMON_CTL0_def SPR_CHA0_MSR_PMON_CTR0_def SPR_CHA0_MSR_PMON_BOX_FILTER_def SPR_CHA_MSR_STEP_def

definition CX_MSR_PMON_BOX_CTL :: "cpu_model \<Rightarrow> u32 \<Rightarrow> u64 result" where
  "CX_MSR_PMON_BOX_CTL model Cbo =
     (if model \<in> {JAKETOWN, IVYTOWN} then Inr (ucast (JKT_C0_MSR_PMON_BOX_CTL + JKTIVT_CBO_MSR_STEP * Cbo))
      else if model \<in> {HASWELLX, BDX_DE, BDX, SKX} then Inr (ucast (HSX_C0_MSR_PMON_BOX_CTL + HSX_CBO_MSR_STEP * Cbo))
      else if model = KNL then Inr (ucast (KNL_CHA0_MSR_PMON_BOX_CTRL + KNL_CHA_MSR_STEP * Cbo))
      else if model = ICX then table_at ICX_CHA_MSR_PMON_BOX_CTL Cbo
      else if model \<in> {SPR, EMR, GNR, GNR_D, GRR, SRF} then Inr (ucast (SPR_CHA0_MSR_PMON_BOX_CTRL + SPR_CHA_MSR_STEP * Cbo))
      else if model = SNOWRIDGE then table_at SNR_CHA_MSR_PMON_BOX_CTL Cbo
      else Inr 0)"

definition CX_MSR_PMON_CTRY :: "cpu_model \<Rightarrow> u32 \<Rightarrow> u32 \<Rightarrow> u64 result" where
  "CX_MSR_PMON_CTRY model Cbo Ctr =
     (if model \<in> {JAKETOWN, IVYTOWN} then Inr (ucast (JKT_C0_MSR_PMON_CTR0 + JKTIVT_CBO_MSR_STEP * Cbo + Ctr))
      else if model \<in> {HASWELLX, BDX_DE, BDX, SKX} then Inr (ucast (HSX_C0_MSR_PMON_CTR0 + HSX_CBO_MSR_STEP * Cbo + Ctr))
      else if model \<in> {ICX, SNOWRIDGE} then
        rbind (CX_MSR_PMON_BOX_CTL model Cbo) (\<lambda>c. Inr (c + SERVER_CHA_MSR_PMON_CTR0_OFFSET + ucast Ctr))
      else if model \<in> {SPR, EMR, GNR, GNR_D, GRR, SRF} then Inr (ucast (SPR_CHA0_MSR_PMON_CTR0 + SPR_CHA_MSR_STEP * Cbo + Ctr))
      else Inr 0)"

definition CX_MSR_PMON_BOX_FILTER :: "cpu_model \<Rightarrow> u32 \<Rightarrow> u64 result" where
  "CX_MSR_PMON_BOX_FILTER model Cbo =
     (if model \<in> {JAKETOWN, IVYTOWN} then Inr (ucast (JKT_C0_MSR_PMON_BOX_FILTER + JKTIVT_CBO_MSR_STEP * Cbo))
      else if model \<in> {HASWELLX, BDX_DE, BDX, SKX} then Inr (ucast (HSX_C0_MSR_PMON_BOX_FILTER + HSX_CBO_MSR_STEP * Cbo))
      else if model = KNL then Inr (ucast (KNL_CHA0_MSR_PMON_BOX_CTL + KNL_CHA_MSR_STEP * Cbo))
      else if model = ICX then
        rbind (CX_MSR_PMON_BOX_CTL model Cbo) (\<lambda>c. Inr (c + SERVER_CHA_MSR_PMON_BOX_FILTER_OFFSET))
      else if model \<in> {SPR, EMR, GNR, GNR_D, GRR, SRF} then Inr (ucast (SPR_CHA0_MSR_PMON_BOX_FILTER + SPR_CHA_MSR_STEP * Cbo))
      else Inr 0)"

definition CX_MSR_PMON_BOX_FILTER1 :: "cpu_model \<Rightarrow> u32 \<Rightarrow> u64" where
  "CX_MSR_PMON_BOX_FILTER1 model Cbo =
     (if model = IVYTOWN then ucast (IVT_C0_MSR_PMON_BOX_FILTER1 + JKTIVT_CBO_MSR_STEP * Cbo)
      else if model \<in> {HASWELLX, BDX_DE, BDX, SKX} then ucast (HSX_C0_MSR_PMON_BOX_FILTER1 + HSX_CBO_MSR_STEP * Cbo)
      else 0)"

definition CX_MSR_PMON_CTLY :: "cpu_model \<Rightarrow> u32 \<Rightarrow> u32 \<Rightarrow> u64 result" where
  "CX_MSR_PMON_CTLY model Cbo Ctl =
     (if model \<in> {JAKETOWN, IVYTOWN} then Inr (ucast (JKT_C0_MSR_PMON_CTL0 + JKTIVT_CBO_MSR_STEP * Cbo + Ctl))
      else if model \<in> {HASWELLX, BDX_DE, BDX, SKX} then Inr (ucast (HSX_C0_MSR_PMON_CTL0 + HSX_CBO_MSR_STEP * Cbo + Ctl))
      else if model \<in> {ICX, SNOWRIDGE} then
        rbind (CX_MSR_PMON_BOX_CTL model Cbo) (\<lambda>c. Inr (c + SERVER_CHA_MSR_PMON_CTL0_OFFSET + ucast Ctl))
      else if model \<in> {SPR, EMR, GNR, GNR_D, GRR, SRF} then Inr (ucast (SPR_CHA0_MSR_PMON_CTL0 + SPR_CHA_MSR_STEP * Cbo + Ctl))
      else Inr 0)"

section \<open>Units\<close>

text \<open>The registers of \<^verbatim>\<open>initUncorePMUsDirect\<close>; \<open>h\<close> is the handle of the reference core of the socket.\<close>

definition msr_regs :: "nat \<Rightarrow> u64 list \<Rightarrow> hw_register option list" where
  "msr_regs h = map (\<lambda>a. Some (MSRRegister h a))"

definition msr_pmu ::
  "nat \<Rightarrow> u64 option \<Rightarrow> u64 list \<Rightarrow> u64 list \<Rightarrow> u64 option \<Rightarrow> u64 option \<Rightarrow> u64 option \<Rightarrow> hw_register UncorePMU" where
  "msr_pmu h unit ctls ctrs fctl fctr f0 =
     UncorePMU4 (map_option (MSRRegister h) unit) (msr_regs h ctls) (msr_regs h ctrs) (map_option (MSRRegister h) fctl)
       (map_option (MSRRegister h) fctr) (map_option (MSRRegister h) f0) None"

definition ubox_pmus :: "cpu_model \<Rightarrow> nat \<Rightarrow> hw_register UncorePMU list" where
  "ubox_pmus model h =
     (if model \<in> {IVYTOWN, JAKETOWN} then [msr_pmu h None [0x0C10, 0x0C11] [0x0C16, 0x0C17] (Some 0x0C08) (Some 0x0C09) None]
      else if model \<in> {SPR, EMR} then
        [msr_pmu h (Some 0x2FD0) [0x2FD2, 0x2FD3] [0x2FD8, 0x2FD9] (Some 0x2FDE) (Some 0x2FDF) None]
      else if model \<in> {SRF, GNR, GNR_D} then
        [msr_pmu h (Some 0x3FF0) [0x3FF2, 0x3FF3] [0x3FF8, 0x3FF9] (Some 0x3FFE) (Some 0x3FFD) None]
      else if model = GRR then
        [msr_pmu h (Some 0x3F50) [0x3F52, 0x3F53] [0x3F58, 0x3F59] (Some 0x3F5E) (Some 0x3F5F) None]
      else if isServerCPU model \<and> hasPCICFGUncore model then
        [msr_pmu h None [0x705, 0x706] [0x709, 0x70a] (Some 0x703) (Some 0x704) None]
      else [])"

text \<open>Units found by discovery, with at least four counters behind model-specific registers. A negative \<open>filt\<close> means no filter.\<close>

definition discovered_pmu :: "pmu_discovery \<Rightarrow> nat \<Rightarrow> u64 \<Rightarrow> nat \<Rightarrow> nat \<Rightarrow> nat \<Rightarrow> int \<Rightarrow> hw_register UncorePMU" where
  "discovered_pmu d h pmuType s die box filt =
     msr_pmu h (Some (getBoxCtlAddr d pmuType s die box))
       (map (getBoxCtlAddr_reg d pmuType s die box) [0, 1, 2, 3]) (map (getBoxCtrAddr d pmuType s die box) [0, 1, 2, 3]) None None
       (if filt < 0 then None else Some (getBoxCtlAddr d pmuType s die box + of_int filt))"

definition addPMUsFromDiscoveryRef :: "pmu_discovery option \<Rightarrow> nat \<Rightarrow> nat \<Rightarrow> u64 \<Rightarrow> int \<Rightarrow> hw_register UncorePMU list" where
  "addPMUsFromDiscoveryRef disc h s pmuType filt =
     (case disc of
        None \<Rightarrow> []
      | Some d \<Rightarrow>
          [discovered_pmu d h pmuType s die box filt. die \<leftarrow> [0..<getNumDies d s], box \<leftarrow> [0..<getNumBoxes d pmuType s die],
             getBoxAccessType d pmuType s die box = MSR_access \<and> 4 \<le> getBoxNumRegs d pmuType s die box])"

definition pcu_pmus :: "cpu_model \<Rightarrow> pmu_discovery option \<Rightarrow> nat \<Rightarrow> nat \<Rightarrow> hw_register UncorePMU list" where
  "pcu_pmus model disc h s =
     (if model \<in> {IVYTOWN, JAKETOWN} then
        [msr_pmu h (Some 0x0C24) [0x0C30, 0x0C31, 0x0C32, 0x0C33] [0x0C36, 0x0C37, 0x0C38, 0x0C39] None None (Some 0x0C34)]
      else if model \<in> {BDX_DE, BDX, KNL, HASWELLX, SKX, ICX} then
        [msr_pmu h (Some 0x0710) [0x0711, 0x0712, 0x0713, 0x0714] [0x0717, 0x0718, 0x0719, 0x071A] None None (Some 0x0715)]
      else if model \<in> {SPR, EMR, GNR, GNR_D, SRF} then addPMUsFromDiscoveryRef disc h s SPR_PCU_BOX_TYPE 0xE
      else [])"

definition mdf_pmus :: "cpu_model \<Rightarrow> pmu_discovery option \<Rightarrow> nat \<Rightarrow> nat \<Rightarrow> hw_register UncorePMU list" where
  "mdf_pmus model disc h s =
     (if model \<in> {SPR, EMR} then addPMUsFromDiscoveryRef disc h s SPR_MDF_BOX_TYPE (- 1)
      else if model \<in> {GNR, GNR_D, SRF} then addPMUsFromDiscoveryRef disc h s BHS_MDF_BOX_TYPE (- 1)
      else [])"

text \<open>Addresses of the unit control, the first counter control and the first counter of each I/O stack.\<close>

definition iio_bases :: "cpu_model \<Rightarrow> (u64 \<times> u64 \<times> u64) list" where
  "iio_bases model =
     (let steps = (\<lambda>unit ctl ctr step n. map (\<lambda>u. (unit + step * of_nat u, ctl + step * of_nat u, ctr + step * of_nat u)) [0..<n])
      in if model = SKX then steps 0x0A40 0x0A48 0x0A41 0x20 6
         else if model = ICX then map (\<lambda>a. (a, a + 8, a + 1)) [0x0A50, 0x0A70, 0x0A90, 0x0AE0, 0x0B00, 0x0B20]
         else if model = SNOWRIDGE then steps 0x1E00 0x1E08 0x1E01 0x10 5
         else if model \<in> {SPR, EMR} then steps 0x3000 0x3002 0x3008 0x10 12
         else if model \<in> {GNR, GNR_D, SRF} then steps 0x2900 0x2902 0x2908 0x10 16
         else if model = GRR then steps 0x2900 0x2902 0x2908 0x10 3
         else [])"

definition iio_pmu :: "nat \<Rightarrow> u64 \<times> u64 \<times> u64 \<Rightarrow> hw_register UncorePMU" where
  "iio_pmu h = (\<lambda>(unit, ctl, ctr). msr_pmu h (Some unit) [ctl + 0, ctl + 1, ctl + 2, ctl + 3] [ctr + 0, ctr + 1, ctr + 2, ctr + 3] None None None)"

definition iio_pmus :: "cpu_model \<Rightarrow> nat \<Rightarrow> (int \<times> hw_register UncorePMU) list" where
  "iio_pmus model h = zip (map int [0..<length (iio_bases model)]) (map (iio_pmu h) (iio_bases model))"

text \<open>Unit control addresses of the IRP units with the offsets of their control and counter registers.\<close>

definition irp_bases :: "cpu_model \<Rightarrow> u64 list \<times> u64 \<times> u64" where
  "irp_bases model =
     (if model = SKX then ([0x0A58, 0x0A78, 0x0A98, 0x0AB8, 0x0AD8, 0x0AF8], 3, 1)
      else if model = ICX then ([0x0A4A, 0x0A6A, 0x0A8A, 0x0ADA, 0x0AFA, 0x0B1A], 3, 1)
      else if model = SNOWRIDGE then ([0x1EA0, 0x1EB0, 0x1EC0, 0x1ED0, 0x1EE0], 8, 1)
      else if model \<in> {SPR, EMR} then
        ([0x3400, 0x3410, 0x3420, 0x3430, 0x3440, 0x3450, 0x3460, 0x3470, 0x3480, 0x3490, 0x34A0, 0x34B0], 2, 8)
      else if model \<in> {GNR, GNR_D, SRF} then
        ([0x2A00, 0x2A10, 0x2A20, 0x2A30, 0x2A40, 0x2A50, 0x2A60, 0x2A70, 0x2A80, 0x2A90, 0x2AA0, 0x2AB0, 0x2AC0, 0x2AD0, 0x2AE0, 0x2AF0], 2, 8)
      else if model = GRR then ([0x2A00, 0x2A10, 0x2A20], 2, 8)
      else ([], 0, 0))"

definition irp_pmu :: "nat \<Rightarrow> u64 \<Rightarrow> u64 \<Rightarrow> u64 \<Rightarrow> hw_register UncorePMU" where
  "irp_pmu h ctl ctr unit =
     UncorePMU4 (Some (MSRRegister h unit)) (msr_regs h [unit + ctl + 0, unit + ctl + 1] @ [None, None])
       (msr_regs h [unit + ctr + 0, unit + ctr + 1] @ [None, None]) None None None None"

definition irp_pmus :: "cpu_model \<Rightarrow> nat \<Rightarrow> (int \<times> hw_register UncorePMU) list" where
  "irp_pmus model h =
     (let (units, ctl, ctr) = irp_bases model in zip (map int [0..<length units]) (map (irp_pmu h ctl ctr) units))"

text \<open>A cache box. Its counters are extended to 64 bits: \<open>ext h a\<close> is the width extender made for the counter at address \<open>a\<close>.\<close>

fun rmap :: "('a \<Rightarrow> 'b result) \<Rightarrow> 'a list \<Rightarrow> 'b list result" where
  "rmap f [] = Inr []"
| "rmap f (x # xs) = rbind (f x) (\<lambda>y. rbind (rmap f xs) (\<lambda>ys. Inr (y # ys)))"

definition cbo_pmu :: "cpu_model \<Rightarrow> (nat \<Rightarrow> u64 \<Rightarrow> nat) \<Rightarrow> nat \<Rightarrow> u32 \<Rightarrow> hw_register UncorePMU result" where
  "cbo_pmu model ext h cbo =
     rbind (CX_MSR_PMON_BOX_CTL model cbo)
       (\<lambda>unit. if unit = 0 then Inl Assert_failed
         else rbind (rmap (CX_MSR_PMON_CTLY model cbo) [0, 1, 2, 3])
           (\<lambda>ctls. rbind (rmap (CX_MSR_PMON_CTRY model cbo) [0, 1, 2, 3])
             (\<lambda>ctrs. rbind (CX_MSR_PMON_BOX_FILTER model cbo)
               (\<lambda>f. let filter1MSR = CX_MSR_PMON_BOX_FILTER1 model cbo
                    in Inr (UncorePMU4 (Some (MSRRegister h unit)) (msr_regs h ctls)
                         (map (\<lambda>a. Some (CounterWidthExtenderRegister (ext h a))) ctrs) None None (Some (MSRRegister h f))
                         (if filter1MSR = 0 then None else Some (MSRRegister h filter1MSR)))))))"

definition cbo_pmus :: "cpu_model \<Rightarrow> (nat \<Rightarrow> u64 \<Rightarrow> nat) \<Rightarrow> nat \<Rightarrow> nat \<Rightarrow> hw_register UncorePMU list result" where
  "cbo_pmus model ext h num =
     (if hasPCICFGUncore model then rmap (\<lambda>cbo. cbo_pmu model ext h (of_nat cbo)) [0..<num] else Inr [])"

text \<open>The number of bits that are set.\<close>

function weight32_loop :: "u32 \<Rightarrow> u32 \<Rightarrow> u32" where
  "weight32_loop n c = (if n = 0 then c else weight32_loop (n AND (n - 1)) (c + 1))"
  by auto
termination by (relation "measure (\<lambda>(n, _). unat n)") (auto simp: clear_lowest_less)

declare weight32_loop.simps [simp del]

definition weight32 :: "u32 \<Rightarrow> u32" where
  "weight32 n = weight32_loop n 0"

text \<open>The number of cache boxes; \<open>ncu\<close> and \<open>cbos\<close> are the registers read, \<open>masks\<close> the two words of the PCI device of newer processors: the device may
  be missing, or its first read may throw. This is the first call, whose result the code remembers; the perf fall back is left out.\<close>

definition getMaxNumOfCBoxesInternal :: "cpu_model \<Rightarrow> u64 \<Rightarrow> u64 \<Rightarrow> (u32 \<times> u32) option result \<Rightarrow> u32 \<Rightarrow> u32 result" where
  "getMaxNumOfCBoxesInternal model ncu cbos masks num_phys_cores_per_socket =
     (if model \<in> {GRR, GNR, GNR_D, SRF} then Inr (ucast (cbos AND 511))
      else if model \<in> {SPR, EMR} then
        (case masks of
           Inr (Some (a, b)) \<Rightarrow> Inr (weight32 a + weight32 b)
         | Inr None \<Rightarrow> Inr 0
         | Inl e \<Rightarrow> Inl Assert_failed)
      else if model \<in> {KNL, SKX, ICX} then Inr (ucast (ncu AND 63))
      else if model = SNOWRIDGE then Inr (num_phys_cores_per_socket div 4)
      else Inr num_phys_cores_per_socket)"

section \<open>State and loops over units\<close>

text \<open>The units of class \<^verbatim>\<open>PCM\<close>. \<open>up_msr\<close> is whether any MSR handle exists. The units of a die are a map of arrays; looking up a
  missing array gives the empty one. I/O units are in the order of their keys.\<close>

datatype UncorePMUIDs = CBO_PMU_ID | MDF_PMU_ID | PCU_PMU_ID | UBOX_PMU_ID | PCIE_GEN5x16_PMU_ID | PCIE_GEN5x8_PMU_ID | INVALID_PMU_ID

record 'r uncore_pcm =
  up_model :: cpu_model
  up_clx :: bool
  up_msr :: bool
  serverUncorePMUs :: "'r ServerUncorePMUs list"
  uncorePMUs :: "(UncorePMUIDs \<Rightarrow> 'r UncorePMU option list) list list"
  iioPMUs :: "(int \<times> 'r UncorePMU) list list"
  irpPMUs :: "(int \<times> 'r UncorePMU) list list"
  cxlPMUs :: "('r UncorePMU \<times> 'r UncorePMU) list list"

definition on_unit :: "('r UncorePMU \<Rightarrow> 'm \<Rightarrow> 'm result) \<Rightarrow> 'r UncorePMU option \<Rightarrow> 'm \<Rightarrow> 'm result" where
  "on_unit f e m = (case e of Some pmu \<Rightarrow> f pmu m | None \<Rightarrow> Inr m)"

definition forAllUncorePMUs_id ::
  "'r uncore_pcm \<Rightarrow> UncorePMUIDs \<Rightarrow> ('r UncorePMU \<Rightarrow> 'm \<Rightarrow> 'm result) \<Rightarrow> 'm \<Rightarrow> 'm result" where
  "forAllUncorePMUs_id st pmu_id f = rfold (\<lambda>s. rfold (\<lambda>d. rfold (on_unit f) (d pmu_id)) s) (uncorePMUs st)"

definition forAllUncorePMUs ::
  "'r uncore_pcm \<Rightarrow> nat \<Rightarrow> UncorePMUIDs \<Rightarrow> ('r UncorePMU \<Rightarrow> 'm \<Rightarrow> 'm result) \<Rightarrow> 'm \<Rightarrow> 'm result" where
  "forAllUncorePMUs st socket_id pmu_id f m =
     (if socket_id < length (uncorePMUs st) then rfold (\<lambda>d. rfold (on_unit f) (d pmu_id)) (uncorePMUs st ! socket_id) m else Inr m)"

definition programUncorePMUs ::
  "'r uncore_pcm \<Rightarrow> UncorePMUIDs \<Rightarrow> ('r UncorePMU \<Rightarrow> 'm \<Rightarrow> 'm result) \<Rightarrow> 'm \<Rightarrow> 'm result" where
  "programUncorePMUs st pmu_id pmuFunc m =
     (if \<not> up_msr st then Inr m
      else rfold (\<lambda>socket. rfold (\<lambda>die. rfold (on_unit pmuFunc) (die pmu_id)) socket) (uncorePMUs st) m)"

section \<open>Programming the cache boxes\<close>

definition CBO_MSR_PMON_CTL_EVENT :: "u64 \<Rightarrow> u64" where "CBO_MSR_PMON_CTL_EVENT x = push_bit 0 x"
definition CBO_MSR_PMON_CTL_UMASK :: "u64 \<Rightarrow> u64" where "CBO_MSR_PMON_CTL_UMASK x = push_bit 8 x"
definition CBO_MSR_PMON_CTL_TID_EN :: u64 where "CBO_MSR_PMON_CTL_TID_EN = push_bit 19 1"
definition JKT_CBO_MSR_PMON_BOX_FILTER_OPC :: "u32 \<Rightarrow> u32" where "JKT_CBO_MSR_PMON_BOX_FILTER_OPC x = push_bit 23 x"
definition IVTHSX_CBO_MSR_PMON_BOX_FILTER1_OPC :: "u32 \<Rightarrow> u32" where "IVTHSX_CBO_MSR_PMON_BOX_FILTER1_OPC x = push_bit 20 x"
definition BDX_CBO_MSR_PMON_BOX_GET_OPC0 :: "u64 \<Rightarrow> u64" where "BDX_CBO_MSR_PMON_BOX_GET_OPC0 x = drop_bit 20 x AND 0x3FF"
definition BDX_CBO_MSR_PMON_BOX_GET_FLT :: "u64 \<Rightarrow> u64" where "BDX_CBO_MSR_PMON_BOX_GET_FLT x = drop_bit 0x10 x AND 0x1"
definition BDX_CBO_MSR_PMON_BOX_GET_TID :: "u64 \<Rightarrow> u64" where "BDX_CBO_MSR_PMON_BOX_GET_TID x = drop_bit 0x11 x AND 0x1"
definition SKX_CHA_MSR_PMON_BOX_FILTER1_REM :: "u64 \<Rightarrow> u64" where "SKX_CHA_MSR_PMON_BOX_FILTER1_REM x = push_bit 0 x"
definition SKX_CHA_MSR_PMON_BOX_FILTER1_LOC :: "u64 \<Rightarrow> u64" where "SKX_CHA_MSR_PMON_BOX_FILTER1_LOC x = push_bit 1 x"
definition SKX_CHA_MSR_PMON_BOX_FILTER1_RSV :: "u64 \<Rightarrow> u64" where "SKX_CHA_MSR_PMON_BOX_FILTER1_RSV x = push_bit 2 x"
definition SKX_CHA_MSR_PMON_BOX_FILTER1_NM :: "u64 \<Rightarrow> u64" where "SKX_CHA_MSR_PMON_BOX_FILTER1_NM x = push_bit 4 x"
definition SKX_CHA_MSR_PMON_BOX_FILTER1_NOT_NM :: "u64 \<Rightarrow> u64" where "SKX_CHA_MSR_PMON_BOX_FILTER1_NOT_NM x = push_bit 5 x"
definition SKX_CHA_MSR_PMON_BOX_FILTER1_OPC0 :: "u32 \<Rightarrow> u32" where "SKX_CHA_MSR_PMON_BOX_FILTER1_OPC0 x = push_bit 9 x"
definition SKX_CHA_MSR_PMON_BOX_FILTER1_OPC1 :: "u32 \<Rightarrow> u32" where "SKX_CHA_MSR_PMON_BOX_FILTER1_OPC1 x = push_bit 19 x"
definition SKX_CHA_MSR_PMON_BOX_FILTER1_NC :: "u64 \<Rightarrow> u64" where "SKX_CHA_MSR_PMON_BOX_FILTER1_NC x = push_bit 30 x"
definition SKX_CHA_MSR_PMON_BOX_GET_OPC0 :: "u64 \<Rightarrow> u64" where "SKX_CHA_MSR_PMON_BOX_GET_OPC0 x = drop_bit 9 x AND 0x3FF"
definition SKX_CHA_MSR_PMON_BOX_GET_NC :: "u64 \<Rightarrow> u64" where "SKX_CHA_MSR_PMON_BOX_GET_NC x = drop_bit 0x1e x AND 0x1"
definition SKX_CHA_TOR_INSERTS_UMASK_IRQ :: "u64 \<Rightarrow> u64" where "SKX_CHA_TOR_INSERTS_UMASK_IRQ x = push_bit 0 x"
definition SKX_CHA_TOR_INSERTS_UMASK_PRQ :: "u64 \<Rightarrow> u64" where "SKX_CHA_TOR_INSERTS_UMASK_PRQ x = push_bit 2 x"
definition SKX_CHA_TOR_INSERTS_UMASK_HIT :: "u64 \<Rightarrow> u64" where "SKX_CHA_TOR_INSERTS_UMASK_HIT x = push_bit 4 x"
definition SKX_CHA_TOR_INSERTS_UMASK_MISS :: "u64 \<Rightarrow> u64" where "SKX_CHA_TOR_INSERTS_UMASK_MISS x = push_bit 5 x"

definition programCboOpcodeFilter ::
  "('r, 'm) HWRegister \<Rightarrow> cpu_model \<Rightarrow> u32 \<Rightarrow> 'r UncorePMU \<Rightarrow> u32 \<Rightarrow> u32 \<Rightarrow> u32 \<Rightarrow> u32 \<Rightarrow> 'm \<Rightarrow> 'm result" where
  "programCboOpcodeFilter H model opc0 pmu nc opc1 loc rem m =
     (if model = JAKETOWN then assign H (filter0 pmu) (ucast (JKT_CBO_MSR_PMON_BOX_FILTER_OPC opc0)) m
      else if model \<in> {IVYTOWN, HASWELLX, BDX_DE, BDX} then assign H (filter1 pmu) (ucast (IVTHSX_CBO_MSR_PMON_BOX_FILTER1_OPC opc0)) m
      else if model = SKX then
        assign H (filter1 pmu)
          (ucast (SKX_CHA_MSR_PMON_BOX_FILTER1_OPC0 opc0 + SKX_CHA_MSR_PMON_BOX_FILTER1_OPC1 opc1) +
           (if rem \<noteq> 0 then SKX_CHA_MSR_PMON_BOX_FILTER1_REM 1 else 0) + (if loc \<noteq> 0 then SKX_CHA_MSR_PMON_BOX_FILTER1_LOC 1 else 0) +
           SKX_CHA_MSR_PMON_BOX_FILTER1_NM 1 + SKX_CHA_MSR_PMON_BOX_FILTER1_NOT_NM 1 +
           (if nc \<noteq> 0 then SKX_CHA_MSR_PMON_BOX_FILTER1_NC 1 else 0)) m
      else Inl Std_exception)"

text \<open>\<^verbatim>\<open>ServerUncoreCounterState::maxCounters\<close>; the events are read from an array, at most one for each counter of the unit.\<close>

definition maxCounters :: nat where "maxCounters = 8"

definition program_array :: "('r, 'm) HWRegister \<Rightarrow> cpu_model \<Rightarrow> 'r UncorePMU \<Rightarrow> u64 list \<Rightarrow> nat \<Rightarrow> u32 \<Rightarrow> 'm \<Rightarrow> 'm result" where
  "program_array H model pmu events n extra m =
     (if length events < min n (length (counterControl pmu)) then Inl Out_of_range
      else program_pmu H model pmu (Some (take n events)) extra m)"

definition zero_counter :: "('r, 'm) HWRegister \<Rightarrow> 'r UncorePMU \<Rightarrow> nat \<Rightarrow> 'm \<Rightarrow> 'm result" where
  "zero_counter H pmu c m = (if c < length (counterValue pmu) then assign H (counterValue pmu ! c) 0 m else Inl Out_of_range)"

definition zero_counters :: "('r, 'm) HWRegister \<Rightarrow> 'r UncorePMU \<Rightarrow> 'm \<Rightarrow> 'm result" where
  "zero_counters H pmu = rfold (zero_counter H pmu) [0..<min maxCounters (length (counterControl pmu))]"

definition programCbo_unit ::
  "('r, 'm) HWRegister \<Rightarrow> cpu_model \<Rightarrow> u64 list \<Rightarrow> u32 \<Rightarrow> u32 \<Rightarrow> u32 \<Rightarrow> u32 \<Rightarrow> u32 \<Rightarrow> 'r UncorePMU \<Rightarrow> 'm \<Rightarrow> 'm result" where
  "programCbo_unit H model events opCode nc llc_lookup_tid_filter loc rem pmu m =
     rbind (initFreeze H model UNC_PMON_UNIT_CTL_FRZ_EN False pmu m)
       (\<lambda>(works, pmu1, m1).
          rbind (if model \<notin> {ICX, SNOWRIDGE, SPR, EMR, GNR, GNR_D, SRF, GRR}
                 then programCboOpcodeFilter H model opCode pmu1 nc 0 loc rem m1 else Inr m1)
            (\<lambda>m2. rbind (if model \<in> {HASWELLX, BDX_DE, BDX, SKX} \<and> llc_lookup_tid_filter \<noteq> 0
                         then assign H (filter0 pmu1) (ucast llc_lookup_tid_filter) m2 else Inr m2)
              (\<lambda>m3. rbind (program_array H model pmu1 events maxCounters UNC_PMON_UNIT_CTL_FRZ_EN m3) (zero_counters H pmu1))))"

definition programCbo_events ::
  "('r, 'm) HWRegister \<Rightarrow> 'r uncore_pcm \<Rightarrow> u64 list \<Rightarrow> u32 \<Rightarrow> u32 \<Rightarrow> u32 \<Rightarrow> u32 \<Rightarrow> u32 \<Rightarrow> 'm \<Rightarrow> 'm result" where
  "programCbo_events H st events opCode nc llc_lookup_tid_filter loc rem =
     programUncorePMUs st CBO_PMU_ID (programCbo_unit H (up_model st) events opCode nc llc_lookup_tid_filter loc rem)"

definition programCboRaw_unit ::
  "('r, 'm) HWRegister \<Rightarrow> cpu_model \<Rightarrow> u64 list \<Rightarrow> u64 \<Rightarrow> u64 \<Rightarrow> 'r UncorePMU \<Rightarrow> 'm \<Rightarrow> 'm result" where
  "programCboRaw_unit H model events f0 f1 pmu m =
     rbind (initFreeze H model UNC_PMON_UNIT_CTL_FRZ_EN False pmu m)
       (\<lambda>(works, pmu1, m1). rbind (assign_if H (filter0 pmu1) f0 m1)
         (\<lambda>m2. rbind (assign_if H (filter1 pmu1) f1 m2)
           (\<lambda>m3. rbind (program_array H model pmu1 events 4 UNC_PMON_UNIT_CTL_FRZ_EN m3) (zero_counters H pmu1))))"

definition programCboRaw :: "('r, 'm) HWRegister \<Rightarrow> 'r uncore_pcm \<Rightarrow> u64 list \<Rightarrow> u64 \<Rightarrow> u64 \<Rightarrow> 'm \<Rightarrow> 'm result" where
  "programCboRaw H st events f0 f1 = programUncorePMUs st CBO_PMU_ID (programCboRaw_unit H (up_model st) events f0 f1)"

text \<open>PCIe events: one event group per call on older processors, selected by an opcode filter.\<close>

definition skx_tor_umask :: "u64 \<Rightarrow> u64" where
  "skx_tor_umask e =
     (if e AND SKX_CHA_MSR_PMON_BOX_FILTER1_NC 1 \<noteq> 0 then SKX_CHA_TOR_INSERTS_UMASK_IRQ 1 else SKX_CHA_TOR_INSERTS_UMASK_PRQ 1) OR
     (if e AND SKX_CHA_MSR_PMON_BOX_FILTER1_RSV 1 \<noteq> 0 then SKX_CHA_TOR_INSERTS_UMASK_HIT 1 else SKX_CHA_TOR_INSERTS_UMASK_MISS 1)"

definition programPCIeEventGroup :: "('r, 'm) HWRegister \<Rightarrow> 'r uncore_pcm \<Rightarrow> u64 list \<Rightarrow> 'm \<Rightarrow> 'm result" where
  "programPCIeEventGroup H st eventGroup m =
     (let model = up_model st; e0 = hd eventGroup
      in if eventGroup = [] then Inl Assert_failed
         else if model \<in> {GNR, GNR_D, GRR, SRF, SPR, EMR, ICX, SNOWRIDGE} then
           (if 4 < length eventGroup then Inl Out_of_range
            else programCbo_events H st (take 4 (eventGroup @ [0, 0, 0, 0])) 0 0 0 1 1 m)
         else if model = SKX then
           programCbo_events H st [CBO_MSR_PMON_CTL_EVENT 0x35 + CBO_MSR_PMON_CTL_UMASK (skx_tor_umask e0), 0, 0, 0]
             (ucast (SKX_CHA_MSR_PMON_BOX_GET_OPC0 e0)) (ucast (SKX_CHA_MSR_PMON_BOX_GET_NC e0)) 0 1 1 m
         else if model \<in> {BDX_DE, BDX, KNL, HASWELLX, IVYTOWN, JAKETOWN} then
           programCbo_events H st
             [CBO_MSR_PMON_CTL_EVENT 0x35 +
              (if BDX_CBO_MSR_PMON_BOX_GET_FLT e0 \<noteq> 0 then CBO_MSR_PMON_CTL_UMASK 0x3 else CBO_MSR_PMON_CTL_UMASK 1) +
              (if BDX_CBO_MSR_PMON_BOX_GET_TID e0 \<noteq> 0 then CBO_MSR_PMON_CTL_TID_EN else 0), 0, 0, 0]
             (ucast (BDX_CBO_MSR_PMON_BOX_GET_OPC0 e0)) 0 (if BDX_CBO_MSR_PMON_BOX_GET_TID e0 \<noteq> 0 then 0x3e else 0) 1 1 m
         else Inr m)"

section \<open>Programming the other units\<close>

definition programMDF :: "('r, 'm) HWRegister \<Rightarrow> 'r uncore_pcm \<Rightarrow> u64 list \<Rightarrow> 'm \<Rightarrow> 'm result" where
  "programMDF H st events =
     programUncorePMUs st MDF_PMU_ID (\<lambda>pmu m.
       rbind (initFreeze H (up_model st) UNC_PMON_UNIT_CTL_FRZ_EN False pmu m)
         (\<lambda>(works, pmu1, m1). program_array H (up_model st) pmu1 events 4 UNC_PMON_UNIT_CTL_FRZ_EN m1))"

definition UCLK_FIXED_CTL_EN :: u32 where "UCLK_FIXED_CTL_EN = push_bit 22 1"

definition programUBOX_unit :: "('r, 'm) HWRegister \<Rightarrow> cpu_model \<Rightarrow> u64 list option \<Rightarrow> 'r UncorePMU \<Rightarrow> 'm \<Rightarrow> 'm result" where
  "programUBOX_unit H model events pmu m =
     rbind (initFreeze H model UNC_PMON_UNIT_CTL_FRZ_EN False pmu m)
       (\<lambda>(works, pmu1, m1). rbind (assign H (fixedCounterControl pmu1) (ucast UCLK_FIXED_CTL_EN) m1)
         (\<lambda>m2. case events of None \<Rightarrow> Inr m2 | Some es \<Rightarrow> program_array H model pmu1 es 2 0 m2))"

definition programUBOX :: "('r, 'm) HWRegister \<Rightarrow> 'r uncore_pcm \<Rightarrow> u64 list option \<Rightarrow> 'm \<Rightarrow> 'm result" where
  "programUBOX H st events = programUncorePMUs st UBOX_PMU_ID (programUBOX_unit H (up_model st) events)"

definition programPCU_unit :: "('r, 'm) HWRegister \<Rightarrow> cpu_model \<Rightarrow> u32 list \<Rightarrow> u64 \<Rightarrow> 'r UncorePMU \<Rightarrow> 'm \<Rightarrow> 'm result" where
  "programPCU_unit H model PCUCntConf filt pmu m =
     rbind (initFreeze H model UNC_PMON_UNIT_CTL_FRZ_EN False pmu m)
       (\<lambda>(works, pmu1, m1). rbind (assign_if H (filter0 pmu1) filt m1)
         (program_array H model pmu1 (map ucast PCUCntConf) 4 UNC_PMON_UNIT_CTL_FRZ_EN))"

definition programPCU :: "('r, 'm) HWRegister \<Rightarrow> 'r uncore_pcm \<Rightarrow> u32 list \<Rightarrow> u64 \<Rightarrow> 'm \<Rightarrow> 'm result" where
  "programPCU H st PCUCntConf filt = programUncorePMUs st PCU_PMU_ID (programPCU_unit H (up_model st) PCUCntConf filt)"

text \<open>CXL ports have two units, with eight and with four counters.\<close>

definition programCXL_unit ::
  "('r, 'm) HWRegister \<Rightarrow> cpu_model \<Rightarrow> nat \<Rightarrow> u64 list \<Rightarrow> 'r UncorePMU \<Rightarrow> 'm \<Rightarrow> 'm result" where
  "programCXL_unit H model n events pmu m =
     rbind (initFreeze H model UNC_PMON_UNIT_CTL_FRZ_EN False pmu m)
       (\<lambda>(works, pmu1, m1). if length (counterControl pmu1) \<noteq> n then Inl Assert_failed
         else program_array H model pmu1 events n UNC_PMON_UNIT_CTL_FRZ_EN m1)"

definition programCXLCM_events :: "('r, 'm) HWRegister \<Rightarrow> 'r uncore_pcm \<Rightarrow> u64 list \<Rightarrow> 'm \<Rightarrow> 'm result" where
  "programCXLCM_events H st events = rfold (rfold (\<lambda>pmus. programCXL_unit H (up_model st) 8 events (fst pmus))) (cxlPMUs st)"

definition programCXLDP_events :: "('r, 'm) HWRegister \<Rightarrow> 'r uncore_pcm \<Rightarrow> u64 list \<Rightarrow> 'm \<Rightarrow> 'm result" where
  "programCXLDP_events H st events = rfold (rfold (\<lambda>pmus. programCXL_unit H (up_model st) 4 events (snd pmus))) (cxlPMUs st)"

definition UNC_PMON_CTL_EVENT :: "u64 \<Rightarrow> u64" where "UNC_PMON_CTL_EVENT x = push_bit 0 x"
definition UNC_PMON_CTL_UMASK :: "u64 \<Rightarrow> u64" where "UNC_PMON_CTL_UMASK x = push_bit 8 x"

abbreviation (input) CXL_TxC_MEM :: nat where "CXL_TxC_MEM \<equiv> 0"
abbreviation (input) CXL_TxC_CACHE :: nat where "CXL_TxC_CACHE \<equiv> 1"
abbreviation (input) CXL_RxC_MEM :: nat where "CXL_RxC_MEM \<equiv> 4"
abbreviation (input) CXL_RxC_CACHE :: nat where "CXL_RxC_CACHE \<equiv> 5"
abbreviation (input) TOR_OCCUPANCY :: nat where "TOR_OCCUPANCY \<equiv> 0"
abbreviation (input) TOR_INSERTS :: nat where "TOR_INSERTS \<equiv> 1"

definition programCXLCM :: "('r, 'm) HWRegister \<Rightarrow> 'r uncore_pcm \<Rightarrow> 'm \<Rightarrow> 'm result" where
  "programCXLCM H st =
     programCXLCM_events H st
       ([0, 0, 0, 0, 0, 0, 0, 0][CXL_RxC_MEM := UNC_PMON_CTL_EVENT 0x41 + UNC_PMON_CTL_UMASK 0x10,
          CXL_TxC_MEM := UNC_PMON_CTL_EVENT 0x02 + UNC_PMON_CTL_UMASK 0x10, CXL_RxC_CACHE := UNC_PMON_CTL_EVENT 0x41 + UNC_PMON_CTL_UMASK 0x04,
          CXL_TxC_CACHE := UNC_PMON_CTL_EVENT 0x02 + UNC_PMON_CTL_UMASK 0x04])"

definition programCXLDP :: "('r, 'm) HWRegister \<Rightarrow> 'r uncore_pcm \<Rightarrow> 'm \<Rightarrow> 'm result" where
  "programCXLDP H st = programCXLDP_events H st ([0, 0, 0, 0][CXL_TxC_MEM := UNC_PMON_CTL_EVENT 0x02 + UNC_PMON_CTL_UMASK 0x20])"

text \<open>I/O stacks: all of them, or the one given. A stack that does not exist is reported and skipped.\<close>

definition stacks_count :: "cpu_model \<Rightarrow> nat" where
  "stacks_count model =
     (if model = GRR then 3 else if model \<in> {GNR, GNR_D, SRF} then 16 else if model \<in> {SPR, EMR} then 12 else if model = ICX then 6
      else if model = SNOWRIDGE then 5 else if model = BDX then 1 else 6)"

definition program_stack ::
  "('r, 'm) HWRegister \<Rightarrow> cpu_model \<Rightarrow> (int \<times> 'r UncorePMU) list \<Rightarrow> u64 list \<Rightarrow> nat \<Rightarrow> int \<Rightarrow> 'm \<Rightarrow> 'm result" where
  "program_stack H model pmus rawEvents n unit m =
     (case map_of pmus unit of
        None \<Rightarrow> Inr m
      | Some pmu \<Rightarrow>
          rbind (initFreeze H model UNC_PMON_UNIT_CTL_RSV False pmu m)
            (\<lambda>(works, pmu1, m1). program_array H model pmu1 rawEvents n UNC_PMON_UNIT_CTL_RSV m1))"

definition programIIOCounters :: "('r, 'm) HWRegister \<Rightarrow> 'r uncore_pcm \<Rightarrow> u64 list \<Rightarrow> int \<Rightarrow> 'm \<Rightarrow> 'm result" where
  "programIIOCounters H st rawEvents IIOStack m =
     (let IIO_units = (if IIOStack = - 1 then map int [0..<stacks_count (up_model st)] else [IIOStack])
      in if up_msr st then rfold (\<lambda>pmus. rfold (program_stack H (up_model st) pmus rawEvents 4) IIO_units) (iioPMUs st) m else Inr m)"

definition getMaxNumOfIIOStacks :: "'r uncore_pcm \<Rightarrow> nat result" where
  "getMaxNumOfIIOStacks st =
     (if iioPMUs st = [] then Inr 0
      else if irpPMUs st = [] \<or> length (hd (iioPMUs st)) \<noteq> length (hd (irpPMUs st)) then Inl Assert_failed
      else Inr (length (hd (iioPMUs st))))"

definition programIRPCounters :: "('r, 'm) HWRegister \<Rightarrow> 'r uncore_pcm \<Rightarrow> u64 list \<Rightarrow> int \<Rightarrow> 'm \<Rightarrow> 'm result" where
  "programIRPCounters H st rawEvents IIOStack m =
     rbind (if IIOStack = - 1 then rbind (getMaxNumOfIIOStacks st) (\<lambda>n. Inr (map int [0..<n])) else Inr [IIOStack])
       (\<lambda>IIO_units. if up_msr st
          then rfold (\<lambda>pmus. rfold (program_stack H (up_model st) pmus rawEvents 2) IIO_units) (irpPMUs st) m else Inr m)"

section \<open>Metrics of all sockets\<close>

datatype ErrorCode = Success | MSRAccessDenied | PMUBusy | UnknownError

definition latency_events :: "cpu_model \<Rightarrow> bool \<Rightarrow> u32 list" where
  "latency_events model enable_pmm =
     (let ev = (\<lambda>e u. MC_CH_PCI_PMON_CTL_EVENT e + MC_CH_PCI_PMON_CTL_UMASK u)
      in if \<not> enable_pmm then
           (if model \<in> {ICX, SPR, EMR} then [ev 0x80 1, ev 0x10 1, ev 0x81 0, ev 0x20 0] else [ev 0x80 0, ev 0x10 0, ev 0x81 0, ev 0x20 0])
         else [ev 0xe0 1, ev 0xe3 0, ev 0xe4 1, ev 0xe7 0])"

definition programServerUncoreLatencyMetrics :: "('r, 'm) HWRegister \<Rightarrow> 'r uncore_pcm \<Rightarrow> bool \<Rightarrow> 'm \<Rightarrow> (ErrorCode \<times> 'm) result" where
  "programServerUncoreLatencyMetrics H st enable_pmm m =
     rbind (if DDRLatencyMetricsAvailable (up_model st)
            then rfold (programIMC H (latency_events (up_model st) enable_pmm)) (serverUncorePMUs st) m else Inr m)
       (\<lambda>m1. Inr (Success, m1))"

text \<open>Steps that also update the units of each socket.\<close>

fun program_servers ::
  "('r ServerUncorePMUs \<Rightarrow> 'm \<Rightarrow> ('r ServerUncorePMUs \<times> 'm) result) \<Rightarrow> 'r ServerUncorePMUs list \<Rightarrow> 'm \<Rightarrow>
   ('r ServerUncorePMUs list \<times> 'm) result" where
  "program_servers f [] m = Inr ([], m)"
| "program_servers f (s # ss) m = rbind (f s m) (\<lambda>(s1, m1). rbind (program_servers f ss m1) (\<lambda>(ss1, m2). Inr (s1 # ss1, m2)))"

definition programServerUncoreMemoryMetrics_all ::
  "('r, 'm) HWRegister \<Rightarrow> bool \<Rightarrow> bool \<Rightarrow> ServerUncoreMemoryMetrics \<Rightarrow> int \<Rightarrow> int \<Rightarrow> 'r uncore_pcm \<Rightarrow> 'm \<Rightarrow>
   (ErrorCode \<times> 'r uncore_pcm \<times> 'm) result" where
  "programServerUncoreMemoryMetrics_all H pmm hbm metrics rankA rankB st m =
     (if \<not> up_msr st \<or> serverUncorePMUs st = [] then Inr (MSRAccessDenied, st, m)
      else rbind (program_servers (programServerUncoreMemoryMetrics H pmm hbm metrics rankA rankB) (serverUncorePMUs st) m)
        (\<lambda>(ss, m1). let st1 = st\<lparr>serverUncorePMUs := ss\<rparr>
          in rbind (programCXLCM H st1 m1) (\<lambda>m2. rbind (programCXLDP H st1 m2) (\<lambda>m3. Inr (Success, st1, m3)))))"

definition PCU_MSR_PMON_CTL_EVENT :: "u32 \<Rightarrow> u32" where "PCU_MSR_PMON_CTL_EVENT x = push_bit 0 x"
definition PCU_MSR_PMON_CTL_OCC_SEL :: "u32 \<Rightarrow> u32" where "PCU_MSR_PMON_CTL_OCC_SEL x = push_bit 14 x"
definition PCU_MSR_PMON_CTL_EDGE_DET :: u32 where "PCU_MSR_PMON_CTL_EDGE_DET = push_bit 18 1"
definition PCU_MSR_PMON_CTL_EXTRA_SEL :: u32 where "PCU_MSR_PMON_CTL_EXTRA_SEL = push_bit 21 1"

text \<open>Events of the power control unit for a profile. Profiles that a processor has no events for are reported and keep the clock
  ticks only.\<close>

definition pcu_events :: "cpu_model \<Rightarrow> int \<Rightarrow> u32 list" where
  "pcu_events model pcu_profile =
     (let ev = PCU_MSR_PMON_CTL_EVENT; edge = (\<lambda>e. ev e + PCU_MSR_PMON_CTL_EDGE_DET);
          newer = model \<in> {SPR, EMR, SRF, GNR, GNR_D};
          ticks = ev (if newer then 1 else 0);
          hsx = model \<in> {HASWELLX, BDX_DE, BDX};
          hsx_on = hsx \<or> model \<in> {SKX, ICX, SNOWRIDGE, SPR, EMR, SRF, GNR, GNR_D}
      in if pcu_profile = 0 then [ticks, ev 0xB, ev 0xC, ev 0xD]
         else if pcu_profile = 1 then
           (if newer then [ticks, ev 0x35, ev 0x36, ev 0x37]
            else [ticks, ev 0x80 + PCU_MSR_PMON_CTL_OCC_SEL 1, ev 0x80 + PCU_MSR_PMON_CTL_OCC_SEL 2, ev 0x80 + PCU_MSR_PMON_CTL_OCC_SEL 3])
         else if pcu_profile = 2 then [ticks, ev 0x09, ev 0x0A, ev 0x04]
         else if pcu_profile = 3 then [ticks, ev 0x04, ev 0x05, ev 0x07]
         else if pcu_profile = 4 then [ticks, ev 0x06, ev 0x05, ev 0x07]
         else if pcu_profile = 5 then
           (if model = JAKETOWN then
              [ticks, ev 0 + PCU_MSR_PMON_CTL_EXTRA_SEL + PCU_MSR_PMON_CTL_EDGE_DET, ev 0 + PCU_MSR_PMON_CTL_EXTRA_SEL, 0]
            else if model = IVYTOWN then [ticks, edge 0x60, ev 0x60, 0]
            else if model = HASWELLX then [ev 0x79, edge 0x74, ev 0x74, edge 0x79]
            else if hsx_on then [ticks, edge 0x74, ev 0x74, 0]
            else [ticks, 0, 0, 0])
         else if pcu_profile = 6 then
           (if model = IVYTOWN then [ticks, 0, edge 0x2B, edge 0x2D]
            else if hsx_on then [ev 0x4E, edge 0x4E, edge 0x2B, edge 0x2D]
            else [ticks, 0, 0, 0])
         else if pcu_profile = 7 then (if hsx then [ev 0x7E, ev 0x7D, ev 0x7A, ev 0x7B] else [ticks, 0, 0, 0])
         else if pcu_profile = 8 then (if hsx then [ev 0x7C, 0, 0, 0] else [ticks, 0, 0, 0])
         else [ticks, 0, 0, 0])"

text \<open>Frequency bands are \<^verbatim>\<open>int\<close>; the sum is sign extended.\<close>

definition pcu_filter :: "(u32 \<times> u32 \<times> u32) option \<Rightarrow> u64" where
  "pcu_filter freq_bands =
     (let (b0, b1, b2) = (case freq_bands of None \<Rightarrow> (10, 20, 30) | Some b \<Rightarrow> b)
      in scast (push_bit 0 b0 + push_bit 8 b1 + push_bit 16 b2 :: u32))"

definition programServerUncorePowerMetrics ::
  "('r, 'm) HWRegister \<Rightarrow> int \<Rightarrow> int \<Rightarrow> (u32 \<times> u32 \<times> u32) option \<Rightarrow> 'r uncore_pcm \<Rightarrow> 'm \<Rightarrow> (ErrorCode \<times> 'r uncore_pcm \<times> 'm) result" where
  "programServerUncorePowerMetrics H mc_profile pcu_profile freq_bands st m =
     (if \<not> up_msr st \<or> serverUncorePMUs st = [] then Inr (MSRAccessDenied, st, m)
      else rbind (program_servers (program_power_metrics H mc_profile) (serverUncorePMUs st) m)
        (\<lambda>(ss, m1). let st1 = st\<lparr>serverUncorePMUs := ss\<rparr>
          in rbind (programPCU H st1 (pcu_events (up_model st) pcu_profile) (pcu_filter freq_bands) m1) (\<lambda>m2. Inr (Success, st1, m2))))"

text \<open>The events of the cache boxes that the default programming uses.\<close>

definition initLLCReadMissLatencyEvents :: "cpu_model \<Rightarrow> bool \<Rightarrow> nat \<Rightarrow> u64 list \<times> u32 \<Rightarrow> u64 list \<times> u32" where
  "initLLCReadMissLatencyEvents model clx num_sockets = (\<lambda>(events, opCode).
     if \<not> LLCReadMissLatencyMetricsAvailable model clx num_sockets then (events, opCode)
     else
       let umask = (if model \<in> {ICX, SPR, SNOWRIDGE} then 1
                    else if model = SKX then SKX_CHA_TOR_INSERTS_UMASK_IRQ 1 + SKX_CHA_TOR_INSERTS_UMASK_MISS 1 else 3);
           umask_ext = (if model = ICX then 0xC817FE else if model = SPR then 0x00C817FE else if model = SNOWRIDGE then 0xC827FE else 0);
           all_umasks = CBO_MSR_PMON_CTL_UMASK umask + UNC_PMON_CTL_UMASK_EXT umask_ext
       in (events[TOR_OCCUPANCY := CBO_MSR_PMON_CTL_EVENT 0x36 + all_umasks, TOR_INSERTS := CBO_MSR_PMON_CTL_EVENT 0x35 + all_umasks],
           if model = SKX then 0x202 else 0x182))"

definition initCHARequestEvents :: "cpu_model \<Rightarrow> u64 list \<Rightarrow> u64 list" where
  "initCHARequestEvents model config =
     (if localMemoryRequestRatioMetricAvailable model \<and> hasCHA model
      then config[REQUESTS_ALL := CBO_MSR_PMON_CTL_EVENT 0x50 + CBO_MSR_PMON_CTL_UMASK (1 + 2 + 4 + 8),
                  REQUESTS_LOCAL := CBO_MSR_PMON_CTL_EVENT 0x50 + CBO_MSR_PMON_CTL_UMASK (1 + 4)]
      else config)"

definition default_cbo_events :: "cpu_model \<Rightarrow> bool \<Rightarrow> nat \<Rightarrow> u64 list \<times> u32" where
  "default_cbo_events model clx num_sockets =
     (let (events, opCode) = initLLCReadMissLatencyEvents model clx num_sockets (replicate maxCounters 0, 0)
      in (initCHARequestEvents model events, opCode))"

definition programCbo :: "('r, 'm) HWRegister \<Rightarrow> 'r uncore_pcm \<Rightarrow> 'm \<Rightarrow> 'm result" where
  "programCbo H st m =
     (let (events, opCode) = default_cbo_events (up_model st) (up_clx st) (length (uncorePMUs st))
      in rbind (programCbo_events H st events opCode 0 0 1 1 m) (programUBOX H st None))"

section \<open>Reading and freezing\<close>

definition units_of :: "('k \<Rightarrow> 'r UncorePMU option list) list \<Rightarrow> 'k \<Rightarrow> 'r UncorePMU list" where
  "units_of dies pmu_id = concat (map (\<lambda>d. map the (filter (\<lambda>e. e \<noteq> None) (d pmu_id))) dies)"

definition getUncoreCounterState ::
  "('r, 'm) HWRegister \<Rightarrow> 'r uncore_pcm \<Rightarrow> UncorePMUIDs \<Rightarrow> nat \<Rightarrow> nat \<Rightarrow> 'm \<Rightarrow> (u64 \<times> 'm) result" where
  "getUncoreCounterState H st pmu_id socket ctr m =
     (if socket < length (uncorePMUs st) \<and> ctr < maxCounters
      then sum_read (read_value H ctr) (units_of (uncorePMUs st ! socket) pmu_id) m else Inr (0, m))"

definition getUncoreClocks :: "('r, 'm) HWRegister \<Rightarrow> 'r uncore_pcm \<Rightarrow> nat \<Rightarrow> 'm \<Rightarrow> (u64 \<times> 'm) result" where
  "getUncoreClocks H st socket_id m =
     (if socket_id < length (uncorePMUs st)
      then sum_read (\<lambda>pmu. fetch H (fixedCounterValue pmu)) (units_of (uncorePMUs st ! socket_id) UBOX_PMU_ID) m else Inr (0, m))"

definition getPCIeCounterData :: "('r, 'm) HWRegister \<Rightarrow> 'r uncore_pcm \<Rightarrow> nat \<Rightarrow> nat \<Rightarrow> 'm \<Rightarrow> (u64 \<times> 'm) result" where
  "getPCIeCounterData H st socket ctr = getUncoreCounterState H st CBO_PMU_ID socket ctr"

definition getIIOCounterState :: "('r, 'm) HWRegister \<Rightarrow> 'r uncore_pcm \<Rightarrow> nat \<Rightarrow> int \<Rightarrow> nat \<Rightarrow> 'm \<Rightarrow> (u64 \<times> 'm) result" where
  "getIIOCounterState H st socket IIOStack counter m =
     (if socket < length (iioPMUs st)
      then case map_of (iioPMUs st ! socket) IIOStack of Some pmu \<Rightarrow> read_value H counter pmu m | None \<Rightarrow> Inr (0, m)
      else Inr (0, m))"

text \<open>Freezing (\<open>op = freeze\<close>) and unfreezing all units of all sockets.\<close>

definition all_server_uncore ::
  "(cpu_model \<Rightarrow> u32 \<Rightarrow> 'r UncorePMU \<Rightarrow> 'm \<Rightarrow> 'm result) \<Rightarrow> ('r ServerUncorePMUs \<Rightarrow> 'm \<Rightarrow> 'm result) \<Rightarrow> 'r uncore_pcm \<Rightarrow> 'm \<Rightarrow> 'm result" where
  "all_server_uncore op servers st m =
     (let fr = op (up_model st) UNC_PMON_UNIT_CTL_FRZ_EN; fr_io = op (up_model st) UNC_PMON_UNIT_CTL_RSV
      in rbind (if up_msr st
                then rfold (\<lambda>i m. rbind (servers (serverUncorePMUs st ! i) m)
                  (\<lambda>m1. rbind (forAllUncorePMUs st i PCU_PMU_ID fr m1)
                  (\<lambda>m2. rbind (if IIOEventsAvailable (up_model st)
                               then (if i < length (iioPMUs st) then rfold (fr_io \<circ> snd) (iioPMUs st ! i) m2 else Inl Out_of_range) else Inr m2)
                  (\<lambda>m3. rbind (if i < length (irpPMUs st) then rfold (fr_io \<circ> snd) (irpPMUs st ! i) m3 else Inr m3)
                  (\<lambda>m4. rbind (forAllUncorePMUs st i CBO_PMU_ID fr m4) (forAllUncorePMUs st i MDF_PMU_ID fr))))))
                  [0..<length (serverUncorePMUs st)] m
                else Inr m)
           (rfold (rfold (\<lambda>pmus m. rbind (fr (fst pmus) m) (fr (snd pmus)))) (cxlPMUs st)))"

definition freezeServerUncoreCounters :: "('r, 'm) HWRegister \<Rightarrow> 'r uncore_pcm \<Rightarrow> 'm \<Rightarrow> 'm result" where
  "freezeServerUncoreCounters H = all_server_uncore (freeze H) (freezeCounters H)"

definition unfreezeServerUncoreCounters :: "('r, 'm) HWRegister \<Rightarrow> 'r uncore_pcm \<Rightarrow> 'm \<Rightarrow> 'm result" where
  "unfreezeServerUncoreCounters H = all_server_uncore (unfreeze H) (unfreezeCounters H)"

end
