(* ===== verification/Box_Addresses.thy ===== *)
theory Box_Addresses
  imports Uncore_Boxes
begin

text \<open>
  Where the units of theory Uncore_Boxes are: the number of cache boxes of a socket, and that no two registers of the units that are
  reached through model-specific registers coincide.
\<close>

section \<open>Number of boxes\<close>

lemma weight32_loop_card: "weight32_loop n c = c + of_nat (card {i. bit n i})"
proof (induction n c rule: weight32_loop.induct)
  case (1 n c)
  show ?case
  proof (cases "n = 0")
    case True
    then show ?thesis by (simp add: weight32_loop.simps)
  next
    case False
    have eq: "{i. bit (unat x) i} = {i. bit x i}" for x :: u32 by (auto simp: bit_simps bit_imp_le_length)
    have "Suc (card {i. bit (n AND (n - 1)) i}) = card {i. bit n i}"
      using card_clear [of "unat n"] False eq [of n] eq [of "n AND (n - 1)"] by (simp add: clear_lowest_unat unat_gt_0)
    then have "card {i. bit n i} = card {i. bit (n AND (n - 1)) i} + 1" by simp
    with 1 [OF False] False show ?thesis by (simp add: weight32_loop.simps [of n] del: bit_and_iff)
  qed
qed

text \<open>On processors that report their cache boxes as two bit masks, the number of boxes is the number of bits that are set in them: the
  loop of \<^verbatim>\<open>weight32\<close>, which clears the lowest set bit until none is left, counts them.\<close>

lemma box_count_is_popcount:
  "getMaxNumOfCBoxesInternal SPR ncu cbos (Inr (Some (a, b))) cores = Inr (of_nat (card {i. bit a i} + card {i. bit b i}))"
proof -
  have "SPR \<notin> {GRR, GNR, GNR_D, SRF}" by (simp add: cpu_models)
  then show ?thesis by (simp add: getMaxNumOfCBoxesInternal_def weight32_def weight32_loop_card)
qed

section \<open>Addresses\<close>

fun msr_address :: "hw_register option \<Rightarrow> u64 list" where
  "msr_address (Some (MSRRegister h a)) = [a]"
| "msr_address _ = []"

definition msr_addresses :: "hw_register UncorePMU \<Rightarrow> u64 list" where
  "msr_addresses p = concat (map msr_address ([unitControl p] @ counterControl p @ counterValue p @
     [fixedCounterControl p, fixedCounterValue p, filter0 p, filter1 p]))"

text \<open>The addresses of a cache box.\<close>

definition box_addresses :: "cpu_model \<Rightarrow> nat \<Rightarrow> u64 list result" where
  "box_addresses model cbo =
     rbind (rmap (CX_MSR_PMON_CTRY model (of_nat cbo)) [0, 1, 2, 3])
       (\<lambda>ctrs. rbind (cbo_pmu model (\<lambda>_ _. 0) 0 (of_nat cbo)) (\<lambda>p. Inr (msr_addresses p @ ctrs)))"

definition box_limit :: "cpu_model \<Rightarrow> nat" where
  "box_limit model = (if model = ICX then 42 else if model \<in> {GNR, GNR_D, GRR, SRF} then 144 else if model \<in> {SPR, EMR} then 253 else 1024)"

abbreviation modern_server :: "cpu_model \<Rightarrow> bool" where
  "modern_server model \<equiv> model \<in> {JAKETOWN, IVYTOWN, HASWELLX, BDX_DE, BDX, SKX, ICX, SPR, EMR, GNR, GNR_D, GRR, SRF}"

lemma ucast_of_nat_small: "n < 2 ^ 32 \<Longrightarrow> ucast (word_of_nat n :: u32) = (word_of_nat n :: u64)"
  by (simp add: unsigned_of_nat take_bit_nat_eq_self)

lemma unat_of_nat_small: "n < 2 ^ 64 \<Longrightarrow> unat (word_of_nat n :: u64) = n"
  by (simp add: unsigned_of_nat take_bit_nat_eq_self)

lemma ucast_step:
  assumes "numeral a + numeral s * k < (2 :: nat) ^ 32"
  shows "ucast (numeral a + numeral s * word_of_nat k :: u32) = (numeral a + numeral s * word_of_nat k :: u64)"
proof -
  have "(numeral a + numeral s * word_of_nat k :: u32) = word_of_nat (numeral a + numeral s * k)" by simp
  also have "ucast \<dots> = (word_of_nat (numeral a + numeral s * k) :: u64)"
    by (rule ucast_of_nat_small [OF assms])
  finally show ?thesis by simp
qed

lemma address_nonzero:
  assumes "numeral a + numeral s * k < (2 :: nat) ^ 64"
  shows "(numeral a + numeral s * word_of_nat k :: u64) \<noteq> 0"
proof
  assume "(numeral a + numeral s * word_of_nat k :: u64) = 0"
  then have "unat (word_of_nat (numeral a + numeral s * k) :: u64) = 0" by simp
  moreover have "unat (word_of_nat (numeral a + numeral s * k) :: u64) = numeral a + numeral s * k"
    by (rule unat_of_nat_small [OF assms])
  ultimately show False by simp
qed

lemmas box_address_defs = box_addresses_def cbo_pmu_def CX_MSR_PMON_BOX_CTL_def CX_MSR_PMON_CTLY_def CX_MSR_PMON_CTRY_def
  CX_MSR_PMON_BOX_FILTER_def CX_MSR_PMON_BOX_FILTER1_def cbo_addresses cpu_models msr_addresses_def msr_regs_def UncorePMU4_def

lemmas fixed_unit_defs = ubox_pmus_def pcu_pmus_def iio_pmus_def irp_pmus_def irp_bases_def iio_bases_def cpu_models
  isServerCPU_def hasPCICFGUncore_def addPMUsFromDiscoveryRef_def msr_addresses_def msr_pmu_def msr_regs_def UncorePMU4_def iio_pmu_def irp_pmu_def
  upt_rec NEHALEM_EP_def NEHALEM_EX_def WESTMERE_EP_def WESTMERE_EX_def

lemma distinct_ascending: "successively (<) xs \<Longrightarrow> distinct (xs :: 'a::linorder list)"
  by (simp add: successively_conv_sorted_wrt [OF transp_on_less] strict_sorted_iff)

text \<open>The registers of the stacks, per processor.\<close>

definition stack_addresses :: "cpu_model \<Rightarrow> u64 list" where
  "stack_addresses model = concat (map msr_addresses (map snd (iio_pmus model 0) @ map snd (irp_pmus model 0)))"

definition single_addresses :: "cpu_model \<Rightarrow> u64 list" where
  "single_addresses model = concat (map msr_addresses (ubox_pmus model 0 @ pcu_pmus model None 0 0))"

lemma stacks_ascending: "model \<in> {SPR, EMR, GNR, GNR_D, SRF, GRR} \<Longrightarrow> successively (<) (stack_addresses model)"
  by (elim insertE emptyE; simp add: stack_addresses_def fixed_unit_defs)

lemma stacks_distinct: "model \<in> {JAKETOWN, IVYTOWN, HASWELLX, BDX_DE, BDX, SKX, ICX} \<Longrightarrow> distinct (stack_addresses model)"
  by (elim insertE emptyE; simp add: stack_addresses_def fixed_unit_defs)

lemma singles_distinct: "modern_server model \<Longrightarrow> distinct (single_addresses model)"
  by (elim insertE emptyE; simp add: single_addresses_def fixed_unit_defs)

definition box_base :: "cpu_model \<Rightarrow> nat \<Rightarrow> nat" where
  "box_base model k =
     (if model \<in> {JAKETOWN, IVYTOWN} then 0xD04 + 0x20 * k else if model \<in> {HASWELLX, BDX_DE, BDX, SKX} then 0xE00 + 0x10 * k
      else if model = ICX then unat (ICX_CHA_MSR_PMON_BOX_CTL ! k) else 0x2000 + 0x10 * k)"

definition box_offsets :: "cpu_model \<Rightarrow> nat list" where
  "box_offsets model =
     (if model = JAKETOWN then [0, 12, 13, 14, 15, 16, 18, 19, 20, 21] else if model = IVYTOWN then [0, 12, 13, 14, 15, 16, 22, 18, 19, 20, 21]
      else if model \<in> {HASWELLX, BDX_DE, BDX, SKX} then [0, 1, 2, 3, 4, 5, 6, 8, 9, 10, 11]
      else if model = ICX then [0, 1, 2, 3, 4, 5, 8, 9, 10, 11] else [0, 2, 3, 4, 5, 14, 8, 9, 10, 11])"

definition box_width :: "cpu_model \<Rightarrow> nat" where
  "box_width model = (if model \<in> {JAKETOWN, IVYTOWN} then 0x20 else if model = ICX then 14 else 0x10)"

lemma icx_nonzero: "k < 42 \<Longrightarrow> ICX_CHA_MSR_PMON_BOX_CTL ! k \<noteq> 0"
proof -
  have "list_all (\<lambda>t. t \<noteq> 0) ICX_CHA_MSR_PMON_BOX_CTL" "length ICX_CHA_MSR_PMON_BOX_CTL = 42" by (simp_all add: ICX_CHA_MSR_PMON_BOX_CTL_def)
  then show "k < 42 \<Longrightarrow> ?thesis" by (simp add: list_all_length)
qed

lemma icx_box:
  assumes "k < 42"
  shows "box_addresses ICX k = Inr (map (\<lambda>i. of_nat (box_base ICX k + i)) (box_offsets ICX))"
proof -
  have "unat (word_of_nat k :: u32) = k" using assms by (simp add: unsigned_of_nat take_bit_nat_eq_self)
  moreover have "length ICX_CHA_MSR_PMON_BOX_CTL = 42" by (simp add: ICX_CHA_MSR_PMON_BOX_CTL_def)
  ultimately have "table_at ICX_CHA_MSR_PMON_BOX_CTL (of_nat k) = Inr (ICX_CHA_MSR_PMON_BOX_CTL ! k)" using assms by (simp add: table_at_def)
  then show ?thesis using icx_nonzero [OF assms]
    by (simp add: box_address_defs Let_def box_base_def box_offsets_def)
qed

lemma step_box:
  assumes "modern_server model" and "model \<noteq> ICX" and "k < 1024"
  shows "box_addresses model k = Inr (map (\<lambda>i. of_nat (box_base model k + i)) (box_offsets model))"
  using assms
  by (elim insertE emptyE; simp add: box_address_defs ucast_step address_nonzero Let_def box_base_def box_offsets_def)

lemma box_addresses_offsets:
  assumes "modern_server model" and "k < box_limit model"
  shows "box_addresses model k = Inr (map (\<lambda>i. of_nat (box_base model k + i)) (box_offsets model))"
  using step_box [OF assms(1), of k] icx_box [of k] assms(2) by (cases "model = ICX") (simp_all add: box_limit_def split: if_splits)

lemma rmap_Inr: "(\<And>x. x \<in> set xs \<Longrightarrow> f x = Inr (g x)) \<Longrightarrow> rmap f xs = Inr (map g xs)"
  by (induction xs) simp_all

text \<open>Registers at small distinct offsets from bases that are far apart.\<close>

lemma distinct_spans:
  assumes "distinct offs" and "\<forall>i \<in> set offs. i < (w :: nat)" and "sorted_wrt (\<lambda>a b. a + w \<le> b \<or> b + w \<le> a) bases"
  shows "distinct (concat (map (\<lambda>b. map (\<lambda>i. b + i) offs) bases))"
  using assms(3)
proof (induction bases)
  case (Cons b bases)
  have "b + i \<noteq> c + j" if "c \<in> set bases" "i \<in> set offs" "j \<in> set offs" for c i j
    using Cons.prems assms(2) that by fastforce
  then show ?case using Cons assms(1) by (auto simp: distinct_map)
qed simp

lemma icx_bases_apart: "sorted_wrt (\<lambda>a b. a + 14 \<le> b \<or> b + 14 \<le> a) (map unat ICX_CHA_MSR_PMON_BOX_CTL)"
  by (simp add: ICX_CHA_MSR_PMON_BOX_CTL_def)

lemma icx_length: "length ICX_CHA_MSR_PMON_BOX_CTL = 42"
  by (simp add: ICX_CHA_MSR_PMON_BOX_CTL_def)

lemma icx_box_base: "box_base ICX k = unat (ICX_CHA_MSR_PMON_BOX_CTL ! k)" "box_width ICX = 14"
  by (simp_all add: box_base_def box_width_def cpu_models)

lemma icx_bases_map: "n \<le> 42 \<Longrightarrow> map (box_base ICX) [0..<n] = take n (map unat ICX_CHA_MSR_PMON_BOX_CTL)"
  by (rule nth_equalityI) (simp_all add: icx_box_base icx_length)

lemma bases_apart:
  assumes "modern_server model" and "n \<le> box_limit model"
  shows "sorted_wrt (\<lambda>a b. a + box_width model \<le> b \<or> b + box_width model \<le> a) (map (box_base model) [0..<n])"
proof (cases "model = ICX")
  case True
  then have "n \<le> 42" using assms(2) by (simp add: box_limit_def)
  then show ?thesis unfolding True
    by (simp add: icx_bases_map icx_box_base(2) sorted_wrt_take [OF icx_bases_apart])
next
  case False
  then show ?thesis using assms(1)
    by (elim insertE emptyE; simp add: sorted_wrt_map box_base_def box_width_def cpu_models sorted_wrt_iff_nth_less)
qed

definition box_range :: "cpu_model \<Rightarrow> nat set" where
  "box_range model =
     (if model \<in> {JAKETOWN, IVYTOWN} then {0xD04..<0x8D04} else if model \<in> {HASWELLX, BDX_DE, BDX, SKX} then {0xE00..<0x4E00}
      else if model = ICX then {0xB60..<0xFEA} else if model \<in> {SPR, EMR} then {0x2000..<0x2FD0} else {0x2000..<0x2900})"

definition fixed_addresses :: "cpu_model \<Rightarrow> u64 list" where
  "fixed_addresses model = single_addresses model @ stack_addresses model"

lemma icx_in_range: "\<forall>b \<in> set (map unat ICX_CHA_MSR_PMON_BOX_CTL). 0xB60 \<le> b \<and> b + 14 \<le> 0xFEA"
  by (simp add: ICX_CHA_MSR_PMON_BOX_CTL_def)

lemma box_in_range:
  assumes "modern_server model" and "k < box_limit model" and "i \<in> set (box_offsets model)"
  shows "box_base model k + i \<in> box_range model"
proof (cases "model = ICX")
  case True
  have "k < 42" using assms(2) True by (simp add: box_limit_def)
  then have "0xB60 \<le> box_base ICX k \<and> box_base ICX k + 14 \<le> 0xFEA" using icx_in_range by (simp add: icx_box_base icx_length)
  moreover have "i < 14" using assms(3) by (auto simp: True box_offsets_def cpu_models)
  ultimately show ?thesis by (simp add: True box_range_def cpu_models)
next
  case False
  then show ?thesis using assms
    by (elim insertE emptyE; auto simp: box_base_def box_limit_def box_offsets_def box_range_def cpu_models)
qed

lemma offsets_small: "modern_server model \<Longrightarrow> distinct (box_offsets model) \<and> (\<forall>i \<in> set (box_offsets model). i < box_width model)"
  by (elim insertE emptyE; simp add: box_offsets_def box_width_def cpu_models)

lemma older_stacks: "model \<in> {JAKETOWN, IVYTOWN, HASWELLX, BDX_DE, BDX} \<Longrightarrow> stack_addresses model = []"
  by (elim insertE emptyE; simp add: stack_addresses_def fixed_unit_defs)

lemmas address_lists = stack_addresses_def single_addresses_def fixed_unit_defs

lemma older_bounds:
  "model \<in> {JAKETOWN, IVYTOWN} \<Longrightarrow> \<forall>a \<in> set (single_addresses model). 0xC00 \<le> a \<and> a < 0xD04"
  "model \<in> {HASWELLX, BDX_DE, BDX, SKX, ICX} \<Longrightarrow> \<forall>a \<in> set (single_addresses model). 0x700 \<le> a \<and> a < 0x800"
  by (elim insertE emptyE; simp add: address_lists)+

lemma skx_icx_bounds: "model \<in> {SKX, ICX} \<Longrightarrow> \<forall>a \<in> set (stack_addresses model). 0x800 \<le> a \<and> a < 0xB60"
  by (elim insertE emptyE; simp add: address_lists)

lemma spr_bounds:
  "model \<in> {SPR, EMR} \<Longrightarrow> \<forall>a \<in> set (single_addresses model). 0x2FD0 \<le> a \<and> a < 0x3000"
  "model \<in> {SPR, EMR} \<Longrightarrow> \<forall>a \<in> set (stack_addresses model). 0x3000 \<le> a"
  by (elim insertE emptyE; simp add: address_lists)+

lemma bhs_bounds:
  "model \<in> {GNR, GNR_D, SRF, GRR} \<Longrightarrow> \<forall>a \<in> set (single_addresses model). 0x3F00 \<le> a"
  "model \<in> {GNR, GNR_D, SRF, GRR} \<Longrightarrow> \<forall>a \<in> set (stack_addresses model). 0x2900 \<le> a \<and> a < 0x3F00"
  by (elim insertE emptyE; simp add: address_lists)+

lemma bounds_apart:
  assumes "distinct xs" and "distinct ys" and "\<forall>x \<in> set xs. x < (c :: 'a::linorder)" and "\<forall>y \<in> set ys. c \<le> y"
  shows "distinct (xs @ ys) \<and> distinct (ys @ xs)"
  using assms by fastforce

lemma fixed_distinct:
  assumes "modern_server model"
  shows "distinct (fixed_addresses model)"
proof -
  have s: "distinct (single_addresses model)" by (rule singles_distinct [OF assms])
  have t: "distinct (stack_addresses model)"
    using assms stacks_distinct [of model] distinct_ascending [OF stacks_ascending [of model]] by blast
  consider "model \<in> {JAKETOWN, IVYTOWN, HASWELLX, BDX_DE, BDX}" | "model \<in> {SKX, ICX}" | "model \<in> {SPR, EMR}" | "model \<in> {GNR, GNR_D, SRF, GRR}"
    using assms by blast
  then show ?thesis
  proof cases
    case 1
    then show ?thesis using s older_stacks by (simp add: fixed_addresses_def)
  next
    case 2
    then have "\<forall>a \<in> set (single_addresses model). a < 0x800" "\<forall>a \<in> set (stack_addresses model). 0x800 \<le> a"
      using older_bounds(2) [of model] skx_icx_bounds [of model] by auto
    then show ?thesis using bounds_apart [OF s t] by (simp add: fixed_addresses_def)
  next
    case 3
    then have "\<forall>a \<in> set (single_addresses model). a < 0x3000" "\<forall>a \<in> set (stack_addresses model). 0x3000 \<le> a"
      using spr_bounds [of model] by auto
    then show ?thesis using bounds_apart [OF s t] by (simp add: fixed_addresses_def)
  next
    case 4
    then have "\<forall>a \<in> set (stack_addresses model). a < 0x3F00" "\<forall>a \<in> set (single_addresses model). 0x3F00 \<le> a"
      using bhs_bounds [of model] by auto
    then show ?thesis using bounds_apart [OF t s] by (simp add: fixed_addresses_def)
  qed
qed

lemma fixed_outside:
  assumes "modern_server model" and "a \<in> set (fixed_addresses model)"
  shows "a \<noteq> 0 \<and> unat a \<notin> box_range model"
proof -
  have u: "c \<le> a \<Longrightarrow> unat c \<le> unat a" "a < c \<Longrightarrow> unat a < unat c" for c by (simp_all add: word_le_nat_alt word_less_nat_alt)
  consider (jkt) "model \<in> {JAKETOWN, IVYTOWN}" | (hsx) "model \<in> {HASWELLX, BDX_DE, BDX}" | (skx) "model \<in> {SKX, ICX}"
    | (spr) "model \<in> {SPR, EMR}" | (bhs) "model \<in> {GNR, GNR_D, SRF, GRR}" using assms(1) by blast
  then show ?thesis
  proof cases
    case jkt
    then have "0xC00 \<le> a \<and> a < 0xD04" using assms(2) older_bounds(1) [of model] older_stacks [of model] by (auto simp: fixed_addresses_def)
    then show ?thesis using jkt u(1) [of "0xC00"] u(2) [of "0xD04"] by (auto simp: box_range_def)
  next
    case hsx
    then have "0x700 \<le> a \<and> a < 0x800" using assms(2) older_bounds(2) [of model] older_stacks [of model] by (auto simp: fixed_addresses_def)
    then show ?thesis using hsx u(1) [of "0x700"] u(2) [of "0x800"] by (auto simp: box_range_def cpu_models)
  next
    case skx
    then have "(0x700 \<le> a \<and> a < 0x800) \<or> (0x800 \<le> a \<and> a < 0xB60)"
      using assms(2) older_bounds(2) [of model] skx_icx_bounds [of model] by (auto simp: fixed_addresses_def)
    then have "0x700 \<le> unat a \<and> unat a < 0xB60" using u(1) [of "0x700"] u(2) [of "0x800"] u(1) [of "0x800"] u(2) [of "0xB60"] by auto
    then show ?thesis using skx by (auto simp: box_range_def cpu_models)
  next
    case spr
    then have "0x2FD0 \<le> a \<or> 0x3000 \<le> a" using assms(2) spr_bounds [of model] by (auto simp: fixed_addresses_def)
    then show ?thesis using spr u(1) [of "0x2FD0"] u(1) [of "0x3000"] by (auto simp: box_range_def cpu_models)
  next
    case bhs
    then have "0x2900 \<le> a \<or> 0x3F00 \<le> a" using assms(2) bhs_bounds [of model] by (auto simp: fixed_addresses_def)
    then show ?thesis using bhs u(1) [of "0x2900"] u(1) [of "0x3F00"] by (auto simp: box_range_def cpu_models)
  qed
qed

lemma range_small: "modern_server model \<Longrightarrow> x \<in> box_range model \<Longrightarrow> 0 < x \<and> x < 2 ^ 64"
  by (auto simp: box_range_def split: if_splits)

lemma boxes_concat:
  "concat (map (\<lambda>k. map (\<lambda>i. word_of_nat (f k + i)) offs) ks) = map word_of_nat (concat (map (\<lambda>b. map (\<lambda>i. b + i) offs) (map f ks)))"
  by (induction ks) simp_all



end
