(* ===== verification/Box_Counting.thy ===== *)
theory Box_Counting
  imports Uncore_Boxes Memory_Traffic
begin

text \<open>
  What the hardware promises about cache boxes with extended counters, as locale \<open>pmon_boxes\<close>, and what \<^verbatim>\<open>PCM::programCbo\<close> and
  \<^verbatim>\<open>PCM::getUncoreCounterState\<close> achieve on such boxes: all of them count the given events from zero behind the given filters, and a reading is the
  number of events since then although the hardware counters wrap. The locale is interpreted on the boxes of a Broadwell server.
\<close>

section \<open>Cache boxes\<close>

text \<open>Boxes whose counters are widened: \<open>cnt m r\<close> is the raw counter behind register \<open>r\<close>, \<open>ext m r\<close> its extender and \<open>flt m r\<close> the
  content of a filter register. Reading a counter register updates the extender, assigning zero to it resets the extender.\<close>

locale pmon_boxes = pmon_units H model units ctl cnt running impl answers
  for H :: "('r, 'm) HWRegister" and model :: cpu_model and units :: "'r UncorePMU set"
    and ctl cnt :: "'m \<Rightarrow> 'r \<Rightarrow> u64" and running :: "'m \<Rightarrow> 'r \<Rightarrow> bool" and impl :: "'r \<Rightarrow> u64" and answers :: "'r \<Rightarrow> bool" +
  fixes flt :: "'m \<Rightarrow> 'r \<Rightarrow> u64" and ext :: "'m \<Rightarrow> 'r \<Rightarrow> extender"
  assumes write_filter: "p \<in> units \<Longrightarrow> filter0 p = Some r \<or> filter1 p = Some r \<Longrightarrow> \<exists>m'. hw_write H r v m = Inr m' \<and>
      flt m' = (flt m)(r := v) \<and> ctl m' = ctl m \<and> cnt m' = cnt m \<and> running m' = running m \<and> ext m' = ext m"
    and write_keeps: "p \<in> units \<Longrightarrow> unitControl p = Some r \<or> r \<in> regs_of (counterControl p) \<Longrightarrow> hw_write H r v m = Inr m' \<Longrightarrow>
      flt m' = flt m \<and> ext m' = ext m"
    and zero_extended: "p \<in> units \<Longrightarrow> r \<in> regs_of (counterValue p) \<Longrightarrow> \<exists>m'. hw_write H r 0 m = Inr m' \<and>
      ext m' = (ext m)(r := ext_reset (cnt m r) (ext m r)) \<and> flt m' = flt m \<and> ctl m' = ctl m \<and> cnt m' = cnt m \<and> running m' = running m"
    and read_extended: "p \<in> units \<Longrightarrow> r \<in> regs_of (counterValue p) \<Longrightarrow> \<exists>m'. hw_read H r m = (fst (ext_read (cnt m r) (ext m r)), m') \<and>
      ext m' = (ext m)(r := snd (ext_read (cnt m r) (ext m r))) \<and> flt m' = flt m \<and> ctl m' = ctl m \<and> cnt m' = cnt m \<and> running m' = running m"
    and filters_apart: "p \<in> units \<Longrightarrow> q \<in> units \<Longrightarrow> p \<noteq> q \<Longrightarrow> {filter0 p, filter1 p} \<inter> {filter0 q, filter1 q} \<subseteq> {None}"
    and own_filters: "p \<in> units \<Longrightarrow> filter0 p \<noteq> None \<Longrightarrow> filter0 p \<noteq> filter1 p"
begin

text \<open>Nothing about a box differs, and only the given boxes do.\<close>

definition same_box :: "'r UncorePMU \<Rightarrow> 'm \<Rightarrow> 'm \<Rightarrow> bool" where
  "same_box p m m' \<longleftrightarrow> same_unit p m m' \<and> (\<forall>r \<in> regs_of (counterValue p). ext m' r = ext m r) \<and>
     (\<forall>r. Some r \<in> {filter0 p, filter1 p} \<longrightarrow> flt m' r = flt m r)"

definition only_boxes :: "'r UncorePMU set \<Rightarrow> 'm \<Rightarrow> 'm \<Rightarrow> bool" where
  "only_boxes ps m m' \<longleftrightarrow> (\<forall>q \<in> units - ps. same_box q m m')"

lemma same_box_refl [simp]: "same_box p m m"
  by (simp add: same_box_def)

lemma same_box_trans: "same_box p a b \<Longrightarrow> same_box p b c \<Longrightarrow> same_box p a c"
  unfolding same_box_def using same_unit_trans by fastforce

lemma only_boxes_refl [simp]: "only_boxes ps m m"
  by (simp add: only_boxes_def)

lemma only_boxes_trans: "only_boxes ps a b \<Longrightarrow> only_boxes ps b c \<Longrightarrow> only_boxes ps a c"
  unfolding only_boxes_def using same_box_trans by blast

lemma only_boxes_mono: "only_boxes ps a b \<Longrightarrow> ps \<subseteq> qs \<Longrightarrow> only_boxes qs a b"
  by (auto simp: only_boxes_def)

lemma only_boxes_keeps:
  assumes "only ps m m'" and "flt m' = flt m" and "ext m' = ext m"
  shows "only_boxes ps m m'"
  using assms by (simp add: only_boxes_def only_def same_box_def)

text \<open>Writes that go through lists of unit and control registers keep filters and extenders.\<close>

definition keeps :: "'m \<Rightarrow> 'm \<Rightarrow> bool" where
  "keeps m m' \<longleftrightarrow> flt m' = flt m \<and> ext m' = ext m"

lemma keeps_trans: "keeps a b \<Longrightarrow> keeps b c \<Longrightarrow> keeps a c"
  by (simp add: keeps_def)

lemma keeps_write:
  assumes "p \<in> units" and "unitControl p = Some r \<or> r \<in> regs_of (counterControl p)" and "hw_write H r v m = Inr m'"
  shows "keeps m m'"
  using write_keeps [OF assms] by (simp add: keeps_def)

lemma keeps_writes:
  assumes "p \<in> units" and "unitControl p = Some r \<or> r \<in> regs_of (counterControl p)"
    and "hw_write H r v m = Inr m1" and "hw_write H r w m1 = Inr m'"
  shows "keeps m m'"
  using keeps_write [OF assms(1,2)] assms(3,4) keeps_trans by blast

lemma keeps_initFreeze:
  assumes "p \<in> units" and "initFreeze H model extra False p m = Inr (w, q, m')"
  shows "keeps m m'"
proof -
  obtain u where u: "unitControl p = Some u" using has_unit [OF assms(1)] by blast
  show ?thesis
    using assms(2) u keeps_writes [OF assms(1) disjI1 [OF u]] by (cases "new_units model") (auto simp: initFreeze_def elim!: rbind_InrE)
qed

lemma keeps_resetUnfreeze:
  assumes "p \<in> units" and "resetUnfreeze H model extra p m = Inr m'"
  shows "keeps m m'"
proof -
  obtain u where u: "unitControl p = Some u" using has_unit [OF assms(1)] by blast
  show ?thesis
    using assms(2) u keeps_writes [OF assms(1) disjI1 [OF u]] by (cases "new_units model") (auto simp: resetUnfreeze_def assign_def elim!: rbind_InrE)
qed

lemma keeps_control:
  assumes "p \<in> units" and "fst ce \<in> set (counterControl p)" and "program_counter_control H model ce m = Inr m'"
  shows "keeps m m'"
proof (cases "fst ce")
  case None
  then show ?thesis using assms(3) by (simp add: program_counter_control_def keeps_def case_prod_beta)
next
  case (Some r)
  then have r: "unitControl p = Some r \<or> r \<in> regs_of (counterControl p)" using assms(2) by (simp add: regs_of_def)
  show ?thesis using assms(3) Some keeps_write [OF assms(1) r] keeps_writes [OF assms(1) r]
    by (cases "new_units model") (auto simp: program_counter_control_def case_prod_beta elim!: rbind_InrE)
qed

lemma keeps_controls:
  assumes "p \<in> units" and "set (map fst ces) \<subseteq> set (counterControl p)" and "rfold (program_counter_control H model) ces m = Inr m'"
  shows "keeps m m'"
  using assms(2,3)
proof (induction ces arbitrary: m)
  case (Cons ce ces)
  from Cons.prems(2) obtain m1 where m1: "program_counter_control H model ce m = Inr m1" "rfold (program_counter_control H model) ces m1 = Inr m'"
    by (auto elim: rbind_InrE)
  show ?case using keeps_trans [OF keeps_control [OF assms(1) _ m1(1)] Cons.IH [OF _ m1(2)]] Cons.prems(1) by simp
qed (simp add: keeps_def)

lemma keeps_program:
  assumes "p \<in> units" and "program_pmu H model p (Some es) extra m = Inr m'"
  shows "keeps m m'"
proof -
  have sub: "set (map fst (zip (counterControl p) es)) \<subseteq> set (counterControl p)" by (auto dest: set_zip_leftD)
  from assms(2) obtain m1 where m1: "rfold (program_counter_control H model) (zip (counterControl p) es) m = Inr m1"
    "(if extra \<noteq> 0 then resetUnfreeze H model extra p m1 else Inr m1) = Inr m'" by (auto simp: program_pmu_def elim: rbind_InrE)
  have "keeps m1 m'" using m1(2) keeps_resetUnfreeze [OF assms(1)] by (cases "extra = 0") (auto simp: keeps_def)
  with keeps_controls [OF assms(1) sub m1(1)] keeps_trans show ?thesis by blast
qed

end

section \<open>Opcode filters\<close>

text \<open>The opcode that the filters of a box select.\<close>

definition opcode_filtered :: "cpu_model \<Rightarrow> u32 \<Rightarrow> ('r \<Rightarrow> u64) \<Rightarrow> 'r UncorePMU \<Rightarrow> bool" where
  "opcode_filtered model opCode flt p \<longleftrightarrow>
     (model = JAKETOWN \<longrightarrow> drop_bit 23 (flt (the (filter0 p))) = ucast opCode) \<and>
     (model \<in> {IVYTOWN, HASWELLX, BDX_DE, BDX} \<longrightarrow> drop_bit 20 (flt (the (filter1 p))) = ucast opCode) \<and>
     (model = SKX \<longrightarrow> take_bit 10 (drop_bit 9 (flt (the (filter1 p)))) = ucast opCode)"

lemma small_bits:
  assumes "(x::u32) < 2 ^ 9" and "9 \<le> n"
  shows "\<not> bit x n"
proof -
  have "take_bit 9 x = x" using assms(1)
    by (intro word_unat_eq_iff [THEN iffD2]) (simp add: word_less_nat_alt unsigned_take_bit_eq take_bit_nat_eq_self)
  then show ?thesis using assms(2) by (metis bit_take_bit_iff not_less)
qed

lemma shifted_opcode:
  assumes "(x::u32) < 2 ^ 9" and "n \<le> 23"
  shows "drop_bit n (ucast (push_bit n x) :: u64) = ucast x"
  using assms(2) small_bits [OF assms(1)] by (intro bit_word_eqI) (auto simp: bit_simps intro: ccontr)

lemma opcode_field:
  assumes "o' < 512" and "s < 512" and "c < 2"
  shows "take_bit 10 (drop_bit 9 (of_nat (512 * o' + s + 2 ^ 30 * c) :: u64)) = of_nat o'"
proof -
  define w where "w = (of_nat (512 * o' + s + 2 ^ 30 * c) :: u64)"
  have "512 * o' + s + 2 ^ 30 * c < 2 ^ 64" using assms by simp
  then have w: "unat w = 512 * o' + s + 2 ^ 30 * c" unfolding w_def by (simp only: unat_of_nat) simp
  have "512 * o' + s + 2 ^ 30 * c = s + 512 * (o' + 1024 * (2048 * c))" by simp
  moreover have "(s + 512 * k) div 512 = k" for k using assms(2) by simp
  moreover have "(o' + 1024 * k) mod 1024 = o'" for k using assms(1) by simp
  ultimately have "(512 * o' + s + 2 ^ 30 * c) div 512 mod 1024 = o'" by metis
  then have "take_bit 10 (drop_bit 9 w) = of_nat o'" using assms(1)
    by (simp add: word_unat_eq_iff unsigned_take_bit_eq unsigned_drop_bit_eq take_bit_eq_mod drop_bit_eq_div unat_of_nat unat_div unat_mod w)
  then show ?thesis by (simp only: w_def)
qed

lemma skx_opcode:
  assumes "(x::u32) < 2 ^ 9"
  shows "take_bit 10 (drop_bit 9 (ucast (SKX_CHA_MSR_PMON_BOX_FILTER1_OPC0 x + SKX_CHA_MSR_PMON_BOX_FILTER1_OPC1 0) +
           (if r then SKX_CHA_MSR_PMON_BOX_FILTER1_REM 1 else 0) + (if l then SKX_CHA_MSR_PMON_BOX_FILTER1_LOC 1 else 0) +
           SKX_CHA_MSR_PMON_BOX_FILTER1_NM 1 + SKX_CHA_MSR_PMON_BOX_FILTER1_NOT_NM 1 +
           (if n then SKX_CHA_MSR_PMON_BOX_FILTER1_NC 1 else 0))) = ucast x" (is "take_bit 10 (drop_bit 9 ?w) = _")
proof -
  have x: "unat x < 512" using assms by (simp add: word_less_nat_alt)
  have "ucast (push_bit 9 x) = (of_nat (512 * unat x) :: u64)"
    using x by (simp add: word_unat_eq_iff unat_of_nat push_bit_eq_mult unat_word_ariths unsigned_ucast_eq take_bit_eq_mod)
  then have "?w = of_nat (512 * unat x + ((if r then 1 else 0) + (if l then 2 else 0) + 16 + 32) + 2 ^ 30 * (if n then 1 else 0))"
    by (simp add: SKX_CHA_MSR_PMON_BOX_FILTER1_OPC0_def SKX_CHA_MSR_PMON_BOX_FILTER1_OPC1_def SKX_CHA_MSR_PMON_BOX_FILTER1_REM_def
        SKX_CHA_MSR_PMON_BOX_FILTER1_LOC_def SKX_CHA_MSR_PMON_BOX_FILTER1_NM_def SKX_CHA_MSR_PMON_BOX_FILTER1_NOT_NM_def
        SKX_CHA_MSR_PMON_BOX_FILTER1_NC_def push_bit_eq_mult)
  then show ?thesis
    using opcode_field [OF x, of "(if r then 1 else 0) + (if l then 2 else 0) + 16 + 32" "if n then 1 else 0"] by simp
qed

section \<open>Programming one box\<close>

text \<open>A box that can be programmed: as many counters as controls, each with a register, and the filters of its processor.\<close>

definition sound_box :: "cpu_model \<Rightarrow> 'r UncorePMU \<Rightarrow> bool" where
  "sound_box model p \<longleftrightarrow> length (counterValue p) = length (counterControl p) \<and> length (counterControl p) \<le> maxCounters \<and>
     None \<notin> set (counterValue p) \<and> (model \<in> {JAKETOWN, HASWELLX, BDX_DE, BDX, SKX} \<longrightarrow> filter0 p \<noteq> None) \<and>
     (model \<in> {IVYTOWN, HASWELLX, BDX_DE, BDX, SKX} \<longrightarrow> filter1 p \<noteq> None)"

definition opcode_filters :: "cpu_model \<Rightarrow> bool" where
  "opcode_filters model \<longleftrightarrow> model \<in> {JAKETOWN, IVYTOWN, HASWELLX, BDX_DE, BDX, SKX}"

definition no_opcode_filters :: "cpu_model \<Rightarrow> bool" where
  "no_opcode_filters model \<longleftrightarrow> model \<in> {ICX, SNOWRIDGE, SPR, EMR, GNR, GNR_D, SRF, GRR}"

text \<open>The filters of a box after programming it with an opcode and a filter for thread identifiers.\<close>

definition filtered :: "cpu_model \<Rightarrow> u32 \<Rightarrow> u32 \<Rightarrow> ('r \<Rightarrow> u64) \<Rightarrow> 'r UncorePMU \<Rightarrow> bool" where
  "filtered model opCode tid flt p \<longleftrightarrow> opcode_filtered model opCode flt p \<and>
     (model \<in> {HASWELLX, BDX_DE, BDX, SKX} \<and> tid \<noteq> 0 \<longrightarrow> flt (the (filter0 p)) = ucast tid)"

lemma ext_reset_twice [simp]: "ext_reset a (ext_reset a e) = ext_reset a e"
  by (simp add: ext_reset_def)

lemma zip_take_events: "length xs \<le> n \<Longrightarrow> zip xs (take n ys) = zip xs ys"
  using take_zip [of n xs ys] by simp

context pmon_boxes
begin

definition filter_change :: "'r UncorePMU \<Rightarrow> 'm \<Rightarrow> 'm \<Rightarrow> bool" where
  "filter_change p m m' \<longleftrightarrow> ctl m' = ctl m \<and> cnt m' = cnt m \<and> running m' = running m \<and> ext m' = ext m \<and>
     (\<forall>r. Some r \<notin> {filter0 p, filter1 p} \<longrightarrow> flt m' r = flt m r)"

lemma filter_change_refl [simp]: "filter_change p m m"
  by (simp add: filter_change_def)

lemma filter_change_trans: "filter_change p a b \<Longrightarrow> filter_change p b c \<Longrightarrow> filter_change p a c"
  by (simp add: filter_change_def)

lemma filter_change_only:
  assumes "p \<in> units" and "filter_change p m m'"
  shows "only_boxes {p} m m'"
  unfolding only_boxes_def
proof
  fix q assume q: "q \<in> units - {p}"
  have "Some r \<in> {filter0 q, filter1 q} \<Longrightarrow> Some r \<notin> {filter0 p, filter1 p}" for r using filters_apart [OF assms(1), of q] q by blast
  then show "same_box q m m'" using assms(2) by (simp add: same_box_def same_unit_def filter_change_def)
qed

lemma filter_write:
  assumes "p \<in> units" and "f = filter0 p \<or> f = filter1 p" and "f \<noteq> None"
  obtains m' where "assign H f v m = Inr m'" and "filter_change p m m'" and "flt m' = (flt m)(the f := v)"
proof -
  obtain r where r: "f = Some r" using assms(3) by blast
  obtain m' where "hw_write H r v m = Inr m'" "flt m' = (flt m)(r := v)" "ctl m' = ctl m" "cnt m' = cnt m" "running m' = running m"
    "ext m' = ext m" using write_filter [OF assms(1), of r v m] assms(2) r by blast
  then show thesis using that [of m'] r assms(2) by (auto simp: assign_def filter_change_def)
qed

lemma opcode_filter_step:
  assumes "p \<in> units" and "sound_box model p" and "opcode_filters model" and "opCode < 2 ^ 9"
  obtains m' where "programCboOpcodeFilter H model opCode p nc 0 loc rem m = Inr m'" and "filter_change p m m'"
    and "opcode_filtered model opCode (flt m') p"
proof -
  let ?f = "if model = JAKETOWN then filter0 p else filter1 p"
  let ?v = "if model = JAKETOWN then ucast (JKT_CBO_MSR_PMON_BOX_FILTER_OPC opCode)
    else if model = SKX then ucast (SKX_CHA_MSR_PMON_BOX_FILTER1_OPC0 opCode + SKX_CHA_MSR_PMON_BOX_FILTER1_OPC1 0) +
           (if rem \<noteq> 0 then SKX_CHA_MSR_PMON_BOX_FILTER1_REM 1 else 0) + (if loc \<noteq> 0 then SKX_CHA_MSR_PMON_BOX_FILTER1_LOC 1 else 0) +
           SKX_CHA_MSR_PMON_BOX_FILTER1_NM 1 + SKX_CHA_MSR_PMON_BOX_FILTER1_NOT_NM 1 +
           (if nc \<noteq> 0 then SKX_CHA_MSR_PMON_BOX_FILTER1_NC 1 else 0)
    else ucast (IVTHSX_CBO_MSR_PMON_BOX_FILTER1_OPC opCode) :: u64"
  have f: "?f = filter0 p \<or> ?f = filter1 p" "?f \<noteq> None" using assms(2,3) by (auto simp: sound_box_def opcode_filters_def)
  obtain m' where m': "assign H ?f ?v m = Inr m'" "filter_change p m m'" "flt m' = (flt m)(the ?f := ?v)"
    by (rule filter_write [OF assms(1) f]) blast
  have "programCboOpcodeFilter H model opCode p nc 0 loc rem m = Inr m'"
    using m'(1) assms(3) by (auto simp: programCboOpcodeFilter_def opcode_filters_def cpu_models)
  moreover have "opcode_filtered model opCode (flt m') p"
    using skx_opcode [OF assms(4)] shifted_opcode [OF assms(4)]
    by (auto simp: m'(3) opcode_filtered_def cpu_models JKT_CBO_MSR_PMON_BOX_FILTER_OPC_def IVTHSX_CBO_MSR_PMON_BOX_FILTER1_OPC_def)
  ultimately show thesis using that m'(2) by blast
qed

lemma zero_counter_step:
  assumes "p \<in> units" and "None \<notin> set (counterValue p)" and "c < length (counterValue p)"
  obtains m' where "zero_counter H p c m = Inr m'" and "flt m' = flt m" and "ctl m' = ctl m" and "cnt m' = cnt m" and "running m' = running m"
    and "ext m' = (ext m)(value_reg c p := ext_reset (cnt m (value_reg c p)) (ext m (value_reg c p)))"
proof -
  have "counterValue p ! c \<noteq> None" using assms(2,3) by (metis nth_mem)
  then obtain r where r: "counterValue p ! c = Some r" by blast
  then have "r \<in> regs_of (counterValue p)" "value_reg c p = r" using assms(3) nth_mem [OF assms(3)] by (simp_all add: regs_of_def value_reg_def)
  then show thesis using zero_extended [OF assms(1), of r m] that assms(3) r by (auto simp: zero_counter_def assign_def)
qed

lemma zero_counter_list_step:
  assumes "p \<in> units" and "None \<notin> set (counterValue p)" and "\<forall>c \<in> set cs. c < length (counterValue p)"
  shows "\<exists>m'. rfold (zero_counter H p) cs m = Inr m' \<and> flt m' = flt m \<and> ctl m' = ctl m \<and> cnt m' = cnt m \<and> running m' = running m \<and>
    ext m' = (\<lambda>r. if r \<in> (\<lambda>c. value_reg c p) ` set cs then ext_reset (cnt m r) (ext m r) else ext m r)"
  using assms(3)
proof (induction cs arbitrary: m)
  case (Cons c cs)
  obtain m1 where m1: "zero_counter H p c m = Inr m1" "flt m1 = flt m" "ctl m1 = ctl m" "cnt m1 = cnt m" "running m1 = running m"
    "ext m1 = (ext m)(value_reg c p := ext_reset (cnt m (value_reg c p)) (ext m (value_reg c p)))"
    by (rule zero_counter_step [OF assms(1,2), of c m]) (use Cons.prems in auto)
  obtain m' where "rfold (zero_counter H p) cs m1 = Inr m'" "flt m' = flt m1" "ctl m' = ctl m1" "cnt m' = cnt m1" "running m' = running m1"
    "ext m' = (\<lambda>r. if r \<in> (\<lambda>c. value_reg c p) ` set cs then ext_reset (cnt m1 r) (ext m1 r) else ext m1 r)"
    using Cons.IH [of m1] Cons.prems by auto
  then show ?case using m1 by (auto simp: fun_eq_iff)
qed (simp add: fun_eq_iff)

lemma value_regs: "None \<notin> set (counterValue p) \<Longrightarrow> (\<lambda>c. value_reg c p) ` {..<length (counterValue p)} = regs_of (counterValue p)"
  by (force simp: value_reg_def regs_of_def in_set_conv_nth image_iff)

lemma zero_counters_step:
  assumes "p \<in> units" and "sound_box model p"
  obtains m' where "zero_counters H p m = Inr m'" and "only_boxes {p} m m'" and "flt m' = flt m" and "ctl m' = ctl m" and "cnt m' = cnt m"
    and "running m' = running m" and "\<And>r. r \<in> regs_of (counterValue p) \<Longrightarrow> ext m' r = ext_reset (cnt m r) (ext m r)"
proof -
  let ?n = "min maxCounters (length (counterControl p))"
  have n: "?n = length (counterValue p)" and none: "None \<notin> set (counterValue p)" using assms(2) by (simp_all add: sound_box_def)
  obtain m' where m': "rfold (zero_counter H p) [0..<?n] m = Inr m'" "flt m' = flt m" "ctl m' = ctl m" "cnt m' = cnt m" "running m' = running m"
    "ext m' = (\<lambda>r. if r \<in> (\<lambda>c. value_reg c p) ` set [0..<?n] then ext_reset (cnt m r) (ext m r) else ext m r)"
    using zero_counter_list_step [OF assms(1) none, of "[0..<?n]" m] n by auto
  have e: "ext m' = (\<lambda>r. if r \<in> regs_of (counterValue p) then ext_reset (cnt m r) (ext m r) else ext m r)"
    using m'(6) value_regs [OF none] n by (simp add: atLeast0LessThan)
  have "same_box q m m'" if "q \<in> units - {p}" for q
    using separate [OF assms(1), of q] that m'(2-5) unfolding same_box_def same_unit_def e by auto
  then have "only_boxes {p} m m'" by (simp add: only_boxes_def)
  then show thesis using that [of m'] m'(1-5) e by (simp add: zero_counters_def)
qed

lemma only_keeps: "only ps m m' \<Longrightarrow> keeps m m' \<Longrightarrow> only_boxes ps m m'"
  by (rule only_boxes_keeps) (simp_all add: keeps_def)

text \<open>What programming leaves behind: the events, filters and extenders of one box.\<close>

definition box_ready :: "u64 list \<Rightarrow> u32 \<Rightarrow> u32 \<Rightarrow> 'r UncorePMU \<Rightarrow> 'm \<Rightarrow> 'm \<Rightarrow> bool" where
  "box_ready es opCode tid p m m' \<longleftrightarrow> programmed p es m' \<and> filtered model opCode tid (flt m') p \<and>
     (\<forall>r \<in> regs_of (counterValue p). ext m' r = ext_reset 0 (ext m r))"

lemma filters_step:
  assumes "p \<in> units" and "sound_box model p" and "opcode_filters model \<or> no_opcode_filters model" and "opCode < 2 ^ 9"
  obtains m1 m2 where "(if model \<notin> {ICX, SNOWRIDGE, SPR, EMR, GNR, GNR_D, SRF, GRR}
       then programCboOpcodeFilter H model opCode p nc 0 loc rem m else Inr m) = Inr m1"
    and "(if model \<in> {HASWELLX, BDX_DE, BDX, SKX} \<and> tid \<noteq> 0 then assign H (filter0 p) (ucast tid) m1 else Inr m1) = Inr m2"
    and "filter_change p m m2" and "filtered model opCode tid (flt m2) p"
proof (cases "opcode_filters model")
  case True
  then have old: "model \<notin> {ICX, SNOWRIDGE, SPR, EMR, GNR, GNR_D, SRF, GRR}" by (auto simp: opcode_filters_def cpu_models)
  obtain m1 where m1: "programCboOpcodeFilter H model opCode p nc 0 loc rem m = Inr m1" "filter_change p m m1"
    "opcode_filtered model opCode (flt m1) p" by (rule opcode_filter_step [OF assms(1,2) True assms(4)]) blast
  show thesis
  proof (cases "model \<in> {HASWELLX, BDX_DE, BDX, SKX} \<and> tid \<noteq> 0")
    case tid: True
    have f: "filter0 p \<noteq> None" "filter1 p \<noteq> None" using assms(2) tid by (auto simp: sound_box_def)
    obtain m2 where m2: "assign H (filter0 p) (ucast tid) m1 = Inr m2" "filter_change p m1 m2" "flt m2 = (flt m1)(the (filter0 p) := ucast tid)"
      by (rule filter_write [OF assms(1) _ f(1), of "ucast tid" m1]) auto
    have "model \<noteq> JAKETOWN" using tid by (auto simp: cpu_models)
    moreover have "the (filter1 p) \<noteq> the (filter0 p)" using own_filters [OF assms(1) f(1)] f by (auto simp: option.the_def split: option.splits)
    ultimately have "filtered model opCode tid (flt m2) p" using m1(3) m2(3) tid by (simp add: filtered_def opcode_filtered_def)
    then show thesis using that [of m1 m2] m1(1) m2(1) old tid filter_change_trans [OF m1(2) m2(2)] by simp
  next
    case False
    then show thesis using that [of m1 m1] m1 old by (auto simp: filtered_def)
  qed
next
  case False
  then have new: "model \<in> {ICX, SNOWRIDGE, SPR, EMR, GNR, GNR_D, SRF, GRR}" using assms(3) by (simp add: no_opcode_filters_def)
  then have "model \<notin> {JAKETOWN, IVYTOWN, HASWELLX, BDX_DE, BDX, SKX}" by (auto simp: cpu_models)
  then show thesis using that [of m m] new by (auto simp: filtered_def opcode_filtered_def)
qed

lemma programmed_take: "length (counterControl p) \<le> n \<Longrightarrow> programmed p (take n es) m = programmed p es m"
  by (simp add: programmed_def controls_set_def zip_take_events)

lemma program_array_step:
  assumes "p \<in> units" and "sound_box model p" and "length (counterControl p) \<le> length es"
  obtains m' where "program_array H model p es maxCounters UNC_PMON_UNIT_CTL_FRZ_EN m = Inr m'" and "only_boxes {p} m m'"
    and "programmed p es m'" and "keeps m m'"
proof -
  have n: "length (counterControl p) \<le> maxCounters" using assms(2) by (simp add: sound_box_def)
  obtain m' where m': "program_pmu H model p (Some (take maxCounters es)) UNC_PMON_UNIT_CTL_FRZ_EN m = Inr m'" "only {p} m m'"
    "programmed p (take maxCounters es) m'" by (rule program_pmu_step [OF assms(1), of UNC_PMON_UNIT_CTL_FRZ_EN]) auto
  have k: "keeps m m'" by (rule keeps_program [OF assms(1) m'(1)])
  show thesis using that [of m'] m' only_keeps [OF m'(2) k] k assms(3) n programmed_take [OF n] by (simp add: program_array_def)
qed

lemma programCbo_unit_step:
  assumes "p \<in> units" and "sound_box model p" and "opcode_filters model \<or> no_opcode_filters model" and "opCode < 2 ^ 9"
    and "length (counterControl p) \<le> length es"
  shows "\<exists>m'. programCbo_unit H model es opCode nc tid loc rem p m = Inr m' \<and> only_boxes {p} m m' \<and> box_ready es opCode tid p m m'"
proof -
  obtain m1 where m1: "initFreeze H model UNC_PMON_UNIT_CTL_FRZ_EN False p m = Inr (True, p, m1)" "only {p} m m1"
    by (rule initFreeze_step [OF assms(1), of UNC_PMON_UNIT_CTL_FRZ_EN]) auto
  have k1: "keeps m m1" by (rule keeps_initFreeze [OF assms(1) m1(1)])
  obtain m2 m3 where m2: "(if model \<notin> {ICX, SNOWRIDGE, SPR, EMR, GNR, GNR_D, SRF, GRR}
       then programCboOpcodeFilter H model opCode p nc 0 loc rem m1 else Inr m1) = Inr m2"
    "(if model \<in> {HASWELLX, BDX_DE, BDX, SKX} \<and> tid \<noteq> 0 then assign H (filter0 p) (ucast tid) m2 else Inr m2) = Inr m3"
    "filter_change p m1 m3" "filtered model opCode tid (flt m3) p"
    by (rule filters_step [OF assms(1-4)]) blast
  obtain m4 where m4: "program_array H model p es maxCounters UNC_PMON_UNIT_CTL_FRZ_EN m3 = Inr m4" "only_boxes {p} m3 m4"
    "programmed p es m4" "keeps m3 m4" by (rule program_array_step [OF assms(1,2,5)]) blast
  obtain m5 where m5: "zero_counters H p m4 = Inr m5" "only_boxes {p} m4 m5" "flt m5 = flt m4" "ctl m5 = ctl m4" "cnt m5 = cnt m4"
    "running m5 = running m4" "\<And>r. r \<in> regs_of (counterValue p) \<Longrightarrow> ext m5 r = ext_reset (cnt m4 r) (ext m4 r)"
    by (rule zero_counters_step [OF assms(1,2)]) blast
  have run: "programCbo_unit H model es opCode nc tid loc rem p m = Inr m5"
    unfolding programCbo_unit_def using m1(1) m2(1,2) m4(1) m5(1) by simp
  have others: "only_boxes {p} m m5"
    using only_keeps [OF m1(2) k1] filter_change_only [OF assms(1) m2(3)] m4(2) m5(2) only_boxes_trans by blast
  have "programmed p es m5" using m4(3) m5(4-6) by (simp add: programmed_def controls_set_def)
  moreover have "filtered model opCode tid (flt m5) p" using m2(4) m4(4) m5(3) by (simp add: keeps_def)
  moreover have "\<forall>r \<in> regs_of (counterValue p). ext m5 r = ext_reset 0 (ext m r)"
    using m5(7) m4(3,4) k1 m2(3) by (simp add: programmed_def keeps_def filter_change_def)
  ultimately show ?thesis using run others by (simp add: box_ready_def)
qed

text \<open>Programming other boxes does not disturb a box.\<close>

lemma filtered_same:
  assumes "sound_box model p" and "same_box p b c" and "filtered model opCode tid (flt b) p"
  shows "filtered model opCode tid (flt c) p"
proof -
  have f0: "flt c (the (filter0 p)) = flt b (the (filter0 p))" if "filter0 p \<noteq> None"
    using assms(2) that by (cases "filter0 p") (simp_all add: same_box_def)
  have f1: "flt c (the (filter1 p)) = flt b (the (filter1 p))" if "filter1 p \<noteq> None"
    using assms(2) that by (cases "filter1 p") (simp_all add: same_box_def)
  have g0: "flt c (the (filter0 p)) = flt b (the (filter0 p))" if "model \<in> {JAKETOWN, HASWELLX, BDX_DE, BDX, SKX}"
    using f0 assms(1) that unfolding sound_box_def by blast
  have g1: "flt c (the (filter1 p)) = flt b (the (filter1 p))" if "model \<in> {IVYTOWN, HASWELLX, BDX_DE, BDX, SKX}"
    using f1 assms(1) that unfolding sound_box_def by blast
  show ?thesis
    unfolding filtered_def opcode_filtered_def
  proof (intro conjI impI)
    assume m: "model = JAKETOWN"
    show "drop_bit 23 (flt c (the (filter0 p))) = ucast opCode"
      by (subst g0) (use m assms(3) in \<open>simp_all add: filtered_def opcode_filtered_def\<close>)
  next
    assume m: "model \<in> {IVYTOWN, HASWELLX, BDX_DE, BDX}"
    show "drop_bit 20 (flt c (the (filter1 p))) = ucast opCode"
      by (subst g1) (use m assms(3) in \<open>unfold filtered_def opcode_filtered_def, blast+\<close>)
  next
    assume m: "model = SKX"
    show "take_bit 10 (drop_bit 9 (flt c (the (filter1 p)))) = ucast opCode"
      by (subst g1) (use m assms(3) in \<open>simp_all add: filtered_def opcode_filtered_def\<close>)
  next
    assume m: "model \<in> {HASWELLX, BDX_DE, BDX, SKX} \<and> tid \<noteq> 0"
    show "flt c (the (filter0 p)) = ucast tid"
      by (subst g0) (use m assms(3) in \<open>unfold filtered_def, blast+\<close>)
  qed
qed

lemma box_ready_after:
  assumes "p \<in> units" and "sound_box model p" and "same_box p b c" and "box_ready es opCode tid p a b"
  shows "box_ready es opCode tid p a c"
proof -
  have "programmed p es c" using programmed_same [of p b c es] assms(1,3,4) by (simp add: same_box_def box_ready_def)
  moreover have "filtered model opCode tid (flt c) p" using filtered_same [OF assms(2,3)] assms(4) by (simp add: box_ready_def)
  ultimately show ?thesis using assms(3,4) by (simp add: same_box_def box_ready_def)
qed

lemma box_ready_before:
  assumes "same_box p a b" and "box_ready es opCode tid p b c"
  shows "box_ready es opCode tid p a c"
  using assms by (simp add: same_box_def box_ready_def)

end

section \<open>All boxes\<close>

lemma rfold_units: "rfold (on_unit f) es = rfold f (map the (filter (\<lambda>e. e \<noteq> None) es))"
  by (induction es) (auto simp: on_unit_def intro!: ext)

lemma rfold_concat: "rfold (\<lambda>x. rfold f (g x)) xs = rfold f (concat (map g xs))"
  by (induction xs) (auto simp: rfold_append intro!: ext)

text \<open>The cache boxes of all sockets.\<close>

definition all_units :: "'r uncore_pcm \<Rightarrow> UncorePMUIDs \<Rightarrow> 'r UncorePMU list" where
  "all_units st pmu_id = concat (map (\<lambda>s. units_of s pmu_id) (uncorePMUs st))"

lemma programUncorePMUs_units:
  assumes "up_msr st"
  shows "programUncorePMUs st pmu_id f m = rfold f (all_units st pmu_id) m"
proof -
  have "rfold (\<lambda>die. rfold (on_unit f) (die pmu_id)) = (\<lambda>s. rfold f (units_of s pmu_id))"
    by (simp add: rfold_units units_of_def fun_eq_iff rfold_concat [where g = "\<lambda>die. map the (filter (\<lambda>e. e \<noteq> None) (die pmu_id))"] del: not_None_eq)
  then show ?thesis using assms by (simp add: programUncorePMUs_def all_units_def rfold_concat)
qed

text \<open>Boxes of a processor whose boxes the code can program; every event list has an entry for each counter.\<close>

definition sound_boxes :: "'r UncorePMU set \<Rightarrow> 'r uncore_pcm \<Rightarrow> bool" where
  "sound_boxes units st \<longleftrightarrow> up_msr st \<and> (opcode_filters (up_model st) \<or> no_opcode_filters (up_model st)) \<and>
     distinct (all_units st CBO_PMU_ID) \<and> set (all_units st CBO_PMU_ID) \<subseteq> units \<and>
     (\<forall>p \<in> set (all_units st CBO_PMU_ID). sound_box (up_model st) p \<and> length (counterControl p) = 4)"

context pmon_boxes
begin

lemma boxes_step:
  assumes "\<And>p m. p \<in> set ps \<Longrightarrow> \<exists>m'. f p m = Inr m' \<and> only_boxes {p} m m' \<and> box_ready es opCode tid p m m'" and "distinct ps"
    and "set ps \<subseteq> units" and "\<forall>p \<in> set ps. sound_box model p"
  shows "\<exists>m'. rfold f ps m = Inr m' \<and> only_boxes (set ps) m m' \<and> (\<forall>p \<in> set ps. box_ready es opCode tid p m m')"
  using assms
proof (induction ps arbitrary: m)
  case (Cons p ps)
  obtain m1 where m1: "f p m = Inr m1" "only_boxes {p} m m1" "box_ready es opCode tid p m m1" using Cons.prems(1) [of p m] by auto
  obtain m' where m': "rfold f ps m1 = Inr m'" "only_boxes (set ps) m1 m'" "\<forall>q \<in> set ps. box_ready es opCode tid q m1 m'"
    using Cons.IH [of m1] Cons.prems by auto
  have "same_box p m1 m'" using m'(2) Cons.prems(2,3) by (auto simp: only_boxes_def)
  then have "box_ready es opCode tid p m m'" using box_ready_after [of p] m1(3) Cons.prems(3,4) by auto
  moreover have "box_ready es opCode tid q m m'" if "q \<in> set ps" for q
  proof -
    have "same_box q m m1" using m1(2) Cons.prems(2,3) that by (auto simp: only_boxes_def)
    then show ?thesis using box_ready_before m'(3) that by blast
  qed
  moreover have "only_boxes (set (p # ps)) m m'"
    using only_boxes_trans [OF only_boxes_mono [OF m1(2)] only_boxes_mono [OF m'(2)], of "set (p # ps)"] by auto
  ultimately show ?case using m1(1) m'(1) by auto
qed simp

lemma programCbo_step:
  assumes "sound_boxes units st" and "up_model st = model" and "opCode < 2 ^ 9" and "4 \<le> length es"
  shows "\<exists>m'. programCbo_events H st es opCode nc tid loc rem m = Inr m' \<and> only_boxes (set (all_units st CBO_PMU_ID)) m m' \<and>
    (\<forall>p \<in> set (all_units st CBO_PMU_ID). box_ready es opCode tid p m m')"
proof -
  have "\<exists>m'. rfold (programCbo_unit H model es opCode nc tid loc rem) (all_units st CBO_PMU_ID) m = Inr m' \<and>
      only_boxes (set (all_units st CBO_PMU_ID)) m m' \<and> (\<forall>p \<in> set (all_units st CBO_PMU_ID). box_ready es opCode tid p m m')"
    by (rule boxes_step, rule programCbo_unit_step) (use assms in \<open>auto simp: sound_boxes_def\<close>)
  then show ?thesis using assms(1,2) by (simp add: programCbo_events_def programUncorePMUs_units sound_boxes_def)
qed

end

section \<open>Counting\<close>

text \<open>Events that the boxes see; a running counter counts them modulo \<open>2 ^ 48\<close>.\<close>

definition boxes_pass ::
  "'r UncorePMU set \<Rightarrow> ('m \<Rightarrow> 'r \<Rightarrow> u64) \<Rightarrow> ('m \<Rightarrow> 'r \<Rightarrow> u64) \<Rightarrow> ('m \<Rightarrow> 'r \<Rightarrow> bool) \<Rightarrow> ('m \<Rightarrow> 'r \<Rightarrow> extender) \<Rightarrow> ('r \<Rightarrow> nat) \<Rightarrow> 'm \<Rightarrow> 'm \<Rightarrow> bool" where
  "boxes_pass units ctl cnt running ext ev m m' \<longleftrightarrow> elapsed units ctl cnt running ev m m' \<and> ext m' = ext m"

text \<open>A session: the boxes count, the watchdogs of the extenders and the clients read. \<open>tot\<close> is how many events each counter has seen,
  \<open>seen\<close> how many of them its extender knows of; an extender never misses \<open>2 ^ 48\<close> of them.\<close>

inductive box_session ::
  "('r, 'm) HWRegister \<Rightarrow> 'r uncore_pcm \<Rightarrow> (('r \<Rightarrow> nat) \<Rightarrow> 'm \<Rightarrow> 'm \<Rightarrow> bool) \<Rightarrow> 'm \<Rightarrow> ('r \<Rightarrow> nat) \<Rightarrow> ('r \<Rightarrow> nat) \<Rightarrow> 'm \<Rightarrow> bool"
  for H st passes m where
  session_start: "box_session H st passes m (\<lambda>_. 0) (\<lambda>_. 0) m"
| session_count: "box_session H st passes m tot seen m1 \<Longrightarrow> passes ev m1 m2 \<Longrightarrow>
    \<forall>p \<in> set (all_units st CBO_PMU_ID). \<forall>r \<in> regs_of (counterValue p). tot r + ev r - seen r < 2 ^ 48 \<Longrightarrow>
    box_session H st passes m (\<lambda>r. tot r + ev r) seen m2"
| session_watchdog: "box_session H st passes m tot seen m1 \<Longrightarrow> p \<in> set (all_units st CBO_PMU_ID) \<Longrightarrow> r \<in> regs_of (counterValue p) \<Longrightarrow>
    box_session H st passes m tot (seen(r := tot r)) (snd (hw_read H r m1))"
| session_read: "box_session H st passes m tot seen m1 \<Longrightarrow> ctr < 4 \<Longrightarrow> getUncoreCounterState H st CBO_PMU_ID socket ctr m1 = Inr (v, m2) \<Longrightarrow>
    box_session H st passes m tot (\<lambda>r. if socket < length (uncorePMUs st) \<and>
      r \<in> value_reg ctr ` set (units_of (uncorePMUs st ! socket) CBO_PMU_ID) then tot r else seen r) m2"

lemma raw48_value: "unat (raw_value 48 n) = n mod 2 ^ 48"
  using raw48.sample_value [of n] by simp

lemma raw48_add: "of_nat ((unat (raw_value 48 n) + d) mod 2 ^ 48) = raw_value 48 (n + d)"
  unfolding raw48_value by (simp add: raw_value_def mod_add_left_eq del: of_nat_mod)

lemma tracks_zero: "counter_width e = 48 \<Longrightarrow> raw48.tracks 0 0 (ext_reset 0 e)"
  by (simp add: raw48.tracks_def ext_reset_def)

lemma units_of_all: "socket < length (uncorePMUs st) \<Longrightarrow> set (units_of (uncorePMUs st ! socket) pmu_id) \<subseteq> set (all_units st pmu_id)"
  by (force simp: all_units_def)

context pmon_boxes
begin

definition counter_known :: "nat \<Rightarrow> nat \<Rightarrow> 'm \<Rightarrow> 'r \<Rightarrow> bool" where
  "counter_known t s m r \<longleftrightarrow> cnt m r = raw_value 48 t \<and> raw48.tracks 0 s (ext m r) \<and> s \<le> t \<and> t - s < 2 ^ 48"

definition boxes_known :: "'r UncorePMU list \<Rightarrow> ('r \<Rightarrow> nat) \<Rightarrow> ('r \<Rightarrow> nat) \<Rightarrow> 'm \<Rightarrow> bool" where
  "boxes_known ps tot seen m \<longleftrightarrow> (\<forall>p \<in> set ps. running m (the (unitControl p)) \<and>
     (\<forall>r \<in> regs_of (counterValue p). counter_known (tot r) (seen r) m r))"

lemma known_start:
  assumes "\<forall>p \<in> set ps. box_ready es opCode tid p m m' \<and> (\<forall>r \<in> regs_of (counterValue p). counter_width (ext m r) = 48)"
  shows "boxes_known ps (\<lambda>_. 0) (\<lambda>_. 0) m'"
  using assms tracks_zero by (simp add: boxes_known_def counter_known_def box_ready_def programmed_def raw_value_def)

lemma known_pass:
  assumes "boxes_known ps tot seen m" and "boxes_pass units ctl cnt running ext ev m m'" 
    and "\<forall>p \<in> set ps. \<forall>r \<in> regs_of (counterValue p). tot r + ev r - seen r < 2 ^ 48" and "set ps \<subseteq> units"
  shows "boxes_known ps (\<lambda>r. tot r + ev r) seen m'"
  unfolding boxes_known_def
proof
  fix p assume p: "p \<in> set ps"
  then have u: "p \<in> units" and run: "running m (the (unitControl p))" "running m' = running m"
    using assms(1,2,4) by (auto simp: boxes_known_def boxes_pass_def elapsed_def)
  have "counter_known (tot r + ev r) (seen r) m' r" if "r \<in> regs_of (counterValue p)" for r
  proof -
    have k: "counter_known (tot r) (seen r) m r" using assms(1) p that by (simp add: boxes_known_def)
    have "cnt m' r = of_nat ((unat (cnt m r) + ev r) mod 2 ^ 48)" "ext m' = ext m"
      using assms(2) u run that by (simp_all add: boxes_pass_def elapsed_def)
    moreover have "cnt m r = raw_value 48 (tot r)" using k by (simp add: counter_known_def)
    ultimately have "cnt m' r = raw_value 48 (tot r + ev r)" "ext m' = ext m" by (simp_all only: raw48_add)
    then show ?thesis using k assms(3) p that by (auto simp: counter_known_def)
  qed
  then show "running m' (the (unitControl p)) \<and> (\<forall>r \<in> regs_of (counterValue p). counter_known (tot r + ev r) (seen r) m' r)"
    using run by simp
qed

text \<open>A read of one counter, by its watchdog or by a client.\<close>

lemma known_read:
  assumes "boxes_known ps tot seen m" and "p \<in> set ps" and "set ps \<subseteq> units" and "r \<in> regs_of (counterValue p)"
  shows "\<exists>m'. hw_read H r m = (of_nat (tot r), m') \<and> boxes_known ps tot (seen(r := tot r)) m'"
proof -
  obtain m' where m': "hw_read H r m = (fst (ext_read (cnt m r) (ext m r)), m')" "ext m' = (ext m)(r := snd (ext_read (cnt m r) (ext m r)))"
    "cnt m' = cnt m" "running m' = running m" using read_extended [of p r m] assms(2-4) by blast
  have k: "counter_known (tot r) (seen r) m r" using assms by (simp add: boxes_known_def)
  have e: "raw48.tracks 0 (tot r) (snd (ext_read (cnt m r) (ext m r)))" "fst (ext_read (cnt m r) (ext m r)) = of_nat (tot r)"
    using raw48.tracks_read [of 0 "seen r" "ext m r" "tot r"] k by (simp_all add: counter_known_def ext_read_def)
  have "boxes_known ps tot (seen(r := tot r)) m'"
    using assms(1) m' e(1) k by (auto simp: boxes_known_def counter_known_def)
  then show ?thesis using m'(1) e(2) by simp
qed

lemma known_read_boxes:
  assumes "boxes_known ps tot seen m" and "set ps \<subseteq> units" and "set qs \<subseteq> set ps" and "\<forall>p \<in> set ps. ctr < length (counterValue p) \<and> None \<notin> set (counterValue p)"
  shows "\<exists>m'. rfold (\<lambda>p (acc, m). rbind (read_value H ctr p m) (\<lambda>(v, m1). Inr (acc + v, m1))) qs (acc, m) =
      Inr (acc + of_nat (\<Sum>p \<leftarrow> qs. tot (value_reg ctr p)), m') \<and>
    boxes_known ps tot (\<lambda>r. if r \<in> value_reg ctr ` set qs then tot r else seen r) m'"
  using assms(1,3)
proof (induction qs arbitrary: acc m seen)
  case (Cons q qs)
  have q: "q \<in> set ps" "ctr < length (counterValue q)" "counterValue q ! ctr \<noteq> None" using Cons.prems(2) assms(4) by (auto simp: in_set_conv_nth)
  then have v: "counterValue q ! ctr = Some (value_reg ctr q)" "value_reg ctr q \<in> regs_of (counterValue q)"
    using nth_mem [OF q(2)] by (auto simp: value_reg_def regs_of_def)
  obtain m1 where m1: "hw_read H (value_reg ctr q) m = (of_nat (tot (value_reg ctr q)), m1)"
    "boxes_known ps tot (seen(value_reg ctr q := tot (value_reg ctr q))) m1" using known_read [OF Cons.prems(1) q(1) assms(2) v(2)] by blast
  have r: "read_value H ctr q m = Inr (of_nat (tot (value_reg ctr q)), m1)" using q(2) v(1) m1(1) by (simp add: read_value_def fetch_def)
  have seen: "(\<lambda>r. if r \<in> value_reg ctr ` set qs then tot r else (seen(value_reg ctr q := tot (value_reg ctr q))) r) =
    (\<lambda>r. if r \<in> value_reg ctr ` set (q # qs) then tot r else seen r)" by (auto simp: fun_eq_iff)
  show ?case using Cons.IH [OF m1(2), of "acc + of_nat (tot (value_reg ctr q))"] Cons.prems(2) unfolding seen by (simp add: r add.assoc)
qed simp

lemma known_state:
  assumes "boxes_known (all_units st CBO_PMU_ID) tot seen m" and "sound_boxes units st" and "socket < length (uncorePMUs st)" and "ctr < 4"
  shows "\<exists>m'. getUncoreCounterState H st CBO_PMU_ID socket ctr m =
      Inr (of_nat (\<Sum>p \<leftarrow> units_of (uncorePMUs st ! socket) CBO_PMU_ID. tot (value_reg ctr p)), m') \<and>
    boxes_known (all_units st CBO_PMU_ID) tot
      (\<lambda>r. if r \<in> value_reg ctr ` set (units_of (uncorePMUs st ! socket) CBO_PMU_ID) then tot r else seen r) m'"
proof -
  have "set (all_units st CBO_PMU_ID) \<subseteq> units"
    "\<forall>p \<in> set (all_units st CBO_PMU_ID). ctr < length (counterValue p) \<and> None \<notin> set (counterValue p)"
    using assms(2,4) by (auto simp: sound_boxes_def sound_box_def)
  from known_read_boxes [OF assms(1) this(1) units_of_all [OF assms(3)] this(2), of 0] assms(3,4) show ?thesis
    by (simp add: getUncoreCounterState_def sum_read_def maxCounters_def)
qed

lemma session_known:
  assumes "box_session H st (boxes_pass units ctl cnt running ext) m tot seen m'" and "boxes_known (all_units st CBO_PMU_ID) (\<lambda>_. 0) (\<lambda>_. 0) m"
    and "sound_boxes units st"
  shows "boxes_known (all_units st CBO_PMU_ID) tot seen m'"
  using assms(1)
proof (induction rule: box_session.induct)
  case session_start
  show ?case by (rule assms(2))
next
  case (session_count tot seen m1 ev m2)
  then show ?case using known_pass assms(3) by (simp add: sound_boxes_def)
next
  case (session_watchdog tot seen m1 p r)
  then show ?case using known_read [of "all_units st CBO_PMU_ID" tot seen m1 p r] assms(3) by (auto simp: sound_boxes_def fun_upd_def)
next
  case (session_read tot seen m1 ctr socket v m2)
  show ?case
  proof (cases "socket < length (uncorePMUs st)")
    case True
    then show ?thesis using known_state [OF session_read.IH assms(3) True session_read.hyps(2)] session_read.hyps(3) by auto
  next
    case False
    then show ?thesis using session_read by (simp add: getUncoreCounterState_def)
  qed
qed

end

section \<open>The boxes of a Broadwell server\<close>

text \<open>Registers of 24 cache boxes, 16 addresses each: unit control, four counter controls, two filters and, from offset 8, four
  counters. The reset bits of a unit control clear themselves and the registers they reset; counters ignore writes.\<close>

definition box_write :: "nat \<Rightarrow> u64 \<Rightarrow> u64 \<Rightarrow> (nat \<Rightarrow> u64) \<Rightarrow> nat \<Rightarrow> u64" where
  "box_write h a v s = (let n = unat a in
     if h \<noteq> 0 \<or> n mod 16 \<in> {8, 9, 10, 11} then s
     else if n mod 16 = 0 then (\<lambda>k.
       if k = n then v AND NOT 3
       else if k div 16 = n div 16 \<and> k mod 16 \<in> {1, 2, 3, 4} \<and> bit v 0 then 0
       else if k div 16 = n div 16 \<and> k mod 16 \<in> {8, 9, 10, 11} \<and> bit v 1 then 0 else s k)
     else s(n := v))"

definition box_bus :: "(nat \<Rightarrow> u64) bus" where
  "box_bus = \<lparr>pci_write32 = \<lambda>_ _ _ s. s, pci_read32 = \<lambda>_ _ _. 0, pci_read64 = \<lambda>_ _ _. 0, mmio_write32 = \<lambda>_ _ _ s. Inr s,
     mmio_write64 = \<lambda>_ _ _ s. Inr s, mmio_read32 = \<lambda>_ _ _. 0, mmio_read64 = \<lambda>_ _ _. 0, msr_write = box_write,
     msr_read = \<lambda>_ a s. s (unat a), raw_counter = \<lambda>e s. s e\<rparr>"

abbreviation box_registers :: "(hw_register, (nat \<Rightarrow> u64) hw_state) HWRegister" where
  "box_registers \<equiv> registers box_bus"

fun box_ctl :: "(nat \<Rightarrow> u64) hw_state \<Rightarrow> hw_register \<Rightarrow> u64" where
  "box_ctl m (MSRRegister h a) = (if h = 0 \<and> unat a mod 16 \<in> {1, 2, 3, 4} then hw_bus m (unat a) else 0)"
| "box_ctl m _ = 0"

fun box_cnt :: "(nat \<Rightarrow> u64) hw_state \<Rightarrow> hw_register \<Rightarrow> u64" where
  "box_cnt m (CounterWidthExtenderRegister e) = (if e mod 16 \<in> {8, 9, 10, 11} then hw_bus m e else 0)"
| "box_cnt m _ = 0"

fun box_running :: "(nat \<Rightarrow> u64) hw_state \<Rightarrow> hw_register \<Rightarrow> bool" where
  "box_running m (MSRRegister h a) = (h = 0 \<and> unat a mod 16 = 0 \<and> \<not> bit (hw_bus m (unat a)) 8)"
| "box_running m _ = False"

fun box_flt :: "(nat \<Rightarrow> u64) hw_state \<Rightarrow> hw_register \<Rightarrow> u64" where
  "box_flt m (MSRRegister h a) = (if h = 0 \<and> unat a mod 16 \<in> {5, 6} then hw_bus m (unat a) else 0)"
| "box_flt m _ = 0"

fun box_ext :: "(nat \<Rightarrow> u64) hw_state \<Rightarrow> hw_register \<Rightarrow> extender" where
  "box_ext m (CounterWidthExtenderRegister e) = hw_extenders m e"
| "box_ext m _ = CounterWidthExtender 0 48 0"

definition box_msr :: "nat \<Rightarrow> nat \<Rightarrow> u64" where
  "box_msr c k = of_nat (0xE00 + 16 * c + k)"

definition box_of :: "nat \<Rightarrow> hw_register UncorePMU" where
  "box_of c = UncorePMU4 (Some (MSRRegister 0 (box_msr c 0))) (map (\<lambda>k. Some (MSRRegister 0 (box_msr c k))) [1, 2, 3, 4])
     (map (\<lambda>k. Some (CounterWidthExtenderRegister (unat (box_msr c k)))) [8, 9, 10, 11]) None None
     (Some (MSRRegister 0 (box_msr c 5))) (Some (MSRRegister 0 (box_msr c 6)))"

abbreviation bdx_boxes :: "hw_register UncorePMU set" where
  "bdx_boxes \<equiv> box_of ` {..<24}"

lemma unat_box_msr: "c < 24 \<Longrightarrow> k < 16 \<Longrightarrow> unat (box_msr c k) = 0xE00 + 16 * c + k"
  unfolding box_msr_def by (simp only: unat_of_nat) simp

lemma box_msr_32: "c < 24 \<Longrightarrow> k < 16 \<Longrightarrow> ucast (of_nat (0xE00 + 16 * c + k) :: u32) = box_msr c k"
  unfolding box_msr_def by (simp only: word_unat_eq_iff unat_of_nat unsigned_ucast_eq) (simp add: take_bit_eq_mod)

lemma bdx_box:
  assumes "c < 24"
  shows "cbo_pmu BDX (\<lambda>_ a. unat a) 0 (of_nat c) = Inr (box_of c)"
proof -
  have a: "ucast (of_nat (0xE00 + 16 * c + k) :: u32) = box_msr c k" if "k < 16" for k by (rule box_msr_32 [OF assms that])
  have u: "box_msr c 0 \<noteq> 0" using unat_box_msr [OF assms, of 0] by (auto simp: word_unat_eq_iff)
  have f: "box_msr c 6 \<noteq> 0" using unat_box_msr [OF assms, of 6] by (auto simp: word_unat_eq_iff)
  show ?thesis
    using a [of 0] a [of 1] a [of 2] a [of 3] a [of 4] a [of 5] a [of 6] a [of 8] a [of 9] a [of 10] a [of 11] u f
    by (simp add: cbo_pmu_def CX_MSR_PMON_BOX_CTL_def CX_MSR_PMON_CTLY_def CX_MSR_PMON_CTRY_def CX_MSR_PMON_BOX_FILTER_def
        CX_MSR_PMON_BOX_FILTER1_def cpu_models cbo_addresses box_of_def msr_regs_def Let_def algebra_simps)
qed

lemma block_offset:
  assumes "k < 16"
  shows "n = 0xE00 + 16 * c + k \<longleftrightarrow> n div 16 = 224 + c \<and> n mod 16 = (k::nat)"
proof
  have "0xE00 + 16 * c + k = k + 16 * (224 + c)" by simp
  moreover have "(k + 16 * j) div 16 = j" "(k + 16 * j) mod 16 = k" for j using assms by simp_all
  ultimately show "n div 16 = 224 + c \<and> n mod 16 = k" if "n = 0xE00 + 16 * c + k" using that by metis
qed (use div_mult_mod_eq [of n 16] in linarith)

lemma unat_same: "unat a = unat b \<longleftrightarrow> a = b"
  by (simp add: word_unat_eq_iff)

lemma box_msr_iff: "c < 24 \<Longrightarrow> k < 16 \<Longrightarrow> a = box_msr c k \<longleftrightarrow> unat a div 16 = 224 + c \<and> unat a mod 16 = k"
  by (simp only: word_unat_eq_iff unat_box_msr block_offset)

lemma box_fields:
  "unitControl (box_of c) = Some (MSRRegister 0 (box_msr c 0))" "fixedCounterControl (box_of c) = None"
  "filter0 (box_of c) = Some (MSRRegister 0 (box_msr c 5))" "filter1 (box_of c) = Some (MSRRegister 0 (box_msr c 6))"
  "counterControl (box_of c) = map (\<lambda>k. Some (MSRRegister 0 (box_msr c k))) [1, 2, 3, 4]"
  "counterValue (box_of c) = map (\<lambda>k. Some (CounterWidthExtenderRegister (unat (box_msr c k)))) [8, 9, 10, 11]"
  by (simp_all add: box_of_def UncorePMU4_def)

lemma box_controls:
  assumes "c < 24"
  shows "r \<in> regs_of (counterControl (box_of c)) \<longleftrightarrow>
    (\<exists>a. r = MSRRegister 0 a \<and> unat a div 16 = 224 + c \<and> unat a mod 16 \<in> {1, 2, 3, 4})"
  by (cases r) (auto simp: box_fields regs_of_def box_msr_iff [OF assms])

lemma box_values:
  assumes "c < 24"
  shows "r \<in> regs_of (counterValue (box_of c)) \<longleftrightarrow>
    (\<exists>e. r = CounterWidthExtenderRegister e \<and> e div 16 = 224 + c \<and> e mod 16 \<in> {8, 9, 10, 11})"
  using block_offset [of 8 _ c] block_offset [of 9 _ c] block_offset [of 10 _ c] block_offset [of 11 _ c]
  by (cases r) (auto simp: box_fields regs_of_def unat_box_msr assms)

lemma box_hw [simp]:
  "hw_write box_registers (MSRRegister h a) v m = Inr (m\<lparr>hw_bus := box_write h a v (hw_bus m)\<rparr>)"
  "hw_read box_registers (MSRRegister h a) m = (hw_bus m (unat a), m)"
  "hw_write box_registers (CounterWidthExtenderRegister e) 0 m =
     Inr (m\<lparr>hw_extenders := (hw_extenders m)(e := ext_reset (hw_bus m e) (hw_extenders m e))\<rparr>)"
  "hw_read box_registers (CounterWidthExtenderRegister e) m =
     (fst (ext_read (hw_bus m e) (hw_extenders m e)), m\<lparr>hw_extenders := (hw_extenders m)(e := snd (ext_read (hw_bus m e) (hw_extenders m e)))\<rparr>)"
  by (simp_all add: registers_def box_bus_def split: prod.split)

lemma write_box:
  "unat a mod 16 = 0 \<Longrightarrow> box_write 0 a v s = (\<lambda>k. if k = unat a then v AND NOT 3
     else if k div 16 = unat a div 16 \<and> k mod 16 \<in> {1, 2, 3, 4} \<and> bit v 0 then 0
     else if k div 16 = unat a div 16 \<and> k mod 16 \<in> {8, 9, 10, 11} \<and> bit v 1 then 0 else s k)"
  "unat a mod 16 \<in> {1, 2, 3, 4, 5, 6} \<Longrightarrow> box_write 0 a v s = s(unat a := v)"
  by (auto simp: box_write_def Let_def)

lemma not_new_BDX_bits: "freezes BDX v = bit v 8" "resets_controls BDX v = bit v 0" "resets_counters BDX v = bit v 1"
  by (simp_all add: freezes_def resets_controls_def resets_counters_def not_new_BDX)

lemma box_write_unit:
  assumes "c < 24"
  shows "box_ctl (m\<lparr>hw_bus := box_write 0 (box_msr c 0) v (hw_bus m)\<rparr>) =
      (\<lambda>r. if bit v 0 \<and> r \<in> regs_of (counterControl (box_of c)) then 0 else box_ctl m r)"
    and "box_cnt (m\<lparr>hw_bus := box_write 0 (box_msr c 0) v (hw_bus m)\<rparr>) =
      (\<lambda>r. if bit v 1 \<and> r \<in> regs_of (counterValue (box_of c)) then 0 else box_cnt m r)"
    and "box_running (m\<lparr>hw_bus := box_write 0 (box_msr c 0) v (hw_bus m)\<rparr>) =
      (box_running m)(MSRRegister 0 (box_msr c 0) := \<not> bit v 8)"
    and "box_flt (m\<lparr>hw_bus := box_write 0 (box_msr c 0) v (hw_bus m)\<rparr>) = box_flt m"
    and "box_ext (m\<lparr>hw_bus := box_write 0 (box_msr c 0) v (hw_bus m)\<rparr>) = box_ext m"
proof -
  have a: "unat (box_msr c 0) mod 16 = 0" "unat (box_msr c 0) div 16 = 224 + c" using unat_box_msr [OF assms, of 0] by simp_all
  note w = write_box(1) [OF a(1), unfolded a(2)]
  have three: "bit (NOT (3 :: u64)) 8" by simp
  show "box_ctl (m\<lparr>hw_bus := box_write 0 (box_msr c 0) v (hw_bus m)\<rparr>) =
      (\<lambda>r. if bit v 0 \<and> r \<in> regs_of (counterControl (box_of c)) then 0 else box_ctl m r)"
    by (rule ext, rename_tac r, case_tac r) (use a in \<open>auto simp: w box_controls [OF assms]\<close>)
  show "box_cnt (m\<lparr>hw_bus := box_write 0 (box_msr c 0) v (hw_bus m)\<rparr>) =
      (\<lambda>r. if bit v 1 \<and> r \<in> regs_of (counterValue (box_of c)) then 0 else box_cnt m r)"
    by (rule ext, rename_tac r, case_tac r) (use a in \<open>auto simp: w box_values [OF assms]\<close>)
  show "box_running (m\<lparr>hw_bus := box_write 0 (box_msr c 0) v (hw_bus m)\<rparr>) = (box_running m)(MSRRegister 0 (box_msr c 0) := \<not> bit v 8)"
    by (rule ext, rename_tac r, case_tac r) (use a three in \<open>auto simp: w bit_and_iff unat_same\<close>)
  show "box_flt (m\<lparr>hw_bus := box_write 0 (box_msr c 0) v (hw_bus m)\<rparr>) = box_flt m"
    by (rule ext, rename_tac r, case_tac r) (use a in \<open>auto simp: w\<close>)
  show "box_ext (m\<lparr>hw_bus := box_write 0 (box_msr c 0) v (hw_bus m)\<rparr>) = box_ext m"
    by (rule ext, rename_tac r, case_tac r) auto
qed

lemma box_write_other:
  assumes "c < 24" and "k \<in> {1, 2, 3, 4, 5, 6}" and "m' = m\<lparr>hw_bus := box_write 0 (box_msr c k) v (hw_bus m)\<rparr>"
  shows "box_ctl m' = (if k < 5 then (box_ctl m)(MSRRegister 0 (box_msr c k) := v) else box_ctl m)"
    and "box_flt m' = (if k < 5 then box_flt m else (box_flt m)(MSRRegister 0 (box_msr c k) := v))"
    and "box_cnt m' = box_cnt m" and "box_running m' = box_running m" and "box_ext m' = box_ext m"
proof -
  have k: "k < 16" using assms(2) by auto
  have a: "unat (box_msr c k) mod 16 = k" using box_msr_iff [OF assms(1) k] by blast
  have w: "box_write 0 (box_msr c k) v (hw_bus m) = (hw_bus m)(unat (box_msr c k) := v)" by (rule write_box(2)) (use a assms(2) in simp)
  show "box_ctl m' = (if k < 5 then (box_ctl m)(MSRRegister 0 (box_msr c k) := v) else box_ctl m)"
    by (rule ext, rename_tac r, case_tac r) (use a assms(2) in \<open>auto simp: w assms(3) unat_same\<close>)
  show "box_flt m' = (if k < 5 then box_flt m else (box_flt m)(MSRRegister 0 (box_msr c k) := v))"
    by (rule ext, rename_tac r, case_tac r) (use a assms(2) in \<open>auto simp: w assms(3) unat_same\<close>)
  show "box_cnt m' = box_cnt m" "box_running m' = box_running m" "box_ext m' = box_ext m"
    by (rule ext, rename_tac r, case_tac r, (use a assms(2) in \<open>auto simp: w assms(3) unat_same\<close>))+
qed

lemma box_control_reg:
  assumes "c < 24" and "r \<in> regs_of (counterControl (box_of c))"
  obtains k where "k \<in> {1, 2, 3, 4}" and "r = MSRRegister 0 (box_msr c k)"
  using assms(2) that by (auto simp: box_fields regs_of_def)

lemma box_filter_reg:
  assumes "filter0 (box_of c) = Some r \<or> filter1 (box_of c) = Some r"
  obtains k where "k \<in> {5, 6}" and "r = MSRRegister 0 (box_msr c k)"
  using assms that by (auto simp: box_fields)

lemma box_value_reg:
  assumes "c < 24" and "r \<in> regs_of (counterValue (box_of c))"
  obtains e where "r = CounterWidthExtenderRegister e" and "e mod 16 \<in> {8, 9, 10, 11}"
  using assms by (auto simp: box_values)

lemma box_extenders:
  "box_ext (m\<lparr>hw_extenders := (hw_extenders m)(e := x)\<rparr>) = (box_ext m)(CounterWidthExtenderRegister e := x)"
  "box_ctl (m\<lparr>hw_extenders := es\<rparr>) = box_ctl m" "box_cnt (m\<lparr>hw_extenders := es\<rparr>) = box_cnt m"
  "box_running (m\<lparr>hw_extenders := es\<rparr>) = box_running m" "box_flt (m\<lparr>hw_extenders := es\<rparr>) = box_flt m"
  by (rule ext, rename_tac r, case_tac r, auto)+

lemma box_of_eq: "c < 24 \<Longrightarrow> d < 24 \<Longrightarrow> k < 16 \<Longrightarrow> l < 16 \<Longrightarrow> box_msr c k = box_msr d l \<longleftrightarrow> c = d \<and> k = l"
  using box_msr_iff [of c k "box_msr d l"] box_msr_iff [of d l "box_msr d l"] by auto

interpretation boxes: pmon_boxes box_registers BDX bdx_boxes box_ctl box_cnt box_running "\<lambda>_. - 1" "\<lambda>_. True" box_flt box_ext
proof
  fix p :: "hw_register UncorePMU" and u v and m :: "(nat \<Rightarrow> u64) hw_state" assume "p \<in> bdx_boxes" and u: "unitControl p = Some u"
  then obtain c where c: "c < 24" "p = box_of c" by auto
  then have "u = MSRRegister 0 (box_msr c 0)" using u by (simp add: box_fields)
  then show "\<exists>m'. hw_write box_registers u v m = Inr m' \<and>
      box_ctl m' = (\<lambda>r. if resets_controls BDX v \<and> r \<in> regs_of (counterControl p) then 0 else box_ctl m r) \<and>
      box_cnt m' = (\<lambda>r. if resets_counters BDX v \<and> r \<in> regs_of (counterValue p) then 0 else box_cnt m r) \<and>
      box_running m' = (box_running m)(u := \<not> freezes BDX v)"
    using box_write_unit [OF c(1)] by (simp add: c(2) not_new_BDX_bits)
next
  fix p :: "hw_register UncorePMU" and r v and m :: "(nat \<Rightarrow> u64) hw_state"
  assume "p \<in> bdx_boxes" and r: "r \<in> regs_of (counterControl p)"
  then obtain c where c: "c < 24" "p = box_of c" by auto
  then obtain k where k: "k \<in> {1, 2, 3, 4}" "r = MSRRegister 0 (box_msr c k)" using r box_control_reg [of c r] by blast
  then have "k \<in> {1, 2, 3, 4, 5, 6}" "k < 5" by auto
  then show "\<exists>m'. hw_write box_registers r v m = Inr m' \<and> box_ctl m' = (box_ctl m)(r := v AND - 1) \<and> box_cnt m' = box_cnt m \<and>
      box_running m' = box_running m" using box_write_other [OF c(1) _ refl, of k] by (simp add: k(2))
next
  fix p :: "hw_register UncorePMU" and r v and m :: "(nat \<Rightarrow> u64) hw_state"
  assume "p \<in> bdx_boxes" and "fixedCounterControl p = Some r"
  then show "\<exists>m'. hw_write box_registers r v m = Inr m' \<and> box_ctl m' = box_ctl m \<and> box_cnt m' = box_cnt m \<and> box_running m' = box_running m"
    by (auto simp: box_fields)
next
  fix p :: "hw_register UncorePMU" and u x and m m' :: "(nat \<Rightarrow> u64) hw_state"
  assume "p \<in> bdx_boxes" and u: "unitControl p = Some u" and x: "x = UNC_PMON_UNIT_CTL_FRZ_EN \<or> x = UNC_PMON_UNIT_CTL_RSV"
    and w: "hw_write box_registers u (ucast x) m = Inr m'"
  then obtain c where c: "c < 24" "p = box_of c" by auto
  then have r: "u = MSRRegister 0 (box_msr c 0)" using u by (simp add: box_fields)
  have "unat (box_msr c 0) mod 16 = 0" using unat_box_msr [OF c(1), of 0] by simp
  then have "hw_bus m' (unat (box_msr c 0)) = ucast x AND NOT 3" using w by (auto simp: r write_box)
  then show "\<exists>w. hw_read box_registers u m' = (w, m') \<and>
      (ucast (x AND UNC_PMON_UNIT_CTL_VALID_BITS_MASK) = w AND ucast UNC_PMON_UNIT_CTL_VALID_BITS_MASK \<longleftrightarrow> True)"
    using x by (auto simp: r unit_ctl_bits UNC_PMON_UNIT_CTL_VALID_BITS_MASK_def)
next
  fix p :: "hw_register UncorePMU" assume "p \<in> bdx_boxes"
  then show "unitControl p \<noteq> None" by (auto simp: box_fields)
next
  fix p :: "hw_register UncorePMU" assume "p \<in> bdx_boxes"
  then show "distinct (filter (\<lambda>c. c \<noteq> None) (counterControl p))" by (auto simp: box_fields box_of_eq)
next
  fix p q :: "hw_register UncorePMU" assume "p \<in> bdx_boxes" and "q \<in> bdx_boxes" and "p \<noteq> q"
  then obtain c d where "c < 24" "p = box_of c" "d < 24" "q = box_of d" "c \<noteq> d" by auto
  then show "unitControl p \<noteq> unitControl q \<and> regs_of (counterControl p) \<inter> regs_of (counterControl q) = {} \<and>
      regs_of (counterValue p) \<inter> regs_of (counterValue q) = {}"
    by (auto simp: box_controls box_values) (simp add: box_fields box_of_eq)
next
  fix p :: "hw_register UncorePMU" and r v and m :: "(nat \<Rightarrow> u64) hw_state"
  assume "p \<in> bdx_boxes" and r: "filter0 p = Some r \<or> filter1 p = Some r"
  then obtain c where c: "c < 24" "p = box_of c" by auto
  then obtain k where k: "k \<in> {5, 6}" "r = MSRRegister 0 (box_msr c k)" using r box_filter_reg [of c r] by blast
  then have "k \<in> {1, 2, 3, 4, 5, 6}" "\<not> k < 5" by auto
  then show "\<exists>m'. hw_write box_registers r v m = Inr m' \<and> box_flt m' = (box_flt m)(r := v) \<and> box_ctl m' = box_ctl m \<and>
      box_cnt m' = box_cnt m \<and> box_running m' = box_running m \<and> box_ext m' = box_ext m"
    using box_write_other [OF c(1) _ refl, of k] by (simp add: k(2))
next
  fix p :: "hw_register UncorePMU" and r v and m m' :: "(nat \<Rightarrow> u64) hw_state"
  assume "p \<in> bdx_boxes" and r: "unitControl p = Some r \<or> r \<in> regs_of (counterControl p)" and w: "hw_write box_registers r v m = Inr m'"
  then obtain c where c: "c < 24" "p = box_of c" by auto
  then consider "r = MSRRegister 0 (box_msr c 0)" | k where "k \<in> {1, 2, 3, 4}" "r = MSRRegister 0 (box_msr c k)"
    using r box_fields(1) [of c] box_control_reg [of c r] by (metis option.inject)
  then show "box_flt m' = box_flt m \<and> box_ext m' = box_ext m"
  proof cases
    case 1
    then show ?thesis using w box_write_unit [OF c(1)] by auto
  next
    case 2
    then have "k \<in> {1, 2, 3, 4, 5, 6}" "k < 5" by auto
    then show ?thesis using w 2(2) box_write_other [OF c(1) _ refl, of k] by auto
  qed
next
  fix p :: "hw_register UncorePMU" and r and m :: "(nat \<Rightarrow> u64) hw_state" assume "p \<in> bdx_boxes" and r: "r \<in> regs_of (counterValue p)"
  then show "\<exists>m'. hw_write box_registers r 0 m = Inr m' \<and> box_ext m' = (box_ext m)(r := ext_reset (box_cnt m r) (box_ext m r)) \<and>
      box_flt m' = box_flt m \<and> box_ctl m' = box_ctl m \<and> box_cnt m' = box_cnt m \<and> box_running m' = box_running m"
    by (auto elim!: box_value_reg simp: box_extenders)
  show "\<exists>m'. hw_read box_registers r m = (fst (ext_read (box_cnt m r) (box_ext m r)), m') \<and>
      box_ext m' = (box_ext m)(r := snd (ext_read (box_cnt m r) (box_ext m r))) \<and>
      box_flt m' = box_flt m \<and> box_ctl m' = box_ctl m \<and> box_cnt m' = box_cnt m \<and> box_running m' = box_running m"
    using \<open>p \<in> bdx_boxes\<close> r by (auto elim!: box_value_reg simp: box_extenders)
next
  fix p q :: "hw_register UncorePMU" assume "p \<in> bdx_boxes" and "q \<in> bdx_boxes" and "p \<noteq> q"
  then obtain c d where "c < 24" "p = box_of c" "d < 24" "q = box_of d" "c \<noteq> d" by auto
  then show "{filter0 p, filter1 p} \<inter> {filter0 q, filter1 q} \<subseteq> {None}" by (auto simp: box_fields box_of_eq)
next
  fix p :: "hw_register UncorePMU" assume "p \<in> bdx_boxes" and "filter0 p \<noteq> None"
  then show "filter0 p \<noteq> filter1 p" by (auto simp: box_fields box_of_eq)
qed

section \<open>Properties\<close>

context pmon_boxes
begin

lemma box_ready_iff:
  "box_ready es opCode tid p m m' \<longleftrightarrow> counts_from_zero model ctl cnt running impl es m' p \<and> filtered model opCode tid (flt m') p \<and>
     (\<forall>r \<in> regs_of (counterValue p). ext m' r = ext_reset 0 (ext m r))"
  by (simp add: box_ready_def programmed_counts)

lemma session_value:
  assumes "sound_boxes units st" and "up_model st = model" and "opCode < 2 ^ 9" and "4 \<le> length es"
    and "\<forall>p \<in> set (all_units st CBO_PMU_ID). \<forall>r \<in> regs_of (counterValue p). counter_width (ext m r) = 48"
    and "programCbo_events H st es opCode nc tid loc rem m = Inr m1"
    and "box_session H st (boxes_pass units ctl cnt running ext) m1 tot seen m2" and "socket < length (uncorePMUs st)" and "ctr < 4"
  shows "\<exists>m3. getUncoreCounterState H st CBO_PMU_ID socket ctr m2 =
    Inr (of_nat (\<Sum>p \<leftarrow> units_of (uncorePMUs st ! socket) CBO_PMU_ID. tot (value_reg ctr p)), m3)"
proof -
  have "\<forall>p \<in> set (all_units st CBO_PMU_ID). box_ready es opCode tid p m m1"
    using programCbo_step [OF assms(1-4), of nc tid loc rem m] assms(6) by auto
  then have "boxes_known (all_units st CBO_PMU_ID) (\<lambda>_. 0) (\<lambda>_. 0) m1" using known_start assms(5) by blast
  from session_known [OF assms(7) this assms(1)] show ?thesis using known_state [OF _ assms(1,8,9)] by blast
qed

end

text \<open>C5: \<^verbatim>\<open>PCM::programCbo\<close> on boxes that behave as documented: it succeeds, and afterwards every cache box of every socket counts the given events
  from zero, its filters select the given opcode and thread identifier, and the extenders of its counters start at zero.\<close>

theorem cbo_programmed:
  assumes "pmon_boxes H (up_model st) units ctl cnt running impl answers flt ext" and "sound_boxes units st"
    and "opCode < 2 ^ 9" and "4 \<le> length es"
  shows "\<exists>m'. programCbo_events H st es opCode nc tid loc rem m = Inr m' \<and> (\<forall>p \<in> set (all_units st CBO_PMU_ID).
    counts_from_zero (up_model st) ctl cnt running impl es m' p \<and> filtered (up_model st) opCode tid (flt m') p \<and>
    (\<forall>r \<in> regs_of (counterValue p). ext m' r = ext_reset 0 (ext m r)))"
  using pmon_boxes.programCbo_step [OF assms(1,2) refl assms(3,4), of nc tid loc rem m]
  unfolding pmon_boxes.box_ready_iff [OF assms(1)] by blast

text \<open>C4: The counts of the cache boxes of a socket. After the boxes are programmed, they count while watchdogs and clients read the
  extended counters, in any order. As long as no counter sees \<open>2 ^ 48\<close> events between two reads of its own, \<^verbatim>\<open>getUncoreCounterState\<close> returns the
  number of events that all boxes of the socket have seen since they were programmed, however often the 48-bit counters wrapped.\<close>

theorem cbo_counts_exact:
  assumes "pmon_boxes H (up_model st) units ctl cnt running impl answers flt ext" and "sound_boxes units st"
    and "opCode < 2 ^ 9" and "4 \<le> length es"
    and "\<forall>p \<in> set (all_units st CBO_PMU_ID). \<forall>r \<in> regs_of (counterValue p). counter_width (ext m r) = 48"
    and "programCbo_events H st es opCode nc tid loc rem m = Inr m1"
    and "box_session H st (boxes_pass units ctl cnt running ext) m1 tot seen m2" and "socket < length (uncorePMUs st)" and "ctr < 4"
  shows "\<exists>m3. getUncoreCounterState H st CBO_PMU_ID socket ctr m2 =
    Inr (of_nat (\<Sum>p \<leftarrow> units_of (uncorePMUs st ! socket) CBO_PMU_ID. tot (value_reg ctr p)), m3)"
  by (rule pmon_boxes.session_value [OF assms(1,2) refl assms(3-)])

section \<open>Two boxes\<close>

definition two_boxes :: "hw_register uncore_pcm" where
  "two_boxes = \<lparr>up_model = BDX, up_clx = False, up_msr = True, serverUncorePMUs = [],
     uncorePMUs = [[\<lambda>i. if i = CBO_PMU_ID then [Some (box_of 0), Some (box_of 1)] else []]], iioPMUs = [], irpPMUs = [], cxlPMUs = []\<rparr>"

definition cold_boxes :: "(nat \<Rightarrow> u64) hw_state" where
  "cold_boxes = \<lparr>hw_bus = \<lambda>_. 77, hw_extenders = \<lambda>_. CounterWidthExtender 77 48 1000\<rparr>"

definition box_tick :: "(hw_register \<Rightarrow> nat) \<Rightarrow> (nat \<Rightarrow> u64) hw_state \<Rightarrow> (nat \<Rightarrow> u64) hw_state" where
  "box_tick ev m = m\<lparr>hw_bus := \<lambda>k. if k mod 16 \<in> {8, 9, 10, 11} \<and> \<not> bit (hw_bus m (16 * (k div 16))) 8
     then of_nat ((unat (hw_bus m k) + ev (CounterWidthExtenderRegister k)) mod 2 ^ 48) else hw_bus m k\<rparr>"

lemma box_tick_pass: "boxes_pass bdx_boxes box_ctl box_cnt box_running box_ext ev m (box_tick ev m)"
proof -
  have "box_ctl (box_tick ev m) = box_ctl m" "box_running (box_tick ev m) = box_running m" "box_ext (box_tick ev m) = box_ext m"
    by (rule ext, rename_tac r, case_tac r, (auto simp: box_tick_def))+
  moreover have "box_cnt (box_tick ev m) r = (if box_running m (the (unitControl p)) then of_nat ((unat (box_cnt m r) + ev r) mod 2 ^ 48) else box_cnt m r)"
    if p: "p \<in> bdx_boxes" and r: "r \<in> regs_of (counterValue p)" for p r
  proof -
    obtain c where c: "c < 24" "p = box_of c" using p by auto
    obtain e where e: "r = CounterWidthExtenderRegister e" "e div 16 = 224 + c" "e mod 16 \<in> {8, 9, 10, 11}"
      using r c box_values [of c r] by auto
    have "unat (box_msr c 0) = 16 * (e div 16)" using unat_box_msr [OF c(1), of 0] e(2) by simp
    then show ?thesis using e c(2) by (auto simp: box_tick_def box_fields simp del: of_nat_mod)
  qed
  ultimately show ?thesis by (simp add: boxes_pass_def elapsed_def)
qed

lemma two_boxes_units: "all_units two_boxes CBO_PMU_ID = [box_of 0, box_of 1]"
  "units_of (uncorePMUs two_boxes ! 0) CBO_PMU_ID = [box_of 0, box_of 1]" "up_model two_boxes = BDX" "length (uncorePMUs two_boxes) = 1"
  by (simp_all add: two_boxes_def all_units_def units_of_def)

lemma sound_two_boxes: "sound_boxes bdx_boxes two_boxes"
proof -
  have "opcode_filters BDX" by (simp add: opcode_filters_def)
  moreover have "box_of 0 \<noteq> box_of 1" by (rule notI, drule arg_cong [where f = unitControl]) (simp add: box_fields box_of_eq)
  ultimately show ?thesis
    by (simp add: sound_boxes_def two_boxes_units sound_box_def box_fields maxCounters_def) (simp add: two_boxes_def)
qed

theorem cbo_programmed_witness:
  "\<exists>m'. programCbo_events box_registers two_boxes [0x336, 0x335, 0, 0] 0x182 0 0x3E 1 1 cold_boxes = Inr m' \<and>
     (\<forall>c < 2. box_ctl m' (MSRRegister 0 (box_msr c 1)) = 0x400336 \<and> box_ctl m' (MSRRegister 0 (box_msr c 2)) = 0x400335 \<and>
        box_running m' (MSRRegister 0 (box_msr c 0)) \<and> drop_bit 20 (box_flt m' (MSRRegister 0 (box_msr c 6))) = 0x182 \<and>
        box_flt m' (MSRRegister 0 (box_msr c 5)) = 0x3E)"
proof -
  obtain m' where m': "programCbo_events box_registers two_boxes [0x336, 0x335, 0, 0] 0x182 0 0x3E 1 1 cold_boxes = Inr m'"
    "\<forall>p \<in> set (all_units two_boxes CBO_PMU_ID).
       counts_from_zero BDX box_ctl box_cnt box_running (\<lambda>_. - 1) [0x336, 0x335, 0, 0] m' p \<and> filtered BDX 0x182 0x3E (box_flt m') p"
    using cbo_programmed [OF _ sound_two_boxes, unfolded two_boxes_units(3), OF boxes.pmon_boxes_axioms,
        of "0x182" "[0x336, 0x335, 0, 0]" 0 "0x3E" 1 1 cold_boxes] by auto
  have "counts_from_zero BDX box_ctl box_cnt box_running (\<lambda>_. - 1) [0x336, 0x335, 0, 0] m' (box_of c)"
    "filtered BDX 0x182 0x3E (box_flt m') (box_of c)" if "c < 2" for c
    using m'(2) that by (auto simp: two_boxes_units less_2_cases_iff)
  then have "box_ctl m' (MSRRegister 0 (box_msr c 1)) = 0x400336 \<and> box_ctl m' (MSRRegister 0 (box_msr c 2)) = 0x400335 \<and>
        box_running m' (MSRRegister 0 (box_msr c 0)) \<and> drop_bit 20 (box_flt m' (MSRRegister 0 (box_msr c 6))) = 0x182 \<and>
        box_flt m' (MSRRegister 0 (box_msr c 5)) = 0x3E" if "c < 2" for c
    using that by (simp add: counts_from_zero_def filtered_def opcode_filtered_def box_fields control_word_def not_new_BDX unit_ctl_bits
        del: box_ctl.simps box_cnt.simps box_running.simps box_flt.simps)
  with m'(1) show ?thesis by blast
qed

text \<open>One counter sees \<open>2 ^ 47\<close> events, is read by its watchdog, and sees \<open>2 ^ 47 + 5\<close> more, which makes it wrap.\<close>

definition half_wrap :: "nat \<Rightarrow> hw_register \<Rightarrow> nat" where
  "half_wrap n r = (if r = value_reg 0 (box_of 0) then 2 ^ 47 + n else 0)"

theorem cbo_counts_exact_witness:
  "\<exists>m1 seen m2 m3. programCbo_events box_registers two_boxes [0x336, 0x335, 0, 0] 0x182 0 0 1 1 cold_boxes = Inr m1 \<and>
     box_session box_registers two_boxes (boxes_pass bdx_boxes box_ctl box_cnt box_running box_ext) m1
       (\<lambda>r. half_wrap 0 r + half_wrap 5 r) seen m2 \<and>
     getUncoreCounterState box_registers two_boxes CBO_PMU_ID 0 0 m2 = Inr (2 ^ 48 + 5, m3)"
proof -
  have w: "\<forall>p \<in> set (all_units two_boxes CBO_PMU_ID). \<forall>r \<in> regs_of (counterValue p). counter_width (box_ext cold_boxes r) = 48"
    by (auto simp: two_boxes_units box_fields regs_of_def cold_boxes_def CounterWidthExtender_def)
  obtain m1 where m1: "programCbo_events box_registers two_boxes [0x336, 0x335, 0, 0] 0x182 0 0 1 1 cold_boxes = Inr m1"
    using boxes.programCbo_step [OF sound_two_boxes two_boxes_units(3), of "0x182" "[0x336, 0x335, 0, 0]" 0 0 1 1 cold_boxes] by auto
  let ?passes = "boxes_pass bdx_boxes box_ctl box_cnt box_running box_ext" and ?r = "value_reg 0 (box_of 0)"
  let ?m2 = "box_tick (half_wrap 0) m1"
  let ?m3 = "snd (hw_read box_registers ?r ?m2)"
  have 1: "box_session box_registers two_boxes ?passes m1 (\<lambda>r. 0 + half_wrap 0 r) (\<lambda>_. 0) ?m2"
    by (rule session_count, rule session_start, rule box_tick_pass) (simp add: half_wrap_def)
  have 2: "box_session box_registers two_boxes ?passes m1 (\<lambda>r. 0 + half_wrap 0 r) ((\<lambda>_. 0)(?r := 0 + half_wrap 0 ?r)) ?m3"
    by (rule session_watchdog [OF 1, of "box_of 0"]) (simp_all add: two_boxes_units box_fields regs_of_def value_reg_def)
  have 3: "box_session box_registers two_boxes ?passes m1 (\<lambda>r. 0 + half_wrap 0 r + half_wrap 5 r) ((\<lambda>_. 0)(?r := 0 + half_wrap 0 ?r))
      (box_tick (half_wrap 5) ?m3)"
    by (rule session_count, rule 2, rule box_tick_pass) (simp add: half_wrap_def)
  have "value_reg 0 (box_of 1) \<noteq> value_reg 0 (box_of 0)" by (simp add: value_reg_def box_fields unat_same box_of_eq)
  then have "\<exists>m3. getUncoreCounterState box_registers two_boxes CBO_PMU_ID 0 0 (box_tick (half_wrap 5) ?m3) = Inr (2 ^ 48 + 5, m3)"
    using cbo_counts_exact [OF _ sound_two_boxes _ _ w m1 3, unfolded two_boxes_units(3), OF boxes.pmon_boxes_axioms, of 0 0]
    by (simp add: two_boxes_units half_wrap_def)
  with m1 3 show ?thesis by auto
qed

end
