(* ===== verification/Tpmi.thy ===== *)
theory Tpmi
  imports Pci_Scan Text_Utils
begin

text \<open>
  Access to the TPMI registers of power management (tpmi.h, tpmi.cpp) and the tool that reads and writes them (pcm-tpmi.cpp). There are two
  implementations of a handle: one maps the memory of the registers, whose addresses come from tables found by \<^verbatim>\<open>processDVSEC\<close>; the other reads
  text files of the Linux driver and writes commands to it. Memory is as in theory Pci_Scan; the files of the driver are a parameter. Verbose
  output is left out, the register reads it makes are not.
\<close>

section \<open>Tables in memory\<close>

definition TPMIInvalidValue :: u32 where "TPMIInvalidValue = NOT 0"

definition PFS :: layout where
  "PFS = [(''TPMI_ID'', 8), (''NumEntries'', 8), (''EntrySize'', 16), (''CapOffset'', 16), (''Attribute'', 2), (''Reserved'', 14)]"

interpretation pfs_fields: bitfield_layout PFS
  by unfold_locales (simp_all add: PFS_def layout_size_def)

definition pfs_field :: "string \<Rightarrow> u64 \<Rightarrow> u64" where
  "pfs_field f pfs = get_field PFS f pfs"

record PFSInstance =
  pfsMap :: "u64 \<Rightarrow> u64 list"
  NUMANode :: int

text \<open>The array of tables; what \<^verbatim>\<open>mmio_memcpy\<close> has copied before it throws stays, the rest is zero.\<close>

definition pfs_array :: "(u64 \<Rightarrow> u64 \<Rightarrow> bool) \<Rightarrow> (u64 \<Rightarrow> u32) \<Rightarrow> u64 \<Rightarrow> nat \<Rightarrow> u64 list" where
  "pfs_array map_ok mem src n =
     (case mmio_memcpy map_ok mem src (8 * n) True of
        Inr ws \<Rightarrow> join_words ws
      | Inl _ \<Rightarrow>
          (let mapBegin = roundDownTo4K src;
               ws = (if map_ok mapBegin (roundUpTo4K (src + of_nat (8 * n)) - mapBegin)
                     then takeWhile (\<lambda>w. w \<noteq> NOT 0) (map (\<lambda>k. mem (src + 4 * of_nat k)) [0..<2 * n]) else [])
           in join_words (ws @ replicate (2 * n - length ws) 0)))"

definition push_entry :: "u64 \<Rightarrow> u64 \<Rightarrow> PFSInstance \<Rightarrow> PFSInstance" where
  "push_entry tpmi_id addr i = i\<lparr>pfsMap := (pfsMap i)(tpmi_id := pfsMap i tpmi_id @ [addr])\<rparr>"

definition read_registers :: "(u64 \<Rightarrow> u64 \<Rightarrow> bool) \<Rightarrow> (u64 \<Rightarrow> u32) \<Rightarrow> u64 \<Rightarrow> u64 \<Rightarrow> unit result" where
  "read_registers map_ok mem addr entrySize =
     rfold (\<lambda>k _. rbind (mmio_memcpy map_ok mem (addr + 8 * of_nat k) 8 False) (\<lambda>_. Inr ())) [0..<(unat entrySize * 4 + 7) div 8] ()"

text \<open>An entry whose first register cannot be read is kept, one that reads as all ones is not.\<close>

definition add_entry :: "(u64 \<Rightarrow> u64 \<Rightarrow> bool) \<Rightarrow> (u64 \<Rightarrow> u32) \<Rightarrow> u64 \<Rightarrow> u64 \<Rightarrow> u64 \<Rightarrow> PFSInstance \<Rightarrow> PFSInstance result" where
  "add_entry map_ok mem tpmi_id entrySize addr i =
     (case mmio_memcpy map_ok mem addr 4 False of
        Inl _ \<Rightarrow> Inr (push_entry tpmi_id addr i)
      | Inr reg0 \<Rightarrow>
          if reg0 = [TPMIInvalidValue] then Inr i
          else rbind (read_registers map_ok mem addr entrySize) (\<lambda>_. Inr (push_entry tpmi_id addr i)))"

definition entry_address :: "u64 \<Rightarrow> u64 \<Rightarrow> nat \<Rightarrow> u64" where
  "entry_address base pfs p = base + pfs_field ''CapOffset'' pfs * 1024 + of_nat p * pfs_field ''EntrySize'' pfs * 4"

definition process_pfs :: "(u64 \<Rightarrow> u64 \<Rightarrow> bool) \<Rightarrow> (u64 \<Rightarrow> u32) \<Rightarrow> u64 \<Rightarrow> u64 \<Rightarrow> PFSInstance \<Rightarrow> PFSInstance result" where
  "process_pfs map_ok mem base pfs =
     rfold (\<lambda>p. add_entry map_ok mem (pfs_field ''TPMI_ID'' pfs) (pfs_field ''EntrySize'' pfs) (entry_address base pfs p))
       [0..<unat (pfs_field ''NumEntries'' pfs)]"

definition tpmi_match :: "vsec \<Rightarrow> bool" where
  "tpmi_match v \<longleftrightarrow> vsec_lo ''cap_id'' v = 0xb \<and> vsec_lo ''vsec_id'' v = 0x42"

definition process_tpmi :: "(u64 \<Rightarrow> u64 \<Rightarrow> bool) \<Rightarrow> (u64 \<Rightarrow> u32) \<Rightarrow> PFSInstance list dvsec_process" where
  "process_tpmi map_ok mem bar vsec numa is =
     (let base = bar + 8 * vsec_hi ''Address'' vsec in
      if vsec_hi ''EntrySize'' vsec \<noteq> 2 then Inl Assert_failed
      else rbind (rfold (process_pfs map_ok mem base) (pfs_array map_ok mem base (unat (vsec_hi ''NumEntries'' vsec)))
             \<lparr>pfsMap = \<lambda>_. [], NUMANode = numa\<rparr>) (\<lambda>i. Inr (is @ [i])))"

text \<open>The first call of \<^verbatim>\<open>PFSInstances::get\<close>; its result is remembered.\<close>

definition PFSInstances_get ::
  "(pci_addr \<Rightarrow> pci_dev option) \<Rightarrow> mcfg_record list \<Rightarrow> (u64 \<Rightarrow> u64 \<Rightarrow> bool) \<Rightarrow> (u64 \<Rightarrow> u32) \<Rightarrow> PFSInstance list result option" where
  "PFSInstances_get bus mcfg map_ok mem = processDVSEC bus mcfg tpmi_match (process_tpmi map_ok mem) []"

section \<open>The handle on memory\<close>

text \<open>An entry is the page it is on and the offset there. Reading and writing 64 bits of a mapped page; a page mapped
  read-only ignores writes.\<close>

record TPMIHandleMMIO =
  mm_entries :: "(u64 \<times> u64) list"
  mm_numaNode :: int
  mm_readonly :: bool

definition page_read64 :: "u64 \<Rightarrow> u64 \<Rightarrow> (u64 \<Rightarrow> u32) \<Rightarrow> u64" where
  "page_read64 base offset mem = cvt_ds_join (mem (base + offset)) (mem (base + offset + 4))"

definition page_write64 :: "bool \<Rightarrow> u64 \<Rightarrow> u64 \<Rightarrow> u64 \<Rightarrow> (u64 \<Rightarrow> u32) \<Rightarrow> u64 \<Rightarrow> u32" where
  "page_write64 readonly base offset val mem =
     (if readonly then mem else mem(base + offset := cvt_ds_low val, base + offset + 4 := cvt_ds_high val))"

definition open_entry :: "(u64 \<Rightarrow> u64 \<Rightarrow> bool) \<Rightarrow> u64 \<Rightarrow> u64 \<Rightarrow> (u64 \<times> u64) list \<Rightarrow> (u64 \<times> u64) list result" where
  "open_entry map_ok relative addr es =
     (let requestedAddr = addr + relative; baseAddr = roundDownTo4K requestedAddr
      in if map_ok baseAddr 4096 then Inr (es @ [(baseAddr, requestedAddr - baseAddr)]) else Inl (Runtime_error ''mmap failed''))"

definition new_TPMIHandleMMIO ::
  "(u64 \<Rightarrow> u64 \<Rightarrow> bool) \<Rightarrow> PFSInstance list \<Rightarrow> nat \<Rightarrow> u64 \<Rightarrow> u64 \<Rightarrow> bool \<Rightarrow> TPMIHandleMMIO result" where
  "new_TPMIHandleMMIO map_ok is instance0 ID relative readonly =
     (if length is \<le> instance0 then Inl Assert_failed
      else rbind (rfold (open_entry map_ok relative) (pfsMap (is ! instance0) ID) [])
        (\<lambda>es. Inr \<lparr>mm_entries = es, mm_numaNode = NUMANode (is ! instance0), mm_readonly = readonly\<rparr>))"

definition mm_read64 :: "TPMIHandleMMIO \<Rightarrow> nat \<Rightarrow> (u64 \<Rightarrow> u32) \<Rightarrow> u64 result" where
  "mm_read64 h entryPos mem =
     (if entryPos < length (mm_entries h) then Inr (page_read64 (fst (mm_entries h ! entryPos)) (snd (mm_entries h ! entryPos)) mem)
      else Inl Assert_failed)"

definition mm_write64 :: "TPMIHandleMMIO \<Rightarrow> nat \<Rightarrow> u64 \<Rightarrow> (u64 \<Rightarrow> u32) \<Rightarrow> (u64 \<Rightarrow> u32) result" where
  "mm_write64 h entryPos val mem =
     (if entryPos < length (mm_entries h)
      then Inr (page_write64 (mm_readonly h) (fst (mm_entries h ! entryPos)) (snd (mm_entries h ! entryPos)) val mem)
      else Inl Assert_failed)"

section \<open>The handle on the driver\<close>

text \<open>Extraction of a word and of a character from a stream.\<close>

definition is_read_string :: "istream \<Rightarrow> string \<Rightarrow> string \<times> istream" where
  "is_read_string st old =
     (case is_sentry st of
        (False, st') \<Rightarrow> (old, st')
      | (True, st') \<Rightarrow>
          (let w = takeWhile (\<lambda>c. \<not> is_space c) (is_buf st'); rest = dropWhile (\<lambda>c. \<not> is_space c) (is_buf st')
           in (w, st'\<lparr>is_buf := rest, is_eof := (rest = [])\<rparr>)))"

definition is_read_char :: "istream \<Rightarrow> istream" where
  "is_read_char st =
     (case is_sentry st of (False, st') \<Rightarrow> st' | (True, st') \<Rightarrow> st'\<lparr>is_buf := tl (is_buf st')\<rparr>)"

definition find_from :: "string \<Rightarrow> string \<Rightarrow> nat option" where
  "find_from sub s = find (\<lambda>k. take (length sub) (drop k s) = sub) [0..<Suc (length s)]"

record TPMIEntry =
  te_offset :: u32
  te_data :: "u32 list"

lemma num_get_shorter:
  assumes "num_get w nb s = (v, False, rest)"
  shows "length rest < length s"
proof -
  obtain neg s1 where s1: "num_sign s = (neg, s1)" by fastforce
  obtain b zero s2 where s2: "num_prefix nb s1 = (b, zero, s2)" by (metis prod_cases3)
  let ?ds = "takeWhile (is_digit_of b) s2"
  have g: "rest = dropWhile (is_digit_of b) s2" "?ds \<noteq> [] \<or> zero"
    using assms by (auto simp: num_get_def s1 s2 Let_def split: if_splits)
  have a: "length s1 \<le> length s" using s1 by (auto simp: num_sign_def split: list.splits if_splits)
  have z: "length s2 \<le> length s1" "zero \<Longrightarrow> length s2 < length s1" using s2 by (auto simp: num_prefix_def split: if_splits)
  have l: "length ?ds + length rest = length s2" using g(1) by (metis length_append takeWhile_dropWhile_id)
  show ?thesis
  proof (cases zero)
    case False
    then have "0 < length ?ds" using g(2) by (simp only: length_greater_0_conv) blast
    with a z(1) l show ?thesis by linarith
  qed (use a z(2) l in linarith)
qed

text \<open>\<^verbatim>\<open>while (iss >> std::hex >> value)\<close>\<close>

function read_hex_words :: "istream \<Rightarrow> u32 list" where
  "read_hex_words st =
     (let (v, st1) = is_read_unsigned 32 (st\<lparr>is_base := Hex\<rparr>) 0 in if is_fail st1 then [] else of_nat v # read_hex_words st1)"
  by auto
termination
proof (relation "measure (\<lambda>st. length (is_buf st))", goal_cases)
  case 1
  show ?case by simp
next
  case (2 st x v st1)
  then have r: "is_read_unsigned 32 (st\<lparr>is_base := Hex\<rparr>) 0 = (v, st1)" "\<not> is_fail st1" by simp_all
  then obtain st' where s: "is_sentry (st\<lparr>is_base := Hex\<rparr>) = (True, st')"
    by (cases "is_sentry (st\<lparr>is_base := Hex\<rparr>)") (auto simp: is_read_unsigned_def is_sentry_def Let_def split: if_splits bool.splits)
  obtain v' bad rest where g: "num_get 32 (is_base st') (is_buf st') = (v', bad, rest)" by (metis prod_cases3)
  have "st1 = st'\<lparr>is_buf := rest, is_fail := bad, is_eof := (rest = [])\<rparr>" using r(1) s g by (simp add: is_read_unsigned_def)
  with r(2) have "length (is_buf st1) < length (is_buf st')" using num_get_shorter [of 32 "is_base st'" "is_buf st'" v' rest] g by simp
  also have "length (is_buf st') \<le> length (is_buf st)"
    using s by (auto simp: is_sentry_def Let_def length_dropWhile_le split: if_splits)
  finally show ?case by simp
qed

declare read_hex_words.simps [simp del]

definition flush_entry :: "TPMIEntry \<times> TPMIEntry list \<Rightarrow> TPMIEntry \<times> TPMIEntry list" where
  "flush_entry = (\<lambda>(cur, es). if te_data cur \<noteq> [] then (cur\<lparr>te_data := []\<rparr>, es @ [cur]) else (cur, es))"

definition dump_line :: "string \<Rightarrow> TPMIEntry \<times> TPMIEntry list \<Rightarrow> TPMIEntry \<times> TPMIEntry list" where
  "dump_line line s =
     (if find_from ''TPMI Instance:'' line \<noteq> None then
        (let (cur, es) = flush_entry s; skip = (\<lambda>st. snd (is_read_string st []));
             st = skip (skip (skip (skip (skip (istringstream line)))));
             (v, st1) = is_read_unsigned 32 (st\<lparr>is_base := Hex\<rparr>) (unat (te_offset cur))
         in (cur\<lparr>te_offset := of_nat v\<rparr>, es))
      else
        (let (cur, es) = s; st = snd (is_read_string (istringstream line) [])
         in (cur\<lparr>te_data := te_data cur @ read_hex_words st\<rparr>, es)))"

definition readTPMIFile :: "string option \<Rightarrow> TPMIEntry list" where
  "readTPMIFile content =
     (case content of
        None \<Rightarrow> []
      | Some s \<Rightarrow> snd (flush_entry (fold dump_line (split s CHR 0x0A) (\<lparr>te_offset = 0, te_data = []\<rparr>, []))))"

definition valid_entry :: "TPMIEntry \<Rightarrow> bool" where
  "valid_entry e \<longleftrightarrow> te_data e \<noteq> [] \<and> te_data e ! 0 \<noteq> TPMIInvalidValue"

fun find_valid :: "TPMIEntry list \<Rightarrow> nat \<Rightarrow> nat \<Rightarrow> nat \<Rightarrow> nat result" where
  "find_valid [] i validIndex entryPos = Inl Assert_failed"
| "find_valid (e # es) i validIndex entryPos =
     (if \<not> valid_entry e then find_valid es (Suc i) validIndex entryPos
      else if validIndex = entryPos then Inr i
      else find_valid es (Suc i) (Suc validIndex) entryPos)"

definition findValidIndex :: "TPMIEntry list \<Rightarrow> nat \<Rightarrow> nat result" where
  "findValidIndex es entryPos = find_valid es 0 0 entryPos"

text \<open>The driver's files: the dump below a path, and writing a command there. \<open>pci_numa_node\<close> is \<^verbatim>\<open>getNUMANodeLinux\<close>.\<close>

record 'k tpmi_driver =
  kn_dump :: "string \<Rightarrow> 'k \<Rightarrow> string option"
  kn_write :: "string \<Rightarrow> string \<Rightarrow> 'k \<Rightarrow> 'k"

record TPMIHandleDriver =
  dr_path :: string
  dr_offset :: nat
  dr_numaNode :: int
  dr_nentries :: nat

definition pci_address :: "string \<Rightarrow> string result" where
  "pci_address path =
     (let prefix = ''/sys/kernel/debug/tpmi-'' in
      case (find_from prefix path, find_from ''/tpmi-id-'' path) of
        (Some startPos, Some endPos) \<Rightarrow>
          (let first = startPos + length prefix
           in Inr (if first \<le> endPos then take (endPos - first) (drop first path) else drop first path))
      | _ \<Rightarrow> Inl Assert_failed)"

definition parse_address :: "string \<Rightarrow> nat \<times> nat \<times> nat \<times> nat" where
  "parse_address s =
     (let hex = (\<lambda>st. is_read_unsigned 32 (st\<lparr>is_base := Hex\<rparr>) 0);
          (seg, st1) = hex (istringstream s); (bus, st2) = hex (is_read_char st1);
          (dev, st3) = hex (is_read_char st2); (func, st4) = hex (is_read_char st3)
      in (seg, bus, dev, func))"

definition new_TPMIHandleDriver ::
  "'k tpmi_driver \<Rightarrow> (nat \<times> nat \<times> nat \<times> nat \<Rightarrow> int) \<Rightarrow> (u32 \<rightharpoonup> string) list \<Rightarrow> nat \<Rightarrow> u64 \<Rightarrow> nat \<Rightarrow> 'k \<Rightarrow> TPMIHandleDriver result" where
  "new_TPMIHandleDriver K pci_numa_node AllIDPaths instance0 ID offset k =
     (if length AllIDPaths \<le> instance0 then Inl Assert_failed
      else let path = (case (AllIDPaths ! instance0) (ucast ID) of None \<Rightarrow> [] | Some p \<Rightarrow> p);
               es = readTPMIFile (kn_dump K path k)
           in rbind (pci_address path)
             (\<lambda>a. Inr \<lparr>dr_path = path, dr_offset = offset, dr_numaNode = pci_numa_node (parse_address a),
               dr_nentries = length (filter valid_entry es)\<rparr>))"

definition dr_read64 :: "'k tpmi_driver \<Rightarrow> TPMIHandleDriver \<Rightarrow> nat \<Rightarrow> 'k \<Rightarrow> u64 result" where
  "dr_read64 K h entryPos k =
     (let es = readTPMIFile (kn_dump K (dr_path h) k) in
      rbind (findValidIndex es entryPos)
        (\<lambda>i. let i4 = dr_offset h div 4; data = te_data (es ! i)
             in if i4 + 1 < length data then Inr (cvt_ds_join (data ! i4) (data ! (i4 + 1))) else Inl Assert_failed))"

definition write_command :: "nat \<Rightarrow> nat \<Rightarrow> u32 \<Rightarrow> string" where
  "write_command i offset v = dec_string i @ '','' @ dec_string offset @ '','' @ dec_string (unat v)"

definition dr_write64 :: "'k tpmi_driver \<Rightarrow> TPMIHandleDriver \<Rightarrow> nat \<Rightarrow> u64 \<Rightarrow> 'k \<Rightarrow> 'k result" where
  "dr_write64 K h entryPos val k =
     (let es = readTPMIFile (kn_dump K (dr_path h) k) in
      rbind (findValidIndex es entryPos)
        (\<lambda>i. Inr (kn_write K (dr_path h) (write_command i (dr_offset h + 4) (cvt_ds_high val))
               (kn_write K (dr_path h) (write_command i (dr_offset h) (cvt_ds_low val)) k))))"

text \<open>Which instances the driver has: \<open>found\<close> lists the sorted instance paths with the paths of their identifiers and whether the two files
  of each can be opened; \<open>disabled\<close> is \<^verbatim>\<open>PCM_NO_TPMI_DRIVER\<close>.\<close>

definition add_id_path :: "string \<Rightarrow> string \<times> bool \<Rightarrow> (u32 \<rightharpoonup> string) \<times> bool \<Rightarrow> ((u32 \<rightharpoonup> string) \<times> bool) result" where
  "add_id_path prefix = (\<lambda>(p, good) (idMap, available).
     rbind (read_number (''0x'' @ drop (length prefix) p)) (\<lambda>n. Inr (idMap(ucast n \<mapsto> p), available \<or> good)))"

definition isAvailable :: "bool \<Rightarrow> (string \<times> (string \<times> bool) list) list \<Rightarrow> (bool \<times> (u32 \<rightharpoonup> string) list) result" where
  "isAvailable disabled found =
     rbind (rfold (\<lambda>(path, ids) (available, maps).
         rbind (rfold (add_id_path (path @ ''/tpmi-id-'')) ids (Map.empty, available))
           (\<lambda>(idMap, available1). Inr (available1, maps @ [idMap]))) found (False, []))
       (\<lambda>(available, maps). Inr (available \<and> \<not> disabled, maps))"

definition driver_instances :: "bool \<times> (u32 \<rightharpoonup> string) list \<Rightarrow> nat" where
  "driver_instances a = (if fst a then length (snd a) else 0)"

section \<open>Handles\<close>

text \<open>\<^verbatim>\<open>TPMIHandleInterface\<close> and \<^verbatim>\<open>TPMIHandle\<close>, which uses the driver when it has instances. The machine has the memory and the driver's state.\<close>

record 'm tpmi_handle =
  getNumEntries :: nat
  read64 :: "nat \<Rightarrow> 'm \<Rightarrow> u64 result"
  write64 :: "nat \<Rightarrow> u64 \<Rightarrow> 'm \<Rightarrow> 'm result"
  getNUMANode :: int

definition mmio_handle :: "TPMIHandleMMIO \<Rightarrow> ((u64 \<Rightarrow> u32) \<times> 'k) tpmi_handle" where
  "mmio_handle h = \<lparr>getNumEntries = length (mm_entries h), read64 = \<lambda>p m. mm_read64 h p (fst m),
     write64 = \<lambda>p v m. rbind (mm_write64 h p v (fst m)) (\<lambda>mem. Inr (mem, snd m)), getNUMANode = mm_numaNode h\<rparr>"

definition driver_handle :: "'k tpmi_driver \<Rightarrow> TPMIHandleDriver \<Rightarrow> ((u64 \<Rightarrow> u32) \<times> 'k) tpmi_handle" where
  "driver_handle K h = \<lparr>getNumEntries = dr_nentries h, read64 = \<lambda>p m. dr_read64 K h p (snd m),
     write64 = \<lambda>p v m. rbind (dr_write64 K h p v (snd m)) (\<lambda>k. Inr (fst m, k)), getNUMANode = dr_numaNode h\<rparr>"

definition getNumInstances :: "bool \<times> (u32 \<rightharpoonup> string) list \<Rightarrow> PFSInstance list \<Rightarrow> nat" where
  "getNumInstances avail is = (if driver_instances avail \<noteq> 0 then driver_instances avail else length is)"

definition TPMIHandle ::
  "'k tpmi_driver \<Rightarrow> (nat \<times> nat \<times> nat \<times> nat \<Rightarrow> int) \<Rightarrow> (u64 \<Rightarrow> u64 \<Rightarrow> bool) \<Rightarrow> bool \<times> (u32 \<rightharpoonup> string) list \<Rightarrow> PFSInstance list \<Rightarrow>
   nat \<Rightarrow> u64 \<Rightarrow> u64 \<Rightarrow> bool \<Rightarrow> (u64 \<Rightarrow> u32) \<times> 'k \<Rightarrow> ((u64 \<Rightarrow> u32) \<times> 'k) tpmi_handle result" where
  "TPMIHandle K pci_numa_node map_ok avail is instance0 ID offset readonly m =
     (if driver_instances avail \<noteq> 0
      then rbind (new_TPMIHandleDriver K pci_numa_node (snd avail) instance0 ID (unat offset) (snd m)) (\<lambda>h. Inr (driver_handle K h))
      else rbind (new_TPMIHandleMMIO map_ok is instance0 ID offset readonly) (\<lambda>h. Inr (mmio_handle h)))"

section \<open>The tool\<close>

text \<open>One register: bits to write are inserted into the old value; the value read back, or its bits, is displayed.\<close>

definition tpmi_one :: "int \<times> int \<Rightarrow> bool \<Rightarrow> u64 \<Rightarrow> 'm tpmi_handle \<Rightarrow> nat \<Rightarrow> 'm \<Rightarrow> (u64 \<times> 'm) result" where
  "tpmi_one bits write value h p m =
     rbind (if fst bits \<ge> 0 \<and> write
            then rbind (read64 h p m) (\<lambda>old. Inr (the (readOldValueHelper bits value write (Some old)))) else Inr value)
       (\<lambda>value1. rbind (if write then write64 h p value1 m else Inr m)
         (\<lambda>m1. rbind (read64 h p m1)
           (\<lambda>v. Inr (if fst bits \<ge> 0 then extract_bits v (of_int (fst bits)) (of_int (snd bits)) else v, m1))))"

text \<open>The loop over instances. The list of entries is filled from the first instance when none is given and then kept.\<close>

definition tpmi_entries :: "int \<times> int \<Rightarrow> bool \<Rightarrow> u64 \<Rightarrow> 'm tpmi_handle \<Rightarrow> nat list \<Rightarrow> u64 list \<times> 'm \<Rightarrow> (u64 list \<times> 'm) result" where
  "tpmi_entries bits write value h =
     rfold (\<lambda>p (out, m). if p < getNumEntries h then rbind (tpmi_one bits write value h p m) (\<lambda>(v, m1). Inr (out @ [v], m1)) else Inr (out, m))"

definition tpmi_instance ::
  "int \<times> int \<Rightarrow> bool \<Rightarrow> u64 \<Rightarrow> nat \<Rightarrow> (nat \<Rightarrow> 'm \<Rightarrow> 'm tpmi_handle result) \<Rightarrow> nat \<Rightarrow> nat list \<times> u64 list \<times> 'm \<Rightarrow>
   (nat list \<times> u64 list \<times> 'm) result" where
  "tpmi_instance bits write value num_instances open_handle i = (\<lambda>(entries, out, m).
     if num_instances \<le> i then Inr (entries, out, m)
     else rbind (open_handle i m)
       (\<lambda>h. let entries1 = (if entries = [] then [0..<getNumEntries h] else entries)
            in rbind (tpmi_entries bits write value h entries1 (out, m)) (\<lambda>(out1, m1). Inr (entries1, out1, m1))))"

definition pcm_tpmi ::
  "int \<times> int \<Rightarrow> bool \<Rightarrow> u64 \<Rightarrow> nat list \<Rightarrow> nat list \<Rightarrow> nat \<Rightarrow> (nat \<Rightarrow> 'm \<Rightarrow> 'm tpmi_handle result) \<Rightarrow> 'm \<Rightarrow>
   (nat list \<times> u64 list \<times> 'm) result" where
  "pcm_tpmi bits write value entries instances num_instances open_handle m =
     rfold (tpmi_instance bits write value num_instances open_handle) (if instances = [] then [0..<num_instances] else instances) (entries, [], m)"

end
