(* ===== verification/Tpmi_Handles.thy ===== *)
theory Tpmi_Handles
  imports Tpmi
begin

text \<open>
  The two implementations of a TPMI handle read the same registers (tpmi.cpp), and the tool built on them writes only the registers it was asked to
  (pcm-tpmi.cpp). The text files of the Linux driver are described by the function \<open>dump_text\<close>; the locale \<open>tpmi_registers\<close> states what a handle
  promises, interpreted for the handle on memory and for the handle on a driver that serves its files from memory.
\<close>

section \<open>The dump of the driver\<close>

text \<open>Text of a dump: for each entry a line that announces it, then lines with an address and some of its registers.\<close>

definition hex8 :: "u32 \<Rightarrow> string" where
  "hex8 w = replicate (8 - length (hex_string (unat w))) CHR ''0'' @ hex_string (unat w)"

definition words_text :: "u32 list \<Rightarrow> string" where
  "words_text ws = concat (map (\<lambda>w. CHR '' '' # hex8 w) ws)"

definition dump_row :: "nat \<Rightarrow> u32 list \<Rightarrow> string" where
  "dump_row a ws = CHR '' '' # hex_string a @ '':'' @ words_text ws"

definition dump_header :: "nat \<Rightarrow> string" where
  "dump_header i = ''TPMI Instance:'' @ dec_string i @ '' offset:0x'' @ hex_string i"

definition entry_lines :: "nat \<Rightarrow> u32 list list \<Rightarrow> string list" where
  "entry_lines i rows = dump_header i # map (\<lambda>(a, ws). dump_row (16 * a) ws) (zip [0..<length rows] rows)"

definition dump_lines :: "nat \<Rightarrow> u32 list list list \<Rightarrow> string list" where
  "dump_lines i entries = concat (map (\<lambda>(k, rows). entry_lines k rows) (zip [i..<i + length entries] entries))"

definition dump_text :: "u32 list list list \<Rightarrow> string" where
  "dump_text entries = concat (map (\<lambda>l. l @ [CHR 0x0A]) (dump_lines 0 entries))"

lemma hex_digits: "list_all (is_digit_of 16) (hex_string n)"
  by (simp add: hex_string_def digits_of_digits)

lemma hex8_digits: "list_all (is_digit_of 16) (hex8 w)"
proof -
  have "is_digit_of 16 CHR ''0''" by (simp add: is_digit_of_def digit_val_def)
  then show ?thesis using hex_digits [of "unat w"] by (auto simp: hex8_def list_all_iff)
qed

lemma hex8_nonempty [simp]: "hex8 w \<noteq> []"
  by (simp add: hex8_def hex_string_def)

lemma digits_value_zeros: "digits_value b (replicate n CHR ''0'' @ ds) = digits_value b ds"
  by (induction n) simp_all

lemma digits_value_hex8 [simp]: "digits_value 16 (hex8 w) = unat w"
  by (simp add: hex8_def digits_value_zeros hex_string_def digits_value_digits_of)

lemma digit_plain16: "is_digit_of 16 c \<Longrightarrow> c \<noteq> CHR ''-'' \<and> c \<noteq> CHR ''+'' \<and> c \<noteq> CHR ''x'' \<and> c \<noteq> CHR ''X'' \<and> \<not> is_space c \<and> c \<noteq> CHR 0x0A \<and> c \<noteq> CHR ''T''"
  by (auto simp: is_digit_of_def digit_val_def is_space_def Let_def split: if_splits)

lemma takeWhile_digits: "list_all P ds \<Longrightarrow> (r = [] \<or> \<not> P (hd r)) \<Longrightarrow> takeWhile P (ds @ r) = ds \<and> dropWhile P (ds @ r) = r"
  by (induction ds) (cases r, auto)

lemma num_get_hex8:
  assumes "r = [] \<or> hd r = CHR '' ''"
  shows "num_get 32 Hex (hex8 w @ r) = (unat w, False, r)"
proof -
  obtain c ds where c: "hex8 w = c # ds" by (cases "hex8 w") auto
  have d: "is_digit_of 16 c" "list_all (is_digit_of 16) ds" using hex8_digits [of w] c by simp_all
  have r: "r = [] \<or> \<not> is_digit_of 16 (hd r)" using assms by (auto simp: is_digit_of_def digit_val_def)
  have sign: "num_sign (c # ds @ r) = (False, c # ds @ r)" using digit_plain16 [OF d(1)] by (simp add: num_sign_def)
  have small: "4294967296 \<le> unat w \<longleftrightarrow> False" by (simp add: not_le)
  have v: "digits_value 16 (c # ds) = unat w" using digits_value_hex8 [of w] c by simp
  show ?thesis
  proof (cases "c = CHR ''0''")
    case True
    have x: "ds @ r = [] \<or> hd (ds @ r) \<noteq> CHR ''x'' \<and> hd (ds @ r) \<noteq> CHR ''X''"
      using d(2) digit_plain16 assms by (cases ds) auto
    have "digits_value 16 ds = unat w" using v True by simp
    then show ?thesis using takeWhile_digits [OF d(2) r] x True sign c
      by (auto simp: num_get_def num_prefix_def Let_def small)
  next
    case False
    have "takeWhile (is_digit_of 16) (c # ds @ r) = c # ds" "dropWhile (is_digit_of 16) (c # ds @ r) = r"
      using takeWhile_digits [of "is_digit_of 16" "c # ds" r] r d by simp_all
    then show ?thesis using False sign c v by (simp add: num_get_def num_prefix_def Let_def small)
  qed
qed

lemma read_hex_words_text:
  assumes "is_buf st = words_text ws" and "\<not> is_fail st" and "is_skipws st" and "is_eof st = (ws = [])"
  shows "read_hex_words st = ws"
  using assms
proof (induction ws arbitrary: st)
  case Nil
  then show ?case by (subst read_hex_words.simps) (simp add: is_read_unsigned_def is_sentry_def)
next
  case (Cons w ws)
  obtain c ds where c: "hex8 w = c # ds" by (cases "hex8 w") auto
  have "\<not> is_space c" using digit_plain16 hex8_digits [of w] c by simp
  moreover have "is_space CHR '' ''" by (simp add: is_space_def)
  ultimately have d: "dropWhile is_space (words_text (w # ws)) = hex8 w @ words_text ws" using c by (simp add: words_text_def)
  have r: "words_text ws = [] \<or> hd (words_text ws) = CHR '' ''" by (cases ws) (simp_all add: words_text_def)
  let ?st = "st\<lparr>is_base := Hex, is_buf := words_text ws, is_fail := False, is_eof := (words_text ws = [])\<rparr>"
  have "is_read_unsigned 32 (st\<lparr>is_base := Hex\<rparr>) 0 = (unat w, ?st)"
    using Cons.prems d num_get_hex8 [OF r, of w] by (simp add: is_read_unsigned_def is_sentry_def Let_def c)
  moreover have "read_hex_words ?st = ws"
    by (rule Cons.IH) (use Cons.prems in \<open>auto simp: words_text_def\<close>)
  ultimately show ?case by (subst read_hex_words.simps) simp
qed

lemma find_from_None:
  assumes "sub \<noteq> []" and "hd sub \<notin> set s"
  shows "find_from sub s = None"
proof -
  have "take (length sub) (drop k s) \<noteq> sub" for k
  proof
    assume e: "take (length sub) (drop k s) = sub"
    then have "hd sub \<in> set (take (length sub) (drop k s))" using assms(1) by simp
    then show False using assms(2) by (meson in_set_dropD in_set_takeD)
  qed
  then show ?thesis by (simp add: find_from_def find_None_iff)
qed

lemma find_from_prefix: "find_from sub (sub @ s) = Some 0"
  by (simp add: find_from_def upt_rec)

lemma row_chars:
  assumes "c \<in> set (dump_row a ws)"
  shows "c \<noteq> CHR ''T'' \<and> c \<noteq> CHR 0x0A"
proof -
  have "c = CHR '' '' \<or> c = CHR '':'' \<or> is_digit_of 16 c"
    using assms hex_digits [of a] hex8_digits by (auto simp: dump_row_def words_text_def list_all_iff split: if_splits)
  then show ?thesis using digit_plain16 by auto
qed

lemma dump_line_row:
  "dump_line (dump_row a ws) (cur, es) = (cur\<lparr>te_data := te_data cur @ ws\<rparr>, es)"
proof -
  have f: "find_from ''TPMI Instance:'' (dump_row a ws) = None" by (rule find_from_None) (use row_chars in auto)
  have "list_all (\<lambda>c. \<not> is_space c) (hex_string a @ '':'')"
    using hex_digits [of a] digit_plain16 by (auto simp: list_all_iff is_space_def)
  moreover have "words_text ws = [] \<or> \<not> \<not> is_space (hd (words_text ws))" by (cases ws) (simp_all add: words_text_def is_space_def)
  ultimately have t: "dropWhile (\<lambda>c. \<not> is_space c) ((hex_string a @ '':'') @ words_text ws) = words_text ws"
    using takeWhile_digits [of "\<lambda>c. \<not> is_space c"] by blast
  have s: "dropWhile is_space (dump_row a ws) = (hex_string a @ '':'') @ words_text ws"
  proof -
    obtain c ds where c: "hex_string a = c # ds" by (cases "hex_string a") (auto simp: hex_string_def)
    then have "\<not> is_space c" using hex_digits [of a] digit_plain16 by simp
    then show ?thesis by (simp add: dump_row_def c is_space_def)
  qed
  have "snd (is_read_string (istringstream (dump_row a ws)) []) = (istringstream [])\<lparr>is_buf := words_text ws, is_eof := (words_text ws = [])\<rparr>"
    unfolding is_read_string_def is_sentry_def istringstream_def Let_def using s [symmetric] t
    by (simp add: s del: dropWhile_eq_Nil_conv append_assoc)
  moreover have "read_hex_words \<dots> = ws" by (rule read_hex_words_text) (auto simp: istringstream_def words_text_def)
  ultimately show ?thesis using f by (simp add: dump_line_def)
qed

lemma dump_line_header:
  "\<exists>off. dump_line (dump_header i) s = ((fst (flush_entry s))\<lparr>te_offset := off\<rparr>, snd (flush_entry s))"
proof -
  have "find_from ''TPMI Instance:'' (dump_header i) = Some 0"
    unfolding dump_header_def by (rule find_from_prefix)
  then show ?thesis by (auto simp: dump_line_def Let_def case_prod_beta)
qed

lemma fold_rows:
  "fold dump_line (map (\<lambda>(a, ws). dump_row (16 * a) ws) (zip ns rows)) (cur, es) =
   (cur\<lparr>te_data := te_data cur @ concat (map snd (zip ns rows))\<rparr>, es)"
proof (induction ns arbitrary: rows cur)
  case (Cons n ns)
  then show ?case by (cases rows) (simp_all add: dump_line_row)
qed simp

lemma flush_entry_data [simp]: "te_data (fst (flush_entry s)) = []"
  by (cases s) (simp add: flush_entry_def)

lemma flush_pair: "flush_entry (cur, es) = (if te_data cur \<noteq> [] then (cur\<lparr>te_data := []\<rparr>, es @ [cur]) else (cur, es))"
  by (simp add: flush_entry_def)

definition entries_of :: "TPMIEntry \<times> TPMIEntry list \<Rightarrow> u32 list list" where
  "entries_of s = map te_data (snd (flush_entry s))"

lemma entry_step: "entries_of (fold dump_line (entry_lines i rows) s) = entries_of s @ (if concat rows = [] then [] else [concat rows])"
proof -
  obtain off where h: "dump_line (dump_header i) s = ((fst (flush_entry s))\<lparr>te_offset := off\<rparr>, snd (flush_entry s))"
    using dump_line_header by blast
  have "map snd (zip [0..<length rows] rows) = rows" by (simp add: map_snd_zip)
  moreover obtain cur es where s: "flush_entry s = (cur, es)" by fastforce
  moreover have "te_data cur = []" using flush_entry_data [of s] s by simp
  ultimately show ?thesis by (simp add: entry_lines_def h fold_rows entries_of_def flush_pair)
qed

lemma dump_entries_step: "entries_of (fold dump_line (dump_lines i entries) s) = entries_of s @ filter (\<lambda>d. d \<noteq> []) (map concat entries)"
proof (induction entries arbitrary: i s)
  case (Cons rows entries)
  have "zip [i..<i + length (rows # entries)] (rows # entries) = (i, rows) # zip [Suc i..<Suc i + length entries] entries"
    by (subst upt_conv_Cons) simp_all
  then have "dump_lines i (rows # entries) = entry_lines i rows @ dump_lines (Suc i) entries" by (simp add: dump_lines_def)
  then show ?case using Cons.IH [of "Suc i" "fold dump_line (entry_lines i rows) s"] entry_step [of i rows s] by simp
qed (simp add: dump_lines_def)

lemma split_lines: "\<forall>l \<in> set ls. d \<notin> set l \<Longrightarrow> split (concat (map (\<lambda>l. l @ [d]) ls)) d = ls"
  by (induction ls) (simp_all add: split_token_delim)

lemma lines_plain: "l \<in> set (dump_lines i entries) \<Longrightarrow> CHR 0x0A \<notin> set l"
proof -
  have "CHR 0x0A \<notin> set (dump_header k)" for k
    using hex_digits [of k] dec_string_digits [of k] digit_plain16
    by (auto simp: dump_header_def list_all_iff is_digit_of_def digit_val_def Let_def split: if_splits)
  then show "l \<in> set (dump_lines i entries) \<Longrightarrow> ?thesis" using row_chars
    by (fastforce simp: dump_lines_def entry_lines_def)
qed

lemma dump_data: "map te_data (readTPMIFile (Some (dump_text entries))) = filter (\<lambda>d. d \<noteq> []) (map concat entries)"
proof -
  have "split (dump_text entries) CHR 0x0A = dump_lines 0 entries"
    unfolding dump_text_def by (rule split_lines) (use lines_plain in blast)
  then show ?thesis using dump_entries_step [of 0 entries "(\<lparr>te_offset = 0, te_data = []\<rparr>, [])"]
    by (simp add: readTPMIFile_def entries_of_def flush_entry_def)
qed

text \<open>C23: Reading the driver's dump gives back the registers of every entry, in order, for any division of the registers into lines; entries
  without registers are dropped.\<close>

theorem tpmi_dump_roundtrip:
  "map te_data (readTPMIFile (Some (dump_text entries))) = filter (\<lambda>d. d \<noteq> []) (map concat entries)"
  by (rule dump_data)

section \<open>Both handles see the same registers\<close>

definition entry_words :: "(u64 \<Rightarrow> u32) \<Rightarrow> u64 \<Rightarrow> nat \<Rightarrow> u32 list" where
  "entry_words mem a n = map (\<lambda>k. mem (a + 4 * of_nat k)) [0..<n]"

definition pfs_addresses :: "u64 \<Rightarrow> u64 \<Rightarrow> u64 list" where
  "pfs_addresses base pfs = map (entry_address base pfs) [0..<unat (pfs_field ''NumEntries'' pfs)]"

definition valid_at :: "(u64 \<Rightarrow> u32) \<Rightarrow> u64 \<Rightarrow> bool" where
  "valid_at mem a \<longleftrightarrow> mem a \<noteq> TPMIInvalidValue"

definition valid_positions :: "TPMIEntry list \<Rightarrow> nat list" where
  "valid_positions es = filter (\<lambda>j. valid_entry (es ! j)) [0..<length es]"

lemma positions_Cons: "valid_positions (e # es) = (if valid_entry e then [0] else []) @ map Suc (valid_positions es)"
  by (simp add: valid_positions_def upt_conv_Cons map_Suc_upt [symmetric] filter_map o_def del: upt_Suc)

lemma positions_entries: "map ((!) es) (valid_positions es) = filter valid_entry es"
  by (induction es) (simp_all add: positions_Cons valid_positions_def [of "[]"] o_def)

lemma find_valid_position:
  "v \<le> p \<Longrightarrow> p - v < length (valid_positions es) \<Longrightarrow> find_valid es i v p = Inr (i + valid_positions es ! (p - v))"
proof (induction es arbitrary: i v)
  case (Cons e es)
  consider (skip) "\<not> valid_entry e" | (found) "valid_entry e" "v = p" | (next_one) "valid_entry e" "v < p" using Cons.prems by linarith
  then show ?case
  proof cases
    case skip
    with Cons.IH [of v "Suc i"] Cons.prems show ?thesis by (simp add: positions_Cons)
  next
    case found
    then show ?thesis by (simp add: positions_Cons)
  next
    case next_one
    then have "p - v = Suc (p - Suc v)" by simp
    with Cons.IH [of "Suc v" "Suc i"] next_one Cons.prems show ?thesis by (simp add: positions_Cons)
  qed
qed (simp add: valid_positions_def)

lemma findValidIndex_position: "p < length (valid_positions es) \<Longrightarrow> findValidIndex es p = Inr (valid_positions es ! p)"
  using find_valid_position [of 0 p es 0] by (simp add: findValidIndex_def)

lemma findValidIndex_nth:
  assumes "p < length (filter valid_entry es)"
  shows "\<exists>j < length es. findValidIndex es p = Inr j \<and> es ! j = filter valid_entry es ! p"
proof -
  have p: "p < length (valid_positions es)" using assms positions_entries [of es] by (metis length_map)
  then have "valid_positions es ! p < length es" using nth_mem [OF p] by (simp add: valid_positions_def)
  moreover have "es ! (valid_positions es ! p) = filter valid_entry es ! p" using positions_entries [of es] p by (metis nth_map)
  ultimately show ?thesis using findValidIndex_position [OF p] by blast
qed

text \<open>The map of a table when all memory can be mapped.\<close>

lemma memcpy_word: "map_ok = (\<lambda>_ _. True) \<Longrightarrow> mmio_memcpy map_ok mem a 4 False = Inr [mem a]"
  using mmio_copy.simps(2) [of mem False a 0] by (simp add: mmio_memcpy_def Let_def)

lemma mmio_copy_ok: "\<exists>ws. mmio_copy mem False a n = Inr ws"
  by (induction n arbitrary: a) (auto, metis rbind_simps(2))

lemma read_registers_ok: "map_ok = (\<lambda>_ _. True) \<Longrightarrow> read_registers map_ok mem a n = Inr ()"
proof -
  assume m: "map_ok = (\<lambda>_ _. True)"
  have "\<exists>ws. mmio_memcpy map_ok mem b 8 False = Inr ws" for b using mmio_copy_ok by (simp add: mmio_memcpy_def Let_def m)
  then have "rbind (mmio_memcpy map_ok mem b 8 False) (\<lambda>_. Inr ()) = Inr ()" for b by (metis rbind_simps(2))
  then have "rfold (\<lambda>k _. rbind (mmio_memcpy map_ok mem (a + 8 * of_nat k) 8 False) (\<lambda>_. Inr ())) ks () = Inr ()" for ks
    by (induction ks) simp_all
  then show ?thesis by (simp add: read_registers_def)
qed

lemma add_entry_ok:
  "map_ok = (\<lambda>_ _. True) \<Longrightarrow> add_entry map_ok mem i n a inst = Inr (if valid_at mem a then push_entry i a inst else inst)"
  by (simp add: add_entry_def memcpy_word read_registers_ok valid_at_def)

lemma process_pfs_ok:
  assumes "map_ok = (\<lambda>_ _. True)"
  shows "\<exists>inst'. process_pfs map_ok mem base pfs inst = Inr inst' \<and> pfsMap inst' = (pfsMap inst)
    (pfs_field ''TPMI_ID'' pfs := pfsMap inst (pfs_field ''TPMI_ID'' pfs) @ filter (valid_at mem) (pfs_addresses base pfs))"
proof -
  have "\<exists>inst'. rfold (\<lambda>p. add_entry map_ok mem i n (f p)) ps inst = Inr inst' \<and>
      pfsMap inst' = (pfsMap inst)(i := pfsMap inst i @ filter (valid_at mem) (map f ps))" for i n f and ps :: "nat list"
  proof (induction ps arbitrary: inst)
    case (Cons p ps)
    let ?i1 = "if valid_at mem (f p) then push_entry i (f p) inst else inst"
    obtain inst' where i1: "rfold (\<lambda>p. add_entry map_ok mem i n (f p)) ps ?i1 = Inr inst'"
      "pfsMap inst' = (pfsMap ?i1)(i := pfsMap ?i1 i @ filter (valid_at mem) (map f ps))" using Cons.IH [of ?i1] by blast
    then have "pfsMap inst' = (pfsMap inst)(i := pfsMap inst i @ filter (valid_at mem) (map f (p # ps)))" by (auto simp: push_entry_def)
    moreover have "add_entry map_ok mem i n (f p) inst = Inr ?i1" by (rule add_entry_ok [OF assms])
    ultimately show ?case using i1(1) by (simp add: fun_upd_def)
  qed simp
  then show ?thesis by (simp add: process_pfs_def pfs_addresses_def)
qed

lemma process_all_ok:
  assumes "map_ok = (\<lambda>_ _. True)"
  shows "\<exists>inst'. rfold (process_pfs map_ok mem base) ps inst = Inr inst' \<and> pfsMap inst' ID =
    pfsMap inst ID @ concat (map (\<lambda>p. filter (valid_at mem) (pfs_addresses base p)) (filter (\<lambda>p. pfs_field ''TPMI_ID'' p = ID) ps))"
proof (induction ps arbitrary: inst)
  case (Cons p ps)
  obtain i1 where i1: "process_pfs map_ok mem base p inst = Inr i1" "pfsMap i1 = (pfsMap inst)
    (pfs_field ''TPMI_ID'' p := pfsMap inst (pfs_field ''TPMI_ID'' p) @ filter (valid_at mem) (pfs_addresses base p))"
    using process_pfs_ok [OF assms] by blast
  then show ?case using Cons.IH [of i1] by auto
qed simp

lemma open_entries_ok:
  assumes "map_ok = (\<lambda>_ _. True)"
  shows "rfold (open_entry map_ok rel) as es = Inr (es @ map (\<lambda>a. (roundDownTo4K (a + rel), a + rel - roundDownTo4K (a + rel))) as)"
  by (induction as arbitrary: es) (simp_all add: open_entry_def assms Let_def)

lemma words_valid: "0 < n \<Longrightarrow> valid_entry e \<longleftrightarrow> valid_at mem a" if "te_data e = entry_words mem a n"
  using that by (simp add: valid_entry_def valid_at_def entry_words_def)

lemma filter_valid_words:
  assumes "map te_data es = map (\<lambda>a. entry_words mem a n) as" and "0 < n"
  shows "map te_data (filter valid_entry es) = map (\<lambda>a. entry_words mem a n) (filter (valid_at mem) as)"
  using assms(1)
proof (induction es arbitrary: as)
  case (Cons e es)
  then obtain a as' where as: "as = a # as'" by (cases as) auto
  then show ?case using Cons words_valid [of e mem a n] assms(2) by auto
qed simp

lemma mmio_entries:
  assumes "process_tpmi (\<lambda>_ _. True) mem bar vsec numa is = Inr is'"
    and "filter (\<lambda>p. pfs_field ''TPMI_ID'' p = ID) (pfs_array (\<lambda>_ _. True) mem base (unat (vsec_hi ''NumEntries'' vsec))) = [pfs]"
    and "base = bar + 8 * vsec_hi ''Address'' vsec"
    and "new_TPMIHandleMMIO (\<lambda>_ _. True) is' (length is) ID offset readonly = Inr h"
  shows "mm_entries h = map (\<lambda>a. (roundDownTo4K (a + offset), a + offset - roundDownTo4K (a + offset)))
    (filter (valid_at mem) (pfs_addresses base pfs)) \<and> mm_readonly h = readonly"
proof -
  let ?as = "filter (valid_at mem) (pfs_addresses base pfs)"
  obtain inst where inst: "is' = is @ [inst]" "pfsMap inst ID = ?as"
  proof -
    obtain inst where "rfold (process_pfs (\<lambda>_ _. True) mem base) (pfs_array (\<lambda>_ _. True) mem base (unat (vsec_hi ''NumEntries'' vsec)))
        \<lparr>pfsMap = \<lambda>_. [], NUMANode = numa\<rparr> = Inr inst" "pfsMap inst ID = ?as"
      using process_all_ok [OF refl, of mem base _ _ ID] assms(2) by fastforce
    then show thesis using that assms(1) by (auto simp: process_tpmi_def Let_def assms(3) split: if_splits)
  qed
  then show ?thesis using assms(4) by (auto simp: new_TPMIHandleMMIO_def open_entries_ok)
qed

text \<open>C11: The two implementations of a TPMI handle agree. The tables of a device are in memory that can be mapped, one of them has the
  requested identifier, and the driver's dump shows the registers of its entries. Then the handle on the driver has as many entries as the
  handle on memory, and both read the same 64-bit value from every entry: invalid entries are skipped by both.\<close>

theorem tpmi_handles_agree:
  assumes "process_tpmi (\<lambda>_ _. True) mem bar vsec numa is = Inr is'"
    and "filter (\<lambda>p. pfs_field ''TPMI_ID'' p = ID) (pfs_array (\<lambda>_ _. True) mem base (unat (vsec_hi ''NumEntries'' vsec))) = [pfs]"
    and "base = bar + 8 * vsec_hi ''Address'' vsec" and "n = unat (pfs_field ''EntrySize'' pfs)"
    and "new_TPMIHandleMMIO (\<lambda>_ _. True) is' (length is) ID offset readonly = Inr h"
    and "new_TPMIHandleDriver K pci_numa_node paths i ID (unat offset) k = Inr d"
    and "kn_dump K (dr_path d) k = Some (dump_text rows)" and "map concat rows = map (\<lambda>a. entry_words mem a n) (pfs_addresses base pfs)"
    and "unat offset mod 4 = 0" and "unat offset div 4 + 1 < n"
  shows "dr_nentries d = length (mm_entries h) \<and> (\<forall>p < dr_nentries d. dr_read64 K d p k = mm_read64 h p mem)"
proof -
  let ?as = "filter (valid_at mem) (pfs_addresses base pfs)"
  have h: "mm_entries h = map (\<lambda>a. (roundDownTo4K (a + offset), a + offset - roundDownTo4K (a + offset))) ?as"
    using mmio_entries [OF assms(1,2,3,5)] by blast
  let ?es = "readTPMIFile (kn_dump K (dr_path d) k)"
  have d: "dr_nentries d = length (filter valid_entry ?es)" "dr_offset d = unat offset"
    using assms(6) by (auto simp: new_TPMIHandleDriver_def Let_def split: if_splits)
  have "map te_data ?es = map (\<lambda>a. entry_words mem a n) (pfs_addresses base pfs)"
  proof -
    have "entry_words mem a n \<noteq> []" for a using assms(10) by (simp add: entry_words_def)
    then show ?thesis using dump_data [of rows] assms(7,8) by simp
  qed
  then have es: "map te_data (filter valid_entry ?es) = map (\<lambda>a. entry_words mem a n) ?as" by (rule filter_valid_words) (use assms(10) in simp)
  then have len: "length (filter valid_entry ?es) = length ?as" by (metis length_map)
  have "dr_read64 K d p k = mm_read64 h p mem" if p: "p < dr_nentries d" for p
  proof -
    obtain j where j: "findValidIndex ?es p = Inr j" "?es ! j = filter valid_entry ?es ! p" using findValidIndex_nth p d(1) by metis
    have data: "te_data (?es ! j) = entry_words mem (?as ! p) n" using j(2) es p d(1) len by (metis nth_map)
    have w: "word_of_nat (unat offset div 4) * 4 = offset" 
    proof -
      have "unat offset div 4 * 4 = unat offset" using assms(9) by presburger
      then have "word_of_nat (unat offset div 4 * 4) = offset" by simp
      then show ?thesis by (simp only: of_nat_mult of_nat_numeral)
    qed
    have "dr_read64 K d p k = Inr (cvt_ds_join (mem (?as ! p + offset)) (mem (?as ! p + offset + 4)))"
      using j(1) data d(2) assms(10) w by (simp add: dr_read64_def Let_def entry_words_def algebra_simps)
    moreover have "mm_read64 h p mem = Inr (cvt_ds_join (mem (?as ! p + offset)) (mem (?as ! p + offset + 4)))"
      using p d(1) len by (simp add: mm_read64_def h page_read64_def)
    ultimately show ?thesis by simp
  qed
  then show ?thesis using d(1) len h by simp
qed

section \<open>What a handle promises\<close>

text \<open>In states that satisfy \<open>ok\<close>, the entries of a handle are registers: a value written to one is read back and the others stay.\<close>

locale tpmi_registers =
  fixes h :: "'m tpmi_handle" and ok :: "'m \<Rightarrow> bool"
  assumes read_ok: "ok m \<Longrightarrow> p < getNumEntries h \<Longrightarrow> \<exists>v. read64 h p m = Inr v"
    and write_ok: "ok m \<Longrightarrow> p < getNumEntries h \<Longrightarrow> \<exists>m'. write64 h p v m = Inr m' \<and> ok m' \<and> read64 h p m' = Inr v \<and>
      (\<forall>q < getNumEntries h. q \<noteq> p \<longrightarrow> read64 h q m' = read64 h q m)"

text \<open>The value that writing some bits, or all of them, leaves in a register.\<close>

definition written :: "int \<times> int \<Rightarrow> u64 \<Rightarrow> u64 \<Rightarrow> u64" where
  "written bits value old = (if fst bits \<ge> 0 then insertBits old value (nat (fst bits)) (nat (snd bits - fst bits + 1)) else value)"

definition displayed :: "int \<times> int \<Rightarrow> u64 \<Rightarrow> u64" where
  "displayed bits v = (if fst bits \<ge> 0 then extract_bits v (of_int (fst bits)) (of_int (snd bits)) else v)"

context tpmi_registers
begin

lemma one_step:
  assumes "ok m" and "p < getNumEntries h" and "read64 h p m = Inr old"
  obtains m' where "tpmi_one bits True value h p m = Inr (displayed bits (written bits value old), m')" and "ok m'"
    and "read64 h p m' = Inr (written bits value old)" and "\<And>q. q < getNumEntries h \<Longrightarrow> q \<noteq> p \<Longrightarrow> read64 h q m' = read64 h q m"
proof -
  obtain m' where m': "write64 h p (written bits value old) m = Inr m'" "ok m'" "read64 h p m' = Inr (written bits value old)"
    "\<forall>q < getNumEntries h. q \<noteq> p \<longrightarrow> read64 h q m' = read64 h q m" using write_ok [OF assms(1,2)] by blast
  have "tpmi_one bits True value h p m = Inr (displayed bits (written bits value old), m')"
    using m'(1,3) assms(3) by (cases "fst bits \<ge> 0") (simp_all add: tpmi_one_def readOldValueHelper_def written_def displayed_def)
  then show thesis using that [of m'] m' by blast
qed

lemma entries_step:
  assumes "ok m" and "distinct ps" and "\<forall>q < getNumEntries h. read64 h q m = Inr (old q)"
  shows "\<exists>m'. tpmi_entries bits True value h ps (out, m) =
      Inr (out @ map (\<lambda>q. displayed bits (written bits value (old q))) (filter (\<lambda>p. p < getNumEntries h) ps), m') \<and> ok m' \<and>
    (\<forall>q < getNumEntries h. read64 h q m' = Inr (if q \<in> set ps then written bits value (old q) else old q))"
  using assms
proof (induction ps arbitrary: m out old)
  case (Cons p ps)
  show ?case
  proof (cases "p < getNumEntries h")
    case True
    have r: "read64 h p m = Inr (old p)" using Cons.prems(3) True by blast
    obtain m1 where m1: "tpmi_one bits True value h p m = Inr (displayed bits (written bits value (old p)), m1)" "ok m1"
      "read64 h p m1 = Inr (written bits value (old p))" "\<And>q. q < getNumEntries h \<Longrightarrow> q \<noteq> p \<Longrightarrow> read64 h q m1 = read64 h q m"
      by (rule one_step [OF Cons.prems(1) True r]) blast
    let ?old = "old(p := written bits value (old p))"
    have "\<forall>q < getNumEntries h. read64 h q m1 = Inr (?old q)" using m1(3,4) Cons.prems(3) by simp
    with Cons.IH [OF m1(2), of ?old "out @ [displayed bits (written bits value (old p))]"] Cons.prems(2) obtain m' where
      m': "tpmi_entries bits True value h ps (out @ [displayed bits (written bits value (old p))], m1) =
        Inr ((out @ [displayed bits (written bits value (old p))]) @
          map (\<lambda>q. displayed bits (written bits value (?old q))) (filter (\<lambda>p. p < getNumEntries h) ps), m')" "ok m'"
      "\<forall>q < getNumEntries h. read64 h q m' = Inr (if q \<in> set ps then written bits value (?old q) else ?old q)" by auto
    have "map (\<lambda>q. displayed bits (written bits value (?old q))) (filter (\<lambda>p. p < getNumEntries h) ps) =
        map (\<lambda>q. displayed bits (written bits value (old q))) (filter (\<lambda>p. p < getNumEntries h) ps)"
      using Cons.prems(2) by (intro map_cong) auto
    then show ?thesis using m' m1(1) True Cons.prems(2) by (auto simp: tpmi_entries_def)
  next
    case False
    then show ?thesis using Cons.IH [OF Cons.prems(1) _ Cons.prems(3), of out] Cons.prems(2) by (auto simp: tpmi_entries_def)
  qed
qed (simp add: tpmi_entries_def)

end

section \<open>The handle on memory keeps the promise\<close>

definition window :: "u64 \<times> u64 \<Rightarrow> u64 set" where
  "window e = {fst e + snd e, fst e + snd e + 4}"

definition windows_apart :: "(u64 \<times> u64) list \<Rightarrow> bool" where
  "windows_apart es \<longleftrightarrow> (\<forall>i < length es. \<forall>j < length es. i \<noteq> j \<longrightarrow> window (es ! i) \<inter> window (es ! j) = {})"

lemma page_write_read: "page_read64 base offset (page_write64 False base offset v mem) = v"
proof -
  have "base + offset \<noteq> base + offset + 4" by simp
  then show ?thesis by (simp add: page_read64_def page_write64_def cvt_ds_roundtrip)
qed

lemma mmio_registers:
  assumes "windows_apart (mm_entries h)" and "\<not> mm_readonly h"
  shows "tpmi_registers (mmio_handle h) (\<lambda>_. True)"
proof
  fix m :: "(u64 \<Rightarrow> u32) \<times> 'a" and p assume p: "p < getNumEntries (mmio_handle h :: ((u64 \<Rightarrow> u32) \<times> 'a) tpmi_handle)"
  show "\<exists>v. read64 (mmio_handle h) p m = Inr v" using p by (simp add: mmio_handle_def mm_read64_def)
  fix v
  let ?m' = "(page_write64 False (fst (mm_entries h ! p)) (snd (mm_entries h ! p)) v (fst m), snd m)"
  have "read64 (mmio_handle h) q ?m' = read64 (mmio_handle h) q m" if q: "q < length (mm_entries h)" "q \<noteq> p" for q
  proof -
    have "window (mm_entries h ! p) \<inter> window (mm_entries h ! q) = {}" using assms(1) p q by (simp add: windows_apart_def mmio_handle_def)
    then show ?thesis using q by (auto simp: mmio_handle_def mm_read64_def page_read64_def page_write64_def window_def)
  qed
  then show "\<exists>m'. write64 (mmio_handle h) p v m = Inr m' \<and> True \<and> read64 (mmio_handle h) p m' = Inr v \<and>
      (\<forall>q < getNumEntries (mmio_handle h :: ((u64 \<Rightarrow> u32) \<times> 'a) tpmi_handle). q \<noteq> p \<longrightarrow> read64 (mmio_handle h) q m' = read64 (mmio_handle h) q m)"
    using p assms(2) by (intro exI [of _ ?m']) (simp add: mmio_handle_def mm_write64_def mm_read64_def page_write_read)
qed

section \<open>The handle on the driver keeps the promise\<close>

text \<open>A driver over memory: it dumps the words of the entries at the given addresses and parses the commands written to it.\<close>

definition memory_driver :: "u64 list \<Rightarrow> nat \<Rightarrow> (u64 \<Rightarrow> u32) tpmi_driver" where
  "memory_driver as n = \<lparr>kn_dump = \<lambda>path mem. Some (dump_text (map (\<lambda>a. [entry_words mem a n]) as)),
     kn_write = \<lambda>path cmd mem. (case split cmd CHR '','' of
       [i, off, v] \<Rightarrow> mem(as ! digits_value 10 i + of_nat (digits_value 10 off) := of_nat (digits_value 10 v)) | _ \<Rightarrow> mem)\<rparr>"

definition words_apart :: "u64 list \<Rightarrow> nat \<Rightarrow> bool" where
  "words_apart as n \<longleftrightarrow> (\<forall>i < length as. \<forall>j < length as. \<forall>k < n. \<forall>l < n.
     as ! i + 4 * of_nat k = as ! j + 4 * of_nat l \<longrightarrow> i = j \<and> k = l)"

definition valid_indices :: "u64 list \<Rightarrow> (u64 \<Rightarrow> u32) \<Rightarrow> nat list" where
  "valid_indices as mem = filter (\<lambda>j. valid_at mem (as ! j)) [0..<length as]"

lemma no_comma: "CHR '','' \<notin> set (dec_string n)"
  using dec_string_digits [of n] digit_plain by (auto simp: list_all_iff)

lemma split_command: "split (write_command i off v) CHR '','' = [dec_string i, dec_string off, dec_string (unat v)]"
  by (simp add: write_command_def split_token_delim split_token no_comma)

lemma driver_write: "kn_write (memory_driver as n) path (write_command i off v) mem = mem(as ! i + of_nat off := v)"
  by (simp add: memory_driver_def split_command)

lemma driver_words:
  assumes "0 < n"
  shows "map te_data (readTPMIFile (kn_dump (memory_driver as n) path mem)) = map (\<lambda>a. entry_words mem a n) as"
proof -
  have "entry_words mem a n \<noteq> []" for a using assms by (simp add: entry_words_def)
  then show ?thesis using dump_data [of "map (\<lambda>a. [entry_words mem a n]) as"] by (simp add: memory_driver_def o_def)
qed

lemma driver_positions:
  assumes "0 < n"
  shows "valid_positions (readTPMIFile (kn_dump (memory_driver as n) path mem)) = valid_indices as mem"
proof -
  let ?es = "readTPMIFile (kn_dump (memory_driver as n) path mem)"
  have len: "length ?es = length as" using driver_words [OF assms, of as path mem] by (metis length_map)
  have "valid_entry (?es ! j) = valid_at mem (as ! j)" if "j < length as" for j
  proof -
    have "te_data (?es ! j) = entry_words mem (as ! j) n" using driver_words [OF assms, of as path mem] that len by (metis nth_map)
    then show ?thesis using words_valid assms by blast
  qed
  then show ?thesis using len by (auto simp: valid_positions_def valid_indices_def intro: filter_cong)
qed

lemma driver_read:
  assumes "0 < n" and "p < length (valid_indices as mem)" and "dr_offset h = 4 * o'" and "o' + 1 < n"
  shows "dr_read64 (memory_driver as n) h p mem =
    Inr (cvt_ds_join (mem (as ! (valid_indices as mem ! p) + 4 * of_nat o')) (mem (as ! (valid_indices as mem ! p) + 4 * of_nat (o' + 1))))"
proof -
  let ?es = "readTPMIFile (kn_dump (memory_driver as n) (dr_path h) mem)" and ?j = "valid_indices as mem ! p"
  have f: "findValidIndex ?es p = Inr ?j" using findValidIndex_position assms(2) driver_positions [OF assms(1)] by metis
  have "?j < length as" using nth_mem [OF assms(2)] by (simp add: valid_indices_def)
  moreover have "length ?es = length as" using driver_words [OF assms(1)] by (metis length_map)
  ultimately have "te_data (?es ! ?j) = entry_words mem (as ! ?j) n" using driver_words [OF assms(1), of as "dr_path h" mem] by (metis nth_map)
  then show ?thesis using f assms(3,4) by (simp add: dr_read64_def entry_words_def algebra_simps)
qed

lemma write_elsewhere:
  assumes "words_apart as n" and "i < length as" and "j < length as" and "k < n" and "l < n" and "(i, k) \<noteq> (j, l)"
  shows "(mem(as ! i + 4 * of_nat k := v)) (as ! j + 4 * of_nat l) = mem (as ! j + 4 * of_nat l)"
  using assms by (auto simp: words_apart_def)

lemma driver_registers:
  assumes "words_apart as n" and "dr_offset h = 4 * o'" and "0 < o'" and "o' + 1 < n" and "dr_nentries h = length js"
  shows "tpmi_registers (driver_handle (memory_driver as n) h) (\<lambda>m. valid_indices as (snd m) = js)"
proof
  fix m :: "(u64 \<Rightarrow> u32) \<times> (u64 \<Rightarrow> u32)" and p
  assume ok: "valid_indices as (snd m) = js" and p: "p < getNumEntries (driver_handle (memory_driver as n) h)"
  have n: "0 < n" using assms(4) by simp
  have pj: "p < length js" using p assms(5) by (simp add: driver_handle_def)
  have rd: "dr_read64 (memory_driver as n) h q mem = Inr (cvt_ds_join (mem (as ! (js ! q) + 4 * of_nat o')) (mem (as ! (js ! q) + 4 * of_nat (o' + 1))))"
    if "valid_indices as mem = js" "q < length js" for q mem using driver_read [OF n _ assms(2,4), of q as mem] that by simp
  show "\<exists>v. read64 (driver_handle (memory_driver as n) h) p m = Inr v" using rd [OF ok pj] by (simp add: driver_handle_def)
  fix v
  let ?j = "js ! p" and ?mem = "snd m"
  let ?mem1 = "?mem(as ! ?j + 4 * of_nat o' := cvt_ds_low v)"
  let ?mem2 = "?mem1(as ! ?j + 4 * of_nat (o' + 1) := cvt_ds_high v)"
  have j: "js ! q < length as" if "q < length js" for q using nth_mem [OF that] ok by (auto simp: valid_indices_def)
  have other: "?mem2 (as ! i + 4 * of_nat l) = ?mem (as ! i + 4 * of_nat l)" if "i < length as" "l < n" "(i, l) \<noteq> (?j, o')" "(i, l) \<noteq> (?j, o' + 1)" for i l
    using write_elsewhere [OF assms(1) j [OF pj] that(1) _ that(2)] that(3,4) assms(4) by (metis (no_types, lifting) add_lessD1)
  have ok2: "valid_indices as ?mem2 = js"
  proof -
    have "valid_at ?mem2 (as ! i) = valid_at ?mem (as ! i)" if "i < length as" for i
      using other [OF that n] assms(3) by (simp add: valid_at_def)
    then show ?thesis using ok by (auto simp: valid_indices_def intro!: filter_cong)
  qed
  have w: "dr_write64 (memory_driver as n) h p v ?mem = Inr ?mem2"
  proof -
    have "findValidIndex (readTPMIFile (kn_dump (memory_driver as n) (dr_path h) ?mem)) p = Inr ?j"
      using findValidIndex_position driver_positions [OF n] ok pj by metis
    moreover have "of_nat (dr_offset h) = (4 * of_nat o' :: u64)" "of_nat (dr_offset h + 4) = (4 * of_nat (o' + 1) :: u64)"
      using assms(2) by simp_all
    ultimately show ?thesis by (simp only: dr_write64_def Let_def rbind_simps driver_write)
  qed
  have "dr_read64 (memory_driver as n) h p ?mem2 = Inr v"
  proof -
    have "as ! ?j + 4 * of_nat o' \<noteq> as ! ?j + 4 * of_nat (o' + 1)" using assms(1,4) j [OF pj] unfolding words_apart_def
      by (metis add_lessD1 less_add_one nat_neq_iff)
    then show ?thesis using rd [OF ok2 pj] by (simp add: cvt_ds_roundtrip)
  qed
  moreover have "dr_read64 (memory_driver as n) h q ?mem2 = dr_read64 (memory_driver as n) h q ?mem" if q: "q < length js" "q \<noteq> p" for q
  proof -
    have "distinct js" using ok by (auto simp: valid_indices_def)
    then have "js ! q \<noteq> ?j" using q pj by (simp add: nth_eq_iff_index_eq)
    then have ne: "(js ! q, l) \<noteq> (?j, o')" "(js ! q, l) \<noteq> (?j, o' + 1)" for l by simp_all
    have low: "?mem2 (as ! (js ! q) + 4 * of_nat o') = ?mem (as ! (js ! q) + 4 * of_nat o')"
      by (rule other [OF j [OF q(1)] _ ne]) (use assms(4) in simp)
    have high: "?mem2 (as ! (js ! q) + 4 * of_nat (o' + 1)) = ?mem (as ! (js ! q) + 4 * of_nat (o' + 1))"
      by (rule other [OF j [OF q(1)] assms(4) ne])
    show ?thesis by (simp only: rd [OF ok2 q(1)] rd [OF ok q(1)] low high)
  qed
  ultimately show "\<exists>m'. write64 (driver_handle (memory_driver as n) h) p v m = Inr m' \<and> valid_indices as (snd m') = js \<and>
      read64 (driver_handle (memory_driver as n) h) p m' = Inr v \<and>
      (\<forall>q < getNumEntries (driver_handle (memory_driver as n) h). q \<noteq> p \<longrightarrow>
        read64 (driver_handle (memory_driver as n) h) q m' = read64 (driver_handle (memory_driver as n) h) q m)"
    using w ok2 assms(5) by (intro exI [of _ "(fst m, ?mem2)"]) (simp add: driver_handle_def del: fun_upd_apply)
qed

section \<open>The registers of a table\<close>

interpretation mm: tpmi_registers "mmio_handle h :: ((u64 \<Rightarrow> u32) \<times> 'k) tpmi_handle" "\<lambda>_. windows_apart (mm_entries h) \<and> \<not> mm_readonly h" for h
proof unfold_locales
  fix m :: "(u64 \<Rightarrow> u32) \<times> 'k" and p v
  assume ok: "windows_apart (mm_entries h) \<and> \<not> mm_readonly h" and p: "p < getNumEntries (mmio_handle h :: ((u64 \<Rightarrow> u32) \<times> 'k) tpmi_handle)"
  from ok have r: "tpmi_registers (mmio_handle h :: ((u64 \<Rightarrow> u32) \<times> 'k) tpmi_handle) (\<lambda>_. True)" by (intro mmio_registers) simp_all
  show "\<exists>v. read64 (mmio_handle h) p m = Inr v" by (rule tpmi_registers.read_ok [OF r TrueI p])
  show "\<exists>m'. write64 (mmio_handle h) p v m = Inr m' \<and> (windows_apart (mm_entries h) \<and> \<not> mm_readonly h) \<and> read64 (mmio_handle h) p m' = Inr v \<and>
      (\<forall>q < getNumEntries (mmio_handle h :: ((u64 \<Rightarrow> u32) \<times> 'k) tpmi_handle). q \<noteq> p \<longrightarrow> read64 (mmio_handle h) q m' = read64 (mmio_handle h) q m)"
    using tpmi_registers.write_ok [OF r TrueI p, of v] ok by blast
qed

definition driver_ok :: "u64 list \<Rightarrow> nat \<Rightarrow> TPMIHandleDriver \<Rightarrow> (u64 \<Rightarrow> u32) \<Rightarrow> bool" where
  "driver_ok as n h mem \<longleftrightarrow> words_apart as n \<and> dr_offset h mod 4 = 0 \<and> 0 < dr_offset h \<and> dr_offset h div 4 + 1 < n \<and>
     dr_nentries h = length (valid_indices as mem)"

lemma driver_ok_registers:
  assumes "driver_ok as n h mem"
  shows "tpmi_registers (driver_handle (memory_driver as n) h) (\<lambda>m. valid_indices as (snd m) = valid_indices as mem)"
  using assms by (intro driver_registers [where o' = "dr_offset h div 4"]) (auto simp: driver_ok_def)

interpretation dr: tpmi_registers "driver_handle (memory_driver as n) h" "\<lambda>m. driver_ok as n h (snd m)" for as n h
proof unfold_locales
  fix m :: "(u64 \<Rightarrow> u32) \<times> (u64 \<Rightarrow> u32)" and p v
  assume ok: "driver_ok as n h (snd m)" and p: "p < getNumEntries (driver_handle (memory_driver as n) h)"
  note r = driver_ok_registers [OF ok]
  show "\<exists>v. read64 (driver_handle (memory_driver as n) h) p m = Inr v" by (rule tpmi_registers.read_ok [OF r refl p])
  obtain m' where m': "write64 (driver_handle (memory_driver as n) h) p v m = Inr m'" "valid_indices as (snd m') = valid_indices as (snd m)"
    "read64 (driver_handle (memory_driver as n) h) p m' = Inr v" "\<forall>q < getNumEntries (driver_handle (memory_driver as n) h). q \<noteq> p \<longrightarrow>
      read64 (driver_handle (memory_driver as n) h) q m' = read64 (driver_handle (memory_driver as n) h) q m"
    using tpmi_registers.write_ok [OF r refl p, of v] by blast
  have "driver_ok as n h (snd m')" using ok m'(2) by (simp add: driver_ok_def)
  with m' show "\<exists>m'. write64 (driver_handle (memory_driver as n) h) p v m = Inr m' \<and> driver_ok as n h (snd m') \<and>
      read64 (driver_handle (memory_driver as n) h) p m' = Inr v \<and> (\<forall>q < getNumEntries (driver_handle (memory_driver as n) h). q \<noteq> p \<longrightarrow>
        read64 (driver_handle (memory_driver as n) h) q m' = read64 (driver_handle (memory_driver as n) h) q m)" by blast
qed

text \<open>The fields of a table are small, so its entries do not wrap around and overlap.\<close>

lemma small_words_eq: "x < 2 ^ 64 \<Longrightarrow> y < 2 ^ 64 \<Longrightarrow> (of_nat x :: u64) = of_nat y \<longleftrightarrow> x = y"
proof -
  assume a: "x < 2 ^ 64" "y < 2 ^ 64"
  have "unat (of_nat z :: u64) = z" if "z < 2 ^ 64" for z using that by (simp add: unat_of_nat take_bit_nat_eq_self)
  with a show ?thesis by metis
qed

lemma pfs_bounds: "unat (pfs_field ''NumEntries'' pfs) < 256" "unat (pfs_field ''EntrySize'' pfs) < 65536"
proof -
  have f: "field_width PFS ''NumEntries'' = 8" "field_width PFS ''EntrySize'' = 16" by (simp_all add: PFS_def)
  have "unat (take_bit k w) < 2 ^ k" for k and w :: u64 by (metis take_bit_nat_less_exp unsigned_take_bit_eq)
  from this [of 8] this [of 16] show "unat (pfs_field ''NumEntries'' pfs) < 256" "unat (pfs_field ''EntrySize'' pfs) < 65536"
    by (simp_all add: pfs_field_def get_field_def f)
qed

lemma shift_cancel: "c + x + off + a = c + y + off + b \<Longrightarrow> x + a = y + b" for x :: u64
  by (simp add: add_ac)

lemma entry_words_differ:
  assumes "i < unat (pfs_field ''NumEntries'' pfs)" and "j < unat (pfs_field ''NumEntries'' pfs)" and "i \<noteq> j"
    and "2 \<le> unat (pfs_field ''EntrySize'' pfs)" and "a \<in> {0, 4}" and "b \<in> {0, 4 :: nat}"
  shows "entry_address base pfs i + off + of_nat a \<noteq> entry_address base pfs j + off + of_nat b"
proof
  let ?n = "unat (pfs_field ''EntrySize'' pfs)"
  have "(of_nat ?n :: u64) = pfs_field ''EntrySize'' pfs" by simp
  then have n: "entry_address base pfs k = base + pfs_field ''CapOffset'' pfs * 1024 + of_nat (4 * (k * ?n))" for k
    by (simp only: entry_address_def of_nat_mult of_nat_numeral mult_ac)
  assume "entry_address base pfs i + off + of_nat a = entry_address base pfs j + off + of_nat b"
  then have "(of_nat (4 * (i * ?n) + a) :: u64) = of_nat (4 * (j * ?n) + b)"
    unfolding n of_nat_add by (rule shift_cancel)
  moreover have bound: "4 * (k * ?n) + c < 2 ^ 64" if "k < unat (pfs_field ''NumEntries'' pfs)" "c \<le> 4" for k c
  proof -
    have "k * ?n \<le> 256 * 65536" using that pfs_bounds [of pfs] by (intro mult_mono) simp_all
    then show ?thesis using that(2) by simp
  qed
  ultimately have e: "4 * (i * ?n) + a = 4 * (j * ?n) + b" 
    using small_words_eq [OF bound [OF assms(1), of a] bound [OF assms(2), of b]] assms(5,6) by auto
  have "i * ?n + 2 \<le> j * ?n \<or> j * ?n + 2 \<le> i * ?n"
  proof (cases "i < j")
    case True
    then have "Suc i * ?n \<le> j * ?n" by (intro mult_right_mono) simp_all
    then show ?thesis using assms(4) by simp
  next
    case False
    then have "Suc j * ?n \<le> i * ?n" using assms(3) by (intro mult_right_mono) simp_all
    then show ?thesis using assms(4) by simp
  qed
  then show False using e assms(5,6) by auto
qed

lemma pfs_windows_apart:
  assumes "2 \<le> unat (pfs_field ''EntrySize'' pfs)"
  shows "windows_apart (map (\<lambda>a. (roundDownTo4K (a + off), a + off - roundDownTo4K (a + off))) (filter P (pfs_addresses base pfs)))"
proof -
  let ?ps = "filter (\<lambda>p. P (entry_address base pfs p)) [0..<unat (pfs_field ''NumEntries'' pfs)]"
  let ?w = "\<lambda>a. (roundDownTo4K (a + off), a + off - roundDownTo4K (a + off))"
  have es: "filter P (pfs_addresses base pfs) = map (entry_address base pfs) ?ps" by (simp add: pfs_addresses_def filter_map o_def)
  have "window (?w (entry_address base pfs (?ps ! i))) \<inter> window (?w (entry_address base pfs (?ps ! j))) = {}"
    if ij: "i < length ?ps" "j < length ?ps" "i \<noteq> j" for i j
  proof -
    have "?ps ! i \<noteq> ?ps ! j" using ij nth_eq_iff_index_eq [of ?ps i j] by simp
    moreover have "?ps ! i < unat (pfs_field ''NumEntries'' pfs)" "?ps ! j < unat (pfs_field ''NumEntries'' pfs)"
      using nth_mem [OF ij(1)] nth_mem [OF ij(2)] by simp_all
    ultimately have ne: "entry_address base pfs (?ps ! i) + off + of_nat a \<noteq> entry_address base pfs (?ps ! j) + off + of_nat b"
      if "a \<in> {0, 4}" "b \<in> {0, 4}" for a b using entry_words_differ assms that by blast
    show ?thesis using ne [of 0 0] ne [of 0 4] ne [of 4 0] ne [of 4 4] by (simp add: window_def)
  qed
  then show ?thesis by (simp add: windows_apart_def es del: filter_map)
qed

text \<open>C10: The tool writes what it was asked to and nothing else. The tables of a device are in memory that can be mapped, one of them has the
  requested identifier and its entries have room for the register. Without a driver, the tool run on that device with a value, and with bits
  or without, puts the value, or the value's bits inserted into the old contents, into the register of each of the listed entries, reports what
  it reads back, and leaves the registers of the other entries as they were.\<close>

theorem tpmi_tool_writes:
  assumes "process_tpmi (\<lambda>_ _. True) (fst m) bar vsec numa is = Inr is'"
    and "filter (\<lambda>p. pfs_field ''TPMI_ID'' p = ID) (pfs_array (\<lambda>_ _. True) (fst m) base (unat (vsec_hi ''NumEntries'' vsec))) = [pfs]"
    and "base = bar + 8 * vsec_hi ''Address'' vsec" and "2 \<le> unat (pfs_field ''EntrySize'' pfs)"
    and "new_TPMIHandleMMIO (\<lambda>_ _. True) is' (length is) ID offset False = Inr h"
    and "ps \<noteq> []" and "distinct ps" and "\<forall>q < length (mm_entries h). mm_read64 h q (fst m) = Inr (old q)"
  shows "\<exists>m'. pcm_tpmi bits True x ps [length is] (getNumInstances (False, []) is')
        (\<lambda>i. TPMIHandle K pci_numa_node (\<lambda>_ _. True) (False, []) is' i ID offset False) m =
      Inr (ps, map (\<lambda>q. displayed bits (written bits x (old q))) (filter (\<lambda>p. p < length (mm_entries h)) ps), m') \<and>
    (\<forall>q < length (mm_entries h). mm_read64 h q (fst m') = Inr (if q \<in> set ps then written bits x (old q) else old q))"
proof -
  let ?h = "mmio_handle h :: ((u64 \<Rightarrow> u32) \<times> 'a) tpmi_handle"
  have h: "getNumEntries ?h = length (mm_entries h)" "\<And>q m. read64 ?h q m = mm_read64 h q (fst m)" by (simp_all add: mmio_handle_def)
  have ok: "windows_apart (mm_entries h) \<and> \<not> mm_readonly h" using mmio_entries [OF assms(1,2,3,5)] pfs_windows_apart [OF assms(4)] by simp
  have "length is < length is'" using assms(5) by (simp add: new_TPMIHandleMMIO_def split: if_splits)
  then show ?thesis
    using mm.entries_step [OF ok assms(7), of m old bits x "[]"] assms(5,6,8)
    by (auto simp: h pcm_tpmi_def tpmi_instance_def TPMIHandle_def driver_instances_def getNumInstances_def)
qed

section \<open>A machine\<close>

definition tpmi_demo_mem :: "u64 \<Rightarrow> u32" where
  "tpmi_demo_mem a = (if a = 0x1000 then 0x0004030A else if a = 0x1004 then 1 else if a \<in> {0x1410, 0x1414, 0x1418, 0x141C} then NOT 0 else ucast a)"

definition tpmi_demo_vsec :: vsec where
  "tpmi_demo_vsec = \<lparr>raw_lo = 0, raw_hi = 0x2010000\<rparr>"

definition tpmi_demo_pfs :: u64 where "tpmi_demo_pfs = 0x10004030A"

lemma tpmi_demo_fields: "vsec_hi ''NumEntries'' tpmi_demo_vsec = 1" "vsec_hi ''EntrySize'' tpmi_demo_vsec = 2" "vsec_hi ''Address'' tpmi_demo_vsec = 0"
  "pfs_field ''TPMI_ID'' tpmi_demo_pfs = 10" "pfs_field ''EntrySize'' tpmi_demo_pfs = 4" "pfs_field ''NumEntries'' tpmi_demo_pfs = 3" "pfs_field ''CapOffset'' tpmi_demo_pfs = 1"
  by code_simp+

lemma tpmi_demo_array: "pfs_array (\<lambda>_ _. True) tpmi_demo_mem 0x1000 1 = [tpmi_demo_pfs]"
  by code_simp

lemma tpmi_demo_addresses: "pfs_addresses 0x1000 tpmi_demo_pfs = [0x1400, 0x1410, 0x1420]"
  by (simp add: pfs_addresses_def tpmi_demo_fields entry_address_def upt_conv_Cons)

definition tpmi_demo_instance :: PFSInstance where
  "tpmi_demo_instance = push_entry 10 0x1420 (push_entry 10 0x1400 \<lparr>pfsMap = \<lambda>_. [], NUMANode = 1\<rparr>)"

lemma tpmi_demo_valid: "valid_at tpmi_demo_mem 0x1400" "\<not> valid_at tpmi_demo_mem 0x1410" "valid_at tpmi_demo_mem 0x1420"
  by code_simp+

lemma tpmi_demo_process: "process_tpmi (\<lambda>_ _. True) tpmi_demo_mem 0x1000 tpmi_demo_vsec 1 [] = Inr [tpmi_demo_instance]"
  by (simp add: process_tpmi_def tpmi_demo_fields tpmi_demo_array [unfolded One_nat_def] process_pfs_def upt_conv_Cons add_entry_ok tpmi_demo_valid entry_address_def tpmi_demo_instance_def
    Let_def)

lemma tpmi_demo_filter: "filter (\<lambda>p. pfs_field ''TPMI_ID'' p = 10) (pfs_array (\<lambda>_ _. True) tpmi_demo_mem 0x1000 (unat (vsec_hi ''NumEntries'' tpmi_demo_vsec))) = [tpmi_demo_pfs]"
  by (simp add: tpmi_demo_fields tpmi_demo_array [unfolded One_nat_def])

definition tpmi_demo_mmio :: TPMIHandleMMIO where
  "tpmi_demo_mmio = \<lparr>mm_entries = [(0x1000, 0x408), (0x1000, 0x428)], mm_numaNode = 1, mm_readonly = False\<rparr>"

lemma tpmi_demo_open: "new_TPMIHandleMMIO (\<lambda>_ _. True) [tpmi_demo_instance] (length []) 10 8 False = Inr tpmi_demo_mmio"
  by (simp add: new_TPMIHandleMMIO_def tpmi_demo_instance_def push_entry_def open_entry_def roundDownTo4K_def tpmi_demo_mmio_def)

abbreviation tpmi_demo_path :: string where "tpmi_demo_path \<equiv> ''/sys/kernel/debug/tpmi-0000:80:03.1/tpmi-id-0a''"

lemma tpmi_demo_address: "pci_address tpmi_demo_path = Inr ''0000:80:03.1''"
  by code_simp

definition tpmi_demo_old :: "nat \<Rightarrow> u64" where
  "tpmi_demo_old q = (if q = 0 then 0x140C00001408 else 0x142C00001428)"

lemma tpmi_demo_reads: "\<forall>q < length (mm_entries tpmi_demo_mmio). mm_read64 tpmi_demo_mmio q tpmi_demo_mem = Inr (tpmi_demo_old q)"
proof -
  have "mm_read64 tpmi_demo_mmio 0 tpmi_demo_mem = Inr (tpmi_demo_old 0)" "mm_read64 tpmi_demo_mmio 1 tpmi_demo_mem = Inr (tpmi_demo_old 1)" by code_simp+
  then show ?thesis by (simp add: tpmi_demo_mmio_def less_Suc_eq)
qed

theorem tpmi_handles_agree_witness:
  "\<exists>d. new_TPMIHandleDriver (memory_driver [0x1400, 0x1410, 0x1420] 4) (\<lambda>_. 1) [[10 \<mapsto> tpmi_demo_path]] 0 10 (unat (8 :: u64)) tpmi_demo_mem = Inr d \<and>
    dr_nentries d = 2 \<and> dr_read64 (memory_driver [0x1400, 0x1410, 0x1420] 4) d 1 tpmi_demo_mem = Inr 0x142C00001428"
proof -
  let ?K = "memory_driver [0x1400, 0x1410, 0x1420] 4"
  obtain d where d: "new_TPMIHandleDriver ?K (\<lambda>_. 1) [[10 \<mapsto> tpmi_demo_path]] 0 10 (unat (8 :: u64)) tpmi_demo_mem = Inr d"
    by (simp add: new_TPMIHandleDriver_def Let_def tpmi_demo_address)
  have "dr_nentries d = length (mm_entries tpmi_demo_mmio) \<and> (\<forall>p < dr_nentries d. dr_read64 ?K d p tpmi_demo_mem = mm_read64 tpmi_demo_mmio p tpmi_demo_mem)"
    by (rule tpmi_handles_agree [OF tpmi_demo_process tpmi_demo_filter _ _ tpmi_demo_open d, where n = 4 and
        rows = "map (\<lambda>a. [entry_words tpmi_demo_mem a 4]) [0x1400, 0x1410, 0x1420]"])
      (simp_all add: tpmi_demo_fields memory_driver_def tpmi_demo_addresses)
  with tpmi_demo_reads d show ?thesis by (auto simp: tpmi_demo_mmio_def tpmi_demo_old_def)
qed

theorem tpmi_tool_writes_witness:
  "\<exists>m'. pcm_tpmi (4, 7) True 0xF [1, 5] [length ([] :: PFSInstance list)] (getNumInstances (False, []) [tpmi_demo_instance])
        (\<lambda>i. TPMIHandle (memory_driver [] 0) (\<lambda>_. 0) (\<lambda>_ _. True) (False, []) [tpmi_demo_instance] i 10 8 False) (tpmi_demo_mem, tpmi_demo_mem) =
      Inr ([1, 5], [0xF], m') \<and>
    mm_read64 tpmi_demo_mmio 0 (fst m') = Inr 0x140C00001408 \<and> mm_read64 tpmi_demo_mmio 1 (fst m') = Inr 0x142C000014F8"
proof -
  have w: "written (4, 7) 0xF (tpmi_demo_old 1) = 0x142C000014F8" "displayed (4, 7) 0x142C000014F8 = 0xF" by code_simp+
  have l: "length (mm_entries tpmi_demo_mmio) = 2" by (simp add: tpmi_demo_mmio_def)
  have "\<exists>m'. pcm_tpmi (4, 7) True 0xF [1, 5] [length ([] :: PFSInstance list)] (getNumInstances (False, []) [tpmi_demo_instance])
        (\<lambda>i. TPMIHandle (memory_driver [] 0) (\<lambda>_. 0) (\<lambda>_ _. True) (False, []) [tpmi_demo_instance] i 10 8 False) (tpmi_demo_mem, tpmi_demo_mem) =
      Inr ([1, 5], map (\<lambda>q. displayed (4, 7) (written (4, 7) 0xF (tpmi_demo_old q))) (filter (\<lambda>p. p < length (mm_entries tpmi_demo_mmio)) [1, 5]), m') \<and>
    (\<forall>q < length (mm_entries tpmi_demo_mmio). mm_read64 tpmi_demo_mmio q (fst m') =
      Inr (if q \<in> set [1, 5] then written (4, 7) 0xF (tpmi_demo_old q) else tpmi_demo_old q))"
    by (rule tpmi_tool_writes [where base = "0x1000" and pfs = tpmi_demo_pfs and bar = "0x1000" and vsec = tpmi_demo_vsec and numa = 1])
      (simp_all add: tpmi_demo_process [simplified] tpmi_demo_filter tpmi_demo_array [unfolded One_nat_def] tpmi_demo_open [simplified] tpmi_demo_fields tpmi_demo_reads)
  then show ?thesis using w by (auto simp: l tpmi_demo_old_def)
qed

end
