(* ===== verification/Spec2Isabelle.thy ===== *)
theory Spec2Isabelle
  imports Bits Istream Text_Utils Event_Config Width_Extender Thread_Pool Topology Msr Core_Pmu Pci_Scan Uncore_Discovery
    Url Http_Message Sensor_Server Counter_State Counter_Schedule Counter_Reading Counter_Snapshots
    Uncore_Pmu Server_Uncore Uncore_Counting Memory_Traffic Uncore_Boxes Box_Addresses Box_Counting Tpmi Tpmi_Handles
begin

text \<open>
  Intel Performance Counter Monitor (PCM): a verification of the parts that decide whether a reported number is right and
  whether the tools stay alive while they report it.

  \<^bold>\<open>The program.\<close> PCM finds the processor's topology, programs the performance monitoring units of every core and of the
  uncore through model-specific registers, PCI configuration space and memory-mapped registers, reads the counters, widens
  and combines them, and prints them or serves them over HTTP. The components and their theories are, from the bottom up:

  \<^item> Prelude: machine integers, errors as values (\<open>result\<close>), shared lemmas and fact collections.
  \<^item> Bits (types.h, utils.h): bit ranges, the bit-field unions of the registers, 4K rounding, 48-bit counter differences. A
    union is a layout, a list of fields and widths; the locale \<open>bitfield_layout\<close> gives every layout the laws of
    \<open>register_fields\<close> (what is written to a field is read back, other fields stay).
  \<^item> Istream, Text_Utils (utils.h, utils.cpp): string streams with their state bits, numbers, core lists, bit ranges given
    on the command line, option scanning, the main loop, tables.
  \<^item> Event_Config (lspci.h, utils.cpp, pcm-iio-pmu.cpp): counter control registers and the event files of the PCIe tools. The
    accessors of class \<^verbatim>\<open>ccr\<close> are interpretations of \<open>register_fields\<close> and agree with the unions of types.h.
  \<^item> Width_Extender (width_extender.h, cpucounters.cpp): the 64-bit extension of narrow counters by a watchdog. The locale
    \<open>wrapping_counter\<close> is the promise of a raw counter; the extension refines an unbounded event count.
  \<^item> Thread_Pool (threadpool.h, threadpool.cpp, cpucounters.cpp): the pool of worker threads and the task queue of a core as
    step relations, with arbitrary interleaving, choice of the woken thread and spurious wake-ups. Both are interpretations
    of the locale \<open>fifo_executor\<close>.
  \<^item> Topology (topologyentry.h, topology.h, topology.cpp, cpucounters.cpp): cpuid enumeration, the entry of each thread, the
    tree of sockets, cores and threads, the reference core of each socket.
  \<^item> Msr (msr.h, msr.cpp): registers and handles; the locale \<open>msr_file\<close> is what the programming code relies on, interpreted by
    a register store and by the Linux handle over it.
  \<^item> Core_Pmu (cpucounters.cpp, cpucounters.h): counter configuration, programming, checking, cleanup and reset of the core
    counters, and the extraction of counter values from raw readings.
  \<^item> Pci_Scan (pci.h, mmio.cpp): device enumeration and the walk over extended capabilities, which hands tables to a client;
    the locale \<open>dvsec_client\<close> is what the walk keeps of the client's invariant.
  \<^item> Uncore_Discovery (uncore_pmu_discovery.h, uncore_pmu_discovery.cpp): that client for the uncore units, an interpretation
    of \<open>dvsec_nothrow_client\<close>, and the register addresses of the boxes.
  \<^item> Counter_State (cpucounters.h, cpucounters.cpp): the states of cores, sockets and the system, the reading of one core, the
    readers of the whole machine and the differences between states. Counter_Schedule shows that the order of the tasks of a
    snapshot is irrelevant and that additive fields (locale \<open>additive_field\<close>) are summed without loss; Counter_Reading that a
    core which keeps the promises of the locale \<open>counting_core\<close> is read exactly; Counter_Snapshots combines both.
  \<^item> Uncore_Pmu, Server_Uncore (cpucounters.h, cpucounters.cpp): registers on PCI devices, mapped pages and MSRs, monitoring units,
    and the memory and link units of a socket with their events. Uncore_Counting states what the hardware promises as locale
    \<open>pmon_units\<close> and proves the effect of every operation from it; Memory_Traffic adds the readings and interprets the locale on
    memory channels behind the code's own PCI registers.
  \<^item> Uncore_Boxes (cpucounters.h, cpucounters.cpp, types.h): the units behind model-specific registers, that is cache boxes, power
    control unit, UBOX, I/O stacks and mesh, their addresses, programming and reading. Box_Addresses shows that their registers do not
    overlap; Box_Counting extends \<open>pmon_units\<close> to boxes with filters and extended counters, the locale \<open>pmon_boxes\<close>, interprets it on the
    boxes of a Broadwell server and shows that they are programmed and read exactly.
  \<^item> Tpmi (tpmi.h, tpmi.cpp, pcm-tpmi.cpp): registers of power management, found by the capability walk of Pci_Scan and mapped, or
    accessed through the text files of the Linux driver, and the tool that reads and writes them. Tpmi_Handles shows that both accesses see
    the same registers; what a handle promises is the locale \<open>tpmi_registers\<close>, interpreted for both.
  \<^item> Url, Http_Message, Sensor_Server (pcm-sensor-server.cpp): URLs, HTTP requests and responses, the window of counter
    samples, routing, and the loop that serves a connection.

  \<^bold>\<open>How the code is modelled.\<close> Functions keep their names and the order of their effects. Exceptions, failed assertions and
  out of range accesses are values of \<open>cxx_error\<close>; a function that may throw returns a \<open>result\<close>. Fixed-width integers are words,
  or numbers with the wrap-around written out (positions in strings). Hardware, the operating system, other libraries and
  text that is only displayed are parameters. A loop with a bound in the code is a terminating function. A loop
  without one (header lines, chunked bodies, capability lists, cpuid levels) is a partial function with value \<open>None\<close> when it
  does not return; theorems state that it returns on the inputs described, or that it does not. Nothing uses fuel.

  \<^bold>\<open>What is shown.\<close> For registers and text: exact functional behaviour and round trips (bit ranges, numbers, core lists,
  event lines, percent coding, URLs, requests). For the counters: programming leaves every register in the promised state,
  a programmed unit is in use and a cleaned or reset one is not, corruption is reported exactly, differences and
  extensions are those of an unbounded count, and the numbers reported for sockets and the system between two snapshots are
  the events that happened on their cores, whatever the interleaving of the reading threads. Programming the memory and link units
  leaves each of them counting its events from zero, the differences of memory readings
  are the events on all channels, and the counts of the cache boxes are the events since they were programmed although their
  counters wrap. For discovery: threads with different APIC ids stay apart, the tree holds
  every thread once, reference cores exist, capability walks visit the list in order, discovery tables are read completely
  and the registers of different counters do not overlap. For concurrency: work runs in order and exactly once, no wake-up is
  lost, shutdown ends every thread. For power management registers: the driver's dump is read back, both handles agree on the valid entries and
  their values, and the tool changes the listed entries only. For the server: URL parsing never goes out of range, each request on a connection gets
  one final reply and the connection ends, the sample window holds the last thirty samples. Where the code misses its intention
  the behaviour of the code is proved: the capability walk and the chunked body reader that do not end, and the request
  for thirty seconds that is never answered.

  \<^bold>\<open>Not modelled.\<close> The perf, Windows and macOS branches; device files, sockets, TLS and shared memory; metrics computed in
  floating point and their printing (the tools, the JSON and Prometheus printers, the dashboards); the discovery of PCI devices and
  mapped units, accelerator and PCIe generation 5 units, and raw register groups; PMT, resctrl and the free running bandwidth counters; the IIO stack topologies; pcm-raw, which rests on
  the simdjson submodule; vendored code. Ids read from text by \<^verbatim>\<open>atoi\<close> beyond the range of \<^verbatim>\<open>int\<close> (undefined in C) are kept
  as unbounded integers.
\<close>

end
